(* ===== verification/Prelude.thy ===== *)
theory Prelude
  imports Main "HOL-Library.Word" "HOL-Library.Char_ord" "HOL-Library.List_Lexorder"
    "HOL-Library.Product_Lexorder" "HOL-Library.Option_ord"
begin

text \<open>
  The vocabulary shared by every component of the development.

  \<^item> Machine integers.  The server's \<open>u32\<close> and \<open>u64\<close> are words of that width: \<open>+\<close>, \<open>-\<close> and
    \<open>*\<close> wrap, which is what the release profile of the workspace does (no
    \<open>overflow-checks\<close> in any \<open>Cargo.toml\<close>).
  \<^item> Fallible operations.  \<open>Result<T, E>\<close> is \<open>'e + 'a\<close> with \<open>Err = Inl\<close> and \<open>Ok = Inr\<close>.  A method
    that takes \<open>&mut self\<close> and returns a \<open>Result\<close> is a function to a pair of the result and
    the new state, because the state keeps whatever was written before the error.
  \<^item> Reverse indexes.  The scheduler keeps many maps from a key to a set of members that are
    updated by \<open>entry(k).or_default().insert(v)\<close> and by \<open>get_mut(k) / remove(v) / drop the key
    when its set became empty\<close>.  Both idioms are defined once here, with the contract every
    client relies on stated as the locale \<open>reverse_index\<close>.
  \<^item> Iteration over hash containers.  Neither \<open>std\<close> nor \<open>imbl\<close> fixes an iteration order.  A
    loop whose outcome can depend on it takes the order as an argument, an enumeration of the
    set, and the theorems hold for every enumeration.
\<close>

section \<open>Machine integers and results\<close>

type_synonym u16 = "16 word"
type_synonym u32 = "32 word"
type_synonym u64 = "64 word"

abbreviation Ok :: "'a \<Rightarrow> 'e + 'a" where "Ok \<equiv> Inr"
abbreviation Err :: "'e \<Rightarrow> 'e + 'a" where "Err \<equiv> Inl"

definition is_ok :: "'e + 'a \<Rightarrow> bool" where
  "is_ok r = (case r of Inl _ \<Rightarrow> False | Inr _ \<Rightarrow> True)"

text \<open>Rust's \<open>str::starts_with\<close>.\<close>

definition starts_with :: "string \<Rightarrow> string \<Rightarrow> bool" where
  "starts_with prefix s \<longleftrightarrow> take (length prefix) s = prefix"

text \<open>Rust's \<open>saturating_sub\<close> on an unsigned width.\<close>

definition saturating_sub :: "'a::len word \<Rightarrow> 'a word \<Rightarrow> 'a word" where
  "saturating_sub x y = (if x < y then 0 else x - y)"

definition u32_max :: u32 where
  "u32_max = - 1"

definition unwrap_or :: "'a option \<Rightarrow> 'a \<Rightarrow> 'a" where
  "unwrap_or r d = (case r of None \<Rightarrow> d | Some x \<Rightarrow> x)"

section \<open>Enumerations of hash containers\<close>

text \<open>
  An enumeration lists the elements of every finite set exactly once.  This is all the
  documentation of the hash containers promises about an iterator.
\<close>

definition enumerates :: "('a set \<Rightarrow> 'a list) \<Rightarrow> bool" where
  "enumerates ord \<longleftrightarrow> (\<forall>S. finite S \<longrightarrow> set (ord S) = S \<and> distinct (ord S))"

section \<open>Reverse indexes\<close>

type_synonym ('k, 'v) index = "'k \<Rightarrow> 'v set option"

definition idx_get :: "('k, 'v) index \<Rightarrow> 'k \<Rightarrow> 'v set" where
  "idx_get m k = (case m k of None \<Rightarrow> {} | Some s \<Rightarrow> s)"

text \<open>\<open>m.entry(k).or_default().insert(v)\<close>\<close>

definition idx_insert :: "'k \<Rightarrow> 'v \<Rightarrow> ('k, 'v) index \<Rightarrow> ('k, 'v) index" where
  "idx_insert k v m = m(k \<mapsto> insert v (idx_get m k))"

text \<open>\<open>if let Some(s) = m.get_mut(k) { s.remove(v); if s.is_empty() { m.remove(k); } }\<close>\<close>

definition idx_remove :: "'k \<Rightarrow> 'v \<Rightarrow> ('k, 'v) index \<Rightarrow> ('k, 'v) index" where
  "idx_remove k v m =
     (case m k of
        None \<Rightarrow> m
      | Some s \<Rightarrow> if s - {v} = {} then m(k := None) else m(k \<mapsto> s - {v}))"

text \<open>The loops \<open>for k in keys { insert / remove }\<close> over a set of keys.\<close>

definition idx_insert_all :: "'k set \<Rightarrow> 'v \<Rightarrow> ('k, 'v) index \<Rightarrow> ('k, 'v) index" where
  "idx_insert_all K v m = (\<lambda>k. if k \<in> K then Some (insert v (idx_get m k)) else m k)"

definition idx_remove_all :: "'k set \<Rightarrow> 'v \<Rightarrow> ('k, 'v) index \<Rightarrow> ('k, 'v) index" where
  "idx_remove_all K v m = (\<lambda>k. if k \<in> K then idx_remove k v m k else m k)"

text \<open>No key is kept with an empty set.\<close>

definition idx_tidy :: "('k, 'v) index \<Rightarrow> bool" where
  "idx_tidy m \<longleftrightarrow> (\<forall>k. m k \<noteq> Some {})"

named_theorems index_simps "laws of the reverse indexes"

section \<open>Lemmas\<close>

lemma is_ok_simps [simp]: "is_ok (Inr x)" "\<not> is_ok (Inl e)"
  by (simp_all add: is_ok_def)

lemma is_okE: "is_ok r \<Longrightarrow> (\<And>x. r = Inr x \<Longrightarrow> P) \<Longrightarrow> P"
  by (cases r) simp_all

lemma unwrap_or_simps [simp]: "unwrap_or None d = d" "unwrap_or (Some x) d = x"
  by (simp_all add: unwrap_or_def)

lemma unat_saturating_sub: "unat (saturating_sub x y) = unat x - unat y"
  by (simp add: saturating_sub_def unat_sub_if_size word_less_nat_alt)

lemma saturating_sub_le: "saturating_sub x y \<le> x"
  by (simp add: word_le_nat_alt unat_saturating_sub)

lemma unat_sub_le: "y \<le> x \<Longrightarrow> unat (x - y) = unat x - unat (y :: 'a::len word)"
  by (rule unat_sub)

lemma unat_add_le:
  fixes x y z :: "'a::len word"
  assumes "unat x + unat y \<le> unat z"
  shows "unat (x + y) = unat x + unat y"
proof -
  have "unat z < 2 ^ LENGTH('a)" by (rule unsigned_less)
  with assms have "unat x + unat y < 2 ^ LENGTH('a)" by (rule le_less_trans)
  then show ?thesis by (rule iffD1 [OF unat_add_lem])
qed

lemma enumeratesD:
  assumes "enumerates ord" "finite S"
  shows "set (ord S) = S" "distinct (ord S)"
  using assms by (auto simp: enumerates_def)

lemma enumerates_sorted_list_of_set: "enumerates sorted_list_of_set"
  by (simp add: enumerates_def)

subsection \<open>The contract of a reverse index\<close>

text \<open>
  What a client of a reverse index relies on: membership after an insertion and after a
  removal, and that keys with no member are dropped.
\<close>

locale reverse_index =
  fixes get :: "'i \<Rightarrow> 'k \<Rightarrow> 'v set"
    and ins :: "'k \<Rightarrow> 'v \<Rightarrow> 'i \<Rightarrow> 'i"
    and del :: "'k \<Rightarrow> 'v \<Rightarrow> 'i \<Rightarrow> 'i"
    and tidy :: "'i \<Rightarrow> bool"
  assumes get_ins: "get (ins k v m) k' = (if k' = k then insert v (get m k) else get m k')"
    and get_del: "get (del k v m) k' = (if k' = k then get m k - {v} else get m k')"
    and tidy_ins: "tidy m \<Longrightarrow> tidy (ins k v m)"
    and tidy_del: "tidy m \<Longrightarrow> tidy (del k v m)"
begin

lemma get_fold_ins:
  "get (fold (\<lambda>k. ins k v) ks m) k' = (if k' \<in> set ks then insert v (get m k') else get m k')"
  by (induction ks arbitrary: m) (auto simp: get_ins)

lemma get_fold_del:
  "get (fold (\<lambda>k. del k v) ks m) k' = (if k' \<in> set ks then get m k' - {v} else get m k')"
  by (induction ks arbitrary: m) (auto simp: get_del)

lemma tidy_fold_ins: "tidy m \<Longrightarrow> tidy (fold (\<lambda>k. ins k v) ks m)"
  by (induction ks arbitrary: m) (auto simp: tidy_ins)

lemma tidy_fold_del: "tidy m \<Longrightarrow> tidy (fold (\<lambda>k. del k v) ks m)"
  by (induction ks arbitrary: m) (auto simp: tidy_del)

text \<open>Removing what was just inserted gives back the members that were there before.\<close>

lemma get_del_ins: "v \<notin> get m k \<Longrightarrow> get (del k v (ins k v m)) = get m"
  by (rule ext) (simp add: get_del get_ins)

end

lemma idx_get_insert [simp, index_simps]:
  "idx_get (idx_insert k v m) k' = (if k' = k then insert v (idx_get m k) else idx_get m k')"
  by (simp add: idx_get_def idx_insert_def)

lemma idx_get_remove [simp, index_simps]:
  "idx_get (idx_remove k v m) k' = (if k' = k then idx_get m k - {v} else idx_get m k')"
  by (auto simp: idx_get_def idx_remove_def split: option.splits)

lemma idx_tidy_insert [simp, intro]: "idx_tidy m \<Longrightarrow> idx_tidy (idx_insert k v m)"
  by (simp add: idx_tidy_def idx_insert_def)

lemma idx_tidy_remove [simp, intro]: "idx_tidy m \<Longrightarrow> idx_tidy (idx_remove k v m)"
  by (auto simp: idx_tidy_def idx_remove_def split: option.splits)

interpretation idx: reverse_index idx_get idx_insert idx_remove idx_tidy
  by unfold_locales (auto simp: index_simps)

lemma idx_get_empty [simp, index_simps]: "idx_get Map.empty k = {}"
  by (simp add: idx_get_def)

lemma idx_tidy_empty [simp]: "idx_tidy Map.empty"
  by (simp add: idx_tidy_def)

lemma idx_get_upd [simp, index_simps]:
  "idx_get (m(k := None)) k' = (if k' = k then {} else idx_get m k')"
  "idx_get (m(k \<mapsto> s)) k' = (if k' = k then s else idx_get m k')"
  by (simp_all add: idx_get_def)

lemma idx_tidy_upd [simp]: "idx_tidy m \<Longrightarrow> idx_tidy (m(k := None))"
  by (simp add: idx_tidy_def)

text \<open>
  The loops over a set of keys give the same index in whatever order the keys come, because
  every iteration touches its own key only.
\<close>

lemma idx_insert_all_fold:
  "distinct ks \<Longrightarrow> fold (\<lambda>k. idx_insert k v) ks m = idx_insert_all (set ks) v m"
proof (induction ks arbitrary: m)
  case Nil
  show ?case by (simp add: idx_insert_all_def)
next
  case (Cons a ks)
  then show ?case
    by (auto simp: idx_insert_all_def idx_insert_def idx_get_def fun_eq_iff)
qed

lemma idx_remove_other: "k' \<noteq> k \<Longrightarrow> idx_remove k v m k' = m k'"
  by (simp add: idx_remove_def split: option.splits)

lemma idx_remove_cong: "m k = m' k \<Longrightarrow> idx_remove k v m k = idx_remove k v m' k"
  by (simp add: idx_remove_def split: option.splits)

lemma idx_remove_all_fold:
  "distinct ks \<Longrightarrow> fold (\<lambda>k. idx_remove k v) ks m = idx_remove_all (set ks) v m"
proof (induction ks arbitrary: m)
  case Nil
  show ?case by (simp add: idx_remove_all_def)
next
  case (Cons a ks)
  have "idx_remove_all (set ks) v (idx_remove a v m) k = idx_remove_all (set (a # ks)) v m k" for k
  proof (cases "k = a")
    case True
    with Cons.prems show ?thesis by (simp add: idx_remove_all_def)
  next
    case False
    then have "idx_remove a v m k = m k" by (rule idx_remove_other)
    with False show ?thesis
      by (simp add: idx_remove_all_def idx_remove_cong [of "idx_remove a v m" k m])
  qed
  with Cons show ?case by (simp add: fun_eq_iff)
qed

lemma idx_get_insert_all [simp, index_simps]:
  "idx_get (idx_insert_all K v m) k = (if k \<in> K then insert v (idx_get m k) else idx_get m k)"
  by (simp add: idx_insert_all_def idx_get_def)

lemma idx_get_remove_all [simp, index_simps]:
  "idx_get (idx_remove_all K v m) k = (if k \<in> K then idx_get m k - {v} else idx_get m k)"
proof -
  have "idx_get (idx_remove_all K v m) k =
      (if k \<in> K then idx_get (idx_remove k v m) k else idx_get m k)"
    by (simp add: idx_remove_all_def idx_get_def)
  then show ?thesis by simp
qed

lemma idx_tidy_insert_all [simp, intro]: "idx_tidy m \<Longrightarrow> idx_tidy (idx_insert_all K v m)"
  by (simp add: idx_tidy_def idx_insert_all_def)

lemma idx_tidy_remove_all [simp, intro]: "idx_tidy m \<Longrightarrow> idx_tidy (idx_remove_all K v m)"
  by (auto simp: idx_tidy_def idx_remove_all_def idx_remove_def split: option.splits)

lemma idx_tidy_get: "idx_tidy m \<Longrightarrow> m k = (if idx_get m k = {} then None else Some (idx_get m k))"
  by (auto simp: idx_tidy_def idx_get_def split: option.splits)

text \<open>Two tidy indexes with the same members are the same index.\<close>

lemma idx_tidy_eqI:
  assumes "idx_tidy m" "idx_tidy m'" "\<And>k. idx_get m k = idx_get m' k"
  shows "m = m'"
  using assms by (auto simp: idx_tidy_get fun_eq_iff)


subsection \<open>Sums over the domain of a map\<close>

text \<open>
  The ledger invariants add up a quantity over all entries of a map.
\<close>

definition map_sum :: "('v \<Rightarrow> nat) \<Rightarrow> ('k \<rightharpoonup> 'v) \<Rightarrow> nat" where
  "map_sum f m = (\<Sum>k\<in>dom m. f (the (m k)))"

lemma map_sum_empty [simp]: "map_sum f Map.empty = 0"
  by (simp add: map_sum_def)

lemma map_sum_insert:
  assumes "finite (dom m)" "m k = None"
  shows "map_sum f (m(k \<mapsto> v)) = f v + map_sum f m"
proof -
  have "k \<notin> dom m" using assms(2) by (simp add: domIff)
  then have "(\<Sum>k'\<in>dom m. f (the ((m(k \<mapsto> v)) k'))) = map_sum f m"
    unfolding map_sum_def by (intro sum.cong) auto
  with \<open>k \<notin> dom m\<close> assms(1) show ?thesis by (simp add: map_sum_def)
qed

lemma map_sum_delete:
  assumes "finite (dom m)" "m k = Some v"
  shows "f v + map_sum f (m(k := None)) = map_sum f m"
proof -
  have "finite (dom (m(k := None)))" using assms(1) by simp
  then have "map_sum f ((m(k := None))(k \<mapsto> v)) = f v + map_sum f (m(k := None))"
    by (rule map_sum_insert) simp
  moreover have "(m(k := None))(k \<mapsto> v) = m" using assms(2) by auto
  ultimately show ?thesis by simp
qed

lemma map_sum_le:
  assumes "finite (dom m)" "m k = Some v"
  shows "f v \<le> map_sum f m"
  using map_sum_delete [OF assms, of f] by linarith

end
