(* ===== verification/Resources.thy ===== *)
theory Resources
  imports Prelude
begin

text \<open>
  Host, container and function resources of \<open>crates/server/src/data_model/mod.rs\<close>: the checks
  \<open>HostResources::can_handle_*\<close> and the operations \<open>consume_*\<close>, \<open>force_consume_fe_resources\<close>
  and \<open>free\<close> through which the scheduler keeps the free capacity of an executor.

  Requests are in MB and hosts in bytes; the conversion \<open>* 1024 * 1024\<close> is done on \<open>u64\<close> and
  wraps.  Errors carry the values the source formats into its message.
\<close>

section \<open>Data\<close>

record gpu_resources =
  gpu_count :: u32
  gpu_model :: string

record function_resources =
  fres_cpu_ms_per_sec :: u32
  fres_memory_mb :: u64
  fres_ephemeral_disk_mb :: u64
  fres_gpu_configs :: "gpu_resources list"

record container_resources =
  cres_cpu_ms_per_sec :: u32
  cres_memory_mb :: u64
  cres_ephemeral_disk_mb :: u64
  cres_gpu :: "gpu_resources option"

record host_resources =
  host_cpu_ms_per_sec :: u32
  host_memory_bytes :: u64
  host_disk_bytes :: u64
  host_gpu :: "gpu_resources option"

text \<open>The reasons \<open>can_handle_*\<close>, \<open>consume_*\<close> and \<open>free\<close> report.\<close>

datatype resource_error =
    NotEnoughCpu u32 u32
  | NotEnoughMemory u64 u64
  | NotEnoughDisk u64 u64
  | NotEnoughGpu gpu_resources gpu_resources
  | NoGpuAvailable gpu_resources
  | NoGpuConfigFits "gpu_resources list" "gpu_resources option"
  | GpuModelMismatch string string
  | NoGpuOnExecutor

definition default_function_resources :: function_resources where
  "default_function_resources =
     \<lparr>fres_cpu_ms_per_sec = 1000, fres_memory_mb = 1024, fres_ephemeral_disk_mb = 1024,
      fres_gpu_configs = []\<rparr>"

section \<open>Checks\<close>

definition gpu_can_handle :: "gpu_resources \<Rightarrow> gpu_resources \<Rightarrow> bool" where
  "gpu_can_handle self requested \<longleftrightarrow>
     gpu_count self \<ge> gpu_count requested \<and> gpu_model self = gpu_model requested"

definition can_handle_gpu ::
  "host_resources \<Rightarrow> gpu_resources option \<Rightarrow> resource_error + unit" where
  "can_handle_gpu self request =
     (case request of
        Some requested \<Rightarrow>
          (case host_gpu self of
             Some available \<Rightarrow>
               if gpu_can_handle available requested then Ok ()
               else Err (NotEnoughGpu available requested)
           | None \<Rightarrow> Err (NoGpuAvailable requested))
      | None \<Rightarrow> Ok ())"

definition mb_to_bytes :: "u64 \<Rightarrow> u64" where
  "mb_to_bytes mb = mb * 1024 * 1024"

definition can_handle_fe_resources ::
  "host_resources \<Rightarrow> container_resources \<Rightarrow> resource_error + unit" where
  "can_handle_fe_resources self request =
     (let requested_memory_bytes = mb_to_bytes (cres_memory_mb request);
          requested_disk_bytes = mb_to_bytes (cres_ephemeral_disk_mb request)
      in if host_cpu_ms_per_sec self < cres_cpu_ms_per_sec request
         then Err (NotEnoughCpu (host_cpu_ms_per_sec self) (cres_cpu_ms_per_sec request))
         else if host_memory_bytes self < requested_memory_bytes
         then Err (NotEnoughMemory (host_memory_bytes self) requested_memory_bytes)
         else if host_disk_bytes self < requested_disk_bytes
         then Err (NotEnoughDisk (host_disk_bytes self) requested_disk_bytes)
         else can_handle_gpu self (cres_gpu request))"

text \<open>\<open>fe_resources_no_gpu\<close> of \<open>can_handle_function_resources\<close> and \<open>consume_function_resources\<close>\<close>

definition fe_resources_no_gpu :: "function_resources \<Rightarrow> container_resources" where
  "fe_resources_no_gpu request =
     \<lparr>cres_cpu_ms_per_sec = fres_cpu_ms_per_sec request,
      cres_memory_mb = fres_memory_mb request,
      cres_ephemeral_disk_mb = fres_ephemeral_disk_mb request,
      cres_gpu = None\<rparr>"

fun can_handle_gpu_configs ::
  "host_resources \<Rightarrow> container_resources \<Rightarrow> gpu_resources list \<Rightarrow> resource_error + unit
     \<Rightarrow> resource_error + unit" where
  "can_handle_gpu_configs self no_gpu [] result = result"
| "can_handle_gpu_configs self no_gpu (gpu # gpus) result =
     (let result' = can_handle_fe_resources self (no_gpu\<lparr>cres_gpu := Some gpu\<rparr>)
      in if is_ok result' then Ok () else can_handle_gpu_configs self no_gpu gpus result')"

definition can_handle_function_resources ::
  "host_resources \<Rightarrow> function_resources \<Rightarrow> resource_error + unit" where
  "can_handle_function_resources self request =
     can_handle_gpu_configs self (fe_resources_no_gpu request) (fres_gpu_configs request)
       (can_handle_fe_resources self (fe_resources_no_gpu request))"

section \<open>Operations\<close>

text \<open>The \<open>if let Some(requested) \<dots> && let Some(available)\<close> blocks of the GPU updates.\<close>

definition update_gpu_count ::
  "(u32 \<Rightarrow> u32 \<Rightarrow> u32) \<Rightarrow> gpu_resources option \<Rightarrow> gpu_resources option \<Rightarrow> gpu_resources option" where
  "update_gpu_count f available requested =
     (case (requested, available) of
        (Some r, Some a) \<Rightarrow> Some (a\<lparr>gpu_count := f (gpu_count a) (gpu_count r)\<rparr>)
      | _ \<Rightarrow> available)"

definition consume_fe_resources ::
  "host_resources \<Rightarrow> container_resources \<Rightarrow> (resource_error + unit) \<times> host_resources" where
  "consume_fe_resources self request =
     (case can_handle_fe_resources self request of
        Inl e \<Rightarrow> (Err e, self)
      | Inr _ \<Rightarrow>
          (Ok (),
           self\<lparr>host_cpu_ms_per_sec := host_cpu_ms_per_sec self - cres_cpu_ms_per_sec request,
                host_memory_bytes := host_memory_bytes self - mb_to_bytes (cres_memory_mb request),
                host_disk_bytes := host_disk_bytes self - mb_to_bytes (cres_ephemeral_disk_mb request),
                host_gpu := update_gpu_count (-) (host_gpu self) (cres_gpu request)\<rparr>))"

definition force_consume_fe_resources ::
  "host_resources \<Rightarrow> container_resources \<Rightarrow> host_resources" where
  "force_consume_fe_resources self request =
     self\<lparr>host_cpu_ms_per_sec :=
            saturating_sub (host_cpu_ms_per_sec self) (cres_cpu_ms_per_sec request),
          host_memory_bytes :=
            saturating_sub (host_memory_bytes self) (mb_to_bytes (cres_memory_mb request)),
          host_disk_bytes :=
            saturating_sub (host_disk_bytes self) (mb_to_bytes (cres_ephemeral_disk_mb request)),
          host_gpu := update_gpu_count saturating_sub (host_gpu self) (cres_gpu request)\<rparr>"

fun consume_gpu_configs ::
  "host_resources \<Rightarrow> container_resources \<Rightarrow> gpu_resources list
     \<Rightarrow> (container_resources \<times> host_resources) option" where
  "consume_gpu_configs self no_gpu [] = None"
| "consume_gpu_configs self no_gpu (gpu # gpus) =
     (let fe_gpu = no_gpu\<lparr>cres_gpu := Some gpu\<rparr>
      in case consume_fe_resources self fe_gpu of
           (Inr _, self') \<Rightarrow> Some (fe_gpu, self')
         | (Inl _, self') \<Rightarrow> consume_gpu_configs self' no_gpu gpus)"

definition consume_function_resources ::
  "host_resources \<Rightarrow> function_resources
     \<Rightarrow> (resource_error + container_resources) \<times> host_resources" where
  "consume_function_resources self request =
     (let no_gpu = fe_resources_no_gpu request
      in if fres_gpu_configs request = []
         then (case consume_fe_resources self no_gpu of
                 (Inl e, self') \<Rightarrow> (Err e, self')
               | (Inr _, self') \<Rightarrow> (Ok no_gpu, self'))
         else (case consume_gpu_configs self no_gpu (fres_gpu_configs request) of
                 Some (fe_gpu, self') \<Rightarrow> (Ok fe_gpu, self')
               | None \<Rightarrow>
                   (Err (NoGpuConfigFits (fres_gpu_configs request) (host_gpu self)), self)))"

definition free_resources ::
  "host_resources \<Rightarrow> container_resources \<Rightarrow> (resource_error + unit) \<times> host_resources" where
  "free_resources self allocated =
     (let self' =
        self\<lparr>host_cpu_ms_per_sec := host_cpu_ms_per_sec self + cres_cpu_ms_per_sec allocated,
             host_memory_bytes := host_memory_bytes self + mb_to_bytes (cres_memory_mb allocated),
             host_disk_bytes := host_disk_bytes self + mb_to_bytes (cres_ephemeral_disk_mb allocated)\<rparr>
      in case cres_gpu allocated of
           None \<Rightarrow> (Ok (), self')
         | Some allocated_gpu \<Rightarrow>
             (case host_gpu self' of
                Some available \<Rightarrow>
                  if gpu_model available = gpu_model allocated_gpu
                  then (Ok (), self'\<lparr>host_gpu :=
                          Some (available\<lparr>gpu_count := gpu_count available + gpu_count allocated_gpu\<rparr>)\<rparr>)
                  else (Err (GpuModelMismatch (gpu_model available) (gpu_model allocated_gpu)), self')
              | None \<Rightarrow> (Err NoGpuOnExecutor, self')))"

section \<open>Executor catalog entries\<close>

text \<open>\<open>GpuModel\<close> of the configuration has the fields of \<open>GPUResources\<close> (name and count).\<close>

record executor_catalog_entry =
  cat_name :: string
  cat_cpu_cores :: u32
  cat_memory_gb :: u64
  cat_disk_gb :: u64
  cat_gpu_model :: "gpu_resources option"
  cat_labels :: "string \<rightharpoonup> string"

definition host_from_catalog_entry :: "executor_catalog_entry \<Rightarrow> host_resources" where
  "host_from_catalog_entry entry =
     \<lparr>host_cpu_ms_per_sec = cat_cpu_cores entry * 1000,
      host_memory_bytes = cat_memory_gb entry * 1024 * 1024 * 1024,
      host_disk_bytes = cat_disk_gb entry * 1024 * 1024 * 1024,
      host_gpu = map_option (\<lambda>m. \<lparr>gpu_count = gpu_count m, gpu_model = gpu_model m\<rparr>)
                   (cat_gpu_model entry)\<rparr>"

definition can_be_handled_by_catalog_entry ::
  "function_resources \<Rightarrow> executor_catalog_entry \<Rightarrow> bool" where
  "can_be_handled_by_catalog_entry self entry =
     is_ok (can_handle_function_resources (host_from_catalog_entry entry) self)"

section \<open>Quantities the theorems speak of\<close>

text \<open>
  The amounts a request takes from a host, as natural numbers, in the host's units.
\<close>

definition req_memory :: "container_resources \<Rightarrow> nat" where
  "req_memory r = unat (mb_to_bytes (cres_memory_mb r))"

definition req_disk :: "container_resources \<Rightarrow> nat" where
  "req_disk r = unat (mb_to_bytes (cres_ephemeral_disk_mb r))"

definition req_gpu :: "container_resources \<Rightarrow> nat" where
  "req_gpu r = (case cres_gpu r of None \<Rightarrow> 0 | Some g \<Rightarrow> unat (gpu_count g))"

definition avail_gpu :: "host_resources \<Rightarrow> nat" where
  "avail_gpu h = (case host_gpu h of None \<Rightarrow> 0 | Some g \<Rightarrow> unat (gpu_count g))"

text \<open>The GPU a request names is of the model the host has.\<close>

definition gpu_compatible :: "host_resources \<Rightarrow> container_resources \<Rightarrow> bool" where
  "gpu_compatible h r \<longleftrightarrow>
     (case cres_gpu r of
        None \<Rightarrow> True
      | Some g \<Rightarrow> (case host_gpu h of None \<Rightarrow> False | Some a \<Rightarrow> gpu_model a = gpu_model g))"

definition fits :: "host_resources \<Rightarrow> container_resources \<Rightarrow> bool" where
  "fits h r \<longleftrightarrow>
     unat (cres_cpu_ms_per_sec r) \<le> unat (host_cpu_ms_per_sec h) \<and>
     req_memory r \<le> unat (host_memory_bytes h) \<and>
     req_disk r \<le> unat (host_disk_bytes h) \<and>
     gpu_compatible h r \<and> req_gpu r \<le> avail_gpu h"

section \<open>Lemmas\<close>

named_theorems amount_defs "definitions of the amounts a request takes and a host has"

lemmas [amount_defs] =
  fits_def gpu_compatible_def req_memory_def req_disk_def req_gpu_def avail_gpu_def
  update_gpu_count_def

lemma can_handle_iff_fits: "is_ok (can_handle_fe_resources h r) \<longleftrightarrow> fits h r"
  by (auto simp: amount_defs can_handle_fe_resources_def can_handle_gpu_def gpu_can_handle_def
      Let_def word_le_nat_alt word_less_nat_alt not_less split: option.splits)

lemma can_handle_fits: "fits h r \<Longrightarrow> can_handle_fe_resources h r = Ok ()"
  using can_handle_iff_fits [of h r] by (auto elim: is_okE)

lemma can_handle_not_fits: "\<not> fits h r \<Longrightarrow> \<exists>e. can_handle_fe_resources h r = Err e"
  using can_handle_iff_fits [of h r] by (cases "can_handle_fe_resources h r") auto

lemma consume_fits:
  assumes "fits h r"
  shows "consume_fe_resources h r =
    (Ok (), h\<lparr>host_cpu_ms_per_sec := host_cpu_ms_per_sec h - cres_cpu_ms_per_sec r,
              host_memory_bytes := host_memory_bytes h - mb_to_bytes (cres_memory_mb r),
              host_disk_bytes := host_disk_bytes h - mb_to_bytes (cres_ephemeral_disk_mb r),
              host_gpu := update_gpu_count (-) (host_gpu h) (cres_gpu r)\<rparr>)"
  using assms by (simp add: consume_fe_resources_def can_handle_fits)

lemma consume_not_fits: "\<not> fits h r \<Longrightarrow> \<exists>e. consume_fe_resources h r = (Err e, h)"
  using can_handle_not_fits [of h r] by (auto simp: consume_fe_resources_def)

lemma consume_ok_iff_fits: "is_ok (fst (consume_fe_resources h r)) \<longleftrightarrow> fits h r"
  using consume_fits [of h r] consume_not_fits [of h r] by (cases "fits h r") auto

lemma consume_error_unchanged: "\<not> fits h r \<Longrightarrow> snd (consume_fe_resources h r) = h"
  using consume_not_fits [of h r] by auto

lemma consume_cases [case_names fits not_fits]:
  assumes "\<And>h'. fits h r \<Longrightarrow> consume_fe_resources h r = (Ok (), h') \<Longrightarrow> P"
    and "\<And>e. \<not> fits h r \<Longrightarrow> consume_fe_resources h r = (Err e, h) \<Longrightarrow> P"
  shows P
  using assms consume_fits [of h r] consume_not_fits [of h r] by (cases "fits h r") auto

text \<open>The amounts left after a consumption that fits: no component wraps below zero.\<close>

lemma consume_amounts:
  assumes "fits h r" "h' = snd (consume_fe_resources h r)"
  shows "unat (host_cpu_ms_per_sec h') + unat (cres_cpu_ms_per_sec r) = unat (host_cpu_ms_per_sec h)"
    and "unat (host_memory_bytes h') + req_memory r = unat (host_memory_bytes h)"
    and "unat (host_disk_bytes h') + req_disk r = unat (host_disk_bytes h)"
    and "avail_gpu h' + req_gpu r = avail_gpu h"
  using assms
  by (auto simp: consume_fits amount_defs word_le_nat_alt unat_sub_le split: option.splits)

lemma consume_gpu_compatible:
  "fits h r \<Longrightarrow> gpu_compatible (snd (consume_fe_resources h r)) r' = gpu_compatible h r'"
  by (auto simp: consume_fits amount_defs split: option.splits)

lemma free_compatible:
  assumes "gpu_compatible h r"
  shows "fst (free_resources h r) = Ok ()"
    and "host_cpu_ms_per_sec (snd (free_resources h r)) = host_cpu_ms_per_sec h + cres_cpu_ms_per_sec r"
    and "host_memory_bytes (snd (free_resources h r)) =
         host_memory_bytes h + mb_to_bytes (cres_memory_mb r)"
    and "host_disk_bytes (snd (free_resources h r)) =
         host_disk_bytes h + mb_to_bytes (cres_ephemeral_disk_mb r)"
    and "host_gpu (snd (free_resources h r)) = update_gpu_count (+) (host_gpu h) (cres_gpu r)"
  using assms
  by (auto simp: free_resources_def gpu_compatible_def update_gpu_count_def Let_def
      split: option.splits)

lemma free_gpu_compatible:
  "gpu_compatible (snd (free_resources h r)) r' = gpu_compatible h r'"
  by (auto simp: free_resources_def gpu_compatible_def Let_def split: option.splits)

lemma free_after_consume:
  assumes "fits h r"
  shows "free_resources (snd (consume_fe_resources h r)) r = (Ok (), h)"
proof -
  have "gpu_compatible h r" using assms by (simp add: fits_def)
  then show ?thesis
    using assms
    by (cases h; cases "host_gpu h"; cases "cres_gpu r")
       (auto simp: consume_fits free_resources_def gpu_compatible_def update_gpu_count_def Let_def)
qed

lemma can_handle_gpu_configs_ok:
  "is_ok (can_handle_gpu_configs h base gs result) \<longleftrightarrow>
     (if gs = [] then is_ok result else (\<exists>g\<in>set gs. fits h (base\<lparr>cres_gpu := Some g\<rparr>)))"
  by (induction h base gs result rule: can_handle_gpu_configs.induct)
     (auto simp: can_handle_iff_fits Let_def)

lemma consume_gpu_configs_find:
  "consume_gpu_configs h base gs =
     map_option (\<lambda>g. (base\<lparr>cres_gpu := Some g\<rparr>,
                      snd (consume_fe_resources h (base\<lparr>cres_gpu := Some g\<rparr>))))
       (find (\<lambda>g. fits h (base\<lparr>cres_gpu := Some g\<rparr>)) gs)"
proof (induction gs)
  case Nil
  show ?case by simp
next
  case (Cons g gs)
  show ?case
  proof (cases rule: consume_cases [of h "base\<lparr>cres_gpu := Some g\<rparr>"])
    case (fits h')
    then show ?thesis by (simp add: Let_def)
  next
    case (not_fits e)
    with Cons.IH show ?thesis by (simp add: Let_def)
  qed
qed

lemma unat_mb_to_bytes: "unat mb < 2 ^ 44 \<Longrightarrow> unat (mb_to_bytes mb) = unat mb * 2 ^ 20"
  by (simp add: mb_to_bytes_def unat_word_ariths)

lemma mb_to_bytes_wraps: "mb_to_bytes (2 ^ 44 * k) = 0"
proof -
  have "mb_to_bytes (2 ^ 44 * k) = (2 ^ 64 :: u64) * k"
    by (simp add: mb_to_bytes_def)
  also have "(2 ^ 64 :: u64) = 0" by simp
  finally show ?thesis by simp
qed

section \<open>Properties\<close>

text \<open>
  C23: \<open>HostResources::consume_fe_resources\<close> is atomic and exact, and \<open>free\<close> undoes it.  It
  succeeds exactly when the request fits in every dimension; then each free amount has gone down
  by precisely what was requested (nothing wraps below zero) and freeing the same request
  gives back the host it started from.  When it fails the host is untouched.
\<close>

theorem consume_fe_resources_exact:
  assumes "consume_fe_resources h r = (res, h')"
  shows "if fits h r
         then res = Ok () \<and>
              unat (host_cpu_ms_per_sec h') + unat (cres_cpu_ms_per_sec r) = unat (host_cpu_ms_per_sec h) \<and>
              unat (host_memory_bytes h') + req_memory r = unat (host_memory_bytes h) \<and>
              unat (host_disk_bytes h') + req_disk r = unat (host_disk_bytes h) \<and>
              avail_gpu h' + req_gpu r = avail_gpu h \<and>
              free_resources h' r = (Ok (), h)
         else (\<exists>e. res = Err e) \<and> h' = h"
proof (cases "fits h r")
  case True
  then have "res = Ok ()" using assms consume_fits [OF True] by simp
  moreover have h': "h' = snd (consume_fe_resources h r)" using assms by simp
  ultimately show ?thesis
    using True consume_amounts [OF True h'] free_after_consume [OF True] by simp
next
  case False
  then show ?thesis using assms consume_not_fits [OF False] by auto
qed

theorem consume_fe_resources_exact_witness:
  "let h = \<lparr>host_cpu_ms_per_sec = 4000, host_memory_bytes = 8589934592, host_disk_bytes = 10737418240,
            host_gpu = Some \<lparr>gpu_count = 2, gpu_model = ''H100''\<rparr>\<rparr>;
       r = \<lparr>cres_cpu_ms_per_sec = 1000, cres_memory_mb = 2048, cres_ephemeral_disk_mb = 1024,
            cres_gpu = Some \<lparr>gpu_count = 1, gpu_model = ''H100''\<rparr>\<rparr>;
       h' = \<lparr>host_cpu_ms_per_sec = 3000, host_memory_bytes = 6442450944, host_disk_bytes = 9663676416,
             host_gpu = Some \<lparr>gpu_count = 1, gpu_model = ''H100''\<rparr>\<rparr>
   in consume_fe_resources h r = (Ok (), h') \<and> fits h r \<and> free_resources h' r = (Ok (), h)"
proof -
  let ?h = "\<lparr>host_cpu_ms_per_sec = 4000, host_memory_bytes = 8589934592, host_disk_bytes = 10737418240,
            host_gpu = Some \<lparr>gpu_count = 2, gpu_model = ''H100''\<rparr>\<rparr>"
  let ?r = "\<lparr>cres_cpu_ms_per_sec = 1000, cres_memory_mb = 2048, cres_ephemeral_disk_mb = 1024,
            cres_gpu = Some \<lparr>gpu_count = 1, gpu_model = ''H100''\<rparr>\<rparr>"
  let ?h' = "\<lparr>host_cpu_ms_per_sec = 3000, host_memory_bytes = 6442450944, host_disk_bytes = 9663676416,
             host_gpu = Some \<lparr>gpu_count = 1, gpu_model = ''H100''\<rparr>\<rparr>"
  have run: "consume_fe_resources ?h ?r = (Ok (), ?h')"
    by (simp add: consume_fe_resources_def can_handle_fe_resources_def can_handle_gpu_def
        gpu_can_handle_def update_gpu_count_def mb_to_bytes_def)
  have fit: "fits ?h ?r" by (simp add: amount_defs mb_to_bytes_def)
  show ?thesis using consume_fe_resources_exact [OF run] run fit by simp
qed

text \<open>
  The feasibility check and the consumption of a function's resources agree, and the
  consumption honours the order of preference.  \<open>can_handle_function_resources\<close> accepts exactly
  when \<open>consume_function_resources\<close> succeeds; a successful call takes the first GPU
  configuration of the list that fits (none when the list is empty), and a failed call leaves
  the host untouched.
\<close>

theorem consume_function_resources_preferred:
  "is_ok (can_handle_function_resources h r) = is_ok (fst (consume_function_resources h r)) \<and>
   (case consume_function_resources h r of
      (Inr c, h') \<Rightarrow>
        fits h c \<and> consume_fe_resources h c = (Ok (), h') \<and>
        c = (fe_resources_no_gpu r)\<lparr>cres_gpu :=
               (if fres_gpu_configs r = [] then None
                else find (\<lambda>g. fits h ((fe_resources_no_gpu r)\<lparr>cres_gpu := Some g\<rparr>)) (fres_gpu_configs r))\<rparr>
    | (Inl e, h') \<Rightarrow> h' = h)"
proof (cases "fres_gpu_configs r = []")
  case True
  have base: "(fe_resources_no_gpu r)\<lparr>cres_gpu := None\<rparr> = fe_resources_no_gpu r"
    by (simp add: fe_resources_no_gpu_def)
  show ?thesis
    using True
    by (cases rule: consume_cases [of h "fe_resources_no_gpu r"])
       (simp_all add: consume_function_resources_def can_handle_function_resources_def
          can_handle_iff_fits base)
next
  case False
  let ?base = "fe_resources_no_gpu r"
  let ?p = "\<lambda>g. fits h (?base\<lparr>cres_gpu := Some g\<rparr>)"
  have ok: "is_ok (can_handle_function_resources h r) \<longleftrightarrow> (\<exists>g\<in>set (fres_gpu_configs r). ?p g)"
    using False by (simp add: can_handle_function_resources_def can_handle_gpu_configs_ok)
  show ?thesis
  proof (cases "find ?p (fres_gpu_configs r)")
    case None
    then have "\<not> (\<exists>g\<in>set (fres_gpu_configs r). ?p g)" by (simp add: find_None_iff)
    with False None ok show ?thesis
      by (simp add: consume_function_resources_def consume_gpu_configs_find)
  next
    case (Some g)
    then have g: "?p g" "g \<in> set (fres_gpu_configs r)" by (auto simp: find_Some_iff)
    obtain h' where "consume_fe_resources h (?base\<lparr>cres_gpu := Some g\<rparr>) = (Ok (), h')"
      using consume_fits [OF g(1)] by blast
    with False Some ok g show ?thesis
      by (auto simp: consume_function_resources_def consume_gpu_configs_find)
  qed
qed

text \<open>
  Below \<open>2^44\<close> MB the check compares the true sizes.  For a request of less than \<open>2^44\<close> MB of
  memory and of disk, \<open>can_handle_fe_resources\<close> accepts exactly when the requested megabytes
  times \<open>2^20\<close>, as numbers, are at most the bytes of the host, and likewise for CPU and GPU.
\<close>

theorem can_handle_fe_resources_exact:
  assumes "unat (cres_memory_mb r) < 2 ^ 44" "unat (cres_ephemeral_disk_mb r) < 2 ^ 44"
  shows "is_ok (can_handle_fe_resources h r) \<longleftrightarrow>
    unat (cres_cpu_ms_per_sec r) \<le> unat (host_cpu_ms_per_sec h) \<and>
    unat (cres_memory_mb r) * 2 ^ 20 \<le> unat (host_memory_bytes h) \<and>
    unat (cres_ephemeral_disk_mb r) * 2 ^ 20 \<le> unat (host_disk_bytes h) \<and>
    gpu_compatible h r \<and> req_gpu r \<le> avail_gpu h"
  using assms by (simp add: can_handle_iff_fits fits_def req_memory_def req_disk_def unat_mb_to_bytes)

theorem can_handle_fe_resources_exact_witness:
  "is_ok (can_handle_fe_resources
     \<lparr>host_cpu_ms_per_sec = 1000, host_memory_bytes = 1048576, host_disk_bytes = 0, host_gpu = None\<rparr>
     \<lparr>cres_cpu_ms_per_sec = 1000, cres_memory_mb = 1, cres_ephemeral_disk_mb = 0, cres_gpu = None\<rparr>)"
  by (subst can_handle_fe_resources_exact) (simp_all add: amount_defs)

text \<open>
  From \<open>2^44\<close> MB on the conversion to bytes wraps, and the check accepts what no host has: a
  request for any multiple of \<open>2^44\<close> MB of memory (16 EiB and more) is taken by every host, even one with no
  memory at all, and consuming it takes nothing.
\<close>

theorem memory_request_wraps:
  "can_handle_fe_resources h
     \<lparr>cres_cpu_ms_per_sec = 0, cres_memory_mb = 2 ^ 44 * k, cres_ephemeral_disk_mb = 0, cres_gpu = None\<rparr>
     = Ok () \<and>
   snd (consume_fe_resources h
     \<lparr>cres_cpu_ms_per_sec = 0, cres_memory_mb = 2 ^ 44 * k, cres_ephemeral_disk_mb = 0, cres_gpu = None\<rparr>)
     = h"
proof -
  let ?r = "\<lparr>cres_cpu_ms_per_sec = 0, cres_memory_mb = 2 ^ 44 * k, cres_ephemeral_disk_mb = 0,
             cres_gpu = None\<rparr>"
  have "mb_to_bytes 0 = 0" by (simp add: mb_to_bytes_def)
  then have "fits h ?r" by (simp add: amount_defs mb_to_bytes_wraps [simplified])
  then show ?thesis
    using \<open>mb_to_bytes 0 = 0\<close>
    by (simp add: can_handle_fits consume_fits mb_to_bytes_wraps [simplified] update_gpu_count_def
        split: option.splits)
qed

end
