(* ===== verification/Labels.thy ===== *)
theory Labels
  imports Prelude
begin

text \<open>
  Placement constraints: \<open>crates/server/src/data_model/filter.rs\<close>.  An \<open>Expression\<close> is a label
  test \<open>key==value\<close> or \<open>key!=value\<close>; a \<open>LabelsFilter\<close> is a conjunction of them.  Expressions are
  stored through their printed form (\<open>Serialize\<close> uses \<open>Display\<close>, \<open>Deserialize\<close> uses
  \<open>try_from_str\<close>), so printing and parsing have to agree.
\<close>

section \<open>The standard library's \<open>str::split\<close>\<close>

text \<open>
  \<open>s.split(pat)\<close> for a non-empty pattern: the pieces between the non-overlapping occurrences
  of the pattern, found from the left.
\<close>

function split_str :: "string \<Rightarrow> string \<Rightarrow> string list" where
  "split_str pat [] = [[]]"
| "split_str pat (c # cs) =
     (if pat \<noteq> [] \<and> take (length pat) (c # cs) = pat
      then [] # split_str pat (drop (length pat) (c # cs))
      else (case split_str pat cs of
              [] \<Rightarrow> [[c]]
            | part # parts \<Rightarrow> (c # part) # parts))"
  by pat_completeness auto
termination
  by (relation "measure (\<lambda>(pat, s). length s)") (auto simp: neq_Nil_conv)

section \<open>Expressions\<close>

datatype operator = Eq | Neq

record expression =
  expr_key :: string
  expr_value :: string
  expr_operator :: operator

datatype filter_error = InvalidOperator string | InvalidLabelFilter string

fun operator_to_string :: "operator \<Rightarrow> string" where
  "operator_to_string Eq = ''==''"
| "operator_to_string Neq = ''!=''"

definition operator_try_from_str :: "string \<Rightarrow> filter_error + operator" where
  "operator_try_from_str s =
     (if s = ''=='' then Ok Eq else if s = ''!='' then Ok Neq else Err (InvalidOperator s))"

text \<open>The loop over \<open>vec!["!=", "=="]\<close>; an operator that does not split in two is skipped.\<close>

fun try_operators :: "string list \<Rightarrow> string \<Rightarrow> filter_error + expression" where
  "try_operators [] s = Err (InvalidLabelFilter s)"
| "try_operators (oper # opers) s =
     (case split_str oper s of
        [key, value] \<Rightarrow>
          (case operator_try_from_str oper of
             Inl e \<Rightarrow> Err e
           | Inr oper' \<Rightarrow> Ok \<lparr>expr_key = key, expr_value = value, expr_operator = oper'\<rparr>)
      | _ \<Rightarrow> try_operators opers s)"

definition expression_try_from_str :: "string \<Rightarrow> filter_error + expression" where
  "expression_try_from_str s = try_operators [''!='', ''==''] s"

definition expression_to_string :: "expression \<Rightarrow> string" where
  "expression_to_string e = expr_key e @ operator_to_string (expr_operator e) @ expr_value e"

section \<open>Filters\<close>

type_synonym labels_filter = "expression list"

definition expression_matches :: "(string \<rightharpoonup> string) \<Rightarrow> expression \<Rightarrow> bool" where
  "expression_matches values e =
     (case values (expr_key e) of
        Some value \<Rightarrow>
          (case expr_operator e of
             Eq \<Rightarrow> value = expr_value e
           | Neq \<Rightarrow> value \<noteq> expr_value e)
      | None \<Rightarrow> False)"

definition labels_filter_matches :: "labels_filter \<Rightarrow> (string \<rightharpoonup> string) \<Rightarrow> bool" where
  "labels_filter_matches self values = list_all (expression_matches values) self"

section \<open>Lemmas\<close>

declare split_str.simps [simp del]

lemma split_str_not_Nil [simp]: "split_str pat s \<noteq> []"
  by (induction pat s rule: split_str.induct) (auto simp: split_str.simps split: list.splits)

text \<open>Putting the pattern back between the pieces gives the string.\<close>

fun join_str :: "string \<Rightarrow> string list \<Rightarrow> string" where
  "join_str pat [] = []"
| "join_str pat [x] = x"
| "join_str pat (x # y # ys) = x @ pat @ join_str pat (y # ys)"

lemma join_str_Cons: "ys \<noteq> [] \<Longrightarrow> join_str pat (x # ys) = x @ pat @ join_str pat ys"
  by (cases ys) auto

lemma join_split_str: "join_str pat (split_str pat s) = s"
proof (induction pat s rule: split_str.induct)
  case (1 pat)
  show ?case by (simp add: split_str.simps)
next
  case (2 pat c cs)
  show ?case
  proof (cases "pat \<noteq> [] \<and> take (length pat) (c # cs) = pat")
    case True
    then have "join_str pat (split_str pat (c # cs)) = pat @ drop (length pat) (c # cs)"
      using "2.IH"(1) by (simp add: split_str.simps(2) join_str_Cons)
    also have "\<dots> = c # cs"
      using True append_take_drop_id [of "length pat" "c # cs"] by simp
    finally show ?thesis .
  next
    case False
    obtain part parts where parts: "split_str pat cs = part # parts"
      by (cases "split_str pat cs") simp_all
    then have "split_str pat (c # cs) = (c # part) # parts"
      using False by (auto simp: split_str.simps(2))
    moreover have "join_str pat ((c # part) # parts) = c # join_str pat (part # parts)"
      by (cases parts) simp_all
    ultimately show ?thesis using "2.IH"(2) [OF False] parts by simp
  qed
qed

lemma try_operators_prints:
  "set opers \<subseteq> {''=='', ''!=''} \<Longrightarrow> try_operators opers s = Ok e \<Longrightarrow> expression_to_string e = s"
proof (induction opers s rule: try_operators.induct)
  case (1 s)
  then show ?case by simp
next
  case (2 oper opers s)
  show ?case
  proof (cases "\<exists>k v. split_str oper s = [k, v]")
    case True
    then obtain k v where kv: "split_str oper s = [k, v]" by blast
    have "k @ oper @ v = s" using join_split_str [of oper s] kv by simp
    moreover have "e = \<lparr>expr_key = k, expr_value = v,
        expr_operator = (if oper = ''=='' then Eq else Neq)\<rparr>"
      using "2.prems" kv by (auto simp: operator_try_from_str_def)
    ultimately show ?thesis using "2.prems"(1) by (auto simp: expression_to_string_def)
  next
    case False
    then have "try_operators (oper # opers) s = try_operators opers s"
      by (auto split: list.splits)
    with 2 False show ?thesis by (auto split: list.splits)
  qed
qed

section \<open>Properties\<close>

text \<open>
  A placement constraint that was parsed survives storage.  Whatever string
  \<open>Expression::try_from_str\<close> accepts, the printed form of the result is that string again, so
  the value read back from the store is the value that was written.
\<close>

theorem expression_roundtrip:
  assumes "expression_try_from_str s = Ok e"
  shows "expression_to_string e = s \<and> expression_try_from_str (expression_to_string e) = Ok e"
proof -
  have "expression_to_string e = s"
    using assms by (intro try_operators_prints [of "[''!='', ''=='']"])
      (simp_all add: expression_try_from_str_def)
  with assms show ?thesis by simp
qed

theorem expression_roundtrip_witness:
  "expression_to_string \<lparr>expr_key = ''gpu'', expr_value = ''h100'', expr_operator = Neq\<rparr> = ''gpu!=h100'' \<and>
   expression_try_from_str ''gpu!=h100'' =
     Ok \<lparr>expr_key = ''gpu'', expr_value = ''h100'', expr_operator = Neq\<rparr>"
proof -
  have "expression_try_from_str ''gpu!=h100'' =
     Ok \<lparr>expr_key = ''gpu'', expr_value = ''h100'', expr_operator = Neq\<rparr>"
    by (simp add: expression_try_from_str_def split_str.simps operator_try_from_str_def)
  from expression_roundtrip [OF this] this show ?thesis by simp
qed

end
