(* ===== verification/Outcomes.thy ===== *)
theory Outcomes
  imports Prelude
begin

text \<open>
  The state and outcome enumerations of \<open>crates/server/src/data_model/mod.rs\<close> and the conversions
  between them.  Constructors of enumerations that share variant names carry a prefix:
  \<open>FR_\<close> for \<open>FunctionRunFailureReason\<close>, \<open>RF_\<close> for \<open>RequestFailureReason\<close>, \<open>CT_\<close> for
  \<open>ContainerTerminationReason\<close>, \<open>CS_\<close> for \<open>ContainerState\<close>, \<open>SB_\<close> for the sandbox enumerations.
\<close>

section \<open>Function runs and requests\<close>

datatype function_run_failure_reason =
    FR_Unknown
  | FR_InternalError
  | FR_FunctionError
  | FR_FunctionTimeout
  | FR_RequestError
  | FR_FunctionRunCancelled
  | FR_FunctionExecutorTerminated
  | FR_ConstraintUnsatisfiable
  | FR_ExecutorRemoved
  | FR_ContainerStartupFunctionError
  | FR_ContainerStartupFunctionTimeout
  | FR_ContainerStartupInternalError
  | FR_OutOfMemory
  | FR_ContainerStartupBadImage

datatype function_run_outcome =
    FunctionRunUnknown
  | FunctionRunSuccess
  | FunctionRunFailure function_run_failure_reason

datatype request_failure_reason =
    RF_Unknown
  | RF_InternalError
  | RF_FunctionError
  | RF_FunctionTimeout
  | RF_RequestError
  | RF_ConstraintUnsatisfiable
  | RF_Cancelled
  | RF_OutOfMemory

datatype request_outcome =
    RequestUnknown
  | RequestSuccess
  | RequestFailure request_failure_reason

definition is_retriable :: "function_run_failure_reason \<Rightarrow> bool" where
  "is_retriable self =
     (case self of
        FR_InternalError \<Rightarrow> True
      | FR_FunctionError \<Rightarrow> True
      | FR_FunctionTimeout \<Rightarrow> True
      | FR_FunctionExecutorTerminated \<Rightarrow> True
      | FR_ExecutorRemoved \<Rightarrow> True
      | FR_OutOfMemory \<Rightarrow> True
      | FR_ContainerStartupFunctionError \<Rightarrow> True
      | FR_ContainerStartupFunctionTimeout \<Rightarrow> True
      | FR_ContainerStartupInternalError \<Rightarrow> True
      | _ \<Rightarrow> False)"

definition should_count_against_function_run_retry_attempts ::
  "function_run_failure_reason \<Rightarrow> bool" where
  "should_count_against_function_run_retry_attempts self =
     (case self of
        FR_InternalError \<Rightarrow> True
      | FR_FunctionError \<Rightarrow> True
      | FR_FunctionTimeout \<Rightarrow> True
      | FR_OutOfMemory \<Rightarrow> True
      | FR_ContainerStartupFunctionError \<Rightarrow> True
      | FR_ContainerStartupFunctionTimeout \<Rightarrow> True
      | FR_ContainerStartupInternalError \<Rightarrow> True
      | _ \<Rightarrow> False)"

definition request_failure_reason_from :: "function_run_failure_reason \<Rightarrow> request_failure_reason" where
  "request_failure_reason_from failure_reason =
     (case failure_reason of
        FR_Unknown \<Rightarrow> RF_Unknown
      | FR_InternalError \<Rightarrow> RF_InternalError
      | FR_FunctionError \<Rightarrow> RF_FunctionError
      | FR_ContainerStartupFunctionError \<Rightarrow> RF_FunctionError
      | FR_ContainerStartupFunctionTimeout \<Rightarrow> RF_FunctionTimeout
      | FR_ContainerStartupInternalError \<Rightarrow> RF_InternalError
      | FR_FunctionTimeout \<Rightarrow> RF_FunctionTimeout
      | FR_RequestError \<Rightarrow> RF_RequestError
      | FR_FunctionRunCancelled \<Rightarrow> RF_Cancelled
      | FR_FunctionExecutorTerminated \<Rightarrow> RF_InternalError
      | FR_ExecutorRemoved \<Rightarrow> RF_InternalError
      | FR_ConstraintUnsatisfiable \<Rightarrow> RF_ConstraintUnsatisfiable
      | FR_OutOfMemory \<Rightarrow> RF_OutOfMemory
      | FR_ContainerStartupBadImage \<Rightarrow> RF_InternalError)"

definition request_outcome_from :: "function_run_outcome \<Rightarrow> request_outcome" where
  "request_outcome_from outcome =
     (case outcome of
        FunctionRunSuccess \<Rightarrow> RequestSuccess
      | FunctionRunFailure failure_reason \<Rightarrow>
          RequestFailure (request_failure_reason_from failure_reason)
      | FunctionRunUnknown \<Rightarrow> RequestUnknown)"

definition request_is_success :: "request_outcome \<Rightarrow> bool" where
  "request_is_success self = (case self of RequestSuccess \<Rightarrow> True | _ \<Rightarrow> False)"

type_synonym allocation_id = string

datatype function_run_status =
    Pending
  | Running (running_allocation_id: allocation_id)
  | Completed

section \<open>Containers and executors\<close>

datatype executor_state = ES_Unknown | ES_StartingUp | ES_Running | ES_Drained | ES_Stopped

datatype container_termination_reason =
    CT_Unknown
  | CT_StartupFailedInternalError
  | CT_StartupFailedFunctionError
  | CT_StartupFailedFunctionTimeout
  | CT_Unhealthy
  | CT_InternalError
  | CT_FunctionError
  | CT_FunctionTimeout
  | CT_FunctionCancelled
  | CT_DesiredStateRemoved
  | CT_ExecutorRemoved
  | CT_Oom
  | CT_ProcessCrash
  | CT_StartupFailedBadImage

datatype container_state =
    CS_Unknown
  | CS_Pending
  | CS_Running
  | CS_Terminated container_termination_reason

fun is_terminated :: "container_state \<Rightarrow> bool" where
  "is_terminated (CS_Terminated _) = True"
| "is_terminated _ = False"

datatype container_type = SandboxContainer | FunctionContainer

definition failure_reason_from_termination ::
  "container_termination_reason \<Rightarrow> function_run_failure_reason" where
  "failure_reason_from_termination reason =
     (case reason of
        CT_Unknown \<Rightarrow> FR_FunctionExecutorTerminated
      | CT_StartupFailedInternalError \<Rightarrow> FR_ContainerStartupInternalError
      | CT_StartupFailedFunctionError \<Rightarrow> FR_ContainerStartupFunctionError
      | CT_StartupFailedFunctionTimeout \<Rightarrow> FR_ContainerStartupFunctionTimeout
      | CT_StartupFailedBadImage \<Rightarrow> FR_ContainerStartupBadImage
      | CT_Unhealthy \<Rightarrow> FR_FunctionTimeout
      | CT_InternalError \<Rightarrow> FR_InternalError
      | CT_FunctionError \<Rightarrow> FR_FunctionError
      | CT_FunctionTimeout \<Rightarrow> FR_FunctionTimeout
      | CT_FunctionCancelled \<Rightarrow> FR_FunctionRunCancelled
      | CT_DesiredStateRemoved \<Rightarrow> FR_FunctionExecutorTerminated
      | CT_ExecutorRemoved \<Rightarrow> FR_ExecutorRemoved
      | CT_Oom \<Rightarrow> FR_OutOfMemory
      | CT_ProcessCrash \<Rightarrow> FR_FunctionError)"

section \<open>Sandboxes, snapshots and pools\<close>

type_synonym snapshot_id = string

datatype sandbox_pending_reason =
    SB_Scheduling
  | SB_WaitingForContainer
  | SB_NoExecutorsAvailable
  | SB_NoResourcesAvailable
  | SB_PoolAtCapacity

datatype sandbox_status =
    SB_Pending sandbox_pending_reason
  | SB_Running
  | SB_Terminated
  | SB_Snapshotting snapshot_id

definition sandbox_is_pending :: "sandbox_status \<Rightarrow> bool" where
  "sandbox_is_pending self = (case self of SB_Pending _ \<Rightarrow> True | _ \<Rightarrow> False)"

datatype sandbox_success_reason = SB_SuccessUnknown | SB_UserTerminated | SB_Timeout

datatype sandbox_failure_reason =
    SB_FailureUnknown
  | SB_InternalError
  | SB_Reserved
  | SB_ConstraintUnsatisfiable
  | SB_ExecutorRemoved
  | SB_OutOfMemory
  | SB_ContainerStartupFailed
  | SB_ContainerTerminated container_termination_reason
  | SB_PoolDeleted

datatype sandbox_outcome =
    SB_OutcomeUnknown
  | SB_Success sandbox_success_reason
  | SB_Failure sandbox_failure_reason

datatype snapshot_status = SnapshotInProgress | SnapshotCompleted | SnapshotFailed string

datatype container_pool_type = FunctionPool | SandboxPool

section \<open>Lemmas\<close>

lemma counted_retriable:
  "should_count_against_function_run_retry_attempts r \<Longrightarrow> is_retriable r"
  by (cases r) (simp_all add: should_count_against_function_run_retry_attempts_def is_retriable_def)

section \<open>Properties\<close>

text \<open>
  The failures that are retried without using up a retry are exactly the two infrastructure
  ones, a removed executor and an externally terminated container; these are what a container
  termination turns into exactly when its reason is unknown, \<open>DesiredStateRemoved\<close> or
  \<open>ExecutorRemoved\<close>, so a container that keeps crashing by itself cannot be retried for ever.
\<close>

theorem free_retries_are_infrastructure_failures:
  "((is_retriable r \<and> \<not> should_count_against_function_run_retry_attempts r) =
      (r \<in> {FR_ExecutorRemoved, FR_FunctionExecutorTerminated})) \<and>
   ((failure_reason_from_termination t \<in> {FR_ExecutorRemoved, FR_FunctionExecutorTerminated}) =
      (t \<in> {CT_Unknown, CT_DesiredStateRemoved, CT_ExecutorRemoved}))"
  by (cases r; cases t)
    (simp_all add: should_count_against_function_run_retry_attempts_def is_retriable_def
      failure_reason_from_termination_def)

end
