(* ===== verification/DataModel.thy ===== *)
theory DataModel
  imports Resources Labels Outcomes
begin

text \<open>
  The records of \<open>crates/server/src/data_model/mod.rs\<close>: applications and their functions, function
  calls and runs, requests, containers, executors, pools, sandboxes and snapshots, with the
  operations of their \<open>impl\<close> blocks.  Identifier newtypes are strings, byte strings are lists of
  8-bit words, \<open>u128\<close> is a 128-bit word, \<open>tokio::time::Instant\<close> is a natural number and a JSON
  value is its text.  Fields carry a prefix that names their record.  Values the code takes from
  \<open>nanoid!()\<close> or the system clock are arguments.
\<close>

type_synonym u128 = "128 word"
type_synonym bytes = "8 word list"
type_synonym instant = nat

type_synonym executor_id = string
type_synonym container_id = string
type_synonym function_call_id = string
type_synonym sandbox_id = string
type_synonym container_pool_id = string
type_synonym request_ctx_key = string
type_synonym json_value = string

section \<open>Payloads, calls and runs\<close>

record data_payload =
  pay_id :: string
  pay_path :: string
  pay_metadata_size :: u64
  pay_offset :: u64
  pay_size :: u64
  pay_sha256_hash :: string
  pay_encoding :: string

definition data_size :: "data_payload \<Rightarrow> u64" where
  "data_size self = pay_size self - pay_metadata_size self"

definition data_offset :: "data_payload \<Rightarrow> u64" where
  "data_offset self = pay_offset self + pay_metadata_size self"

definition data_range :: "data_payload \<Rightarrow> u64 \<times> u64" where
  "data_range self = (let offset = data_offset self in (offset, offset + data_size self))"

definition full_range :: "data_payload \<Rightarrow> u64 \<times> u64" where
  "full_range self = (pay_offset self, pay_offset self + pay_size self)"

record input_args =
  ia_function_call_id :: "function_call_id option"
  ia_data_payload :: data_payload

datatype function_args =
    FunctionRunOutput function_call_id
  | DataPayloadArg data_payload

record function_call =
  call_function_call_id :: function_call_id
  call_inputs :: "function_args list"
  call_fn_name :: string
  call_call_metadata :: bytes
  call_parent_function_call_id :: "function_call_id option"

record reduce_operation =
  red_function_call_id :: function_call_id
  red_collection :: "function_args list"
  red_fn_name :: string
  red_call_metadata :: bytes

datatype compute_op = Reduce reduce_operation | FunctionCallOp function_call

record graph_updates =
  gu_graph_updates :: "compute_op list"
  gu_output_function_call_id :: function_call_id

record function_run =
  run_id :: function_call_id
  run_request_id :: string
  run_namespace :: string
  run_application :: string
  run_version :: string
  run_name :: string
  run_compute_op :: compute_op
  run_input_args :: "input_args list"
  run_child_function_call :: "function_call_id option"
  run_output :: "data_payload option"
  run_status :: function_run_status
  run_cache_hit :: bool
  run_outcome :: "function_run_outcome option"
  run_attempt_number :: u32
  run_creation_time_ns :: u128
  run_created_at_clock :: "u64 option"
  run_updated_at_clock :: "u64 option"
  run_call_metadata :: bytes
  run_request_error :: "data_payload option"

record allocation_target =
  target_executor_id :: executor_id
  target_container_id :: container_id

record allocation =
  al_id :: allocation_id
  al_target :: allocation_target
  al_function_call_id :: function_call_id
  al_namespace :: string
  al_application :: string
  al_application_version :: string
  al_function :: string
  al_request_id :: string
  al_created_at :: u128
  al_outcome :: function_run_outcome
  al_attempt_number :: u32
  al_execution_duration_ms :: "u64 option"
  al_input_args :: "input_args list"
  al_vector_clock :: u64
  al_call_metadata :: bytes

definition allocation_is_terminal :: "allocation \<Rightarrow> bool" where
  "allocation_is_terminal self =
     (case al_outcome self of
        FunctionRunSuccess \<Rightarrow> True
      | FunctionRunFailure _ \<Rightarrow> True
      | FunctionRunUnknown \<Rightarrow> False)"

type_synonym function_run_key = string

definition run_key :: "function_run \<Rightarrow> function_run_key" where
  "run_key self =
     run_namespace self @ ''|'' @ run_application self @ ''|'' @ run_request_id self @ ''|'' @
     run_id self"

definition function_run_key_of_allocation :: "allocation \<Rightarrow> function_run_key" where
  "function_run_key_of_allocation allocation =
     al_namespace allocation @ ''|'' @ al_application allocation @ ''|'' @
     al_request_id allocation @ ''|'' @ al_function_call_id allocation"

definition allocation_key :: "allocation \<Rightarrow> string" where
  "allocation_key self =
     al_namespace self @ ''|'' @ al_application self @ ''|'' @ al_request_id self @ ''|'' @ al_id self"

definition run_is_new :: "function_run \<Rightarrow> bool" where
  "run_is_new self = (run_created_at_clock self = None)"

definition run_prepare_for_persistence :: "function_run \<Rightarrow> u64 \<Rightarrow> function_run" where
  "run_prepare_for_persistence self clock =
     (let self = (if run_created_at_clock self = None
                  then self\<lparr>run_created_at_clock := Some clock\<rparr> else self)
      in self\<lparr>run_updated_at_clock := Some clock\<rparr>)"

section \<open>Functions and applications\<close>

record function_retry_policy =
  retry_max_retries :: u32
  retry_initial_delay_ms :: u32
  retry_max_delay_ms :: u32
  retry_delay_multiplier :: u32

definition default_function_retry_policy :: function_retry_policy where
  "default_function_retry_policy =
     \<lparr>retry_max_retries = 0, retry_initial_delay_ms = 1000, retry_max_delay_ms = 1000,
      retry_delay_multiplier = 1000\<rparr>"

definition default_node_timeout_ms :: u32 where
  "default_node_timeout_ms = 5 * 60 * 1000"

record parameter_metadata =
  param_name :: string
  param_description :: "string option"
  param_required :: bool
  param_data_type :: json_value

record app_function =
  fn_name :: string
  fn_description :: string
  fn_placement_constraints :: labels_filter
  fn_input_encoder :: string
  fn_output_encoder :: string
  fn_secret_names :: "string list option"
  fn_initialization_timeout :: u32
  fn_timeout :: u32
  fn_resources :: function_resources
  fn_retry_policy :: function_retry_policy
  fn_cache_key :: "string option"
  fn_parameters :: "parameter_metadata list"
  fn_return_type :: "json_value option"
  fn_max_concurrency :: u32
  fn_min_containers :: "u32 option"
  fn_max_containers :: "u32 option"
  fn_warm_containers :: "u32 option"

definition create_function_call ::
  "app_function \<Rightarrow> function_call_id \<Rightarrow> data_payload list \<Rightarrow> bytes \<Rightarrow> function_call_id option
   \<Rightarrow> function_call" where
  "create_function_call self function_call_id inputs call_metadata parent_function_call_id =
     \<lparr>call_function_call_id = function_call_id,
      call_inputs = map DataPayloadArg inputs,
      call_fn_name = fn_name self,
      call_call_metadata = call_metadata,
      call_parent_function_call_id = parent_function_call_id\<rparr>"

datatype application_state = AppActive | AppDisabled string

definition as_disabled :: "application_state \<Rightarrow> string option" where
  "as_disabled self = (case self of AppActive \<Rightarrow> None | AppDisabled reason \<Rightarrow> Some reason)"

record application_entry_point =
  ep_function_name :: string
  ep_input_serializer :: string
  ep_inputs_base64 :: string
  ep_output_serializer :: string
  ep_output_type_hints_base64 :: string

record application =
  app_namespace :: string
  app_name :: string
  app_tombstoned :: bool
  app_description :: string
  app_tags :: "string \<rightharpoonup> string"
  app_created_at :: u64
  app_version :: string
  app_code :: "data_payload option"
  app_functions :: "string \<rightharpoonup> app_function"
  app_state :: application_state
  app_created_at_clock :: "u64 option"
  app_updated_at_clock :: "u64 option"
  app_entrypoint :: "application_entry_point option"

record application_version =
  ver_namespace :: string
  ver_name :: string
  ver_created_at :: u64
  ver_version :: string
  ver_code :: "data_payload option"
  ver_entrypoint :: "application_entry_point option"
  ver_functions :: "string \<rightharpoonup> app_function"
  ver_edges :: "string \<rightharpoonup> string list"
  ver_state :: application_state
  ver_created_at_clock :: "u64 option"
  ver_updated_at_clock :: "u64 option"

definition app_prepare_for_persistence :: "application \<Rightarrow> u64 \<Rightarrow> application" where
  "app_prepare_for_persistence self clock =
     (let self = (if app_created_at_clock self = None
                  then self\<lparr>app_created_at_clock := Some clock\<rparr> else self)
      in self\<lparr>app_updated_at_clock := Some clock\<rparr>)"

definition app_update :: "application \<Rightarrow> application \<Rightarrow> application" where
  "app_update self update =
     self\<lparr>app_version := app_version update,
          app_code := app_code update,
          app_functions := app_functions update,
          app_description := app_description update,
          app_tags := app_tags update,
          app_entrypoint := app_entrypoint update,
          app_state := app_state update\<rparr>"

definition to_version :: "application \<Rightarrow> application_version" where
  "to_version self =
     \<lparr>ver_namespace = app_namespace self,
      ver_name = app_name self,
      ver_created_at = app_created_at self,
      ver_version = app_version self,
      ver_code = app_code self,
      ver_entrypoint = app_entrypoint self,
      ver_functions = app_functions self,
      ver_edges = Map.empty,
      ver_state = app_state self,
      ver_created_at_clock = None,
      ver_updated_at_clock = None\<rparr>"

definition ver_prepare_for_persistence :: "application_version \<Rightarrow> u64 \<Rightarrow> application_version" where
  "ver_prepare_for_persistence self clock =
     (let self = (if ver_created_at_clock self = None
                  then self\<lparr>ver_created_at_clock := Some clock\<rparr> else self)
      in self\<lparr>ver_updated_at_clock := Some clock\<rparr>)"

text \<open>\<open>now\<close> is the value of \<open>get_epoch_time_in_ns()\<close>.\<close>

definition create_function_run ::
  "application_version \<Rightarrow> u128 \<Rightarrow> function_call \<Rightarrow> input_args list \<Rightarrow> string \<Rightarrow> function_run" where
  "create_function_run self now fn_call input_args request_id =
     \<lparr>run_id = call_function_call_id fn_call,
      run_request_id = request_id,
      run_namespace = ver_namespace self,
      run_application = ver_name self,
      run_version = ver_version self,
      run_name = call_fn_name fn_call,
      run_compute_op = FunctionCallOp
        \<lparr>call_function_call_id = call_function_call_id fn_call,
         call_inputs = call_inputs fn_call,
         call_fn_name = call_fn_name fn_call,
         call_call_metadata = call_call_metadata fn_call,
         call_parent_function_call_id = call_parent_function_call_id fn_call\<rparr>,
      run_input_args = input_args,
      run_child_function_call = None,
      run_output = None,
      run_status = Pending,
      run_cache_hit = False,
      run_outcome = None,
      run_attempt_number = 0,
      run_creation_time_ns = now,
      run_created_at_clock = None,
      run_updated_at_clock = None,
      run_call_metadata = call_call_metadata fn_call,
      run_request_error = None\<rparr>"

definition function_run_max_retries :: "application_version \<Rightarrow> function_run \<Rightarrow> u32 option" where
  "function_run_max_retries self fn_run =
     map_option (\<lambda>func. retry_max_retries (fn_retry_policy func))
       (ver_functions self (run_name fn_run))"

section \<open>Requests\<close>

record request_error =
  rerr_function_name :: string
  rerr_payload :: data_payload

text \<open>
  \<open>child_function_calls\<close> is never filled by the code, which sets it to the empty map at every
  construction; the record leaves it out.
\<close>

record request_ctx =
  req_namespace :: string
  req_application_name :: string
  req_application_version :: string
  req_request_id :: string
  req_outcome :: "request_outcome option"
  req_created_at :: u64
  req_request_error :: "request_error option"
  req_created_at_clock :: "u64 option"
  req_updated_at_clock :: "u64 option"
  req_function_runs :: "function_call_id \<rightharpoonup> function_run"
  req_function_calls :: "function_call_id \<rightharpoonup> function_call"

definition request_ctx_key_new :: "string \<Rightarrow> string \<Rightarrow> string \<Rightarrow> request_ctx_key" where
  "request_ctx_key_new namespace application_name request_id =
     namespace @ ''|'' @ application_name @ ''|'' @ request_id"

definition req_key :: "request_ctx \<Rightarrow> request_ctx_key" where
  "req_key self =
     req_namespace self @ ''|'' @ req_application_name self @ ''|'' @ req_request_id self"

definition request_ctx_key_of_run :: "function_run \<Rightarrow> request_ctx_key" where
  "request_ctx_key_of_run function_run =
     run_namespace function_run @ ''|'' @ run_application function_run @ ''|'' @
     run_request_id function_run"

definition pending_function_calls :: "request_ctx \<Rightarrow> function_call_id set" where
  "pending_function_calls self = dom (req_function_calls self) - dom (req_function_runs self)"

definition is_request_completed :: "request_ctx \<Rightarrow> bool" where
  "is_request_completed self =
     (if req_outcome self \<noteq> None then True
      else if card (dom (req_function_calls self)) \<noteq> card (dom (req_function_runs self)) then False
      else (\<forall>function_run \<in> ran (req_function_runs self). run_status function_run = Completed))"

definition req_prepare_for_persistence :: "request_ctx \<Rightarrow> u64 \<Rightarrow> request_ctx" where
  "req_prepare_for_persistence self clock =
     (let self = (if req_created_at_clock self = None
                  then self\<lparr>req_created_at_clock := Some clock\<rparr> else self);
          self = self\<lparr>req_updated_at_clock := Some clock\<rparr>
      in self\<lparr>req_function_runs := map_option (\<lambda>function_run.
               run_prepare_for_persistence function_run clock) \<circ> req_function_runs self\<rparr>)"

record persisted_request_ctx =
  preq_namespace :: string
  preq_application_name :: string
  preq_application_version :: string
  preq_request_id :: string
  preq_outcome :: "request_outcome option"
  preq_created_at :: u64
  preq_request_error :: "request_error option"
  preq_created_at_clock :: "u64 option"
  preq_updated_at_clock :: "u64 option"
  preq_function_runs_count :: nat
  preq_function_calls_count :: nat

definition persisted_from :: "request_ctx \<Rightarrow> persisted_request_ctx" where
  "persisted_from ctx =
     \<lparr>preq_namespace = req_namespace ctx,
      preq_application_name = req_application_name ctx,
      preq_application_version = req_application_version ctx,
      preq_request_id = req_request_id ctx,
      preq_outcome = req_outcome ctx,
      preq_created_at = req_created_at ctx,
      preq_request_error = req_request_error ctx,
      preq_created_at_clock = req_created_at_clock ctx,
      preq_updated_at_clock = req_updated_at_clock ctx,
      preq_function_runs_count = card (dom (req_function_runs ctx)),
      preq_function_calls_count = card (dom (req_function_calls ctx))\<rparr>"

definition from_persisted ::
  "persisted_request_ctx \<Rightarrow> (function_call_id \<rightharpoonup> function_run) \<Rightarrow>
   (function_call_id \<rightharpoonup> function_call) \<Rightarrow> request_ctx" where
  "from_persisted persisted function_runs function_calls =
     \<lparr>req_namespace = preq_namespace persisted,
      req_application_name = preq_application_name persisted,
      req_application_version = preq_application_version persisted,
      req_request_id = preq_request_id persisted,
      req_outcome = preq_outcome persisted,
      req_created_at = preq_created_at persisted,
      req_request_error = preq_request_error persisted,
      req_created_at_clock = preq_created_at_clock persisted,
      req_updated_at_clock = preq_updated_at_clock persisted,
      req_function_runs = function_runs,
      req_function_calls = function_calls\<rparr>"

section \<open>Function URIs\<close>

record function_uri =
  uri_namespace :: string
  uri_application :: string
  uri_function :: string
  uri_version :: string

definition uri_from_allocation :: "allocation \<Rightarrow> function_uri" where
  "uri_from_allocation allocation =
     \<lparr>uri_namespace = al_namespace allocation, uri_application = al_application allocation,
      uri_function = al_function allocation, uri_version = al_application_version allocation\<rparr>"

definition uri_from_run :: "function_run \<Rightarrow> function_uri" where
  "uri_from_run function_run =
     \<lparr>uri_namespace = run_namespace function_run, uri_application = run_application function_run,
      uri_function = run_name function_run, uri_version = run_version function_run\<rparr>"

section \<open>Containers, pools and executors\<close>

record network_policy =
  np_allow_internet_access :: bool
  np_allow_out :: "string list"
  np_deny_out :: "string list"

text \<open>\<open>ContainerPoolKey\<close>: the namespace and the pool id.\<close>

type_synonym container_pool_key = "string \<times> container_pool_id"

definition container_pool_key_new :: "string \<Rightarrow> container_pool_id \<Rightarrow> container_pool_key" where
  "container_pool_key_new namespace pool_id = (namespace, pool_id)"

definition pool_id_for_function :: "string \<Rightarrow> string \<Rightarrow> string \<Rightarrow> container_pool_id" where
  "pool_id_for_function app function version = app @ ''|'' @ function @ ''|'' @ version"

record container =
  ct_id :: container_id
  ct_namespace :: string
  ct_application_name :: string
  ct_function_name :: string
  ct_version :: string
  ct_state :: container_state
  ct_resources :: container_resources
  ct_max_concurrency :: u32
  ct_container_type :: container_type
  ct_image :: "string option"
  ct_secret_names :: "string list"
  ct_timeout_secs :: u64
  ct_entrypoint :: "string list"
  ct_network_policy :: "network_policy option"
  ct_sandbox_id :: "sandbox_id option"
  ct_pool_id :: "container_pool_id option"
  ct_snapshot_uri :: "string option"
  ct_created_at_clock :: "u64 option"
  ct_updated_at_clock :: "u64 option"

definition ct_update :: "container \<Rightarrow> container \<Rightarrow> container" where
  "ct_update self other = self\<lparr>ct_state := ct_state other\<rparr>"

definition ct_pool_key :: "container \<Rightarrow> container_pool_key option" where
  "ct_pool_key self = map_option (container_pool_key_new (ct_namespace self)) (ct_pool_id self)"

definition uri_from_container :: "container \<Rightarrow> function_uri" where
  "uri_from_container fe =
     \<lparr>uri_namespace = ct_namespace fe, uri_application = ct_application_name fe,
      uri_function = ct_function_name fe, uri_version = ct_version fe\<rparr>"

record container_server_metadata =
  csm_executor_id :: executor_id
  csm_function_container :: container
  csm_desired_state :: container_state
  csm_container_type :: container_type
  csm_allocations :: "allocation_id set"
  csm_idle_since :: "instant option"

text \<open>\<open>now\<close> is the value of \<open>tokio::time::Instant::now()\<close>.\<close>

definition csm_new ::
  "instant \<Rightarrow> executor_id \<Rightarrow> container \<Rightarrow> container_state \<Rightarrow> container_server_metadata" where
  "csm_new now executor_id function_executor desired_state =
     \<lparr>csm_executor_id = executor_id,
      csm_function_container = function_executor,
      csm_desired_state = desired_state,
      csm_container_type = ct_container_type function_executor,
      csm_allocations = {},
      csm_idle_since = Some now\<rparr>"

definition can_be_removed :: "container_server_metadata \<Rightarrow> bool" where
  "can_be_removed self = (csm_container_type self = FunctionContainer \<and> csm_allocations self = {})"

definition uri_from_csm :: "container_server_metadata \<Rightarrow> function_uri" where
  "uri_from_csm fe_meta =
     \<lparr>uri_namespace = ct_namespace (csm_function_container fe_meta),
      uri_application = ct_application_name (csm_function_container fe_meta),
      uri_function = ct_function_name (csm_function_container fe_meta),
      uri_version = ct_version (csm_function_container fe_meta)\<rparr>"

record function_allowlist =
  allow_namespace :: "string option"
  allow_application :: "string option"
  allow_function :: "string option"

definition matches_function :: "function_allowlist \<Rightarrow> string \<Rightarrow> string \<Rightarrow> app_function \<Rightarrow> bool" where
  "matches_function self ns app function =
     ((case allow_namespace self of None \<Rightarrow> True | Some namespace \<Rightarrow> namespace = ns) \<and>
      (case allow_application self of None \<Rightarrow> True | Some application \<Rightarrow> application = app) \<and>
      (case allow_function self of None \<Rightarrow> True | Some function_name \<Rightarrow>
         function_name = fn_name function))"

record executor_metadata =
  em_id :: executor_id
  em_executor_version :: string
  em_function_allowlist :: "function_allowlist list option"
  em_addr :: string
  em_labels :: "string \<rightharpoonup> string"
  em_containers :: "container_id \<rightharpoonup> container"
  em_host_resources :: host_resources
  em_state :: executor_state
  em_tombstoned :: bool
  em_state_hash :: string
  em_clock :: u64
  em_catalog_name :: "string option"
  em_created_at_clock :: "u64 option"
  em_updated_at_clock :: "u64 option"
  em_proxy_address :: "string option"

definition is_function_allowed :: "executor_metadata \<Rightarrow> string \<Rightarrow> string \<Rightarrow> app_function \<Rightarrow> bool" where
  "is_function_allowed self namespace application function =
     (case em_function_allowlist self of
        Some function_allowlist \<Rightarrow>
          list_ex (\<lambda>allowlist. matches_function allowlist namespace application function)
            function_allowlist
      | None \<Rightarrow> True)"

definition is_namespace_allowed :: "executor_metadata \<Rightarrow> string \<Rightarrow> bool" where
  "is_namespace_allowed self namespace =
     (case em_function_allowlist self of
        Some function_allowlist \<Rightarrow>
          list_ex (\<lambda>allowlist. case allow_namespace allowlist of
              Some ns \<Rightarrow> ns = namespace
            | None \<Rightarrow> False) function_allowlist
      | None \<Rightarrow> True)"

definition em_update :: "executor_metadata \<Rightarrow> executor_metadata \<Rightarrow> executor_metadata" where
  "em_update self update =
     self\<lparr>em_function_allowlist := em_function_allowlist update,
          em_containers := em_containers update,
          em_state := em_state update,
          em_state_hash := em_state_hash update,
          em_clock := em_clock update,
          em_tombstoned := False\<rparr>"

record container_pool =
  pool_id :: container_pool_id
  pool_namespace :: string
  pool_pool_type :: container_pool_type
  pool_image :: string
  pool_resources :: container_resources
  pool_entrypoint :: "string list option"
  pool_network_policy :: "network_policy option"
  pool_secret_names :: "string list"
  pool_timeout_secs :: u64
  pool_min_containers :: "u32 option"
  pool_max_containers :: "u32 option"
  pool_buffer_containers :: "u32 option"
  pool_created_at :: u64
  pool_tombstoned :: bool
  pool_created_at_clock :: "u64 option"
  pool_updated_at_clock :: "u64 option"
  pool_allow_unauthenticated_access :: bool
  pool_exposed_ports :: "u16 list option"

definition default_max_containers :: u32 where
  "default_max_containers = 10"

definition is_function_pool :: "container_pool \<Rightarrow> bool" where
  "is_function_pool self = (pool_pool_type self = FunctionPool)"

definition pool_key :: "container_pool \<Rightarrow> container_pool_key" where
  "pool_key self = container_pool_key_new (pool_namespace self) (pool_id self)"

datatype pool_error =
    MinExceedsMax u32 u32
  | BufferExceedsMax u32 u32
  | ImageRequired
  | CpuZero
  | MemoryZero

definition pool_validate :: "container_pool \<Rightarrow> pool_error + unit" where
  "pool_validate self =
     (let min = unwrap_or (pool_min_containers self) 0;
          max = unwrap_or (pool_max_containers self) u32_max;
          buffer = unwrap_or (pool_buffer_containers self) 0
      in if max < min then Err (MinExceedsMax min max)
         else if max < buffer then Err (BufferExceedsMax buffer max)
         else if pool_image self = [] \<and> \<not> is_function_pool self then Err ImageRequired
         else if cres_cpu_ms_per_sec (pool_resources self) = 0 then Err CpuZero
         else if cres_memory_mb (pool_resources self) = 0 then Err MemoryZero
         else Ok ())"

text \<open>\<open>now\<close> is the builder's default for \<open>created_at\<close>, \<open>get_epoch_time_in_ms()\<close>.\<close>

definition pool_from_function ::
  "u64 \<Rightarrow> string \<Rightarrow> string \<Rightarrow> string \<Rightarrow> app_function \<Rightarrow> container_pool" where
  "pool_from_function now namespace application version function =
     \<lparr>pool_id = pool_id_for_function application (fn_name function) version,
      pool_namespace = namespace,
      pool_pool_type = FunctionPool,
      pool_image = [],
      pool_resources =
        \<lparr>cres_cpu_ms_per_sec = fres_cpu_ms_per_sec (fn_resources function),
         cres_memory_mb = fres_memory_mb (fn_resources function),
         cres_ephemeral_disk_mb = fres_ephemeral_disk_mb (fn_resources function),
         cres_gpu = (case fres_gpu_configs (fn_resources function) of
                       [] \<Rightarrow> None | gpu # _ \<Rightarrow> Some gpu)\<rparr>,
      pool_entrypoint = None,
      pool_network_policy = None,
      pool_secret_names = unwrap_or (fn_secret_names function) [],
      pool_timeout_secs = ucast (fn_timeout function div 1000),
      pool_min_containers = fn_min_containers function,
      pool_max_containers = Some (unwrap_or (fn_max_containers function) default_max_containers),
      pool_buffer_containers = fn_warm_containers function,
      pool_created_at = now,
      pool_tombstoned = False,
      pool_created_at_clock = None,
      pool_updated_at_clock = None,
      pool_allow_unauthenticated_access = False,
      pool_exposed_ports = None\<rparr>"

definition pool_prepare_for_persistence :: "container_pool \<Rightarrow> u64 \<Rightarrow> container_pool" where
  "pool_prepare_for_persistence self clock =
     (let self = (if pool_created_at_clock self = None
                  then self\<lparr>pool_created_at_clock := Some clock\<rparr> else self)
      in self\<lparr>pool_updated_at_clock := Some clock\<rparr>)"

section \<open>Sandboxes and snapshots\<close>

record sandbox =
  sbx_id :: sandbox_id
  sbx_namespace :: string
  sbx_image :: string
  sbx_status :: sandbox_status
  sbx_outcome :: "sandbox_outcome option"
  sbx_creation_time_ns :: u128
  sbx_created_at_clock :: "u64 option"
  sbx_updated_at_clock :: "u64 option"
  sbx_resources :: container_resources
  sbx_secret_names :: "string list"
  sbx_timeout_secs :: u64
  sbx_allow_unauthenticated_access :: bool
  sbx_executor_id :: "executor_id option"
  sbx_entrypoint :: "string list option"
  sbx_network_policy :: "network_policy option"
  sbx_pool_id :: "container_pool_id option"
  sbx_container_id :: "container_id option"
  sbx_snapshot_id :: "snapshot_id option"
  sbx_exposed_ports :: "u16 list option"

type_synonym sandbox_key = string

definition sandbox_key_new :: "string \<Rightarrow> string \<Rightarrow> sandbox_key" where
  "sandbox_key_new namespace sandbox_id = namespace @ ''|'' @ sandbox_id"

definition sandbox_key_from_sandbox :: "sandbox \<Rightarrow> sandbox_key" where
  "sandbox_key_from_sandbox sandbox = sandbox_key_new (sbx_namespace sandbox) (sbx_id sandbox)"

definition nth_part :: "nat \<Rightarrow> string list \<Rightarrow> string" where
  "nth_part n parts = (if n < length parts then parts ! n else [])"

definition sandbox_key_namespace :: "sandbox_key \<Rightarrow> string" where
  "sandbox_key_namespace self = nth_part 0 (split_str ''|'' self)"

definition sandbox_key_sandbox_id :: "sandbox_key \<Rightarrow> string" where
  "sandbox_key_sandbox_id self = nth_part 1 (split_str ''|'' self)"

definition sbx_has_scheduled :: "sandbox \<Rightarrow> bool" where
  "sbx_has_scheduled self = (sbx_container_id self \<noteq> None)"

definition sbx_prepare_for_persistence :: "sandbox \<Rightarrow> u64 \<Rightarrow> sandbox" where
  "sbx_prepare_for_persistence self clock =
     (let self = (if sbx_created_at_clock self = None
                  then self\<lparr>sbx_created_at_clock := Some clock\<rparr> else self)
      in self\<lparr>sbx_updated_at_clock := Some clock\<rparr>)"

record snapshot =
  snap_id :: snapshot_id
  snap_namespace :: string
  snap_sandbox_id :: sandbox_id
  snap_base_image :: string
  snap_status :: snapshot_status
  snap_snapshot_uri :: "string option"
  snap_size_bytes :: "u64 option"
  snap_creation_time_ns :: u128
  snap_resources :: container_resources
  snap_entrypoint :: "string list option"
  snap_secret_names :: "string list"
  snap_upload_uri :: "string option"

definition snapshot_key :: "snapshot \<Rightarrow> string" where
  "snapshot_key snapshot = snap_namespace snapshot @ ''|'' @ snap_id snapshot"

end
