(* ===== verification/ExecutorClasses.thy ===== *)
theory ExecutorClasses
  imports DataModel
begin

text \<open>
  \<open>ExecutorClass\<close> of \<open>crates/server/src/scheduler/executor_class.rs\<close>: the labels and the sorted
  allowlist of an executor, used as the key of the feasibility cache, and the constraint check
  whose result the class is meant to determine
  (\<open>ContainerScheduler::executor_matches_constraints\<close>).
\<close>

section \<open>The derived order on allowlist entries\<close>

text \<open>
  \<open>#[derive(PartialOrd, Ord)]\<close> compares the three optional strings in order, \<open>None\<close> first.
\<close>

definition allowlist_key ::
  "'a function_allowlist_scheme \<Rightarrow> string option \<times> string option \<times> string option \<times> 'a" where
  "allowlist_key x =
     (allow_namespace x, allow_application x, allow_function x, function_allowlist.more x)"

lemma allowlist_key_inject: "allowlist_key x = allowlist_key y \<longleftrightarrow> x = y"
  by (cases x; cases y) (simp add: allowlist_key_def)

instantiation function_allowlist_ext :: (linorder) linorder
begin

definition less_eq_function_allowlist_ext ::
  "'a function_allowlist_ext \<Rightarrow> 'a function_allowlist_ext \<Rightarrow> bool" where
  "less_eq_function_allowlist_ext x y \<longleftrightarrow> allowlist_key x \<le> allowlist_key y"

definition less_function_allowlist_ext ::
  "'a function_allowlist_ext \<Rightarrow> 'a function_allowlist_ext \<Rightarrow> bool" where
  "less_function_allowlist_ext x y \<longleftrightarrow> allowlist_key x < allowlist_key y"

instance
  by standard
    (auto simp: less_eq_function_allowlist_ext_def less_function_allowlist_ext_def
      simp flip: allowlist_key_inject)

end

section \<open>Classes\<close>

record executor_class =
  cls_labels :: "string \<rightharpoonup> string"
  cls_allowlist :: "function_allowlist list option"

definition class_from_executor :: "executor_metadata \<Rightarrow> executor_class" where
  "class_from_executor executor =
     \<lparr>cls_labels = em_labels executor,
      cls_allowlist = map_option sort (em_function_allowlist executor)\<rparr>"

definition executor_matches_constraints ::
  "executor_metadata \<Rightarrow> string \<Rightarrow> string \<Rightarrow> app_function option \<Rightarrow> bool" where
  "executor_matches_constraints executor namespace application function =
     (if em_tombstoned executor then False
      else case function of
             Some func \<Rightarrow>
               if \<not> is_function_allowed executor namespace application func then False
               else if \<not> labels_filter_matches (fn_placement_constraints func) (em_labels executor)
               then False
               else True
           | None \<Rightarrow>
               if \<not> is_namespace_allowed executor namespace then False else True)"

section \<open>Lemmas\<close>

text \<open>The answer of the check, read off the class of an executor that is not tombstoned.\<close>

definition class_matches ::
  "executor_class \<Rightarrow> string \<Rightarrow> string \<Rightarrow> app_function option \<Rightarrow> bool" where
  "class_matches class namespace application function =
     (case function of
        Some func \<Rightarrow>
          (case cls_allowlist class of
             None \<Rightarrow> True
           | Some allowed \<Rightarrow> \<exists>a \<in> set allowed. matches_function a namespace application func) \<and>
          labels_filter_matches (fn_placement_constraints func) (cls_labels class)
      | None \<Rightarrow>
          (case cls_allowlist class of
             None \<Rightarrow> True
           | Some allowed \<Rightarrow> \<exists>a \<in> set allowed. allow_namespace a = Some namespace))"

lemma executor_matches_class:
  "executor_matches_constraints executor namespace application function \<longleftrightarrow>
     \<not> em_tombstoned executor \<and>
     class_matches (class_from_executor executor) namespace application function"
  by (auto simp: executor_matches_constraints_def class_matches_def class_from_executor_def
      is_function_allowed_def is_namespace_allowed_def list_ex_iff split: option.splits)

section \<open>Properties\<close>

text \<open>
  Executors of one class are interchangeable for constraint checks.  Two live executors with
  the same computed class give the same answer for every function and every sandbox namespace,
  which is what lets the placement code evaluate one of them and cache the result for the class.
\<close>

theorem same_class_same_constraints:
  assumes "class_from_executor e1 = class_from_executor e2"
    and "em_tombstoned e1 = em_tombstoned e2"
  shows "executor_matches_constraints e1 namespace application function =
         executor_matches_constraints e2 namespace application function"
  using assms by (simp add: executor_matches_class)

definition example_executor ::
  "executor_id \<Rightarrow> function_allowlist list option \<Rightarrow> executor_metadata" where
  "example_executor executor_id allowlist =
     \<lparr>em_id = executor_id, em_executor_version = ''0.3.0'', em_function_allowlist = allowlist,
      em_addr = ''127.0.0.1:8080'', em_labels = [''zone'' \<mapsto> ''east''], em_containers = Map.empty,
      em_host_resources = \<lparr>host_cpu_ms_per_sec = 4000, host_memory_bytes = 8589934592,
        host_disk_bytes = 8589934592, host_gpu = None\<rparr>,
      em_state = ES_Running, em_tombstoned = False, em_state_hash = [], em_clock = 0,
      em_catalog_name = None, em_created_at_clock = None, em_updated_at_clock = None,
      em_proxy_address = None\<rparr>"

definition example_allow :: "string \<Rightarrow> function_allowlist" where
  "example_allow ns = \<lparr>allow_namespace = Some ns, allow_application = None, allow_function = None\<rparr>"

lemma example_allow_order:
  "example_allow x \<le> example_allow y \<longleftrightarrow> x \<le> y"
  by (auto simp: example_allow_def less_eq_function_allowlist_ext_def allowlist_key_def)

theorem same_class_same_constraints_witness:
  "let e1 = example_executor ''e1'' (Some [example_allow ''a'', example_allow ''b'']);
       e2 = example_executor ''e2'' (Some [example_allow ''b'', example_allow ''a'']) in
   executor_matches_constraints e1 ''b'' ''app'' None = executor_matches_constraints e2 ''b'' ''app'' None \<and>
   executor_matches_constraints e2 ''b'' ''app'' None"
proof -
  let ?e1 = "example_executor ''e1'' (Some [example_allow ''a'', example_allow ''b''])"
  let ?e2 = "example_executor ''e2'' (Some [example_allow ''b'', example_allow ''a''])"
  have "class_from_executor ?e1 = class_from_executor ?e2" "em_tombstoned ?e1 = em_tombstoned ?e2"
    by (simp_all add: class_from_executor_def example_executor_def example_allow_order)
  from same_class_same_constraints [OF this, of "''b''" "''app''" None] show ?thesis
    by (simp add: executor_matches_constraints_def is_namespace_allowed_def example_executor_def
        example_allow_def)
qed

text \<open>
  The two kinds of allowlist check read a missing namespace differently.  An entry without a
  namespace admits functions of every namespace, and admits no sandbox of any namespace.
\<close>

theorem allowlist_without_namespace:
  "executor_matches_constraints (example_executor e (Some [\<lparr>allow_namespace = None,
     allow_application = None, allow_function = None\<rparr>])) namespace application (Some func) =
     labels_filter_matches (fn_placement_constraints func) [''zone'' \<mapsto> ''east''] \<and>
   \<not> executor_matches_constraints (example_executor e (Some [\<lparr>allow_namespace = None,
     allow_application = None, allow_function = None\<rparr>])) namespace application None"
  by (simp add: executor_matches_constraints_def is_function_allowed_def is_namespace_allowed_def
      matches_function_def example_executor_def)

end
