(* ===== verification/BlockedWork.thy ===== *)
theory BlockedWork
  imports ExecutorClasses
begin

text \<open>
  \<open>BlockedWorkTracker\<close> of \<open>crates/server/src/scheduler/blocked.rs\<close>: work that could not be placed,
  indexed by the executor classes that could run it, and the budgeted unblocking when capacity
  appears.

  The tracker keeps the same three maps for sandboxes and for function runs and treats them by the
  same code; \<open>blocked_index\<close> is one such triple, and the operations on it are the bodies of the
  \<open>_sandbox\<close> and \<open>_function_run\<close> methods.  The order in which a hash set is iterated is a parameter.
\<close>

section \<open>State\<close>

record blocking_info =
  bi_eligible_classes :: "executor_class set"
  bi_escaped :: bool
  bi_memory_mb :: u64

record unblocked_work =
  uw_sandbox_keys :: "sandbox_key list"
  uw_function_run_keys :: "function_run_key list"

definition uw_is_empty :: "unblocked_work \<Rightarrow> bool" where
  "uw_is_empty self = (uw_sandbox_keys self = [] \<and> uw_function_run_keys self = [])"

record 'k blocked_index =
  bx_blocked :: "'k \<rightharpoonup> blocking_info"
  bx_by_class :: "(executor_class, 'k) index"
  bx_escaped :: "'k set"

record blocked_work_tracker =
  bt_sandboxes :: "sandbox_key blocked_index"
  bt_function_runs :: "function_run_key blocked_index"

definition empty_index :: "'k blocked_index" where
  "empty_index = \<lparr>bx_blocked = Map.empty, bx_by_class = Map.empty, bx_escaped = {}\<rparr>"

definition bt_new :: blocked_work_tracker where
  "bt_new = \<lparr>bt_sandboxes = empty_index, bt_function_runs = empty_index\<rparr>"

definition bt_is_empty :: "blocked_work_tracker \<Rightarrow> bool" where
  "bt_is_empty self =
     (bx_blocked (bt_sandboxes self) = Map.empty \<and> bx_blocked (bt_function_runs self) = Map.empty)"

section \<open>Recording and removing\<close>

text \<open>\<open>remove_sandbox_from_indexes\<close>, \<open>remove_function_run_from_indexes\<close>\<close>

definition remove_from_indexes :: "'k \<Rightarrow> 'k blocked_index \<Rightarrow> 'k blocked_index" where
  "remove_from_indexes key self =
     (case bx_blocked self key of
        Some info \<Rightarrow>
          self\<lparr>bx_by_class := idx_remove_all (bi_eligible_classes info) key (bx_by_class self)\<rparr>
      | None \<Rightarrow> self)"

text \<open>\<open>remove_sandbox\<close>, \<open>remove_function_run\<close>\<close>

definition remove_blocked :: "'k \<Rightarrow> 'k blocked_index \<Rightarrow> 'k blocked_index" where
  "remove_blocked key self =
     (let self = remove_from_indexes key self;
          self = self\<lparr>bx_blocked := (bx_blocked self)(key := None)\<rparr>
      in self\<lparr>bx_escaped := bx_escaped self - {key}\<rparr>)"

text \<open>\<open>block_sandbox\<close>, \<open>block_function_run\<close>\<close>

definition block_work :: "'k \<Rightarrow> blocking_info \<Rightarrow> 'k blocked_index \<Rightarrow> 'k blocked_index" where
  "block_work key info self =
     (let self = remove_blocked key self;
          self = (if bi_escaped info then self\<lparr>bx_escaped := insert key (bx_escaped self)\<rparr> else self);
          self = self\<lparr>bx_by_class := idx_insert_all (bi_eligible_classes info) key (bx_by_class self)\<rparr>
      in self\<lparr>bx_blocked := (bx_blocked self)(key \<mapsto> info)\<rparr>)"

definition remove_sandbox :: "sandbox_key \<Rightarrow> blocked_work_tracker \<Rightarrow> blocked_work_tracker" where
  "remove_sandbox key self = self\<lparr>bt_sandboxes := remove_blocked key (bt_sandboxes self)\<rparr>"

definition remove_function_run :: "function_run_key \<Rightarrow> blocked_work_tracker \<Rightarrow> blocked_work_tracker" where
  "remove_function_run key self = self\<lparr>bt_function_runs := remove_blocked key (bt_function_runs self)\<rparr>"

definition block_sandbox ::
  "sandbox_key \<Rightarrow> blocking_info \<Rightarrow> blocked_work_tracker \<Rightarrow> blocked_work_tracker" where
  "block_sandbox key info self = self\<lparr>bt_sandboxes := block_work key info (bt_sandboxes self)\<rparr>"

definition block_function_run ::
  "function_run_key \<Rightarrow> blocking_info \<Rightarrow> blocked_work_tracker \<Rightarrow> blocked_work_tracker" where
  "block_function_run key info self =
     self\<lparr>bt_function_runs := block_work key info (bt_function_runs self)\<rparr>"

section \<open>Unblocking within a budget\<close>

text \<open>One loop of \<open>unblock_escaped_within_budget\<close>, over the keys \<open>keys\<close> of the escaped set.\<close>

fun unblock_escaped_loop ::
  "'k list \<Rightarrow> 'k blocked_index \<Rightarrow> 'k list \<Rightarrow> u64 \<Rightarrow> 'k blocked_index \<times> 'k list \<times> u64" where
  "unblock_escaped_loop [] self work remaining = (self, work, remaining)"
| "unblock_escaped_loop (key # keys) self work remaining =
     (if remaining = 0 then (self, work, remaining)
      else let mem = unwrap_or (map_option bi_memory_mb (bx_blocked self key)) 0
           in if mem \<le> remaining
              then let self = self\<lparr>bx_escaped := bx_escaped self - {key}\<rparr>;
                       self = remove_from_indexes key self;
                       self = self\<lparr>bx_blocked := (bx_blocked self)(key := None)\<rparr>
                   in unblock_escaped_loop keys self (work @ [key]) (remaining - mem)
              else unblock_escaped_loop keys self work remaining)"

text \<open>The selection loop over the keys blocked on a class; it returns \<open>to_remove\<close>.\<close>

fun select_class_loop ::
  "('k \<rightharpoonup> blocking_info) \<Rightarrow> 'k list \<Rightarrow> 'k list \<Rightarrow> u64 \<Rightarrow> 'k list \<times> u64" where
  "select_class_loop blocked [] to_remove remaining = (to_remove, remaining)"
| "select_class_loop blocked (key # keys) to_remove remaining =
     (if remaining = 0 then (to_remove, remaining)
      else case blocked key of
             Some info \<Rightarrow>
               if bi_memory_mb info \<le> remaining
               then select_class_loop blocked keys (to_remove @ [key]) (remaining - bi_memory_mb info)
               else select_class_loop blocked keys to_remove remaining
           | None \<Rightarrow> select_class_loop blocked keys to_remove remaining)"

definition drop_selected :: "'k \<Rightarrow> 'k blocked_index \<Rightarrow> 'k blocked_index" where
  "drop_selected key self =
     (let self = remove_from_indexes key self
      in self\<lparr>bx_blocked := (bx_blocked self)(key := None)\<rparr>)"

definition unblock_class_part ::
  "('k set \<Rightarrow> 'k list) \<Rightarrow> executor_class \<Rightarrow> 'k blocked_index \<Rightarrow> 'k list \<Rightarrow> u64 \<Rightarrow>
   'k blocked_index \<times> 'k list \<times> u64" where
  "unblock_class_part ord class self work remaining =
     (case bx_by_class self class of
        Some keys \<Rightarrow>
          let (to_remove, remaining) = select_class_loop (bx_blocked self) (ord keys) [] remaining
          in (fold drop_selected to_remove self, work @ to_remove, remaining)
      | None \<Rightarrow> (self, work, remaining))"

definition unblock_for_class ::
  "(sandbox_key set \<Rightarrow> sandbox_key list) \<Rightarrow> (function_run_key set \<Rightarrow> function_run_key list) \<Rightarrow>
   executor_class \<Rightarrow> u64 \<Rightarrow> blocked_work_tracker \<Rightarrow> unblocked_work \<times> blocked_work_tracker" where
  "unblock_for_class ordS ordF class budget_mb self =
     (if bt_is_empty self \<or> budget_mb = 0
      then (\<lparr>uw_sandbox_keys = [], uw_function_run_keys = []\<rparr>, self)
      else
        let (S, sandbox_keys, remaining) =
              unblock_escaped_loop (ordS (bx_escaped (bt_sandboxes self))) (bt_sandboxes self) [] budget_mb;
            (F, function_run_keys, remaining) =
              unblock_escaped_loop (ordF (bx_escaped (bt_function_runs self))) (bt_function_runs self)
                [] remaining;
            (S, sandbox_keys, remaining) = unblock_class_part ordS class S sandbox_keys remaining;
            (F, function_run_keys, remaining) = unblock_class_part ordF class F function_run_keys remaining
        in (\<lparr>uw_sandbox_keys = sandbox_keys, uw_function_run_keys = function_run_keys\<rparr>,
            \<lparr>bt_sandboxes = S, bt_function_runs = F\<rparr>))"

definition unblock_for_freed_resources ::
  "(sandbox_key set \<Rightarrow> sandbox_key list) \<Rightarrow> (function_run_key set \<Rightarrow> function_run_key list) \<Rightarrow>
   executor_class \<Rightarrow> u64 \<Rightarrow> blocked_work_tracker \<Rightarrow> unblocked_work \<times> blocked_work_tracker" where
  "unblock_for_freed_resources ordS ordF class freed_mb self =
     (if bt_is_empty self \<or> freed_mb = 0
      then (\<lparr>uw_sandbox_keys = [], uw_function_run_keys = []\<rparr>, self)
      else
        let (S, sandbox_keys, remaining) =
              unblock_escaped_loop (ordS (bx_escaped (bt_sandboxes self))) (bt_sandboxes self) [] freed_mb;
            (F, function_run_keys, remaining) =
              unblock_escaped_loop (ordF (bx_escaped (bt_function_runs self))) (bt_function_runs self)
                [] remaining;
            (S, sandbox_keys, remaining) = unblock_class_part ordS class S sandbox_keys remaining;
            (F, function_run_keys, remaining) = unblock_class_part ordF class F function_run_keys remaining
        in (\<lparr>uw_sandbox_keys = sandbox_keys, uw_function_run_keys = function_run_keys\<rparr>,
            \<lparr>bt_sandboxes = S, bt_function_runs = F\<rparr>))"

section \<open>The indexes are determined by the blocked work\<close>

text \<open>
  A blocked item is either escaped or waits for at least one class; the class index and the
  escaped set say exactly that about the items in \<open>bx_blocked\<close>, and no class is kept with an
  empty set.
\<close>

definition info_ok :: "blocking_info \<Rightarrow> bool" where
  "info_ok info \<longleftrightarrow> bi_escaped info = (bi_eligible_classes info = {})"

definition waiting_for :: "('k \<rightharpoonup> blocking_info) \<Rightarrow> executor_class \<Rightarrow> 'k set" where
  "waiting_for blocked class =
     {k. case blocked k of None \<Rightarrow> False | Some info \<Rightarrow> class \<in> bi_eligible_classes info}"

definition escaped_in :: "('k \<rightharpoonup> blocking_info) \<Rightarrow> 'k set" where
  "escaped_in blocked = {k. case blocked k of None \<Rightarrow> False | Some info \<Rightarrow> bi_escaped info}"

definition index_ok :: "'k blocked_index \<Rightarrow> bool" where
  "index_ok h \<longleftrightarrow>
     finite (dom (bx_blocked h)) \<and> idx_tidy (bx_by_class h) \<and>
     (\<forall>info \<in> ran (bx_blocked h). info_ok info) \<and>
     (\<forall>class. idx_get (bx_by_class h) class = waiting_for (bx_blocked h) class) \<and>
     bx_escaped h = escaped_in (bx_blocked h)"

definition tracker_ok :: "blocked_work_tracker \<Rightarrow> bool" where
  "tracker_ok t \<longleftrightarrow> index_ok (bt_sandboxes t) \<and> index_ok (bt_function_runs t)"

section \<open>Lemmas\<close>

subsection \<open>Refinement: a triple behaves like the map of its blocked items\<close>

lemma waiting_for_empty [simp]: "waiting_for Map.empty class = {}"
  by (simp add: waiting_for_def)

lemma waiting_for_delete: "waiting_for (m(k := None)) class = waiting_for m class - {k}"
  by (auto simp: waiting_for_def)

lemma waiting_for_update:
  "waiting_for (m(k \<mapsto> info)) class =
     (if class \<in> bi_eligible_classes info then insert k (waiting_for m class)
      else waiting_for m class - {k})"
  by (auto simp: waiting_for_def split: option.splits)

lemma escaped_in_delete: "escaped_in (m(k := None)) = escaped_in m - {k}"
  by (auto simp: escaped_in_def)

lemma escaped_in_update:
  "escaped_in (m(k \<mapsto> info)) =
     (if bi_escaped info then insert k (escaped_in m) else escaped_in m - {k})"
  by (auto simp: escaped_in_def)

lemma index_ok_eqI:
  assumes "index_ok h" "index_ok h'" "bx_blocked h = bx_blocked h'"
  shows "h = h'"
proof -
  have "bx_by_class h = bx_by_class h'"
    using assms by (intro idx_tidy_eqI) (simp_all add: index_ok_def)
  moreover have "bx_escaped h = bx_escaped h'" using assms by (simp add: index_ok_def)
  ultimately show ?thesis using assms(3) by simp
qed

lemma index_ok_empty [simp]: "index_ok empty_index"
  by (simp add: index_ok_def empty_index_def escaped_in_def)

lemma bx_blocked_remove [simp]: "bx_blocked (remove_blocked k h) = (bx_blocked h)(k := None)"
  by (simp add: remove_blocked_def remove_from_indexes_def Let_def split: option.splits)

lemma bx_blocked_block [simp]: "bx_blocked (block_work k info h) = (bx_blocked h)(k \<mapsto> info)"
  by (simp add: block_work_def Let_def)

lemma remove_blocked_None:
  "bx_blocked h k = None \<Longrightarrow> index_ok h \<Longrightarrow> remove_blocked k h = h"
  by (simp add: remove_blocked_def remove_from_indexes_def index_ok_def escaped_in_def fun_upd_idem)

lemma index_ok_remove:
  assumes "index_ok h"
  shows "index_ok (remove_blocked k h)"
proof (cases "bx_blocked h k")
  case None
  with assms show ?thesis by (simp add: remove_blocked_None)
next
  case (Some info)
  have "idx_get (idx_remove_all (bi_eligible_classes info) k (bx_by_class h)) class =
      waiting_for ((bx_blocked h)(k := None)) class" for "class"
    using assms Some by (auto simp: index_ok_def waiting_for_delete) (auto simp: waiting_for_def)
  then show ?thesis
    using assms Some
    by (auto simp: index_ok_def remove_blocked_def remove_from_indexes_def Let_def escaped_in_delete
        ran_def)
qed

lemma index_ok_block:
  assumes "index_ok h" "info_ok info"
  shows "index_ok (block_work k info h)"
proof -
  let ?h = "remove_blocked k h"
  have ok: "index_ok ?h" using assms(1) by (rule index_ok_remove)
  have "idx_get (idx_insert_all (bi_eligible_classes info) k (bx_by_class ?h)) class =
      waiting_for ((bx_blocked h)(k \<mapsto> info)) class" for "class"
    using ok by (simp add: index_ok_def waiting_for_update waiting_for_delete)
  moreover have "escaped_in ((bx_blocked h)(k \<mapsto> info)) =
      (if bi_escaped info then insert k (bx_escaped ?h) else bx_escaped ?h)"
    using ok by (auto simp: index_ok_def escaped_in_update escaped_in_delete)
  moreover have "block_work k info h =
      \<lparr>bx_blocked = (bx_blocked h)(k \<mapsto> info),
       bx_by_class = idx_insert_all (bi_eligible_classes info) k (bx_by_class ?h),
       bx_escaped = (if bi_escaped info then insert k (bx_escaped ?h) else bx_escaped ?h)\<rparr>"
    by (simp add: block_work_def Let_def)
  moreover have "\<forall>i \<in> ran ((bx_blocked h)(k \<mapsto> info)). info_ok i"
    using assms by (auto simp: index_ok_def ran_def)
  ultimately show ?thesis using ok by (simp add: index_ok_def)
qed

text \<open>
  The interface the unblocking loops use: items can be taken out one by one, each removal takes out
  that item only and keeps the invariant.
\<close>

locale removable_work =
  fixes ok :: "'s \<Rightarrow> bool"
    and items :: "'s \<Rightarrow> ('k \<rightharpoonup> 'i)"
    and remove :: "'k \<Rightarrow> 's \<Rightarrow> 's"
  assumes ok_remove: "ok s \<Longrightarrow> ok (remove k s)"
    and items_remove: "items (remove k s) = (items s)(k := None)"
begin

lemma ok_fold: "ok s \<Longrightarrow> ok (fold remove ks s)"
  by (induction ks arbitrary: s) (simp_all add: ok_remove)

lemma items_fold: "items (fold remove ks s) = (items s) |` (- set ks)"
proof (induction ks arbitrary: s)
  case (Cons k ks)
  then show ?case by (auto simp: items_remove restrict_map_def fun_eq_iff)
qed (simp add: restrict_map_def)

end

interpretation blocked: removable_work index_ok bx_blocked remove_blocked
  by unfold_locales (simp_all add: index_ok_remove)

subsection \<open>The greedy selection\<close>

text \<open>Both loops pick greedily, in iteration order, what still fits in the budget.\<close>

fun greedy :: "('k \<Rightarrow> u64) \<Rightarrow> 'k list \<Rightarrow> u64 \<Rightarrow> 'k list \<times> u64" where
  "greedy mem [] remaining = ([], remaining)"
| "greedy mem (k # ks) remaining =
     (if remaining = 0 then ([], remaining)
      else if mem k \<le> remaining
      then let (sel, rest) = greedy mem ks (remaining - mem k) in (k # sel, rest)
      else greedy mem ks remaining)"

definition mem_of :: "('k \<rightharpoonup> blocking_info) \<Rightarrow> 'k \<Rightarrow> u64" where
  "mem_of blocked k = unwrap_or (map_option bi_memory_mb (blocked k)) 0"

lemma greedy_cong:
  "(\<And>k. k \<in> set ks \<Longrightarrow> mem k = mem' k) \<Longrightarrow> greedy mem ks r = greedy mem' ks r"
  by (induction mem ks r rule: greedy.induct) auto

lemma greedy_subset: "greedy mem ks r = (sel, r') \<Longrightarrow> set sel \<subseteq> set ks \<and> (distinct ks \<longrightarrow> distinct sel)"
  by (induction mem ks r arbitrary: sel r' rule: greedy.induct)
    (fastforce split: if_splits prod.splits)+

lemma greedy_budget:
  "greedy mem ks r = (sel, r') \<Longrightarrow> unat r' + (\<Sum>k\<leftarrow>sel. unat (mem k)) = unat r"
  by (induction mem ks r arbitrary: sel r' rule: greedy.induct)
    (fastforce simp: unat_sub_le word_le_nat_alt split: if_splits prod.splits)+

lemma greedy_le: "greedy mem ks r = (sel, r') \<Longrightarrow> r' \<le> r"
  using greedy_budget [of mem ks r sel r'] by (simp add: word_le_nat_alt)

lemma greedy_maximal:
  "greedy mem ks r = (sel, r') \<Longrightarrow> k \<in> set ks \<Longrightarrow> k \<notin> set sel \<Longrightarrow> r' = 0 \<or> r' < mem k"
proof (induction mem ks r arbitrary: sel r' rule: greedy.induct)
  case (2 mem a ks remaining)
  show ?case
  proof (cases "remaining = 0 \<or> mem a \<le> remaining")
    case True
    with 2 show ?thesis by (auto split: if_splits prod.splits)
  next
    case False
    with "2.prems" have "greedy mem ks remaining = (sel, r')" by simp
    moreover from greedy_le [OF this] False have "r' < mem a" by (auto simp: not_le)
    ultimately show ?thesis using 2 False by auto
  qed
qed simp

subsection \<open>The loops compute the greedy selection\<close>

lemma remove_blocked_alt:
  "(let self = h\<lparr>bx_escaped := bx_escaped h - {k}\<rparr>;
        self = remove_from_indexes k self
    in self\<lparr>bx_blocked := (bx_blocked self)(k := None)\<rparr>) = remove_blocked k h"
  by (simp add: remove_blocked_def remove_from_indexes_def Let_def split: option.splits)

lemma unblock_escaped_loop_Cons:
  "unblock_escaped_loop (k # ks) h work r =
     (if r = 0 then (h, work, r)
      else if mem_of (bx_blocked h) k \<le> r
      then unblock_escaped_loop ks (remove_blocked k h) (work @ [k]) (r - mem_of (bx_blocked h) k)
      else unblock_escaped_loop ks h work r)"
  using remove_blocked_alt [of h k] by (simp add: mem_of_def Let_def)

lemma unblock_escaped_loop_greedy:
  "distinct keys \<Longrightarrow>
   unblock_escaped_loop keys h work r =
     (let (sel, r') = greedy (mem_of (bx_blocked h)) keys r
      in (fold remove_blocked sel h, work @ sel, r'))"
proof (induction keys arbitrary: h work r)
  case (Cons k ks)
  have "greedy (mem_of (bx_blocked (remove_blocked k h))) ks r' =
      greedy (mem_of (bx_blocked h)) ks r'" for r'
    using Cons.prems by (intro greedy_cong) (auto simp: mem_of_def)
  with Cons show ?case
    unfolding unblock_escaped_loop_Cons by (simp add: Let_def split_beta)
qed simp

lemma select_class_loop_greedy:
  "set keys \<subseteq> dom blocked \<Longrightarrow>
   select_class_loop blocked keys to_remove r =
     (let (sel, r') = greedy (mem_of blocked) keys r in (to_remove @ sel, r'))"
  by (induction blocked keys to_remove r rule: select_class_loop.induct)
    (auto simp: mem_of_def Let_def split_beta split: option.splits)

lemma drop_selected_remove:
  assumes "k \<notin> bx_escaped h"
  shows "drop_selected k h = remove_blocked k h"
  using assms
  by (simp add: drop_selected_def remove_blocked_def remove_from_indexes_def Let_def split: option.splits)

lemma fold_drop_selected:
  "set ks \<inter> bx_escaped h = {} \<Longrightarrow> fold drop_selected ks h = fold remove_blocked ks h"
proof (induction ks arbitrary: h)
  case (Cons k ks)
  have "bx_escaped (remove_blocked k h) = bx_escaped h - {k}"
    by (simp add: remove_blocked_def remove_from_indexes_def Let_def split: option.splits)
  with Cons show ?case by (auto simp: drop_selected_remove)
qed simp

lemma waiting_for_not_escaped:
  "index_ok h \<Longrightarrow> waiting_for (bx_blocked h) class \<inter> bx_escaped h = {}"
  by (fastforce simp: index_ok_def waiting_for_def escaped_in_def info_ok_def ran_def
      split: option.splits)

lemma unblock_class_part_greedy:
  assumes ok: "index_ok h" and ord: "enumerates ord"
  shows "unblock_class_part ord class h work r =
     (let (sel, r') = greedy (mem_of (bx_blocked h)) (ord (waiting_for (bx_blocked h) class)) r
      in (fold remove_blocked sel h, work @ sel, r'))"
proof -
  let ?W = "waiting_for (bx_blocked h) class"
  have W: "idx_get (bx_by_class h) class = ?W" using ok by (simp add: index_ok_def)
  have sub: "?W \<subseteq> dom (bx_blocked h)" by (auto simp: waiting_for_def split: option.splits)
  then have fin: "finite ?W" using ok by (auto simp: index_ok_def intro: finite_subset)
  then have set: "set (ord ?W) = ?W" using enumeratesD [OF ord] by simp
  show ?thesis
  proof (cases "bx_by_class h class")
    case None
    then have "?W = {}" using W by (simp add: idx_get_def)
    then have "ord ?W = []" using set by simp
    then show ?thesis using None by (simp add: unblock_class_part_def)
  next
    case (Some keys)
    then have keys: "keys = ?W" using W by (simp add: idx_get_def)
    obtain sel r' where g: "greedy (mem_of (bx_blocked h)) (ord ?W) r = (sel, r')" by fastforce
    then have "set sel \<inter> bx_escaped h = {}"
      using greedy_subset [OF g] set waiting_for_not_escaped [OF ok] by blast
    then show ?thesis
      using Some keys g sub set
      by (simp add: unblock_class_part_def select_class_loop_greedy fold_drop_selected)
  qed
qed

text \<open>
  What one pass over a set \<open>C\<close> of candidates achieves: it removes a selection of them, pays for it
  from the budget, and leaves out only what no longer fits.
\<close>

definition unblocks ::
  "'k set \<Rightarrow> 'k blocked_index \<Rightarrow> u64 \<Rightarrow> 'k list \<Rightarrow> 'k blocked_index \<Rightarrow> u64 \<Rightarrow> bool" where
  "unblocks C h r sel h' r' \<longleftrightarrow>
     index_ok h' \<and> bx_blocked h' = bx_blocked h |` (- set sel) \<and>
     set sel \<subseteq> C \<and> distinct sel \<and>
     unat r' + (\<Sum>k\<leftarrow>sel. unat (mem_of (bx_blocked h) k)) = unat r \<and>
     (\<forall>k \<in> C - set sel. r' = 0 \<or> r' < mem_of (bx_blocked h) k)"

lemma greedy_unblocks:
  assumes "index_ok h" "distinct keys"
    and "greedy (mem_of (bx_blocked h)) keys r = (sel, r')"
  shows "unblocks (set keys) h r sel (fold remove_blocked sel h) r'"
  using assms greedy_subset [OF assms(3)] greedy_budget [OF assms(3)] greedy_maximal [OF assms(3)]
  by (auto simp: unblocks_def blocked.ok_fold blocked.items_fold)

lemma escaped_pass:
  assumes "index_ok h" "enumerates ord"
  shows "\<exists>sel h' r'. unblock_escaped_loop (ord (bx_escaped h)) h [] r = (h', sel, r') \<and>
           unblocks (escaped_in (bx_blocked h)) h r sel h' r'"
proof -
  have "escaped_in (bx_blocked h) \<subseteq> dom (bx_blocked h)"
    by (auto simp: escaped_in_def split: option.splits)
  then have "finite (escaped_in (bx_blocked h))"
    using assms(1) by (auto simp: index_ok_def intro: finite_subset)
  then have keys: "set (ord (bx_escaped h)) = escaped_in (bx_blocked h)" "distinct (ord (bx_escaped h))"
    using enumeratesD [OF assms(2)] assms(1) by (simp_all add: index_ok_def)
  obtain sel r' where g: "greedy (mem_of (bx_blocked h)) (ord (bx_escaped h)) r = (sel, r')"
    by fastforce
  from greedy_unblocks [OF assms(1) keys(2) g] keys g show ?thesis
    by (simp add: unblock_escaped_loop_greedy)
qed

lemma class_pass:
  assumes "index_ok h" "enumerates ord"
  shows "\<exists>sel h' r'. unblock_class_part ord class h work r = (h', work @ sel, r') \<and>
           unblocks (waiting_for (bx_blocked h) class) h r sel h' r'"
proof -
  have "waiting_for (bx_blocked h) class \<subseteq> dom (bx_blocked h)"
    by (auto simp: waiting_for_def split: option.splits)
  then have "finite (waiting_for (bx_blocked h) class)"
    using assms(1) by (auto simp: index_ok_def intro: finite_subset)
  then have keys: "set (ord (waiting_for (bx_blocked h) class)) = waiting_for (bx_blocked h) class"
    "distinct (ord (waiting_for (bx_blocked h) class))"
    using enumeratesD [OF assms(2)] by simp_all
  obtain sel r' where
    g: "greedy (mem_of (bx_blocked h)) (ord (waiting_for (bx_blocked h) class)) r = (sel, r')"
    by fastforce
  from greedy_unblocks [OF assms(1) keys(2) g] keys g show ?thesis
    by (simp add: unblock_class_part_greedy assms)
qed

text \<open>
  The two passes over one index together, with \<open>leftover\<close> of the budget left at the very end.
\<close>

definition candidates :: "executor_class \<Rightarrow> ('k \<rightharpoonup> blocking_info) \<Rightarrow> 'k set" where
  "candidates class blocked = escaped_in blocked \<union> waiting_for blocked class"

definition used_mb :: "('k \<rightharpoonup> blocking_info) \<Rightarrow> 'k list \<Rightarrow> nat" where
  "used_mb blocked sel = (\<Sum>k\<leftarrow>sel. unat (mem_of blocked k))"

definition unblocked_within ::
  "executor_class \<Rightarrow> 'k blocked_index \<Rightarrow> 'k list \<Rightarrow> 'k blocked_index \<Rightarrow> nat \<Rightarrow> bool" where
  "unblocked_within class h sel h' leftover \<longleftrightarrow>
     index_ok h' \<and> bx_blocked h' = bx_blocked h |` (- set sel) \<and>
     set sel \<subseteq> candidates class (bx_blocked h) \<and> distinct sel \<and>
     (\<forall>k \<in> candidates class (bx_blocked h) - set sel.
        leftover = 0 \<or> leftover < unat (mem_of (bx_blocked h) k))"

lemma used_mb_append [simp]: "used_mb blocked (xs @ ys) = used_mb blocked xs + used_mb blocked ys"
  by (simp add: used_mb_def)

lemma used_mb_cong: "(\<And>k. k \<in> set sel \<Longrightarrow> b k = b' k) \<Longrightarrow> used_mb b sel = used_mb b' sel"
  unfolding used_mb_def by (induction sel) (auto simp: mem_of_def)

lemma two_passes:
  assumes u1: "unblocks (escaped_in (bx_blocked h)) h r s1 h1 r1"
    and u2: "unblocks (waiting_for (bx_blocked h1) class) h1 q s2 h2 q'"
    and left: "leftover \<le> unat r1" "leftover \<le> unat q'"
  shows "unblocked_within class h (s1 @ s2) h2 leftover" (is ?within)
    and "unat q' + used_mb (bx_blocked h) s2 = unat q" (is ?used)
proof -
  have b1: "bx_blocked h1 = bx_blocked h |` (- set s1)" using u1 by (simp add: unblocks_def)
  have W: "waiting_for (bx_blocked h1) class = waiting_for (bx_blocked h) class - set s1"
    unfolding b1 by (auto simp: waiting_for_def restrict_map_def)
  have mem: "mem_of (bx_blocked h1) k = mem_of (bx_blocked h) k" if "k \<notin> set s1" for k
    using that by (simp add: b1 mem_of_def)
  have s2: "set s2 \<subseteq> waiting_for (bx_blocked h) class - set s1" using u2 W by (simp add: unblocks_def)
  show ?used
    using u2 used_mb_cong [of s2 "bx_blocked h1" "bx_blocked h"] s2
    by (force simp: unblocks_def used_mb_def b1)
  have "bx_blocked h2 = bx_blocked h |` (- set (s1 @ s2))"
    using u2 by (auto simp: unblocks_def b1 restrict_map_def fun_eq_iff)
  moreover have "leftover = 0 \<or> leftover < unat (mem_of (bx_blocked h) k)"
    if "k \<in> candidates class (bx_blocked h) - set (s1 @ s2)" for k
  proof (cases "k \<in> escaped_in (bx_blocked h)")
    case True
    then have "r1 = 0 \<or> r1 < mem_of (bx_blocked h) k" using u1 that by (auto simp: unblocks_def)
    with left(1) show ?thesis by (auto simp: word_less_nat_alt)
  next
    case False
    then have "k \<in> waiting_for (bx_blocked h1) class - set s2"
      using that by (auto simp: candidates_def W)
    then have "q' = 0 \<or> q' < mem_of (bx_blocked h1) k" using u2 by (auto simp: unblocks_def)
    with left(2) mem [of k] that show ?thesis by (auto simp: word_less_nat_alt)
  qed
  ultimately show ?within
    using u1 u2 s2 by (auto simp: unblocked_within_def unblocks_def candidates_def)
qed

lemma unblock_for_class_spec:
  assumes ok: "tracker_ok t" and ordS: "enumerates ordS" and ordF: "enumerates ordF"
    and run: "unblock_for_class ordS ordF class budget t = (work, t')"
  shows "\<exists>leftover.
     leftover + used_mb (bx_blocked (bt_sandboxes t)) (uw_sandbox_keys work) +
       used_mb (bx_blocked (bt_function_runs t)) (uw_function_run_keys work) = unat budget \<and>
     unblocked_within class (bt_sandboxes t) (uw_sandbox_keys work) (bt_sandboxes t') leftover \<and>
     unblocked_within class (bt_function_runs t) (uw_function_run_keys work) (bt_function_runs t') leftover"
proof (cases "bt_is_empty t \<or> budget = 0")
  case True
  then have "work = \<lparr>uw_sandbox_keys = [], uw_function_run_keys = []\<rparr>" "t' = t"
    using run by (auto simp: unblock_for_class_def)
  with ok True show ?thesis
    by (auto simp: unblocked_within_def used_mb_def tracker_ok_def bt_is_empty_def candidates_def
        escaped_in_def waiting_for_def)
next
  case False
  let ?S = "bt_sandboxes t" and ?F = "bt_function_runs t"
  have okS: "index_ok ?S" and okF: "index_ok ?F" using ok by (simp_all add: tracker_ok_def)
  obtain s1 S1 r1 where S1: "unblock_escaped_loop (ordS (bx_escaped ?S)) ?S [] budget = (S1, s1, r1)"
    and uS1: "unblocks (escaped_in (bx_blocked ?S)) ?S budget s1 S1 r1"
    using escaped_pass [OF okS ordS] by blast
  obtain f1 F1 r2 where F1: "unblock_escaped_loop (ordF (bx_escaped ?F)) ?F [] r1 = (F1, f1, r2)"
    and uF1: "unblocks (escaped_in (bx_blocked ?F)) ?F r1 f1 F1 r2"
    using escaped_pass [OF okF ordF] by blast
  have okS1: "index_ok S1" and okF1: "index_ok F1" using uS1 uF1 by (simp_all add: unblocks_def)
  obtain s2 S2 r3 where S2: "unblock_class_part ordS class S1 s1 r2 = (S2, s1 @ s2, r3)"
    and uS2: "unblocks (waiting_for (bx_blocked S1) class) S1 r2 s2 S2 r3"
    using class_pass [OF okS1 ordS] by blast
  obtain f2 F2 r4 where F2: "unblock_class_part ordF class F1 f1 r3 = (F2, f1 @ f2, r4)"
    and uF2: "unblocks (waiting_for (bx_blocked F1) class) F1 r3 f2 F2 r4"
    using class_pass [OF okF1 ordF] by blast
  have work: "work = \<lparr>uw_sandbox_keys = s1 @ s2, uw_function_run_keys = f1 @ f2\<rparr>"
    "t' = \<lparr>bt_sandboxes = S2, bt_function_runs = F2\<rparr>"
    using run False by (simp_all add: unblock_for_class_def S1 F1 S2 F2)
  have le: "unat r4 \<le> unat r3" "unat r3 \<le> unat r2" "unat r2 \<le> unat r1"
    using uF2 uS2 uF1 unfolding unblocks_def by linarith+
  have leS: "unat r4 \<le> unat r1" "unat r4 \<le> unat r3" using le by linarith+
  have leF: "unat r4 \<le> unat r2" "unat r4 \<le> unat r4" using le by linarith+
  note S = two_passes [OF uS1 uS2 leS] and F = two_passes [OF uF1 uF2 leF]
  have "unat r1 + used_mb (bx_blocked ?S) s1 = unat budget" "unat r2 + used_mb (bx_blocked ?F) f1 = unat r1"
    using uS1 uF1 by (simp_all add: unblocks_def used_mb_def)
  then have "unat r4 + used_mb (bx_blocked ?S) (s1 @ s2) + used_mb (bx_blocked ?F) (f1 @ f2) = unat budget"
    using S(2) F(2) by simp
  with S(1) F(1) show ?thesis unfolding work by auto
qed

lemma unblock_for_freed_resources_eq: "unblock_for_freed_resources = unblock_for_class"
  by (simp add: fun_eq_iff unblock_for_freed_resources_def unblock_for_class_def)

section \<open>Properties\<close>

text \<open>
  C3: unblocking for a class, on a new executor or on freed resources, is sound, within budget and
  leaves no fitting work behind.  The work returned is distinct, was blocked and escaped or waiting
  for that class, and together asks for no more memory than the budget; it is taken out of the
  tracker and everything else stays exactly as it was, indexes included; and an item that was
  passed over does not fit in what is left of the budget (unless nothing is left).
\<close>

theorem unblock_within_budget:
  assumes "tracker_ok t" "enumerates ordS" "enumerates ordF"
    and "unblock_for_class ordS ordF class budget t = (work, t') \<or>
         unblock_for_freed_resources ordS ordF class budget t = (work, t')"
  shows "\<exists>leftover.
     leftover + used_mb (bx_blocked (bt_sandboxes t)) (uw_sandbox_keys work) +
       used_mb (bx_blocked (bt_function_runs t)) (uw_function_run_keys work) = unat budget \<and>
     unblocked_within class (bt_sandboxes t) (uw_sandbox_keys work) (bt_sandboxes t') leftover \<and>
     unblocked_within class (bt_function_runs t) (uw_function_run_keys work) (bt_function_runs t') leftover \<and>
     tracker_ok t'"
  using assms unblock_for_class_spec [of t ordS ordF "class" budget work t']
  by (auto simp: unblock_for_freed_resources_eq tracker_ok_def unblocked_within_def)

definition example_class :: executor_class where
  "example_class = \<lparr>cls_labels = Map.empty, cls_allowlist = None\<rparr>"

definition example_tracker :: blocked_work_tracker where
  "example_tracker =
     block_function_run ''r2'' \<lparr>bi_eligible_classes = {}, bi_escaped = True, bi_memory_mb = 512\<rparr>
       (block_sandbox ''s1'' \<lparr>bi_eligible_classes = {example_class}, bi_escaped = False, bi_memory_mb = 256\<rparr>
         bt_new)"

lemma example_tracker_ok: "tracker_ok example_tracker"
  by (simp add: example_tracker_def tracker_ok_def block_function_run_def block_sandbox_def bt_new_def
      index_ok_block info_ok_def)

theorem unblock_within_budget_witness:
  "\<exists>work t' leftover.
     unblock_for_class sorted_list_of_set sorted_list_of_set example_class 600 example_tracker = (work, t') \<and>
     leftover + used_mb (bx_blocked (bt_sandboxes example_tracker)) (uw_sandbox_keys work) +
       used_mb (bx_blocked (bt_function_runs example_tracker)) (uw_function_run_keys work) = 600 \<and>
     tracker_ok t'"
proof -
  obtain work t' where
    run: "unblock_for_class sorted_list_of_set sorted_list_of_set example_class 600 example_tracker = (work, t')"
    by fastforce
  from unblock_within_budget [OF example_tracker_ok enumerates_sorted_list_of_set
      enumerates_sorted_list_of_set disjI1 [OF run]] run
  show ?thesis by auto
qed

text \<open>
  C27: the class index and the escaped set never go stale.  Blocking an item again under other
  information equals blocking it on a tracker that never held it, so no reverse-index entry of the
  old classes is left; removing it gives back the tracker as it was before.
\<close>

theorem reblocking_replaces:
  assumes "index_ok h" "info_ok info" "info_ok info'" "bx_blocked h key = None"
  shows "block_work key info' (block_work key info h) = block_work key info' h \<and>
         remove_blocked key (block_work key info h) = h \<and> index_ok (block_work key info h)"
proof -
  have ok: "index_ok (block_work key info h)" using assms by (simp add: index_ok_block)
  have "block_work key info' (block_work key info h) = block_work key info' h"
    using assms ok by (intro index_ok_eqI) (simp_all add: index_ok_block)
  moreover have "remove_blocked key (block_work key info h) = h"
    using assms ok by (intro index_ok_eqI) (simp_all add: index_ok_remove fun_upd_idem)
  ultimately show ?thesis using ok by simp
qed

theorem reblocking_replaces_witness:
  "let info = \<lparr>bi_eligible_classes = {example_class}, bi_escaped = False, bi_memory_mb = 256\<rparr>;
       info' = \<lparr>bi_eligible_classes = {}, bi_escaped = True, bi_memory_mb = 256\<rparr> in
   block_work ''s1'' info' (block_work ''s1'' info empty_index) = block_work ''s1'' info' empty_index"
  using reblocking_replaces [of empty_index
      "\<lparr>bi_eligible_classes = {example_class}, bi_escaped = False, bi_memory_mb = 256\<rparr>"
      "\<lparr>bi_eligible_classes = {}, bi_escaped = True, bi_memory_mb = 256\<rparr>" "''s1''"]
  by (simp add: info_ok_def) (simp add: empty_index_def)

end
