(* ===== verification/Ledger.thy ===== *)
theory Ledger
  imports DataModel
begin

text \<open>
  The resource ledger of an executor: \<open>ExecutorServerMetadata\<close> of \<open>data_model/mod.rs\<close>, the
  containers placed on an executor, what each of them claims and what is left.
\<close>

section \<open>Operations\<close>

record executor_server_metadata =
  esm_executor_id :: executor_id
  esm_function_container_ids :: "container_id set"
  esm_free_resources :: host_resources
  esm_resource_claims :: "container_id \<rightharpoonup> container_resources"

definition remove_container ::
  "executor_server_metadata \<Rightarrow> container \<Rightarrow> (resource_error + unit) \<times> executor_server_metadata" where
  "remove_container self container =
     (let self = self\<lparr>esm_function_container_ids := esm_function_container_ids self - {ct_id container}\<rparr>
      in case esm_resource_claims self (ct_id container) of
           Some existing_claim \<Rightarrow>
             (case free_resources (esm_free_resources self) existing_claim of
                (Inl e, free) \<Rightarrow> (Err e, self\<lparr>esm_free_resources := free\<rparr>)
              | (Inr _, free) \<Rightarrow>
                  (Ok (), self\<lparr>esm_free_resources := free,
                               esm_resource_claims := (esm_resource_claims self)(ct_id container := None)\<rparr>))
         | None \<Rightarrow>
             (Ok (), self\<lparr>esm_resource_claims := (esm_resource_claims self)(ct_id container := None)\<rparr>))"

definition add_container ::
  "executor_server_metadata \<Rightarrow> container \<Rightarrow> (resource_error + unit) \<times> executor_server_metadata" where
  "add_container self container =
     (let self = self\<lparr>esm_function_container_ids :=
                       insert (ct_id container) (esm_function_container_ids self)\<rparr>
      in case esm_resource_claims self (ct_id container) of
           Some _ \<Rightarrow> (Ok (), self)
         | None \<Rightarrow>
             let self = self\<lparr>esm_resource_claims :=
                   (esm_resource_claims self)(ct_id container \<mapsto> ct_resources container)\<rparr>;
                 (result, free) = consume_fe_resources (esm_free_resources self) (ct_resources container)
             in (result, self\<lparr>esm_free_resources := free\<rparr>))"

definition force_add_container ::
  "executor_server_metadata \<Rightarrow> container \<Rightarrow> executor_server_metadata" where
  "force_add_container self container =
     (let self = self\<lparr>esm_function_container_ids :=
                       insert (ct_id container) (esm_function_container_ids self)\<rparr>
      in if esm_resource_claims self (ct_id container) \<noteq> None then self
         else self\<lparr>esm_resource_claims :=
                (esm_resource_claims self)(ct_id container \<mapsto> ct_resources container),
                   esm_free_resources :=
                force_consume_fe_resources (esm_free_resources self) (ct_resources container)\<rparr>)"

section \<open>The balance of a ledger\<close>

text \<open>
  In every dimension what is free and what is claimed add up to what the host has, and every claim
  belongs to a container on the executor.
\<close>

definition ledger_ok :: "host_resources \<Rightarrow> executor_server_metadata \<Rightarrow> bool" where
  "ledger_ok host m \<longleftrightarrow>
     finite (dom (esm_resource_claims m)) \<and>
     esm_function_container_ids m = dom (esm_resource_claims m) \<and>
     (\<forall>claim \<in> ran (esm_resource_claims m). gpu_compatible (esm_free_resources m) claim) \<and>
     unat (host_cpu_ms_per_sec (esm_free_resources m)) +
       map_sum (\<lambda>r. unat (cres_cpu_ms_per_sec r)) (esm_resource_claims m) =
       unat (host_cpu_ms_per_sec host) \<and>
     unat (host_memory_bytes (esm_free_resources m)) + map_sum req_memory (esm_resource_claims m) =
       unat (host_memory_bytes host) \<and>
     unat (host_disk_bytes (esm_free_resources m)) + map_sum req_disk (esm_resource_claims m) =
       unat (host_disk_bytes host) \<and>
     avail_gpu (esm_free_resources m) + map_sum req_gpu (esm_resource_claims m) = avail_gpu host"

definition new_ledger :: "executor_id \<Rightarrow> host_resources \<Rightarrow> executor_server_metadata" where
  "new_ledger executor_id host =
     \<lparr>esm_executor_id = executor_id, esm_function_container_ids = {},
      esm_free_resources = host, esm_resource_claims = Map.empty\<rparr>"

text \<open>
  The contract the scheduler relies on: an invariant that a successful placement keeps while it
  records the claim, and under which a removal always succeeds and drops the claim.
\<close>

locale resource_ledger =
  fixes ok :: "'s \<Rightarrow> bool"
    and claims :: "'s \<Rightarrow> (container_id \<rightharpoonup> container_resources)"
    and add :: "'s \<Rightarrow> container \<Rightarrow> ('e + unit) \<times> 's"
    and remove :: "'s \<Rightarrow> container \<Rightarrow> ('e + unit) \<times> 's"
  assumes add_ok: "ok m \<Longrightarrow> add m c = (Ok (), m') \<Longrightarrow> ok m'"
    and add_claims: "ok m \<Longrightarrow> add m c = (Ok (), m') \<Longrightarrow>
      claims m' = (if claims m (ct_id c) = None then (claims m)(ct_id c \<mapsto> ct_resources c) else claims m)"
    and remove_ok: "ok m \<Longrightarrow> \<exists>m'. remove m c = (Ok (), m') \<and> ok m'"
    and remove_claims: "ok m \<Longrightarrow> remove m c = (Ok (), m') \<Longrightarrow> claims m' = (claims m)(ct_id c := None)"
begin

text \<open>Removing any list of containers works and leaves exactly the other claims.\<close>

fun remove_list :: "container list \<Rightarrow> 's \<Rightarrow> ('e + unit) \<times> 's" where
  "remove_list [] m = (Ok (), m)"
| "remove_list (c # cs) m =
     (case remove m c of
        (Inl e, m') \<Rightarrow> (Err e, m')
      | (Inr _, m') \<Rightarrow> remove_list cs m')"

lemma remove_list_ok:
  "ok m \<Longrightarrow> \<exists>m'. remove_list cs m = (Ok (), m') \<and> ok m' \<and>
     claims m' = (claims m) |` (- set (map ct_id cs))"
proof (induction cs arbitrary: m)
  case Nil
  then show ?case by simp
next
  case (Cons c cs)
  obtain m1 where m1: "remove m c = (Ok (), m1)" "ok m1" using remove_ok [OF Cons.prems] by blast
  obtain m2 where m2: "remove_list cs m1 = (Ok (), m2)" "ok m2"
    "claims m2 = (claims m1) |` (- set (map ct_id cs))" using Cons.IH [OF m1(2)] by blast
  have "claims m2 = (claims m) |` (- set (map ct_id (c # cs)))"
    using m2(3) remove_claims [OF Cons.prems m1(1)]
    by (auto simp: restrict_map_def fun_eq_iff)
  with m1 m2 show ?case by simp
qed

end

section \<open>Lemmas\<close>

lemma ledger_ok_new: "ledger_ok host (new_ledger executor_id host)"
  by (simp add: ledger_ok_def new_ledger_def)

lemma ran_update_iff: "m k = None \<Longrightarrow> (\<forall>x \<in> ran (m(k \<mapsto> v)). P x) \<longleftrightarrow> P v \<and> (\<forall>x \<in> ran m. P x)"
  by simp

lemma add_container_claimed:
  "esm_resource_claims m (ct_id c) \<noteq> None \<Longrightarrow>
   add_container m c = (Ok (), m\<lparr>esm_function_container_ids :=
     insert (ct_id c) (esm_function_container_ids m)\<rparr>)"
  by (auto simp: add_container_def Let_def)

lemma add_container_new:
  "esm_resource_claims m (ct_id c) = None \<Longrightarrow>
   add_container m c =
     (fst (consume_fe_resources (esm_free_resources m) (ct_resources c)),
      m\<lparr>esm_function_container_ids := insert (ct_id c) (esm_function_container_ids m),
        esm_resource_claims := (esm_resource_claims m)(ct_id c \<mapsto> ct_resources c),
        esm_free_resources := snd (consume_fe_resources (esm_free_resources m) (ct_resources c))\<rparr>)"
  by (simp add: add_container_def Let_def split_beta)

lemma remove_container_unclaimed:
  "esm_resource_claims m (ct_id c) = None \<Longrightarrow>
   remove_container m c = (Ok (), m\<lparr>esm_function_container_ids :=
     esm_function_container_ids m - {ct_id c}\<rparr>)"
  by (simp add: remove_container_def Let_def fun_upd_idem)

lemma remove_container_claimed:
  assumes "esm_resource_claims m (ct_id c) = Some r" "gpu_compatible (esm_free_resources m) r"
  shows "remove_container m c = (Ok (),
     m\<lparr>esm_function_container_ids := esm_function_container_ids m - {ct_id c},
       esm_free_resources := snd (free_resources (esm_free_resources m) r),
       esm_resource_claims := (esm_resource_claims m)(ct_id c := None)\<rparr>)"
  using assms free_compatible(1) [OF assms(2)]
  by (cases "free_resources (esm_free_resources m) r") (simp add: remove_container_def Let_def)

lemma ledger_ok_add:
  assumes ok: "ledger_ok host m" and add: "add_container m c = (Ok (), m')"
  shows "ledger_ok host m'"
proof (cases "esm_resource_claims m (ct_id c) = None")
  case False
  then have "ct_id c \<in> esm_function_container_ids m" using ok by (auto simp: ledger_ok_def)
  then have "m' = m" using add add_container_claimed [OF False] by (simp add: insert_absorb)
  with ok show ?thesis by simp
next
  case True
  let ?h = "esm_free_resources m" and ?r = "ct_resources c"
  have "is_ok (fst (consume_fe_resources ?h ?r))" using add add_container_new [OF True] by simp
  then have fit: "fits ?h ?r" by (simp add: consume_ok_iff_fits)
  have m': "m' = m\<lparr>esm_function_container_ids := insert (ct_id c) (esm_function_container_ids m),
        esm_resource_claims := (esm_resource_claims m)(ct_id c \<mapsto> ?r),
        esm_free_resources := snd (consume_fe_resources ?h ?r)\<rparr>"
    using add add_container_new [OF True] by simp
  show ?thesis
    using ok fit consume_amounts [OF fit refl]
    unfolding ledger_ok_def m'
    by (simp add: map_sum_insert True ran_update_iff consume_gpu_compatible) (simp add: fits_def)
qed

lemma map_sum_delete_le:
  assumes "finite (dom m)" "m k = Some v"
  shows "f v \<le> map_sum f m"
  using map_sum_delete [OF assms, of f] by linarith

lemma free_amounts:
  assumes "gpu_compatible h r"
    and "unat (host_cpu_ms_per_sec h) + unat (cres_cpu_ms_per_sec r) \<le> unat (host_cpu_ms_per_sec host)"
    and "unat (host_memory_bytes h) + req_memory r \<le> unat (host_memory_bytes host)"
    and "unat (host_disk_bytes h) + req_disk r \<le> unat (host_disk_bytes host)"
    and "avail_gpu h + req_gpu r \<le> avail_gpu host"
  shows "unat (host_cpu_ms_per_sec (snd (free_resources h r))) =
           unat (host_cpu_ms_per_sec h) + unat (cres_cpu_ms_per_sec r)"
    and "unat (host_memory_bytes (snd (free_resources h r))) = unat (host_memory_bytes h) + req_memory r"
    and "unat (host_disk_bytes (snd (free_resources h r))) = unat (host_disk_bytes h) + req_disk r"
    and "avail_gpu (snd (free_resources h r)) = avail_gpu h + req_gpu r"
proof -
  note free = free_compatible [OF assms(1)]
  show "unat (host_cpu_ms_per_sec (snd (free_resources h r))) =
      unat (host_cpu_ms_per_sec h) + unat (cres_cpu_ms_per_sec r)"
    unfolding free(2) using assms(2) by (rule unat_add_le)
  show "unat (host_memory_bytes (snd (free_resources h r))) = unat (host_memory_bytes h) + req_memory r"
    unfolding free(3) req_memory_def using assms(3) by (intro unat_add_le) (simp add: req_memory_def)
  show "unat (host_disk_bytes (snd (free_resources h r))) = unat (host_disk_bytes h) + req_disk r"
    unfolding free(4) req_disk_def using assms(4) by (intro unat_add_le) (simp add: req_disk_def)
  show "avail_gpu (snd (free_resources h r)) = avail_gpu h + req_gpu r"
    using assms(1,5) free(5) unat_add_le
    by (auto simp: avail_gpu_def req_gpu_def update_gpu_count_def gpu_compatible_def
        split: option.splits)
qed

lemma ledger_ok_remove:
  assumes ok: "ledger_ok host m"
  shows "\<exists>m'. remove_container m c = (Ok (), m') \<and> ledger_ok host m' \<and>
           esm_resource_claims m' = (esm_resource_claims m)(ct_id c := None)"
proof (cases "esm_resource_claims m (ct_id c)")
  case None
  then have "ct_id c \<notin> esm_function_container_ids m" using ok by (auto simp: ledger_ok_def)
  then have "remove_container m c = (Ok (), m)" using remove_container_unclaimed [OF None] by simp
  with ok None show ?thesis by (auto simp: fun_upd_idem)
next
  case (Some r)
  let ?h = "esm_free_resources m" and ?claims = "esm_resource_claims m"
  have compat: "gpu_compatible ?h r" using ok Some by (auto simp: ledger_ok_def ran_def)
  have fin: "finite (dom ?claims)" using ok by (simp add: ledger_ok_def)
  note le = map_sum_delete_le [OF fin Some]
  have "unat (host_cpu_ms_per_sec ?h) + unat (cres_cpu_ms_per_sec r) \<le> unat (host_cpu_ms_per_sec host)"
    "unat (host_memory_bytes ?h) + req_memory r \<le> unat (host_memory_bytes host)"
    "unat (host_disk_bytes ?h) + req_disk r \<le> unat (host_disk_bytes host)"
    "avail_gpu ?h + req_gpu r \<le> avail_gpu host"
    using ok le [of "\<lambda>r. unat (cres_cpu_ms_per_sec r)"] le [of req_memory] le [of req_disk] le [of req_gpu]
    by (simp_all add: ledger_ok_def)
  note amounts = free_amounts [OF compat this]
  have "ledger_ok host (m\<lparr>esm_function_container_ids := esm_function_container_ids m - {ct_id c},
       esm_free_resources := snd (free_resources ?h r), esm_resource_claims := ?claims(ct_id c := None)\<rparr>)"
    using ok amounts map_sum_delete [OF fin Some, of "\<lambda>r. unat (cres_cpu_ms_per_sec r)"]
      map_sum_delete [OF fin Some, of req_memory] map_sum_delete [OF fin Some, of req_disk]
      map_sum_delete [OF fin Some, of req_gpu]
    unfolding ledger_ok_def
    by (simp add: free_gpu_compatible) (auto simp: ran_def split: if_splits)
  then show ?thesis using remove_container_claimed [OF Some compat] by simp
qed

interpretation ledger: resource_ledger "ledger_ok host" esm_resource_claims add_container remove_container
proof
  fix m m' :: executor_server_metadata and c
  assume ok: "ledger_ok host m"
  show "ledger_ok host m'" if "add_container m c = (Ok (), m')"
    using ok that by (rule ledger_ok_add)
  show "esm_resource_claims m' = (if esm_resource_claims m (ct_id c) = None
      then (esm_resource_claims m)(ct_id c \<mapsto> ct_resources c) else esm_resource_claims m)"
    if "add_container m c = (Ok (), m')"
    using that add_container_claimed [of m c] add_container_new [of m c]
    by (cases "esm_resource_claims m (ct_id c)") auto
  show "\<exists>m'. remove_container m c = (Ok (), m') \<and> ledger_ok host m'"
    using ledger_ok_remove [OF ok] by blast
  show "esm_resource_claims m' = (esm_resource_claims m)(ct_id c := None)"
    if "remove_container m c = (Ok (), m')"
    using ledger_ok_remove [OF ok, of c] that by auto
qed

lemma update_gpu_count_saturating:
  "(case cres_gpu r of None \<Rightarrow> True | Some g \<Rightarrow>
      (case host_gpu h of None \<Rightarrow> True | Some a \<Rightarrow> gpu_count g \<le> gpu_count a)) \<Longrightarrow>
   update_gpu_count saturating_sub (host_gpu h) (cres_gpu r) =
   update_gpu_count (-) (host_gpu h) (cres_gpu r)"
  by (auto simp: update_gpu_count_def saturating_sub_def split: option.splits)

lemma force_consume_fits:
  assumes "fits h r"
  shows "force_consume_fe_resources h r = snd (consume_fe_resources h r)"
proof -
  have "update_gpu_count saturating_sub (host_gpu h) (cres_gpu r) =
      update_gpu_count (-) (host_gpu h) (cres_gpu r)"
    using assms by (intro update_gpu_count_saturating)
      (auto simp: amount_defs word_le_nat_alt split: option.splits)
  then show ?thesis
    using assms
    by (simp add: consume_fits force_consume_fe_resources_def saturating_sub_def)
      (simp add: amount_defs word_less_nat_alt not_less)
qed

lemma add_container_forced:
  assumes "esm_resource_claims m (ct_id c) \<noteq> None \<or> fits (esm_free_resources m) (ct_resources c)"
  shows "add_container m c = (Ok (), force_add_container m c)"
proof (cases "esm_resource_claims m (ct_id c) = None")
  case True
  with assms show ?thesis
    using add_container_new [OF True] consume_ok_iff_fits [of "esm_free_resources m" "ct_resources c"]
    by (auto simp: force_add_container_def force_consume_fits Let_def elim!: is_okE)
next
  case False
  then show ?thesis using add_container_claimed by (simp add: force_add_container_def Let_def)
qed

text \<open>
  Forcing a container onto an executor that is short of memory leaves no free memory; removing it gives
  the whole claim back, more than there was before.
\<close>

lemma overcommit_inflates:
  assumes "esm_resource_claims m (ct_id c) = None" "gpu_compatible (esm_free_resources m) (ct_resources c)"
    and "unat (host_memory_bytes (esm_free_resources m)) < req_memory (ct_resources c)"
  shows "host_memory_bytes (esm_free_resources (force_add_container m c)) = 0"
    "unat (host_memory_bytes (esm_free_resources (snd (remove_container (force_add_container m c) c)))) =
       req_memory (ct_resources c)"
proof -
  let ?m = "force_add_container m c" and ?r = "ct_resources c"
  have m: "esm_resource_claims ?m (ct_id c) = Some ?r"
    "esm_free_resources ?m = force_consume_fe_resources (esm_free_resources m) ?r"
    using assms(1) by (simp_all add: force_add_container_def Let_def)
  show zero: "host_memory_bytes (esm_free_resources ?m) = 0"
    using assms(3) by (simp add: m force_consume_fe_resources_def saturating_sub_def req_memory_def word_less_nat_alt)
  have compat: "gpu_compatible (esm_free_resources ?m) ?r"
    using assms(2)
    by (auto simp: m force_consume_fe_resources_def gpu_compatible_def update_gpu_count_def split: option.splits)
  show "unat (host_memory_bytes (esm_free_resources (snd (remove_container ?m c)))) = req_memory ?r"
    using zero by (simp add: remove_container_claimed [OF m(1) compat] free_compatible(3) [OF compat] req_memory_def)
qed

section \<open>Ledgers the scheduler can build\<close>

text \<open>
  An executor starts with everything free; containers are placed and removed in any order.  A container
  that is reported by the executor is forced into the ledger; the step is part of the relation when the
  container fits or is already there.  Forcing a container that does not fit, and placements that
  fail, leave the balance (\<open>overcommit_inflates\<close> and \<open>failed_add_container_leaks\<close>) and are no steps.
\<close>

inductive ledger_reachable :: "host_resources \<Rightarrow> executor_server_metadata \<Rightarrow> bool"
  for host where
  fresh: "ledger_reachable host (new_ledger executor_id host)"
| placed: "ledger_reachable host m \<Longrightarrow> add_container m c = (Ok (), m') \<Longrightarrow> ledger_reachable host m'"
| forced: "ledger_reachable host m \<Longrightarrow>
    esm_resource_claims m (ct_id c) \<noteq> None \<or> fits (esm_free_resources m) (ct_resources c) \<Longrightarrow>
    ledger_reachable host (force_add_container m c)"
| removed: "ledger_reachable host m \<Longrightarrow> remove_container m c = (res, m') \<Longrightarrow> ledger_reachable host m'"

lemma ledger_reachable_ok: "ledger_reachable host m \<Longrightarrow> ledger_ok host m"
proof (induction rule: ledger_reachable.induct)
  case (fresh executor_id)
  show ?case by (rule ledger_ok_new)
next
  case (placed m c m')
  then show ?case using ledger.add_ok by blast
next
  case (forced m c)
  then show ?case using ledger.add_ok [OF _ add_container_forced] by blast
next
  case (removed m c res m')
  then show ?case using ledger.remove_ok [of host m c] by auto
qed

section \<open>Properties\<close>

text \<open>
  C1: placements that succeed, containers forced in where they fit, and removals keep the balance.  In
  every ledger reached by them, in any order, free plus claimed is exactly what the host has, for CPU,
  memory, disk and GPUs, so that the executor is not overcommitted; the claims are those of the
  containers on the executor, and removing a container cannot fail.  A placement that fails and a
  container forced in beyond what is free are not among the steps: both break the balance.
\<close>

theorem ledger_balanced:
  assumes "ledger_reachable host m"
  shows "unat (host_cpu_ms_per_sec (esm_free_resources m)) +
           map_sum (\<lambda>r. unat (cres_cpu_ms_per_sec r)) (esm_resource_claims m) =
           unat (host_cpu_ms_per_sec host) \<and>
         unat (host_memory_bytes (esm_free_resources m)) + map_sum req_memory (esm_resource_claims m) =
           unat (host_memory_bytes host) \<and>
         unat (host_disk_bytes (esm_free_resources m)) + map_sum req_disk (esm_resource_claims m) =
           unat (host_disk_bytes host) \<and>
         avail_gpu (esm_free_resources m) + map_sum req_gpu (esm_resource_claims m) = avail_gpu host \<and>
         esm_function_container_ids m = dom (esm_resource_claims m) \<and>
         fst (remove_container m c) = Ok ()"
proof -
  have ok: "ledger_ok host m" using assms by (rule ledger_reachable_ok)
  obtain m' where "remove_container m c = (Ok (), m')" using ledger.remove_ok [OF ok] by blast
  with ok show ?thesis by (simp add: ledger_ok_def)
qed

definition example_host :: host_resources where
  "example_host = \<lparr>host_cpu_ms_per_sec = 2000, host_memory_bytes = 4294967296,
     host_disk_bytes = 4294967296, host_gpu = None\<rparr>"

definition example_container :: "container_id \<Rightarrow> u64 \<Rightarrow> container" where
  "example_container cid memory_mb =
     \<lparr>ct_id = cid, ct_namespace = ''ns'', ct_application_name = ''app'', ct_function_name = ''f'',
      ct_version = ''1'', ct_state = CS_Pending,
      ct_resources = \<lparr>cres_cpu_ms_per_sec = 1000, cres_memory_mb = memory_mb,
                      cres_ephemeral_disk_mb = 1024, cres_gpu = None\<rparr>,
      ct_max_concurrency = 1, ct_container_type = FunctionContainer, ct_image = None,
      ct_secret_names = [], ct_timeout_secs = 0, ct_entrypoint = [], ct_network_policy = None,
      ct_sandbox_id = None, ct_pool_id = None, ct_snapshot_uri = None,
      ct_created_at_clock = None, ct_updated_at_clock = None\<rparr>"

lemmas example_ledger_defs =
  example_host_def example_container_def new_ledger_def amount_defs mb_to_bytes_def

lemma example_add_container:
  "add_container (new_ledger ''e'' example_host) (example_container ''c'' 1024) =
     (Ok (), \<lparr>esm_executor_id = ''e'', esm_function_container_ids = {''c''},
        esm_free_resources = \<lparr>host_cpu_ms_per_sec = 1000, host_memory_bytes = 3221225472,
          host_disk_bytes = 3221225472, host_gpu = None\<rparr>,
        esm_resource_claims = [''c'' \<mapsto> ct_resources (example_container ''c'' 1024)]\<rparr>)"
proof -
  have "fits example_host (ct_resources (example_container ''c'' 1024))"
    by (simp add: example_ledger_defs)
  from consume_fits [OF this] show ?thesis
    by (subst add_container_new) (simp_all add: example_ledger_defs)
qed

theorem ledger_balanced_witness:
  "fst (remove_container (snd (add_container (new_ledger ''e'' example_host)
     (example_container ''c'' 1024))) (example_container ''c'' 1024)) = Ok ()"
proof -
  have "ledger_reachable example_host
     (snd (add_container (new_ledger ''e'' example_host) (example_container ''c'' 1024)))"
    using ledger_reachable.placed [OF ledger_reachable.fresh example_add_container]
    by (simp add: example_add_container)
  from ledger_balanced [OF this] show ?thesis by blast
qed

text \<open>
  C28: placing a container and removing it again is the identity on a balanced ledger, and
  \<open>force_add_container\<close> does exactly what \<open>add_container\<close> does whenever the container fits.
\<close>

theorem add_remove_container:
  assumes "ledger_ok host m" "esm_resource_claims m (ct_id c) = None"
    and "fits (esm_free_resources m) (ct_resources c)"
  shows "add_container m c = (Ok (), force_add_container m c) \<and>
         remove_container (force_add_container m c) c = (Ok (), m)"
proof -
  let ?h = "esm_free_resources m" and ?r = "ct_resources c"
  let ?m' = "m\<lparr>esm_function_container_ids := insert (ct_id c) (esm_function_container_ids m),
        esm_resource_claims := (esm_resource_claims m)(ct_id c \<mapsto> ?r),
        esm_free_resources := snd (consume_fe_resources ?h ?r)\<rparr>"
  have force: "force_add_container m c = ?m'"
    using assms by (simp add: force_add_container_def force_consume_fits Let_def)
  have "gpu_compatible (esm_free_resources ?m') ?r"
    using assms(3) by (simp add: consume_gpu_compatible) (simp add: fits_def)
  then have "remove_container ?m' c = (Ok (), ?m'\<lparr>
       esm_function_container_ids := insert (ct_id c) (esm_function_container_ids m) - {ct_id c},
       esm_free_resources := snd (free_resources (snd (consume_fe_resources ?h ?r)) ?r),
       esm_resource_claims := (esm_resource_claims m)(ct_id c := None)\<rparr>)"
    using remove_container_claimed [of ?m' c ?r] by simp
  also have "\<dots> = (Ok (), m)"
    using assms by (cases m) (auto simp: free_after_consume ledger_ok_def fun_upd_idem)
  finally have "remove_container ?m' c = (Ok (), m)" .
  moreover have "add_container m c = (Ok (), ?m')"
    using add_container_new [OF assms(2)] consume_ok_iff_fits [of ?h ?r] assms(3)
    by (auto elim!: is_okE)
  ultimately show ?thesis using force by simp
qed

theorem add_remove_container_witness:
  "let m = new_ledger ''e'' example_host; c = example_container ''c'' 1024 in
   add_container m c = (Ok (), force_add_container m c) \<and>
   remove_container (force_add_container m c) c = (Ok (), m)"
  unfolding Let_def
  by (rule add_remove_container [OF ledger_ok_new]) (simp_all add: example_ledger_defs)

text \<open>
  C31: a failed placement is not undone.  When a new container does not fit, \<open>add_container\<close> reports
  the error but has already recorded the container and its claim, with nothing consumed.  A later
  \<open>remove_container\<close> then frees resources that were never taken, and the free capacity grows
  beyond what it was.
\<close>

theorem failed_add_container_leaks:
  assumes "esm_resource_claims m (ct_id c) = None" "ct_id c \<notin> esm_function_container_ids m"
    and "\<not> fits (esm_free_resources m) (ct_resources c)"
    and "gpu_compatible (esm_free_resources m) (ct_resources c)"
  shows "case add_container m c of (res, m') \<Rightarrow>
           \<not> is_ok res \<and> esm_free_resources m' = esm_free_resources m \<and>
           esm_resource_claims m' (ct_id c) = Some (ct_resources c) \<and>
           remove_container m' c =
             (Ok (), m\<lparr>esm_free_resources :=
                snd (free_resources (esm_free_resources m) (ct_resources c))\<rparr>)"
proof -
  obtain e where "consume_fe_resources (esm_free_resources m) (ct_resources c) = (Err e, esm_free_resources m)"
    using consume_not_fits [OF assms(3)] by blast
  with add_container_new [OF assms(1)] have add: "add_container m c =
      (Err e, m\<lparr>esm_function_container_ids := insert (ct_id c) (esm_function_container_ids m),
        esm_resource_claims := (esm_resource_claims m)(ct_id c \<mapsto> ct_resources c)\<rparr>)"
    by simp
  show ?thesis
    unfolding add using assms(1,2,4)
    by (simp add: remove_container_claimed fun_upd_idem)
qed

theorem failed_add_container_leaks_witness:
  "let m = new_ledger ''e'' example_host; c = example_container ''c'' 8192;
       m' = snd (remove_container (snd (add_container m c)) c) in
   host_memory_bytes (esm_free_resources m') = 12884901888 \<and>
   host_memory_bytes example_host = 4294967296"
proof -
  let ?m = "new_ledger ''e'' example_host" and ?c = "example_container ''c'' 8192"
  have "esm_resource_claims ?m (ct_id ?c) = None" "ct_id ?c \<notin> esm_function_container_ids ?m"
    "\<not> fits (esm_free_resources ?m) (ct_resources ?c)"
    "gpu_compatible (esm_free_resources ?m) (ct_resources ?c)"
    by (simp_all add: example_ledger_defs)
  from failed_add_container_leaks [OF this] show ?thesis
    by (simp add: Let_def split_beta free_resources_def example_ledger_defs)
qed

end
