(* ===== verification/Events.thy ===== *)
theory Events
  imports DataModel
begin

text \<open>
  The events of \<open>crates/server/src/data_model/mod.rs\<close> that drive the scheduler: a \<open>StateChange\<close> carries
  one \<open>ChangeType\<close>.
\<close>

record invoke_application_event =
  iae_request_id :: string
  iae_namespace :: string
  iae_application :: string

record allocation_output_ingested_event =
  aoe_namespace :: string
  aoe_application :: string
  aoe_function :: string
  aoe_request_id :: string
  aoe_function_call_id :: function_call_id
  aoe_data_payload :: "data_payload option"
  aoe_graph_updates :: "graph_updates option"
  aoe_request_exception :: "data_payload option"
  aoe_allocation_id :: allocation_id
  aoe_allocation_target :: allocation_target
  aoe_allocation_outcome :: function_run_outcome
  aoe_execution_duration_ms :: "u64 option"

record function_call_event =
  fce_namespace :: string
  fce_application :: string
  fce_request_id :: string
  fce_source_function_call_id :: function_call_id
  fce_graph_updates :: graph_updates

record executor_removed_event =
  ere_executor_id :: executor_id

record tombstone_application_event =
  tae_namespace :: string
  tae_application :: string

record tombstone_request_event =
  tre_namespace :: string
  tre_application :: string
  tre_request_id :: string

record executor_upserted_event =
  eue_executor_id :: executor_id

record container_state_update_info =
  csu_container_id :: container_id
  csu_termination_reason :: "container_termination_reason option"

record dataplane_results_ingested_event =
  dre_executor_id :: executor_id
  dre_allocation_events :: "allocation_output_ingested_event list"
  dre_container_state_updates :: "container_state_update_info list"
  dre_container_started_ids :: "container_id list"

text \<open>\<open>CreateSandboxEvent\<close> and \<open>TerminateSandboxEvent\<close> have the same fields, as have the three pool events.\<close>

record sandbox_event =
  sbe_namespace :: string
  sbe_sandbox_id :: sandbox_id

record snapshot_sandbox_event =
  sse_namespace :: string
  sse_sandbox_id :: sandbox_id
  sse_snapshot_id :: snapshot_id
  sse_upload_uri :: string

record container_pool_event =
  cpe_namespace :: string
  cpe_pool_id :: container_pool_id

datatype change_type =
    InvokeApplication invoke_application_event
  | CreateFunctionCall function_call_event
  | AllocationOutputsIngested allocation_output_ingested_event
  | TombstoneApplication tombstone_application_event
  | TombstoneRequest tombstone_request_event
  | ExecutorUpserted executor_upserted_event
  | TombStoneExecutor executor_removed_event
  | CreateSandbox sandbox_event
  | TerminateSandbox sandbox_event
  | SnapshotSandbox snapshot_sandbox_event
  | CreateContainerPool container_pool_event
  | UpdateContainerPool container_pool_event
  | DeleteContainerPool container_pool_event
  | DataplaneResultsIngested dataplane_results_ingested_event

record state_change =
  sc_id :: u64
  sc_object_id :: string
  sc_change_type :: change_type
  sc_created_at :: u64
  sc_processed_at :: "u64 option"
  sc_namespace :: "string option"
  sc_application :: "string option"

end
