(* ===== verification/Protocol.thy ===== *)
theory Protocol
  imports DataModel
begin

text \<open>
  The messages between the server and the executors (\<open>proto/executor_api.proto\<close>) and their conversion
  to and from the data model (\<open>proto_convert.rs\<close>, \<open>pb_helpers.rs\<close>, the URI helpers of the blob store
  crate).  A field of an enumeration is the number on the wire, as in the code the build generates: an
  accessor reads it as the value it stands for and as \<open>Unknown\<close> when it is missing or stands for none.
  Errors are the texts of the source.  \<open>bucket\<close> is the host name that the \<open>url\<close> crate finds in the URL
  of an S3 store.
\<close>

section \<open>Results\<close>

definition ok_or :: "'a option \<Rightarrow> 'e \<Rightarrow> 'e + 'a" where
  "ok_or self err = (case self of Some v \<Rightarrow> Ok v | None \<Rightarrow> Err err)"

definition and_then :: "'e + 'a \<Rightarrow> ('a \<Rightarrow> 'e + 'b) \<Rightarrow> 'e + 'b" where
  "and_then r f = (case r of Inl e \<Rightarrow> Err e | Inr v \<Rightarrow> f v)"

fun collect :: "('e + 'a) list \<Rightarrow> 'e + 'a list" where
  "collect [] = Ok []"
| "collect (r # rs) = and_then r (\<lambda>v. and_then (collect rs) (\<lambda>vs. Ok (v # vs)))"

definition transpose_result :: "('e + 'a) option \<Rightarrow> 'e + 'a option" where
  "transpose_result self = (case self of None \<Rightarrow> Ok None | Some r \<Rightarrow> and_then r (\<lambda>v. Ok (Some v)))"

definition map_err :: "('e \<Rightarrow> 'f) \<Rightarrow> 'e + 'a \<Rightarrow> 'f + 'a" where
  "map_err f r = (case r of Inl e \<Rightarrow> Err (f e) | Inr v \<Rightarrow> Ok v)"

definition strip_prefix :: "string \<Rightarrow> string \<Rightarrow> string option" where
  "strip_prefix prefix s = (if starts_with prefix s then Some (drop (length prefix) s) else None)"

named_theorems result_simps "laws of results"

lemma ok_or_simps [simp, result_simps]: "ok_or (Some v) e = Ok v" "ok_or None e = Err e"
  by (simp_all add: ok_or_def)

lemma and_then_simps [simp, result_simps]: "and_then (Inr v) f = f v" "and_then (Inl e) f = Inl e"
  by (simp_all add: and_then_def)

lemma map_err_simps [simp, result_simps]: "map_err f (Inr v) = Ok v" "map_err f (Inl e) = Err (f e)"
  by (simp_all add: map_err_def)

lemma transpose_result_simps [simp, result_simps]:
  "transpose_result None = Ok None" "transpose_result (Some (Inr v)) = Ok (Some v)" "transpose_result (Some (Inl e)) = Err e"
  by (simp_all add: transpose_result_def)

lemma strip_prefix_append [simp]: "strip_prefix p (p @ s) = Some s"
  by (simp add: strip_prefix_def starts_with_def)

lemma collect_ok: "(\<And>x. x \<in> set xs \<Longrightarrow> f x = Ok (g x)) \<Longrightarrow> collect (map f xs) = Ok (map g xs)"
  by (induction xs) simp_all

section \<open>Enumerations\<close>

type_synonym i32 = int

datatype data_payload_encoding =
    DPE_Unknown | DPE_Utf8Json | DPE_Utf8Text | DPE_BinaryPickle | DPE_BinaryZip | DPE_Raw

fun data_payload_encoding_number :: "data_payload_encoding \<Rightarrow> i32" where
  "data_payload_encoding_number DPE_Unknown = 0"
| "data_payload_encoding_number DPE_Utf8Json = 1"
| "data_payload_encoding_number DPE_Utf8Text = 2"
| "data_payload_encoding_number DPE_BinaryPickle = 3"
| "data_payload_encoding_number DPE_BinaryZip = 4"
| "data_payload_encoding_number DPE_Raw = 5"

datatype gpu_model_pb =
    GPU_Unknown | GPU_NvidiaA10040gb | GPU_NvidiaA10080gb | GPU_NvidiaH10080gb | GPU_NvidiaTeslaT4 | GPU_NvidiaA6000
  | GPU_NvidiaA10

fun gpu_model_number :: "gpu_model_pb \<Rightarrow> i32" where
  "gpu_model_number GPU_Unknown = 0"
| "gpu_model_number GPU_NvidiaA10040gb = 1"
| "gpu_model_number GPU_NvidiaA10080gb = 2"
| "gpu_model_number GPU_NvidiaH10080gb = 3"
| "gpu_model_number GPU_NvidiaTeslaT4 = 4"
| "gpu_model_number GPU_NvidiaA6000 = 5"
| "gpu_model_number GPU_NvidiaA10 = 6"

datatype container_status_pb = CSP_Unknown | CSP_Pending | CSP_Running | CSP_Terminated

fun container_status_number :: "container_status_pb \<Rightarrow> i32" where
  "container_status_number CSP_Unknown = 0"
| "container_status_number CSP_Pending = 1"
| "container_status_number CSP_Running = 2"
| "container_status_number CSP_Terminated = 3"

datatype container_type_pb = CTP_Unknown | CTP_Function | CTP_Sandbox

fun container_type_number :: "container_type_pb \<Rightarrow> i32" where
  "container_type_number CTP_Unknown = 0"
| "container_type_number CTP_Function = 1"
| "container_type_number CTP_Sandbox = 2"

datatype executor_status_pb = ESP_Unknown | ESP_StartingUp | ESP_Running | ESP_Drained | ESP_Stopped

fun executor_status_number :: "executor_status_pb \<Rightarrow> i32" where
  "executor_status_number ESP_Unknown = 0"
| "executor_status_number ESP_StartingUp = 1"
| "executor_status_number ESP_Running = 2"
| "executor_status_number ESP_Drained = 3"
| "executor_status_number ESP_Stopped = 4"

datatype container_termination_reason_pb =
    TRP_Unknown | TRP_StartupFailedInternalError | TRP_StartupFailedFunctionError | TRP_StartupFailedFunctionTimeout
  | TRP_Unhealthy | TRP_InternalError | TRP_FunctionTimeout | TRP_FunctionCancelled | TRP_Oom | TRP_ProcessCrash
  | TRP_StartupFailedBadImage

fun container_termination_reason_number :: "container_termination_reason_pb \<Rightarrow> i32" where
  "container_termination_reason_number TRP_Unknown = 0"
| "container_termination_reason_number TRP_StartupFailedInternalError = 1"
| "container_termination_reason_number TRP_StartupFailedFunctionError = 2"
| "container_termination_reason_number TRP_StartupFailedFunctionTimeout = 3"
| "container_termination_reason_number TRP_Unhealthy = 4"
| "container_termination_reason_number TRP_InternalError = 5"
| "container_termination_reason_number TRP_FunctionTimeout = 6"
| "container_termination_reason_number TRP_FunctionCancelled = 7"
| "container_termination_reason_number TRP_Oom = 8"
| "container_termination_reason_number TRP_ProcessCrash = 9"
| "container_termination_reason_number TRP_StartupFailedBadImage = 10"

datatype allocation_failure_reason_pb =
    AFP_Unknown | AFP_InternalError | AFP_FunctionError | AFP_FunctionTimeout | AFP_RequestError | AFP_AllocationCancelled
  | AFP_ContainerTerminated | AFP_Oom | AFP_ConstraintUnsatisfiable | AFP_ExecutorRemoved | AFP_StartupFailedInternalError
  | AFP_StartupFailedFunctionError | AFP_StartupFailedFunctionTimeout | AFP_StartupFailedBadImage

text \<open>
  The value a number stands for, searched among the values of the enumeration, and the accessor of an
  optional field.
\<close>

definition enum_from :: "('e \<Rightarrow> i32) \<Rightarrow> 'e list \<Rightarrow> i32 \<Rightarrow> 'e option" where
  "enum_from number values n = List.find (\<lambda>e. number e = n) values"

definition data_payload_encoding_from :: "i32 \<Rightarrow> data_payload_encoding option" where
  "data_payload_encoding_from = enum_from data_payload_encoding_number
     [DPE_Unknown, DPE_Utf8Json, DPE_Utf8Text, DPE_BinaryPickle, DPE_BinaryZip, DPE_Raw]"

definition gpu_model_from :: "i32 \<Rightarrow> gpu_model_pb option" where
  "gpu_model_from = enum_from gpu_model_number
     [GPU_Unknown, GPU_NvidiaA10040gb, GPU_NvidiaA10080gb, GPU_NvidiaH10080gb, GPU_NvidiaTeslaT4, GPU_NvidiaA6000,
      GPU_NvidiaA10]"

definition container_status_from :: "i32 \<Rightarrow> container_status_pb option" where
  "container_status_from = enum_from container_status_number [CSP_Unknown, CSP_Pending, CSP_Running, CSP_Terminated]"

definition container_type_from :: "i32 \<Rightarrow> container_type_pb option" where
  "container_type_from = enum_from container_type_number [CTP_Unknown, CTP_Function, CTP_Sandbox]"

definition executor_status_from :: "i32 \<Rightarrow> executor_status_pb option" where
  "executor_status_from = enum_from executor_status_number
     [ESP_Unknown, ESP_StartingUp, ESP_Running, ESP_Drained, ESP_Stopped]"

definition container_termination_reason_from :: "i32 \<Rightarrow> container_termination_reason_pb option" where
  "container_termination_reason_from = enum_from container_termination_reason_number
     [TRP_Unknown, TRP_StartupFailedInternalError, TRP_StartupFailedFunctionError, TRP_StartupFailedFunctionTimeout,
      TRP_Unhealthy, TRP_InternalError, TRP_FunctionTimeout, TRP_FunctionCancelled, TRP_Oom, TRP_ProcessCrash,
      TRP_StartupFailedBadImage]"

definition enum_field :: "(i32 \<Rightarrow> 'e option) \<Rightarrow> 'e \<Rightarrow> i32 option \<Rightarrow> 'e" where
  "enum_field from unknown field = unwrap_or (Option.bind field from) unknown"

section \<open>Messages\<close>

record data_payload_pb =
  dpp_uri :: "string option"
  dpp_encoding :: "i32 option"
  dpp_encoding_version :: "u64 option"
  dpp_content_type :: "string option"
  dpp_metadata_size :: "u64 option"
  dpp_offset :: "u64 option"
  dpp_size :: "u64 option"
  dpp_sha256_hash :: "string option"
  dpp_source_function_call_id :: "string option"
  dpp_id :: "string option"

record gpu_resources_pb =
  gpp_count :: "u32 option"
  gpp_model :: "i32 option"

record host_resources_pb =
  hrp_cpu_count :: "u32 option"
  hrp_memory_bytes :: "u64 option"
  hrp_disk_bytes :: "u64 option"
  hrp_gpu :: "gpu_resources_pb option"

record allowed_function_pb =
  afn_namespace :: "string option"
  afn_application_name :: "string option"
  afn_function_name :: "string option"
  afn_application_version :: "string option"

record container_resources_pb =
  crp_cpu_ms_per_sec :: "u32 option"
  crp_memory_bytes :: "u64 option"
  crp_disk_bytes :: "u64 option"
  crp_gpu :: "gpu_resources_pb option"

record function_ref_pb =
  ref_namespace :: "string option"
  ref_application_name :: "string option"
  ref_function_name :: "string option"
  ref_application_version :: "string option"

record network_policy_pb =
  npp_allow_internet_access :: "bool option"
  npp_allow_out :: "string list"
  npp_deny_out :: "string list"

record sandbox_metadata_pb =
  smp_timeout_secs :: "u64 option"
  smp_entrypoint :: "string list"
  smp_image :: "string option"
  smp_network_policy :: "network_policy_pb option"
  smp_sandbox_id :: "string option"
  smp_snapshot_uri :: "string option"

record container_description_pb =
  cdp_id :: "string option"
  cdp_function :: "function_ref_pb option"
  cdp_secret_names :: "string list"
  cdp_initialization_timeout_ms :: "u32 option"
  cdp_application :: "data_payload_pb option"
  cdp_resources :: "container_resources_pb option"
  cdp_max_concurrency :: "u32 option"
  cdp_allocation_timeout_ms :: "u32 option"
  cdp_sandbox_metadata :: "sandbox_metadata_pb option"
  cdp_container_type :: "i32 option"
  cdp_pool_id :: "string option"

record container_state_pb =
  csp_description :: "container_description_pb option"
  csp_status :: "i32 option"
  csp_termination_reason :: "i32 option"

record executor_state_pb =
  esp_executor_id :: "string option"
  esp_hostname :: "string option"
  esp_version :: "string option"
  esp_status :: "i32 option"
  esp_total_resources :: "host_resources_pb option"
  esp_total_container_resources :: "host_resources_pb option"
  esp_allowed_functions :: "allowed_function_pb list"
  esp_container_states :: "container_state_pb list"
  esp_labels :: "string \<rightharpoonup> string"
  esp_state_hash :: "string option"
  esp_server_clock :: "u64 option"
  esp_catalog_entry_name :: "string option"
  esp_proxy_address :: "string option"

record allocation_pb =
  apb_function :: "function_ref_pb option"
  apb_allocation_id :: "string option"
  apb_function_call_id :: "string option"
  apb_request_id :: "string option"
  apb_args :: "data_payload_pb list"
  apb_request_data_payload_uri_prefix :: "string option"
  apb_request_error_payload_uri_prefix :: "string option"
  apb_container_id :: "string option"
  apb_function_call_metadata :: "bytes option"
  apb_replay_mode :: "i32 option"
  apb_last_event_clock :: "u64 option"

datatype function_arg_source = FunctionCallIdSource string | InlineDataSource data_payload_pb

text \<open>\<open>FunctionArg\<close> has the one field \<open>source\<close>, \<open>ExecutionPlanUpdate\<close> the one field \<open>op\<close>.\<close>

type_synonym function_arg_pb = "function_arg_source option"

record function_call_pb =
  fcp_id :: "string option"
  fcp_target :: "function_ref_pb option"
  fcp_args :: "function_arg_pb list"
  fcp_call_metadata :: "bytes option"

record reduce_op_pb =
  rop_id :: "string option"
  rop_collection :: "function_arg_pb list"
  rop_reducer :: "function_ref_pb option"
  rop_call_metadata :: "bytes option"

datatype execution_plan_op = FunctionCallPlan function_call_pb | ReducePlan reduce_op_pb

type_synonym execution_plan_update_pb = "execution_plan_op option"

text \<open>The commands of the server.\<close>

datatype command_body =
    AddContainer "container_description_pb option"
  | RemoveContainer string "i32 option"
  | RunAllocation "allocation_pb option"
  | KillAllocation string
  | UpdateContainerDescription string "sandbox_metadata_pb option"
  | SnapshotContainer string string string

record command =
  cmd_seq :: u64
  cmd_command :: "command_body option"

section \<open>URIs of the blob store\<close>

definition blob_store_path_to_url :: "(string \<Rightarrow> string) \<Rightarrow> string \<Rightarrow> string \<Rightarrow> string \<Rightarrow> string" where
  "blob_store_path_to_url bucket path scheme url =
     (if scheme = ''file'' then scheme @ '':///'' @ path
      else if scheme = ''s3'' then scheme @ ''://'' @ bucket url @ ''/'' @ path
      else ''not supported blob store scheme: '' @ scheme)"

definition blob_store_url_to_path :: "(string \<Rightarrow> string) \<Rightarrow> string \<Rightarrow> string \<Rightarrow> string \<Rightarrow> string" where
  "blob_store_url_to_path bucket uri scheme url =
     (if scheme = ''file'' then unwrap_or (strip_prefix (scheme @ '':///'') uri) uri
      else if scheme = ''s3'' then unwrap_or (strip_prefix (scheme @ ''://'' @ bucket url @ ''/'') uri) uri
      else ''not supported blob store scheme: '' @ scheme)"

text \<open>\<open>get_blob_store(namespace)\<close>: the scheme and the URL of the store of a namespace, else of the default one.\<close>

record blob_storage_registry =
  bsr_buckets :: "string \<rightharpoonup> string \<times> string"
  bsr_default :: "string \<times> string"

definition get_blob_store :: "blob_storage_registry \<Rightarrow> string \<Rightarrow> string \<times> string" where
  "get_blob_store self namespace = unwrap_or (bsr_buckets self namespace) (bsr_default self)"

section \<open>Payloads\<close>

definition string_to_data_payload_encoding :: "string \<Rightarrow> data_payload_encoding" where
  "string_to_data_payload_encoding v =
     (if v = ''application/json'' then DPE_Utf8Json
      else if v = ''application/python-pickle'' then DPE_BinaryPickle
      else if v = ''application/zip'' then DPE_BinaryZip
      else if v = ''text/plain'' then DPE_Utf8Text
      else DPE_Raw)"

fun encoding_mime :: "data_payload_encoding \<Rightarrow> string" where
  "encoding_mime DPE_Utf8Json = ''application/json''"
| "encoding_mime DPE_BinaryPickle = ''application/python-pickle''"
| "encoding_mime DPE_Utf8Text = ''text/plain''"
| "encoding_mime DPE_BinaryZip = ''application/zip''"
| "encoding_mime DPE_Raw = ''application/octet-stream''"
| "encoding_mime DPE_Unknown = ''application/octet-stream''"

definition prepare_data_payload ::
  "(string \<Rightarrow> string) \<Rightarrow> string \<Rightarrow> data_payload_pb \<Rightarrow> string \<Rightarrow> string \<Rightarrow> string + data_payload" where
  "prepare_data_payload bucket fresh msg scheme url =
     and_then (ok_or (dpp_uri msg) ''uri is required'') (\<lambda>uri.
     and_then (ok_or (dpp_size msg) ''size is required'') (\<lambda>sz.
     and_then (ok_or (dpp_sha256_hash msg) ''sha256_hash is required'') (\<lambda>sha.
     and_then (ok_or (dpp_encoding msg) ''encoding is required'') (\<lambda>n.
     and_then (ok_or (data_payload_encoding_from n) ''unknown enumeration value'') (\<lambda>enc.
       (let mime = encoding_mime enc;
            mime = (case dpp_content_type msg of
                      Some content_type \<Rightarrow> if content_type \<noteq> [] then content_type else mime
                    | None \<Rightarrow> mime)
        in Ok \<lparr>pay_id = unwrap_or (dpp_id msg) fresh, pay_path = blob_store_url_to_path bucket uri scheme url,
               pay_metadata_size = unwrap_or (dpp_metadata_size msg) 0, pay_offset = unwrap_or (dpp_offset msg) 0,
               pay_size = sz, pay_sha256_hash = sha, pay_encoding = mime\<rparr>))))))"

section \<open>Resources\<close>

fun gpu_model_name :: "gpu_model_pb \<Rightarrow> string option" where
  "gpu_model_name GPU_Unknown = None"
| "gpu_model_name GPU_NvidiaA10040gb = Some ''A100-40GB''"
| "gpu_model_name GPU_NvidiaA10080gb = Some ''A100-80GB''"
| "gpu_model_name GPU_NvidiaH10080gb = Some ''H100''"
| "gpu_model_name GPU_NvidiaTeslaT4 = Some ''T4''"
| "gpu_model_name GPU_NvidiaA6000 = Some ''A6000''"
| "gpu_model_name GPU_NvidiaA10 = Some ''A10''"

definition gpu_model_of_name :: "string \<Rightarrow> gpu_model_pb option" where
  "gpu_model_of_name model =
     (if model = ''A100-40GB'' then Some GPU_NvidiaA10040gb
      else if model = ''A100-80GB'' then Some GPU_NvidiaA10080gb
      else if model = ''H100'' then Some GPU_NvidiaH10080gb
      else if model = ''T4'' then Some GPU_NvidiaTeslaT4
      else if model = ''A6000'' then Some GPU_NvidiaA6000
      else if model = ''A10'' then Some GPU_NvidiaA10
      else None)"

definition gpu_resources_to_pb :: "gpu_resources \<Rightarrow> string + gpu_resources_pb" where
  "gpu_resources_to_pb g =
     (if gpu_count g = 0 then Err ''data_model gpu_resources.count is 0''
      else and_then (ok_or (gpu_model_of_name (gpu_model g)) ''unknown data_model gpu_resources.model'')
        (\<lambda>model. Ok \<lparr>gpp_count = Some (gpu_count g), gpp_model = Some (gpu_model_number model)\<rparr>))"

definition gpu_resources_from_pb :: "gpu_resources_pb \<Rightarrow> string + gpu_resources" where
  "gpu_resources_from_pb g =
     (let count = unwrap_or (gpp_count g) 0
      in if count = 0 then Err ''proto gpu_resources.count is 0''
         else and_then (ok_or (gpu_model_name (enum_field gpu_model_from GPU_Unknown (gpp_model g)))
                ''proto gpu_resources.model is unknown'')
           (\<lambda>model. Ok \<lparr>gpu_count = count, gpu_model = model\<rparr>))"

definition host_resources_to_pb :: "host_resources \<Rightarrow> string + host_resources_pb" where
  "host_resources_to_pb r =
     and_then (transpose_result (map_option gpu_resources_to_pb (host_gpu r))) (\<lambda>gpu.
       Ok \<lparr>hrp_cpu_count = Some (host_cpu_ms_per_sec r div 1000), hrp_memory_bytes = Some (host_memory_bytes r),
           hrp_disk_bytes = Some (host_disk_bytes r), hrp_gpu = gpu\<rparr>)"

definition host_resources_from_pb :: "host_resources_pb \<Rightarrow> string + host_resources" where
  "host_resources_from_pb r =
     and_then (ok_or (hrp_cpu_count r) ''cpu_count is required'') (\<lambda>cpu.
     and_then (ok_or (hrp_memory_bytes r) ''memory_bytes is required'') (\<lambda>memory.
     and_then (ok_or (hrp_disk_bytes r) ''disk_bytes is required'') (\<lambda>disk.
     and_then (transpose_result (map_option gpu_resources_from_pb (hrp_gpu r))) (\<lambda>gpu.
       Ok \<lparr>host_cpu_ms_per_sec = cpu * 1000, host_memory_bytes = memory, host_disk_bytes = disk, host_gpu = gpu\<rparr>))))"

definition container_resources_from_pb :: "container_resources_pb \<Rightarrow> string + container_resources" where
  "container_resources_from_pb r =
     and_then (ok_or (crp_cpu_ms_per_sec r) ''cpu_ms_per_sec is required'') (\<lambda>cpu.
     and_then (ok_or (crp_memory_bytes r) ''memory_bytes is required'') (\<lambda>memory.
     and_then (ok_or (crp_disk_bytes r) ''disk_bytes is required'') (\<lambda>disk.
     and_then (transpose_result (map_option gpu_resources_from_pb (crp_gpu r))) (\<lambda>gpu.
       Ok \<lparr>cres_cpu_ms_per_sec = cpu, cres_memory_mb = memory div 1024 div 1024,
           cres_ephemeral_disk_mb = disk div 1024 div 1024, cres_gpu = gpu\<rparr>))))"

definition container_resources_to_pb :: "container_resources \<Rightarrow> string + container_resources_pb" where
  "container_resources_to_pb r =
     and_then (transpose_result (map_option (map_err ((@) ''failed to convert GPU resources: '') \<circ> gpu_resources_to_pb)
         (cres_gpu r))) (\<lambda>gpu.
       Ok \<lparr>crp_cpu_ms_per_sec = Some (cres_cpu_ms_per_sec r), crp_memory_bytes = Some (cres_memory_mb r * 1024 * 1024),
           crp_disk_bytes = Some (cres_ephemeral_disk_mb r * 1024 * 1024), crp_gpu = gpu\<rparr>)"

section \<open>Executors and containers\<close>

definition function_allowlist_from_pb :: "allowed_function_pb \<Rightarrow> function_allowlist" where
  "function_allowlist_from_pb f =
     \<lparr>allow_namespace = afn_namespace f, allow_application = afn_application_name f, allow_function = afn_function_name f\<rparr>"

fun executor_state_from_pb :: "executor_status_pb \<Rightarrow> executor_state" where
  "executor_state_from_pb ESP_StartingUp = ES_StartingUp"
| "executor_state_from_pb ESP_Running = ES_Running"
| "executor_state_from_pb ESP_Drained = ES_Drained"
| "executor_state_from_pb ESP_Stopped = ES_Stopped"
| "executor_state_from_pb ESP_Unknown = ES_Unknown"

fun termination_reason_from_pb :: "container_termination_reason_pb \<Rightarrow> container_termination_reason" where
  "termination_reason_from_pb TRP_Unknown = CT_Unknown"
| "termination_reason_from_pb TRP_StartupFailedInternalError = CT_StartupFailedInternalError"
| "termination_reason_from_pb TRP_StartupFailedFunctionError = CT_StartupFailedFunctionError"
| "termination_reason_from_pb TRP_StartupFailedFunctionTimeout = CT_StartupFailedFunctionTimeout"
| "termination_reason_from_pb TRP_Unhealthy = CT_Unhealthy"
| "termination_reason_from_pb TRP_InternalError = CT_InternalError"
| "termination_reason_from_pb TRP_FunctionTimeout = CT_FunctionTimeout"
| "termination_reason_from_pb TRP_FunctionCancelled = CT_FunctionCancelled"
| "termination_reason_from_pb TRP_Oom = CT_Oom"
| "termination_reason_from_pb TRP_ProcessCrash = CT_ProcessCrash"
| "termination_reason_from_pb TRP_StartupFailedBadImage = CT_StartupFailedBadImage"

definition container_from_pb :: "container_state_pb \<Rightarrow> string + container" where
  "container_from_pb st =
     (let termination_reason = termination_reason_from_pb
            (enum_field container_termination_reason_from TRP_Unknown (csp_termination_reason st));
          description = csp_description st in
      and_then (ok_or (Option.bind description cdp_id) ''id is required'') (\<lambda>cid.
      and_then (ok_or (Option.bind description cdp_function) ''function ref is required'') (\<lambda>ref.
      and_then (ok_or (ref_namespace ref) ''namespace is required'') (\<lambda>namespace.
      and_then (ok_or (ref_application_name ref) ''application_name is required'') (\<lambda>application.
      and_then (ok_or (ref_function_name ref) ''function_name is required'') (\<lambda>function.
      and_then (ok_or (ref_application_version ref) ''application_version is required'') (\<lambda>version.
      and_then (ok_or (Option.bind description cdp_resources) ''resources is required'') (\<lambda>resources.
      and_then (container_resources_from_pb resources) (\<lambda>resources.
        (let max_concurrency = unwrap_or (Option.bind description cdp_max_concurrency) 1;
             ctype = (case description of
                None \<Rightarrow> FunctionContainer
              | Some d \<Rightarrow>
                  (case enum_field container_type_from CTP_Unknown (cdp_container_type d) of
                     CTP_Unknown \<Rightarrow> FunctionContainer
                   | CTP_Function \<Rightarrow> FunctionContainer
                   | CTP_Sandbox \<Rightarrow> SandboxContainer));
             secret_names = unwrap_or (map_option cdp_secret_names description) [];
             sandbox_metadata = Option.bind description cdp_sandbox_metadata;
             state = (case enum_field container_status_from CSP_Unknown (csp_status st) of
                CSP_Unknown \<Rightarrow> CS_Unknown
              | CSP_Pending \<Rightarrow> CS_Pending
              | CSP_Running \<Rightarrow> CS_Running
              | CSP_Terminated \<Rightarrow> CS_Terminated termination_reason);
             pid = (case Option.bind description cdp_pool_id of
                Some pid \<Rightarrow> Some pid
              | None \<Rightarrow>
                  (case ctype of
                     FunctionContainer \<Rightarrow> Some (pool_id_for_function application function version)
                   | SandboxContainer \<Rightarrow> None))
         in Ok \<lparr>ct_id = cid, ct_namespace = namespace, ct_application_name = application, ct_function_name = function,
               ct_version = version, ct_state = state, ct_resources = resources, ct_max_concurrency = max_concurrency,
               ct_container_type = ctype, ct_image = Option.bind sandbox_metadata smp_image,
               ct_secret_names = secret_names,
               ct_timeout_secs = unwrap_or (Option.bind sandbox_metadata smp_timeout_secs) 0,
               ct_entrypoint = unwrap_or (map_option smp_entrypoint sandbox_metadata) [], ct_network_policy = None,
               ct_sandbox_id = Option.bind sandbox_metadata smp_sandbox_id, ct_pool_id = pid, ct_snapshot_uri = None,
               ct_created_at_clock = None, ct_updated_at_clock = None\<rparr>))))))))))"

text \<open>
  \<open>ExecutorMetadata::try_from\<close>.  The host resources are set twice: first with a GPU that is left out when
  its conversion fails, then by a conversion whose error is passed on.  A builder field that was never
  set is an error of \<open>build\<close>.
\<close>

definition host_resources_of_report :: "host_resources_pb \<Rightarrow> string + host_resources" where
  "host_resources_of_report r =
     and_then (ok_or (hrp_cpu_count r) ''cpu_count is required'') (\<lambda>cpu.
     and_then (ok_or (hrp_memory_bytes r) ''memory_bytes is required'') (\<lambda>memory.
     and_then (ok_or (hrp_disk_bytes r) ''disk_bytes is required'') (\<lambda>disk.
       (let gpu = (case hrp_gpu r of
              Some g \<Rightarrow> (case gpu_resources_from_pb g of Inr g \<Rightarrow> Some g | Inl _ \<Rightarrow> None)
            | None \<Rightarrow> None);
            builder = \<lparr>host_cpu_ms_per_sec = cpu * 1000, host_memory_bytes = memory, host_disk_bytes = disk,
              host_gpu = gpu\<rparr>
        in and_then (host_resources_from_pb r) (\<lambda>converted. let builder = converted in Ok builder)))))"

definition executor_metadata_from_pb :: "executor_state_pb \<Rightarrow> string + executor_metadata" where
  "executor_metadata_from_pb st =
     and_then (ok_or (esp_executor_id st) ''executor_id is required'') (\<lambda>eid.
       (let allowed = map function_allowlist_from_pb (esp_allowed_functions st);
            allowlist = (if allowed = [] then None else Some allowed) in
     and_then (collect (map container_from_pb (esp_container_states st))) (\<lambda>containers.
     and_then (transpose_result (map_option host_resources_of_report (esp_total_container_resources st))) (\<lambda>host.
     and_then (ok_or (esp_version st) ''`executor_version` must be initialized'') (\<lambda>version.
     and_then (ok_or (esp_hostname st) ''`addr` must be initialized'') (\<lambda>addr.
     and_then (ok_or host ''`host_resources` must be initialized'') (\<lambda>host.
     and_then (ok_or (esp_state_hash st) ''`state_hash` must be initialized'') (\<lambda>state_hash.
       Ok \<lparr>em_id = eid, em_executor_version = version, em_function_allowlist = allowlist, em_addr = addr,
           em_labels = esp_labels st,
           em_containers = fold (\<lambda>c m. m(ct_id c \<mapsto> c)) containers Map.empty,
           em_host_resources = host,
           em_state = executor_state_from_pb (enum_field executor_status_from ESP_Unknown (esp_status st)),
           em_tombstoned = False, em_state_hash = state_hash, em_clock = unwrap_or (esp_server_clock st) 0,
           em_catalog_name = esp_catalog_entry_name st, em_created_at_clock = None, em_updated_at_clock = None,
           em_proxy_address = esp_proxy_address st\<rparr>))))))))"

definition network_policy_to_pb :: "network_policy \<Rightarrow> network_policy_pb" where
  "network_policy_to_pb np =
     \<lparr>npp_allow_internet_access = Some (np_allow_internet_access np), npp_allow_out = np_allow_out np,
      npp_deny_out = np_deny_out np\<rparr>"

section \<open>Function calls\<close>

text \<open>\<open>fresh\<close> gives the identifier \<open>nanoid!()\<close> makes for the payload at a position of the message.\<close>

fun to_internal_function_arg ::
  "(string \<Rightarrow> string) \<Rightarrow> string \<Rightarrow> function_arg_pb \<Rightarrow> string \<Rightarrow> string \<Rightarrow> string + function_args" where
  "to_internal_function_arg bucket fresh None scheme url = Err ''source is required''"
| "to_internal_function_arg bucket fresh (Some (FunctionCallIdSource cid)) scheme url = Ok (FunctionRunOutput cid)"
| "to_internal_function_arg bucket fresh (Some (InlineDataSource msg)) scheme url =
     and_then (prepare_data_payload bucket fresh msg scheme url) (\<lambda>payload. Ok (DataPayloadArg payload))"

definition to_internal_args ::
  "(string \<Rightarrow> string) \<Rightarrow> (nat \<Rightarrow> string) \<Rightarrow> function_arg_pb list \<Rightarrow> string \<times> string \<Rightarrow> string + function_args list" where
  "to_internal_args bucket fresh args store =
     collect (map (\<lambda>(i, arg). to_internal_function_arg bucket (fresh i) arg (fst store) (snd store))
       (zip [0..<length args] args))"

definition to_internal_function_call ::
  "(string \<Rightarrow> string) \<Rightarrow> (nat \<Rightarrow> string) \<Rightarrow> function_call_pb \<Rightarrow> blob_storage_registry \<Rightarrow> string option \<Rightarrow>
   string + function_call" where
  "to_internal_function_call bucket fresh call registry source =
     and_then (ok_or (fcp_target call) ''target is required'') (\<lambda>target.
     and_then (ok_or (ref_namespace target) ''namespace is required'') (\<lambda>namespace.
     and_then (ok_or (fcp_id call) ''id is required'') (\<lambda>cid.
     and_then (ok_or (ref_function_name target) ''function_name is required'') (\<lambda>name.
     and_then (to_internal_args bucket fresh (fcp_args call) (get_blob_store registry namespace)) (\<lambda>inputs.
       Ok \<lparr>call_function_call_id = cid, call_inputs = inputs, call_fn_name = name,
           call_call_metadata = unwrap_or (fcp_call_metadata call) [],
           call_parent_function_call_id = source\<rparr>)))))"

definition to_internal_reduce_op ::
  "(string \<Rightarrow> string) \<Rightarrow> (nat \<Rightarrow> string) \<Rightarrow> reduce_op_pb \<Rightarrow> blob_storage_registry \<Rightarrow> string + reduce_operation" where
  "to_internal_reduce_op bucket fresh op registry =
     and_then (ok_or (rop_reducer op) ''reducer is required'') (\<lambda>reducer.
     and_then (ok_or (ref_namespace reducer) ''namespace is required'') (\<lambda>namespace.
     and_then (ok_or (rop_id op) ''reduce op id is required'') (\<lambda>cid.
     and_then (ok_or (ref_function_name reducer) ''function_name is required'') (\<lambda>name.
     and_then (ok_or (rop_call_metadata op) ''call_metadata is required'') (\<lambda>metadata.
     and_then (to_internal_args bucket fresh (rop_collection op) (get_blob_store registry namespace)) (\<lambda>collection.
       Ok \<lparr>red_function_call_id = cid, red_collection = collection, red_fn_name = name,
           red_call_metadata = metadata\<rparr>))))))"

fun to_internal_compute_op ::
  "(string \<Rightarrow> string) \<Rightarrow> (nat \<Rightarrow> string) \<Rightarrow> execution_plan_update_pb \<Rightarrow> blob_storage_registry \<Rightarrow> string option \<Rightarrow>
   string + compute_op" where
  "to_internal_compute_op bucket fresh None registry source = Err ''op is required''"
| "to_internal_compute_op bucket fresh (Some (FunctionCallPlan call)) registry source =
     and_then (to_internal_function_call bucket fresh call registry source) (\<lambda>call. Ok (FunctionCallOp call))"
| "to_internal_compute_op bucket fresh (Some (ReducePlan op)) registry source =
     and_then (to_internal_reduce_op bucket fresh op registry) (\<lambda>op. Ok (Reduce op))"

section \<open>Reasons\<close>

fun proto_failure_reason_to_internal :: "allocation_failure_reason_pb \<Rightarrow> function_run_failure_reason" where
  "proto_failure_reason_to_internal AFP_Unknown = FR_Unknown"
| "proto_failure_reason_to_internal AFP_InternalError = FR_InternalError"
| "proto_failure_reason_to_internal AFP_FunctionError = FR_FunctionError"
| "proto_failure_reason_to_internal AFP_FunctionTimeout = FR_FunctionTimeout"
| "proto_failure_reason_to_internal AFP_RequestError = FR_RequestError"
| "proto_failure_reason_to_internal AFP_AllocationCancelled = FR_FunctionRunCancelled"
| "proto_failure_reason_to_internal AFP_ContainerTerminated = FR_FunctionExecutorTerminated"
| "proto_failure_reason_to_internal AFP_Oom = FR_OutOfMemory"
| "proto_failure_reason_to_internal AFP_ConstraintUnsatisfiable = FR_ConstraintUnsatisfiable"
| "proto_failure_reason_to_internal AFP_ExecutorRemoved = FR_ExecutorRemoved"
| "proto_failure_reason_to_internal AFP_StartupFailedInternalError = FR_ContainerStartupInternalError"
| "proto_failure_reason_to_internal AFP_StartupFailedFunctionError = FR_ContainerStartupFunctionError"
| "proto_failure_reason_to_internal AFP_StartupFailedFunctionTimeout = FR_ContainerStartupFunctionTimeout"
| "proto_failure_reason_to_internal AFP_StartupFailedBadImage = FR_ContainerStartupBadImage"

definition proto_failure_reason_to_termination_reason ::
  "allocation_failure_reason_pb \<Rightarrow> container_termination_reason" where
  "proto_failure_reason_to_termination_reason reason =
     (case reason of
        AFP_StartupFailedInternalError \<Rightarrow> CT_StartupFailedInternalError
      | AFP_StartupFailedFunctionError \<Rightarrow> CT_StartupFailedFunctionError
      | AFP_StartupFailedFunctionTimeout \<Rightarrow> CT_StartupFailedFunctionTimeout
      | AFP_StartupFailedBadImage \<Rightarrow> CT_StartupFailedBadImage
      | AFP_Oom \<Rightarrow> CT_Oom
      | AFP_FunctionTimeout \<Rightarrow> CT_FunctionTimeout
      | AFP_FunctionError \<Rightarrow> CT_Unhealthy
      | AFP_ContainerTerminated \<Rightarrow> CT_Unhealthy
      | _ \<Rightarrow> CT_Unknown)"

definition proto_container_termination_to_internal ::
  "container_termination_reason_pb \<Rightarrow> container_termination_reason" where
  "proto_container_termination_to_internal reason =
     (case reason of
        TRP_Unknown \<Rightarrow> CT_Unknown
      | TRP_StartupFailedInternalError \<Rightarrow> CT_StartupFailedInternalError
      | TRP_StartupFailedFunctionError \<Rightarrow> CT_StartupFailedFunctionError
      | TRP_StartupFailedFunctionTimeout \<Rightarrow> CT_StartupFailedFunctionTimeout
      | TRP_Unhealthy \<Rightarrow> CT_Unhealthy
      | TRP_InternalError \<Rightarrow> CT_InternalError
      | TRP_FunctionTimeout \<Rightarrow> CT_FunctionTimeout
      | TRP_FunctionCancelled \<Rightarrow> CT_FunctionCancelled
      | TRP_Oom \<Rightarrow> CT_Oom
      | TRP_ProcessCrash \<Rightarrow> CT_ProcessCrash
      | TRP_StartupFailedBadImage \<Rightarrow> CT_StartupFailedBadImage)"

section \<open>Round trips\<close>

lemmas enum_defs = enum_field_def enum_from_def data_payload_encoding_from_def gpu_model_from_def container_status_from_def
  container_type_from_def executor_status_from_def container_termination_reason_from_def

lemma enum_roundtrip [simp]:
  "data_payload_encoding_from (data_payload_encoding_number e) = Some e"
  "enum_field gpu_model_from GPU_Unknown (Some (gpu_model_number m)) = m"
  "enum_field container_status_from CSP_Unknown (Some (container_status_number s)) = s"
  "enum_field container_type_from CTP_Unknown (Some (container_type_number t)) = t"
  "enum_field executor_status_from ESP_Unknown (Some (executor_status_number x)) = x"
  "enum_field container_termination_reason_from TRP_Unknown (Some (container_termination_reason_number r)) = r"
proof -
  show "data_payload_encoding_from (data_payload_encoding_number e) = Some e" by (cases e) (simp_all add: enum_defs)
  show "enum_field gpu_model_from GPU_Unknown (Some (gpu_model_number m)) = m" by (cases m) (simp_all add: enum_defs)
  show "enum_field container_status_from CSP_Unknown (Some (container_status_number s)) = s"
    by (cases s) (simp_all add: enum_defs)
  show "enum_field container_type_from CTP_Unknown (Some (container_type_number t)) = t"
    by (cases t) (simp_all add: enum_defs)
  show "enum_field executor_status_from ESP_Unknown (Some (executor_status_number x)) = x"
    by (cases x) (simp_all add: enum_defs)
  show "enum_field container_termination_reason_from TRP_Unknown (Some (container_termination_reason_number r)) = r"
    by (cases r) (simp_all add: enum_defs)
qed

lemma gpu_model_roundtrip: "gpu_model_of_name n = Some m \<Longrightarrow> gpu_model_name m = Some n"
  by (auto simp: gpu_model_of_name_def split: if_splits)

lemma gpu_resources_roundtrip: "gpu_resources_to_pb g = Ok p \<Longrightarrow> gpu_resources_from_pb p = Ok g"
  by (cases "gpu_model_of_name (gpu_model g)")
    (auto simp: gpu_resources_to_pb_def gpu_resources_from_pb_def Let_def gpu_model_roundtrip split: if_splits)

lemma megabytes_roundtrip:
  fixes x :: u64
  assumes "x < 2 ^ 44"
  shows "x * 1024 * 1024 div 1024 div 1024 = x"
proof -
  have "unat x < 2 ^ 44" using assms by (simp add: word_less_nat_alt)
  then have "unat (x * 1024 * 1024) = unat x * 1024 * 1024" by (simp add: unat_word_ariths)
  then have "unat (x * 1024 * 1024 div 1024 div 1024) = unat x" by (simp add: unat_div)
  then show ?thesis by (simp add: word_unat_eq_iff)
qed

lemma container_resources_roundtrip:
  assumes "container_resources_to_pb r = Ok p" "cres_memory_mb r < 2 ^ 44" "cres_ephemeral_disk_mb r < 2 ^ 44"
  shows "container_resources_from_pb p = Ok r"
proof (cases "cres_gpu r")
  case None
  with assms megabytes_roundtrip show ?thesis by (auto simp: container_resources_to_pb_def container_resources_from_pb_def)
next
  case (Some g)
  with assms(1) obtain q where "gpu_resources_to_pb g = Ok q"
    by (cases "gpu_resources_to_pb g") (auto simp: container_resources_to_pb_def)
  with assms Some megabytes_roundtrip gpu_resources_roundtrip show ?thesis
    by (auto simp: container_resources_to_pb_def container_resources_from_pb_def)
qed

lemma blob_path_roundtrip:
  "scheme \<in> {''file'', ''s3''} \<Longrightarrow>
   blob_store_url_to_path bucket (blob_store_path_to_url bucket path scheme url) scheme url = path"
  using strip_prefix_append [of "''file:///''" path] strip_prefix_append [of "''s3://'' @ bucket url @ ''/''" path]
  by (auto simp: blob_store_url_to_path_def blob_store_path_to_url_def)

text \<open>A report whose GPU the server does not know is refused, whatever else it says.\<close>

lemma unknown_gpu_refused:
  assumes "esp_total_container_resources st = Some r" "hrp_gpu r = Some g" "gpu_resources_from_pb g = Err e"
  shows "\<not> is_ok (executor_metadata_from_pb st)"
proof -
  have "\<exists>e. host_resources_of_report r = Err e"
    using assms(2,3) by (cases "hrp_cpu_count r"; cases "hrp_memory_bytes r"; cases "hrp_disk_bytes r")
      (simp_all add: host_resources_of_report_def host_resources_from_pb_def Let_def)
  then obtain e' where "transpose_result (map_option host_resources_of_report (esp_total_container_resources st)) = Err e'"
    using assms(1) by auto
  then show ?thesis
    by (cases "esp_executor_id st"; cases "collect (map container_from_pb (esp_container_states st))")
      (simp_all add: executor_metadata_from_pb_def Let_def is_ok_def)
qed

end
