(* ===== verification/Updates.thy ===== *)
theory Updates
  imports Ledger Events Protocol
begin

text \<open>
  \<open>SchedulerUpdateRequest\<close> of \<open>crates/server/src/state_store/requests.rs\<close>, the batch of mutations a
  scheduling pass produces and the only channel through which the processors change the state,
  and the resource profile histograms of \<open>state_store/in_memory_state.rs\<close> it carries.
\<close>

section \<open>Resource profiles\<close>

record resource_profile =
  prof_cpu_ms_per_sec :: u32
  prof_memory_mb :: u64
  prof_disk_mb :: u64
  prof_gpu_count :: u32
  prof_gpu_model :: "string option"
  prof_placement_constraints :: "string list"

type_synonym histogram = "resource_profile \<rightharpoonup> u64"

definition profile_from_function :: "app_function \<Rightarrow> resource_profile" where
  "profile_from_function function =
     (let (gpu_count', gpu_model') =
            (case fres_gpu_configs (fn_resources function) of
               g # _ \<Rightarrow> (gpu_count g, Some (gpu_model g))
             | [] \<Rightarrow> (0, None));
          placement_constraints =
            sort (map expression_to_string (fn_placement_constraints function))
      in \<lparr>prof_cpu_ms_per_sec = fres_cpu_ms_per_sec (fn_resources function),
          prof_memory_mb = fres_memory_mb (fn_resources function),
          prof_disk_mb = fres_ephemeral_disk_mb (fn_resources function),
          prof_gpu_count = gpu_count', prof_gpu_model = gpu_model',
          prof_placement_constraints = placement_constraints\<rparr>)"

definition profile_from_container_resources :: "container_resources \<Rightarrow> resource_profile" where
  "profile_from_container_resources resources =
     (let (gpu_count', gpu_model') =
            (case cres_gpu resources of
               Some g \<Rightarrow> (gpu_count g, Some (gpu_model g))
             | None \<Rightarrow> (0, None))
      in \<lparr>prof_cpu_ms_per_sec = cres_cpu_ms_per_sec resources,
          prof_memory_mb = cres_memory_mb resources,
          prof_disk_mb = cres_ephemeral_disk_mb resources,
          prof_gpu_count = gpu_count', prof_gpu_model = gpu_model',
          prof_placement_constraints = []\<rparr>)"

definition hist_increment :: "resource_profile \<Rightarrow> histogram \<Rightarrow> histogram" where
  "hist_increment profile self = self(profile \<mapsto> unwrap_or (self profile) 0 + 1)"

definition hist_increment_by :: "resource_profile \<Rightarrow> u64 \<Rightarrow> histogram \<Rightarrow> histogram" where
  "hist_increment_by profile count self =
     (if 0 < count then self(profile \<mapsto> unwrap_or (self profile) 0 + count) else self)"

definition hist_decrement :: "resource_profile \<Rightarrow> histogram \<Rightarrow> histogram" where
  "hist_decrement profile self =
     (case self profile of
        Some count \<Rightarrow>
          let count = saturating_sub count 1
          in if count = 0 then self(profile := None) else self(profile \<mapsto> count)
      | None \<Rightarrow> self)"

definition hist_subtract :: "histogram \<Rightarrow> histogram \<Rightarrow> histogram" where
  "hist_subtract self other =
     (\<lambda>profile. case self profile of
        None \<Rightarrow> None
      | Some count \<Rightarrow>
          let count = saturating_sub count (unwrap_or (other profile) 0)
          in if 0 < count then Some count else None)"

section \<open>Updates\<close>

record scheduler_command_intent =
  sci_executor_id :: executor_id
  sci_command :: command

type_synonym snapshot_key = string

record scheduler_update_request =
  su_new_allocations :: "allocation list"
  su_updated_allocations :: "allocation list"
  su_updated_function_runs :: "request_ctx_key \<rightharpoonup> function_call_id set"
  su_updated_function_calls :: "request_ctx_key \<rightharpoonup> function_call_id set"
  su_updated_request_states :: "request_ctx_key \<rightharpoonup> request_ctx"
  su_remove_executors :: "executor_id list"
  su_updated_executor_states :: "executor_id \<rightharpoonup> executor_server_metadata"
  su_containers :: "container_id \<rightharpoonup> container_server_metadata"
  su_new_state_changes :: "state_change list"
  su_updated_sandboxes :: "sandbox_key \<rightharpoonup> sandbox"
  su_updated_snapshots :: "snapshot_key \<rightharpoonup> snapshot"
  su_updated_pools :: "container_pool_key \<rightharpoonup> container_pool"
  su_deleted_pools :: "container_pool_key set"
  su_function_pool_deficits :: "histogram option"
  su_sandbox_pool_deficits :: "histogram option"
  su_newly_blocked_pools :: "container_pool_key set"
  su_scheduler_command_intents :: "scheduler_command_intent list"

definition default_update :: scheduler_update_request where
  "default_update =
     \<lparr>su_new_allocations = [], su_updated_allocations = [],
      su_updated_function_runs = Map.empty, su_updated_function_calls = Map.empty,
      su_updated_request_states = Map.empty, su_remove_executors = [],
      su_updated_executor_states = Map.empty, su_containers = Map.empty,
      su_new_state_changes = [], su_updated_sandboxes = Map.empty,
      su_updated_snapshots = Map.empty, su_updated_pools = Map.empty, su_deleted_pools = {},
      su_function_pool_deficits = None, su_sandbox_pool_deficits = None,
      su_newly_blocked_pools = {}, su_scheduler_command_intents = []\<rparr>"

definition merge_request_state ::
  "scheduler_update_request \<Rightarrow> request_ctx_key \<Rightarrow> request_ctx \<Rightarrow> scheduler_update_request" where
  "merge_request_state self ctx_key ctx =
     (let should_preserve_existing =
            (case su_updated_request_states self ctx_key of
               Some existing \<Rightarrow> req_outcome existing \<noteq> None \<and> req_outcome ctx = None
             | None \<Rightarrow> False)
      in if should_preserve_existing then self
         else self\<lparr>su_updated_request_states := (su_updated_request_states self)(ctx_key \<mapsto> ctx)\<rparr>)"

text \<open>The loops of \<open>extend\<close>, each of which touches the entry of the key it is at only.\<close>

definition extend_ids ::
  "('k \<rightharpoonup> 'v set) \<Rightarrow> ('k \<rightharpoonup> 'v set) \<Rightarrow> ('k \<rightharpoonup> 'v set)" where
  "extend_ids self other =
     (\<lambda>k. case other k of None \<Rightarrow> self k | Some ids \<Rightarrow> Some (unwrap_or (self k) {} \<union> ids))"

definition extend_request_states ::
  "scheduler_update_request \<Rightarrow> (request_ctx_key \<rightharpoonup> request_ctx) \<Rightarrow> (request_ctx_key \<rightharpoonup> request_ctx)" where
  "extend_request_states self other =
     (\<lambda>k. case other k of
        None \<Rightarrow> su_updated_request_states self k
      | Some ctx \<Rightarrow> su_updated_request_states (merge_request_state self k ctx) k)"

definition extend_update ::
  "scheduler_update_request \<Rightarrow> scheduler_update_request \<Rightarrow> scheduler_update_request" where
  "extend_update self other =
     \<lparr>su_new_allocations = su_new_allocations self @ su_new_allocations other,
      su_updated_allocations = su_updated_allocations self @ su_updated_allocations other,
      su_updated_function_runs = extend_ids (su_updated_function_runs self) (su_updated_function_runs other),
      su_updated_function_calls =
        extend_ids (su_updated_function_calls self) (su_updated_function_calls other),
      su_updated_request_states = extend_request_states self (su_updated_request_states other),
      su_remove_executors = su_remove_executors self @ su_remove_executors other,
      su_updated_executor_states = su_updated_executor_states self ++ su_updated_executor_states other,
      su_containers = su_containers self ++ su_containers other,
      su_new_state_changes = su_new_state_changes self @ su_new_state_changes other,
      su_updated_sandboxes = su_updated_sandboxes self ++ su_updated_sandboxes other,
      su_updated_snapshots = su_updated_snapshots self ++ su_updated_snapshots other,
      su_updated_pools = su_updated_pools self ++ su_updated_pools other,
      su_deleted_pools = su_deleted_pools self \<union> su_deleted_pools other,
      su_function_pool_deficits =
        (if su_function_pool_deficits other \<noteq> None then su_function_pool_deficits other
         else su_function_pool_deficits self),
      su_sandbox_pool_deficits =
        (if su_sandbox_pool_deficits other \<noteq> None then su_sandbox_pool_deficits other
         else su_sandbox_pool_deficits self),
      su_newly_blocked_pools = su_newly_blocked_pools self \<union> su_newly_blocked_pools other,
      su_scheduler_command_intents =
        su_scheduler_command_intents self @ su_scheduler_command_intents other\<rparr>"

definition cancel_allocation ::
  "scheduler_update_request \<Rightarrow> allocation \<Rightarrow> scheduler_update_request \<times> allocation" where
  "cancel_allocation self allocation =
     (let allocation = allocation\<lparr>al_outcome := FunctionRunFailure FR_FunctionRunCancelled\<rparr>
      in (self\<lparr>su_updated_allocations := su_updated_allocations self @ [allocation]\<rparr>, allocation))"

definition add_function_run ::
  "scheduler_update_request \<Rightarrow> function_run \<Rightarrow> request_ctx \<Rightarrow> scheduler_update_request \<times> request_ctx" where
  "add_function_run self function_run ctx =
     (let ctx = ctx\<lparr>req_function_runs := (req_function_runs ctx)(run_id function_run \<mapsto> function_run)\<rparr>
      in (self\<lparr>su_updated_function_runs :=
               idx_insert (req_key ctx) (run_id function_run) (su_updated_function_runs self)\<rparr>, ctx))"

definition add_request_state ::
  "scheduler_update_request \<Rightarrow> request_ctx \<Rightarrow> scheduler_update_request" where
  "add_request_state self ctx = merge_request_state self (req_key ctx) ctx"

definition add_function_call ::
  "scheduler_update_request \<Rightarrow> function_call \<Rightarrow> request_ctx \<Rightarrow> scheduler_update_request \<times> request_ctx" where
  "add_function_call self function_call ctx =
     (let fc_id = call_function_call_id function_call;
          ctx = ctx\<lparr>req_function_calls := (req_function_calls ctx)(fc_id \<mapsto> function_call)\<rparr>
      in (self\<lparr>su_updated_function_calls :=
               idx_insert (req_key ctx) fc_id (su_updated_function_calls self)\<rparr>, ctx))"

text \<open>\<open>ordK\<close> and \<open>ordF\<close> are the iteration orders of the two hash containers.\<close>

definition unallocated_function_runs ::
  "(request_ctx_key set \<Rightarrow> request_ctx_key list) \<Rightarrow> (function_call_id set \<Rightarrow> function_call_id list) \<Rightarrow>
   scheduler_update_request \<Rightarrow> function_run list" where
  "unallocated_function_runs ordK ordF self =
     concat (map (\<lambda>k.
       case su_updated_request_states self k of
         None \<Rightarrow> []
       | Some ctx \<Rightarrow>
           concat (map (\<lambda>fid.
             case req_function_runs ctx fid of
               None \<Rightarrow> []
             | Some run \<Rightarrow> if run_status run = Pending then [run] else [])
             (ordF (idx_get (su_updated_function_runs self) k))))
       (ordK (dom (su_updated_function_runs self))))"

section \<open>Lemmas\<close>

lemma merge_request_state_simps [simp]:
  "su_updated_request_states (merge_request_state self k ctx) k' =
     (if k' = k then
        (case su_updated_request_states self k of
           Some existing \<Rightarrow>
             if req_outcome existing \<noteq> None \<and> req_outcome ctx = None then Some existing else Some ctx
         | None \<Rightarrow> Some ctx)
      else su_updated_request_states self k')"
  by (auto simp: merge_request_state_def Let_def split: option.splits)

text \<open>The loop gives the same states in whatever order it visits the entries.\<close>

lemma fold_merge_request_state:
  assumes "distinct ks" "set ks = dom other"
  shows "su_updated_request_states
           (fold (\<lambda>k u. merge_request_state u k (the (other k))) ks self) =
         extend_request_states self other"
proof -
  have "su_updated_request_states (fold (\<lambda>k u. merge_request_state u k (the (other k))) ks self) k' =
      (if k' \<in> set ks then su_updated_request_states (merge_request_state self k' (the (other k'))) k'
       else su_updated_request_states self k')" if "distinct ks" for ks k'
    using that by (induction ks arbitrary: self) (auto split: option.splits)
  with assms show ?thesis
    by (auto simp: extend_request_states_def fun_eq_iff domIff split: option.splits)
qed

lemma extend_ids_assoc: "extend_ids (extend_ids a b) c = extend_ids a (extend_ids b c)"
  by (auto simp: extend_ids_def fun_eq_iff split: option.splits)

lemma extend_ids_empty [simp]: "extend_ids Map.empty b = b" "extend_ids a Map.empty = a"
  by (auto simp: extend_ids_def fun_eq_iff split: option.splits)

lemma extend_update_assoc: "extend_update (extend_update a b) c = extend_update a (extend_update b c)"
proof -
  have "extend_request_states (extend_update a b) (su_updated_request_states c) =
      extend_request_states a (su_updated_request_states (extend_update b c))"
    by (rule ext) (auto simp: extend_request_states_def extend_update_def split: option.splits)
  moreover have "su_updated_request_states (extend_update u v) =
      extend_request_states u (su_updated_request_states v)" for u v
    by (simp add: extend_update_def)
  ultimately have states: "su_updated_request_states (extend_update (extend_update a b) c) =
      su_updated_request_states (extend_update a (extend_update b c))"
    by simp
  show ?thesis
  proof (rule scheduler_update_request.equality)
    show "su_updated_request_states (extend_update (extend_update a b) c) =
        su_updated_request_states (extend_update a (extend_update b c))" by (rule states)
  qed (auto simp add: extend_update_def extend_ids_assoc Un_assoc)
qed

lemma extend_update_default:
  "extend_update default_update a = a" "extend_update a default_update = a"
  by (auto simp: extend_update_def default_update_def extend_request_states_def fun_eq_iff
      split: option.splits)

interpretation updates: monoid extend_update default_update
  by unfold_locales (simp_all add: extend_update_assoc extend_update_default)

lemma fold_extend_update: "fold (\<lambda>u acc. extend_update acc u) us a = extend_update a (foldr extend_update us default_update)"
  by (induction us arbitrary: a) (simp_all add: updates.assoc)

text \<open>A request whose state in an update is final.\<close>

definition finished_in :: "scheduler_update_request \<Rightarrow> request_ctx_key \<Rightarrow> bool" where
  "finished_in u k \<longleftrightarrow>
     (case su_updated_request_states u k of None \<Rightarrow> False | Some ctx \<Rightarrow> req_outcome ctx \<noteq> None)"

lemma finished_in_merge:
  "finished_in (merge_request_state u k ctx) k' \<longleftrightarrow>
     finished_in u k' \<or> (k' = k \<and> req_outcome ctx \<noteq> None)"
  by (auto simp: finished_in_def split: option.splits)

lemma finished_in_extend: "finished_in (extend_update a b) k \<longleftrightarrow> finished_in a k \<or> finished_in b k"
  by (auto simp: finished_in_def extend_update_def extend_request_states_def split: option.splits)

section \<open>Properties\<close>

text \<open>
  Merging scheduler updates is associative with the empty update as its unit, so the result of
  a batch does not depend on how the processors group their \<open>extend\<close> calls.
\<close>

theorem extend_update_monoid:
  "extend_update (extend_update a b) c = extend_update a (extend_update b c) \<and>
   extend_update default_update a = a \<and> extend_update a default_update = a \<and>
   fold (\<lambda>u acc. extend_update acc u) us a = extend_update a (foldr extend_update us default_update)"
  by (simp add: updates.assoc fold_extend_update)

text \<open>
  C30: request completion is monotonic.  In a batch of merged updates a request is finished exactly
  when one of the updates finished it: a late snapshot without an outcome never replaces one with
  an outcome, whether it arrives by \<open>add_request_state\<close> or by \<open>extend\<close>.
\<close>

theorem request_completion_monotonic:
  "finished_in (fold (\<lambda>u acc. extend_update acc u) us a) k =
     (finished_in a k \<or> list_ex (\<lambda>u. finished_in u k) us) \<and>
   finished_in (add_request_state a ctx) k =
     (finished_in a k \<or> (k = req_key ctx \<and> req_outcome ctx \<noteq> None))"
proof -
  have "finished_in (fold (\<lambda>u acc. extend_update acc u) us a) k =
      (finished_in a k \<or> list_ex (\<lambda>u. finished_in u k) us)"
    by (induction us arbitrary: a) (auto simp: finished_in_extend)
  then show ?thesis by (simp add: add_request_state_def finished_in_merge)
qed

text \<open>
  The histogram of pending work loses nothing.  Adding a profile and taking it away again gives
  back the histogram, provided it keeps no zero counts and the count does not overflow, and
  subtracting a histogram from itself leaves nothing.
\<close>

theorem histogram_roundtrip:
  assumes "h p \<noteq> Some 0" "h p \<noteq> Some (- 1)"
  shows "hist_decrement p (hist_increment p h) = h \<and> hist_subtract h h = Map.empty"
proof (cases "h p")
  case None
  then show ?thesis
    by (auto simp: hist_decrement_def hist_increment_def hist_subtract_def saturating_sub_def
        fun_upd_idem fun_eq_iff split: option.splits)
next
  case (Some c)
  have "c + 1 \<noteq> 0" using assms Some by (auto simp: add_eq_0_iff2)
  then have "\<not> c + 1 < 1" by (simp add: word_less_1)
  then show ?thesis
    using assms Some
    by (auto simp: hist_decrement_def hist_increment_def hist_subtract_def saturating_sub_def Let_def
        fun_upd_idem fun_eq_iff split: option.splits)
qed

theorem histogram_roundtrip_witness:
  "let p = profile_from_container_resources \<lparr>cres_cpu_ms_per_sec = 1000, cres_memory_mb = 512,
         cres_ephemeral_disk_mb = 0, cres_gpu = None\<rparr>;
       h = [p \<mapsto> 3] in
   hist_decrement p (hist_increment p h) = h"
  unfolding Let_def by (rule histogram_roundtrip [THEN conjunct1]) simp_all

end
