(* ===== verification/SchedulerState.thy ===== *)
theory SchedulerState
  imports BlockedWork Updates
begin

text \<open>
  The state of \<open>ContainerScheduler\<close> (\<open>crates/server/src/processor/container_scheduler.rs\<close>) and the
  operations that maintain its indexes: the containers by function, by pool, warm in a pool and
  idle, the executors by free memory and by class.  The invariant says that the container indexes and
  the class index are functions of what they index and that every entry of the memory index carries
  the current free memory of its executor; every operation keeps it.
\<close>

section \<open>An order on function URIs\<close>

definition function_uri_key :: "'a function_uri_scheme \<Rightarrow> string \<times> string \<times> string \<times> string \<times> 'a" where
  "function_uri_key x =
     (uri_namespace x, uri_application x, uri_function x, uri_version x, function_uri.more x)"

lemma function_uri_key_inject: "function_uri_key x = function_uri_key y \<longleftrightarrow> x = y"
  by (cases x; cases y) (simp add: function_uri_key_def)

instantiation function_uri_ext :: (linorder) linorder
begin

definition less_eq_function_uri_ext :: "'a function_uri_ext \<Rightarrow> 'a function_uri_ext \<Rightarrow> bool" where
  "less_eq_function_uri_ext x y \<longleftrightarrow> function_uri_key x \<le> function_uri_key y"

definition less_function_uri_ext :: "'a function_uri_ext \<Rightarrow> 'a function_uri_ext \<Rightarrow> bool" where
  "less_function_uri_ext x y \<longleftrightarrow> function_uri_key x < function_uri_key y"

instance
  by standard
    (auto simp: less_eq_function_uri_ext_def less_function_uri_ext_def
      simp flip: function_uri_key_inject)

end

section \<open>State\<close>

record placement_result =
  pr_executor_id :: "executor_id option"
  pr_eligible_classes :: "executor_class set"

record container_scheduler =
  cs_executors :: "executor_id \<rightharpoonup> executor_metadata"
  cs_containers_by_function_uri :: "(function_uri, container_id) index"
  cs_function_containers :: "container_id \<rightharpoonup> container_server_metadata"
  cs_executor_states :: "executor_id \<rightharpoonup> executor_server_metadata"
  cs_containers_by_pool :: "(container_pool_key, container_id) index"
  cs_warm_containers_by_pool :: "(container_pool_key, container_id) index"
  cs_function_pools :: "container_pool_key \<rightharpoonup> container_pool"
  cs_sandbox_pools :: "container_pool_key \<rightharpoonup> container_pool"
  cs_dirty_pools :: "container_pool_key set"
  cs_blocked_pools :: "container_pool_key set"
  cs_executors_by_free_memory :: "(u64 \<times> executor_id) set"
  cs_executor_classes :: "executor_id \<rightharpoonup> executor_class"
  cs_executors_by_class :: "(executor_class, executor_id) index"
  cs_blocked_work :: blocked_work_tracker
  cs_idle_containers :: "(instant \<times> container_id) set"
  cs_reaped_containers :: "function_uri \<rightharpoonup> container_id list"
  cs_last_placement :: "placement_result option"

text \<open>
  \<open>ContainerScheduler::new\<close>, given the rows it reads from the two pool column families.
\<close>

definition cs_new :: "container_pool list \<Rightarrow> container_pool list \<Rightarrow> container_scheduler" where
  "cs_new fn_pools sb_pools =
     \<lparr>cs_executors = Map.empty,
      cs_containers_by_function_uri = Map.empty,
      cs_function_containers = Map.empty,
      cs_executor_states = Map.empty,
      cs_containers_by_pool = Map.empty,
      cs_warm_containers_by_pool = Map.empty,
      cs_function_pools =
        fold (\<lambda>pool m. m(pool_key pool \<mapsto> pool\<lparr>pool_pool_type := FunctionPool\<rparr>)) fn_pools Map.empty,
      cs_sandbox_pools =
        fold (\<lambda>pool m. m(pool_key pool \<mapsto> pool\<lparr>pool_pool_type := SandboxPool\<rparr>)) sb_pools Map.empty,
      cs_dirty_pools = {},
      cs_blocked_pools = {},
      cs_executors_by_free_memory = {},
      cs_executor_classes = Map.empty,
      cs_executors_by_class = Map.empty,
      cs_blocked_work = bt_new,
      cs_idle_containers = {},
      cs_reaped_containers = Map.empty,
      cs_last_placement = None\<rparr>"

section \<open>Pools\<close>

definition get_pool :: "container_scheduler \<Rightarrow> container_pool_key \<Rightarrow> container_pool option" where
  "get_pool self key =
     (case cs_function_pools self key of
        Some pool \<Rightarrow> Some pool
      | None \<Rightarrow> cs_sandbox_pools self key)"

text \<open>\<open>self.pool_map_mut(pool).insert(key, pool)\<close>\<close>

definition pool_map_insert :: "container_pool \<Rightarrow> container_pool_key \<Rightarrow> container_scheduler \<Rightarrow> container_scheduler" where
  "pool_map_insert pool key self =
     (if is_function_pool pool
      then self\<lparr>cs_function_pools := (cs_function_pools self)(key \<mapsto> pool)\<rparr>
      else self\<lparr>cs_sandbox_pools := (cs_sandbox_pools self)(key \<mapsto> pool)\<rparr>)"

definition mark_pool_dirty :: "container_pool_key \<Rightarrow> container_scheduler \<Rightarrow> container_scheduler" where
  "mark_pool_dirty key self =
     self\<lparr>cs_blocked_pools := cs_blocked_pools self - {key},
          cs_dirty_pools := insert key (cs_dirty_pools self)\<rparr>"

definition take_dirty_pools :: "container_scheduler \<Rightarrow> container_pool_key set \<times> container_scheduler" where
  "take_dirty_pools self = (cs_dirty_pools self, self\<lparr>cs_dirty_pools := {}\<rparr>)"

definition ids_len_u32 :: "('k, container_id) index \<Rightarrow> 'k \<Rightarrow> u32" where
  "ids_len_u32 m k = (case m k of Some ids \<Rightarrow> of_nat (card ids) | None \<Rightarrow> 0)"

definition pool_container_count :: "container_scheduler \<Rightarrow> container_pool_key \<Rightarrow> u32" where
  "pool_container_count self key = ids_len_u32 (cs_containers_by_pool self) key"

definition total_containers_for_function :: "container_scheduler \<Rightarrow> function_uri \<Rightarrow> u32" where
  "total_containers_for_function self uri = ids_len_u32 (cs_containers_by_function_uri self) uri"

definition count_pool_containers :: "container_scheduler \<Rightarrow> container_pool_key \<Rightarrow> u32 \<times> u32" where
  "count_pool_containers self key =
     (let warm = ids_len_u32 (cs_warm_containers_by_pool self) key;
          total_non_terminated = pool_container_count self key;
          claimed = saturating_sub total_non_terminated warm
      in (claimed, warm))"

section \<open>Executors\<close>

definition has_available_capacity :: "container_scheduler \<Rightarrow> bool" where
  "has_available_capacity self = (cs_executors_by_free_memory self \<noteq> {})"

definition has_executors :: "container_scheduler \<Rightarrow> bool" where
  "has_executors self = (cs_executor_states self \<noteq> Map.empty)"

definition insert_resource_index ::
  "executor_id \<Rightarrow> host_resources \<Rightarrow> container_scheduler \<Rightarrow> container_scheduler" where
  "insert_resource_index eid resources self =
     (if 0 < host_memory_bytes resources \<and> 0 < host_cpu_ms_per_sec resources
      then self\<lparr>cs_executors_by_free_memory :=
             insert (host_memory_bytes resources, eid) (cs_executors_by_free_memory self)\<rparr>
      else self)"

definition remove_resource_index ::
  "executor_id \<Rightarrow> host_resources \<Rightarrow> container_scheduler \<Rightarrow> container_scheduler" where
  "remove_resource_index eid resources self =
     self\<lparr>cs_executors_by_free_memory :=
       cs_executors_by_free_memory self - {(host_memory_bytes resources, eid)}\<rparr>"

definition set_executor_state ::
  "executor_id \<Rightarrow> executor_server_metadata \<Rightarrow> container_scheduler \<Rightarrow> container_scheduler" where
  "set_executor_state eid state self =
     (let self = (case cs_executor_states self eid of
                    Some old \<Rightarrow>
                      self\<lparr>cs_executors_by_free_memory := cs_executors_by_free_memory self -
                             {(host_memory_bytes (esm_free_resources old), eid)}\<rparr>
                  | None \<Rightarrow> self);
          self = insert_resource_index eid (esm_free_resources state) self
      in self\<lparr>cs_executor_states := (cs_executor_states self)(eid \<mapsto> state)\<rparr>)"

definition remove_executor_state :: "executor_id \<Rightarrow> container_scheduler \<Rightarrow> container_scheduler" where
  "remove_executor_state eid self =
     (case cs_executor_states self eid of
        Some old \<Rightarrow>
          remove_resource_index eid (esm_free_resources old)
            (self\<lparr>cs_executor_states := (cs_executor_states self)(eid := None)\<rparr>)
      | None \<Rightarrow> self)"

definition upsert_executor :: "executor_metadata \<Rightarrow> container_scheduler \<Rightarrow> container_scheduler" where
  "upsert_executor executor_metadata self =
     (let eid = em_id executor_metadata;
          self = self\<lparr>cs_executors := (cs_executors self)(eid \<mapsto> executor_metadata)\<rparr>;
          new_class = class_from_executor executor_metadata;
          self = (case cs_executor_classes self eid of
                    Some old_class \<Rightarrow>
                      if old_class \<noteq> new_class
                      then self\<lparr>cs_executors_by_class := idx_remove old_class eid (cs_executors_by_class self)\<rparr>
                      else self
                  | None \<Rightarrow> self)
      in self\<lparr>cs_executor_classes := (cs_executor_classes self)(eid \<mapsto> new_class),
              cs_executors_by_class := idx_insert new_class eid (cs_executors_by_class self)\<rparr>)"

definition deregister_executor :: "executor_id \<Rightarrow> container_scheduler \<Rightarrow> container_scheduler" where
  "deregister_executor eid self =
     (let self = (case cs_executors self eid of
                    Some executor \<Rightarrow>
                      self\<lparr>cs_executors := (cs_executors self)(eid \<mapsto> executor\<lparr>em_tombstoned := True\<rparr>)\<rparr>
                  | None \<Rightarrow> self);
          self = (case cs_executor_states self eid of
                    Some state \<Rightarrow>
                      self\<lparr>cs_executors_by_free_memory := cs_executors_by_free_memory self -
                             {(host_memory_bytes (esm_free_resources state), eid)}\<rparr>
                  | None \<Rightarrow> self)
      in case cs_executor_classes self eid of
           Some old_class \<Rightarrow>
             self\<lparr>cs_executor_classes := (cs_executor_classes self)(eid := None),
                  cs_executors_by_class := idx_remove old_class eid (cs_executors_by_class self)\<rparr>
         | None \<Rightarrow> self)"

definition get_executor_class :: "container_scheduler \<Rightarrow> executor_id \<Rightarrow> executor_class" where
  "get_executor_class self eid =
     (case cs_executor_classes self eid of
        Some c \<Rightarrow> c
      | None \<Rightarrow>
          (case cs_executors self eid of
             Some e \<Rightarrow> class_from_executor e
           | None \<Rightarrow> \<lparr>cls_labels = Map.empty, cls_allowlist = None\<rparr>))"

section \<open>Container indexes\<close>

definition desired_terminated :: "container_server_metadata \<Rightarrow> bool" where
  "desired_terminated fc = is_terminated (csm_desired_state fc)"

definition csm_pool_key :: "container_server_metadata \<Rightarrow> container_pool_key option" where
  "csm_pool_key fc = ct_pool_key (csm_function_container fc)"

definition csm_uri :: "container_server_metadata \<Rightarrow> function_uri" where
  "csm_uri fc = uri_from_container (csm_function_container fc)"

text \<open>\<open>if let Some(idle_since) = fc.idle_since { self.idle_containers.remove(..) }\<close>\<close>

definition remove_idle ::
  "container_id \<Rightarrow> instant option \<Rightarrow> container_scheduler \<Rightarrow> container_scheduler" where
  "remove_idle cid idle_since self =
     (case idle_since of
        Some t \<Rightarrow> self\<lparr>cs_idle_containers := cs_idle_containers self - {(t, cid)}\<rparr>
      | None \<Rightarrow> self)"

definition remove_from_uri_index ::
  "function_uri \<Rightarrow> container_id \<Rightarrow> container_scheduler \<Rightarrow> container_scheduler" where
  "remove_from_uri_index uri cid self =
     self\<lparr>cs_containers_by_function_uri := idx_remove uri cid (cs_containers_by_function_uri self)\<rparr>"

definition remove_from_pool_index ::
  "container_pool_key \<Rightarrow> container_id \<Rightarrow> container_scheduler \<Rightarrow> container_scheduler" where
  "remove_from_pool_index key cid self =
     self\<lparr>cs_containers_by_pool := idx_remove key cid (cs_containers_by_pool self)\<rparr>"

definition remove_from_warm_index ::
  "container_pool_key \<Rightarrow> container_id \<Rightarrow> container_scheduler \<Rightarrow> container_scheduler" where
  "remove_from_warm_index key cid self =
     self\<lparr>cs_warm_containers_by_pool := idx_remove key cid (cs_warm_containers_by_pool self)\<rparr>"

definition update_container_indices ::
  "container_id \<Rightarrow> container_server_metadata \<Rightarrow> container_scheduler \<Rightarrow> container_scheduler" where
  "update_container_indices cid meta self =
     (let key = csm_pool_key meta;
          uri = csm_uri meta;
          terminated = desired_terminated meta;
          was_warm = (case cs_function_containers self cid of
                        Some old \<Rightarrow> ct_sandbox_id (csm_function_container old) = None \<and>
                                    \<not> desired_terminated old
                      | None \<Rightarrow> False);
          self = (case cs_function_containers self cid of
                    Some old_fc \<Rightarrow> remove_idle cid (csm_idle_since old_fc) self
                  | None \<Rightarrow> self);
          self = (if \<not> terminated \<and> csm_container_type meta = FunctionContainer
                  then (case csm_idle_since meta of
                          Some t \<Rightarrow> self\<lparr>cs_idle_containers := insert (t, cid) (cs_idle_containers self)\<rparr>
                        | None \<Rightarrow> self)
                  else self);
          self = self\<lparr>cs_function_containers := (cs_function_containers self)(cid \<mapsto> meta)\<rparr>
      in if terminated
         then (let self = remove_from_uri_index uri cid self
               in case key of
                    Some key \<Rightarrow>
                      (let self = remove_from_pool_index key cid self;
                           self = (if was_warm then remove_from_warm_index key cid self else self)
                       in mark_pool_dirty key self)
                  | None \<Rightarrow> self)
         else (let self = self\<lparr>cs_containers_by_function_uri :=
                     idx_insert uri cid (cs_containers_by_function_uri self)\<rparr>
               in case key of
                    Some key \<Rightarrow>
                      (let self = self\<lparr>cs_containers_by_pool := idx_insert key cid (cs_containers_by_pool self)\<rparr>;
                           is_warm = (ct_sandbox_id (csm_function_container meta) = None);
                           self = (if is_warm
                                   then self\<lparr>cs_warm_containers_by_pool :=
                                          idx_insert key cid (cs_warm_containers_by_pool self)\<rparr>
                                   else if was_warm then remove_from_warm_index key cid self
                                   else self)
                       in mark_pool_dirty key self)
                  | None \<Rightarrow> self))"

definition remove_container_from_indices ::
  "container_id \<Rightarrow> container_scheduler \<Rightarrow> container_scheduler" where
  "remove_container_from_indices cid self =
     (case cs_function_containers self cid of
        Some fc \<Rightarrow>
          (let self = self\<lparr>cs_function_containers := (cs_function_containers self)(cid := None)\<rparr>;
               self = remove_idle cid (csm_idle_since fc) self;
               self = remove_from_uri_index (csm_uri fc) cid self
           in case csm_pool_key fc of
                Some key \<Rightarrow>
                  mark_pool_dirty key
                    (remove_from_warm_index key cid (remove_from_pool_index key cid self))
              | None \<Rightarrow> self)
      | None \<Rightarrow> self)"

text \<open>\<open>fc.desired_state = ContainerState::Terminated { reason: DesiredStateRemoved }\<close>\<close>

definition mark_terminated :: "container_server_metadata \<Rightarrow> container_server_metadata" where
  "mark_terminated fc = fc\<lparr>csm_desired_state := CS_Terminated CT_DesiredStateRemoved\<rparr>"

definition terminate_container ::
  "container_id \<Rightarrow> container_scheduler \<Rightarrow> scheduler_update_request option \<times> container_scheduler" where
  "terminate_container cid self =
     (case cs_function_containers self cid of
        None \<Rightarrow> (None, self)
      | Some fc \<Rightarrow>
          (let self = (case csm_pool_key fc of
                         Some key \<Rightarrow> remove_from_pool_index key cid (remove_from_warm_index key cid self)
                       | None \<Rightarrow> self);
               self = remove_from_uri_index (csm_uri fc) cid self;
               self = remove_idle cid (csm_idle_since fc) self;
               fc = mark_terminated fc;
               self = self\<lparr>cs_function_containers := (cs_function_containers self)(cid \<mapsto> fc)\<rparr>
           in (Some (default_update\<lparr>su_containers := [cid \<mapsto> fc]\<rparr>), self)))"

text \<open>
  \<open>claim_pool_container\<close>; \<open>ord\<close> is the iteration order of the set of warm containers.
\<close>

definition claim_pool_container ::
  "(container_id set \<Rightarrow> container_id list) \<Rightarrow> container_pool_key \<Rightarrow> sandbox_id \<Rightarrow> u64 \<Rightarrow> container_scheduler \<Rightarrow>
   (container_id \<times> executor_id \<times> scheduler_update_request) option \<times> container_scheduler" where
  "claim_pool_container ord key sandbox_id sandbox_timeout_secs self =
     (case cs_warm_containers_by_pool self key of
        None \<Rightarrow> (None, self)
      | Some warm_ids \<Rightarrow>
          (case List.find (\<lambda>cid. cs_function_containers self cid \<noteq> None) (ord warm_ids) of
             None \<Rightarrow> (None, self)
           | Some cid \<Rightarrow>
               (case cs_function_containers self cid of
                  None \<Rightarrow> (None, self)
                | Some meta \<Rightarrow>
                    (let executor_id = csm_executor_id meta;
                         meta = meta\<lparr>csm_function_container := (csm_function_container meta)
                                  \<lparr>ct_sandbox_id := Some sandbox_id, ct_timeout_secs := sandbox_timeout_secs\<rparr>\<rparr>;
                         self = self\<lparr>cs_function_containers := (cs_function_containers self)(cid \<mapsto> meta)\<rparr>;
                         self = remove_from_warm_index key cid self;
                         update = default_update\<lparr>su_containers := [cid \<mapsto> meta]\<rparr>;
                         self = mark_pool_dirty key self
                     in (Some (cid, executor_id, update), self)))))"

text \<open>\<open>apply_container_update\<close>; \<open>ordC\<close> and \<open>ordE\<close> are the iteration orders of the two maps.\<close>

definition apply_container_update ::
  "(container_id set \<Rightarrow> container_id list) \<Rightarrow> (executor_id set \<Rightarrow> executor_id list) \<Rightarrow>
   scheduler_update_request \<Rightarrow> container_scheduler \<Rightarrow> container_scheduler" where
  "apply_container_update ordC ordE update self =
     (let self = fold (\<lambda>cid. update_container_indices cid (the (su_containers update cid)))
                   (ordC (dom (su_containers update))) self;
          self = fold (\<lambda>eid. set_executor_state eid (the (su_updated_executor_states update eid)))
                   (ordE (dom (su_updated_executor_states update))) self
      in fold remove_executor_state (su_remove_executors update) self)"

section \<open>The invariant of the container indexes\<close>

text \<open>Pool keys are pairs; quantifiers over them are kept whole.\<close>

declare split_paired_All [simp del] split_paired_Ex [simp del]

text \<open>The metadata of a container that is not marked for termination.\<close>

definition live :: "container_scheduler \<Rightarrow> container_id \<Rightarrow> container_server_metadata option" where
  "live s cid =
     (case cs_function_containers s cid of
        Some fc \<Rightarrow> if desired_terminated fc then None else Some fc
      | None \<Rightarrow> None)"

definition is_warm :: "container_server_metadata \<Rightarrow> bool" where
  "is_warm fc \<longleftrightarrow> ct_sandbox_id (csm_function_container fc) = None"

definition reapable_since :: "container_server_metadata \<Rightarrow> instant option" where
  "reapable_since fc = (if csm_container_type fc = FunctionContainer then csm_idle_since fc else None)"

text \<open>What the four indexes say about one container is what its metadata says.\<close>

definition indexed_ok :: "container_scheduler \<Rightarrow> container_id \<Rightarrow> bool" where
  "indexed_ok s cid \<longleftrightarrow>
     (\<forall>u. cid \<in> idx_get (cs_containers_by_function_uri s) u \<longleftrightarrow>
        map_option csm_uri (live s cid) = Some u) \<and>
     (\<forall>k. cid \<in> idx_get (cs_containers_by_pool s) k \<longleftrightarrow>
        Option.bind (live s cid) csm_pool_key = Some k) \<and>
     (\<forall>k. cid \<in> idx_get (cs_warm_containers_by_pool s) k \<longleftrightarrow>
        Option.bind (live s cid) (\<lambda>fc. if is_warm fc then csm_pool_key fc else None) = Some k) \<and>
     (\<forall>t. (t, cid) \<in> cs_idle_containers s \<longleftrightarrow> Option.bind (live s cid) reapable_since = Some t)"

definition containers_ok :: "container_scheduler \<Rightarrow> bool" where
  "containers_ok s \<longleftrightarrow>
     idx_tidy (cs_containers_by_function_uri s) \<and> idx_tidy (cs_containers_by_pool s) \<and>
     idx_tidy (cs_warm_containers_by_pool s) \<and> (\<forall>cid. indexed_ok s cid)"

text \<open>The parts of the state the invariant speaks of.\<close>

definition container_view where
  "container_view s =
     (cs_function_containers s, cs_containers_by_function_uri s, cs_containers_by_pool s,
      cs_warm_containers_by_pool s, cs_idle_containers s)"

lemma live_cong: "cs_function_containers s cid = cs_function_containers s' cid \<Longrightarrow> live s cid = live s' cid"
  by (simp add: live_def)

lemma containers_ok_view: "container_view s = container_view s' \<Longrightarrow> containers_ok s = containers_ok s'"
  by (simp add: container_view_def containers_ok_def indexed_ok_def live_def)

lemma containers_ok_new: "containers_ok (cs_new fn_pools sb_pools)"
  by (simp add: containers_ok_def indexed_ok_def cs_new_def live_def)

lemma container_view_mark_pool_dirty [simp]: "container_view (mark_pool_dirty k s) = container_view s"
  by (simp add: container_view_def mark_pool_dirty_def)

subsection \<open>Removing a container from the indexes it is in\<close>

text \<open>All four indexes without the container.\<close>

definition unindexed :: "container_scheduler \<Rightarrow> container_id \<Rightarrow> container_scheduler \<Rightarrow> bool" where
  "unindexed s cid s' \<longleftrightarrow>
     (\<forall>u. idx_get (cs_containers_by_function_uri s') u = idx_get (cs_containers_by_function_uri s) u - {cid}) \<and>
     (\<forall>k. idx_get (cs_containers_by_pool s') k = idx_get (cs_containers_by_pool s) k - {cid}) \<and>
     (\<forall>k. idx_get (cs_warm_containers_by_pool s') k = idx_get (cs_warm_containers_by_pool s) k - {cid}) \<and>
     cs_idle_containers s' = cs_idle_containers s - UNIV \<times> {cid}"

lemma indexed_ok_other:
  assumes "unindexed s cid s'" "cid' \<noteq> cid"
    and "cs_function_containers s' cid' = cs_function_containers s cid'"
  shows "indexed_ok s' cid' = indexed_ok s cid'"
  using assms live_cong [of s' cid' s] by (simp add: indexed_ok_def unindexed_def)

lemma indexed_ok_gone:
  assumes "unindexed s cid s'" "live s' cid = None"
  shows "indexed_ok s' cid"
  using assms by (auto simp: indexed_ok_def unindexed_def)

text \<open>Removing it at the keys its metadata names is enough, when it was indexed correctly.\<close>

lemma idx_get_remove_at:
  assumes "\<And>k'. v \<in> idx_get m k' \<Longrightarrow> k' = k"
  shows "idx_get (idx_remove k v m) k' = idx_get m k' - {v}"
  using assms by auto

lemma idx_get_remove_pool:
  assumes "\<And>k'. v \<in> idx_get m k' \<Longrightarrow> key = Some k'"
  shows "idx_get (case key of Some k \<Rightarrow> idx_remove k v m | None \<Rightarrow> m) k' = idx_get m k' - {v}"
  using assms by (cases key) (auto simp: idx_get_remove_at)

lemma indexed_okD:
  assumes "indexed_ok s cid" "cs_function_containers s cid = Some fc"
  shows "cid \<in> idx_get (cs_containers_by_function_uri s) u \<Longrightarrow> u = csm_uri fc"
    and "cid \<in> idx_get (cs_containers_by_pool s) k \<Longrightarrow> csm_pool_key fc = Some k"
    and "cid \<in> idx_get (cs_warm_containers_by_pool s) k \<Longrightarrow> csm_pool_key fc = Some k"
    and "cid \<in> idx_get (cs_warm_containers_by_pool s) k \<Longrightarrow> is_warm fc \<and> \<not> desired_terminated fc"
    and "(t, cid) \<in> cs_idle_containers s \<Longrightarrow> csm_idle_since fc = Some t"
  using assms
  by (auto simp: indexed_ok_def live_def reapable_since_def split: if_splits)

text \<open>The effect shared by \<open>terminate_container\<close>, \<open>remove_container_from_indices\<close> and the deletions.\<close>

definition unindex :: "container_id \<Rightarrow> container_server_metadata \<Rightarrow> container_scheduler \<Rightarrow> container_scheduler" where
  "unindex cid fc s =
     s\<lparr>cs_containers_by_function_uri := idx_remove (csm_uri fc) cid (cs_containers_by_function_uri s),
       cs_containers_by_pool := (case csm_pool_key fc of Some k \<Rightarrow> idx_remove k cid (cs_containers_by_pool s)
                                 | None \<Rightarrow> cs_containers_by_pool s),
       cs_warm_containers_by_pool :=
         (case csm_pool_key fc of Some k \<Rightarrow> idx_remove k cid (cs_warm_containers_by_pool s)
          | None \<Rightarrow> cs_warm_containers_by_pool s),
       cs_idle_containers := (case csm_idle_since fc of Some t \<Rightarrow> cs_idle_containers s - {(t, cid)}
                              | None \<Rightarrow> cs_idle_containers s)\<rparr>"

lemma unindexed_unindex:
  assumes "indexed_ok s cid" "cs_function_containers s cid = Some fc"
  shows "unindexed s cid (unindex cid fc s)"
proof -
  note D = indexed_okD [OF assms]
  have "(case csm_idle_since fc of Some t \<Rightarrow> cs_idle_containers s - {(t, cid)} | None \<Rightarrow> cs_idle_containers s) =
      cs_idle_containers s - UNIV \<times> {cid}"
    using D(5) by (cases "csm_idle_since fc") auto
  moreover have "idx_get (idx_remove (csm_uri fc) cid (cs_containers_by_function_uri s)) u =
      idx_get (cs_containers_by_function_uri s) u - {cid}" for u
    using D(1) by (rule idx_get_remove_at)
  ultimately show ?thesis
    using D(2,3) by (simp add: unindexed_def unindex_def idx_get_remove_pool)
qed

lemma tidy_unindex:
  assumes "containers_ok s"
  shows "idx_tidy (cs_containers_by_function_uri (unindex cid fc s))"
    and "idx_tidy (cs_containers_by_pool (unindex cid fc s))"
    and "idx_tidy (cs_warm_containers_by_pool (unindex cid fc s))"
  using assms by (auto simp: containers_ok_def unindex_def split: option.split)

text \<open>Dropping or terminating a container and removing it at its keys keeps the invariant.\<close>

lemma containers_ok_unindex:
  assumes ok: "containers_ok s" and fc: "cs_function_containers s cid = Some fc"
    and new: "new = None \<or> (\<exists>fc'. new = Some fc' \<and> desired_terminated fc')"
    and view: "container_view s' =
      container_view ((unindex cid fc s)\<lparr>cs_function_containers := (cs_function_containers s)(cid := new)\<rparr>)"
  shows "containers_ok s'"
proof -
  let ?s = "(unindex cid fc s)\<lparr>cs_function_containers := (cs_function_containers s)(cid := new)\<rparr>"
  have "unindexed s cid (unindex cid fc s)"
    using ok fc by (intro unindexed_unindex) (simp_all add: containers_ok_def)
  then have un: "unindexed s cid ?s" by (simp add: unindexed_def)
  have "indexed_ok ?s cid'" for cid'
  proof (cases "cid' = cid")
    case True
    then show ?thesis
      using new indexed_ok_gone [OF un] by (auto simp: live_def)
  next
    case False
    then show ?thesis
      using ok indexed_ok_other [OF un False] by (simp add: containers_ok_def)
  qed
  then have "containers_ok ?s"
    using tidy_unindex [OF ok, of cid fc] by (simp add: containers_ok_def)
  then show ?thesis using containers_ok_view [OF view] by simp
qed

lemma view_remove_container_from_indices:
  assumes "cs_function_containers s cid = Some fc"
  shows "container_view (remove_container_from_indices cid s) =
    container_view ((unindex cid fc s)\<lparr>cs_function_containers := (cs_function_containers s)(cid := None)\<rparr>)"
  using assms
  by (simp add: container_view_def remove_container_from_indices_def unindex_def remove_idle_def
      remove_from_uri_index_def remove_from_pool_index_def remove_from_warm_index_def
      mark_pool_dirty_def Let_def split: option.split)

lemma containers_ok_remove_container_from_indices:
  assumes "containers_ok s"
  shows "containers_ok (remove_container_from_indices cid s)"
proof (cases "cs_function_containers s cid")
  case None
  with assms show ?thesis by (simp add: remove_container_from_indices_def)
next
  case (Some fc)
  from containers_ok_unindex [OF assms Some _ view_remove_container_from_indices [OF Some]]
  show ?thesis by simp
qed

lemma view_terminate_container:
  assumes "cs_function_containers s cid = Some fc"
  shows "container_view (snd (terminate_container cid s)) =
    container_view ((unindex cid fc s)\<lparr>cs_function_containers :=
      (cs_function_containers s)(cid := Some (mark_terminated fc))\<rparr>)"
  using assms
  by (simp add: container_view_def terminate_container_def unindex_def remove_idle_def
      remove_from_uri_index_def remove_from_pool_index_def remove_from_warm_index_def Let_def
      split: option.split)

lemma desired_terminated_mark [simp]: "desired_terminated (mark_terminated fc)"
  by (simp add: desired_terminated_def mark_terminated_def)

lemma containers_ok_terminate_container:
  assumes "containers_ok s"
  shows "containers_ok (snd (terminate_container cid s))"
proof (cases "cs_function_containers s cid")
  case None
  with assms show ?thesis by (simp add: terminate_container_def)
next
  case (Some fc)
  from containers_ok_unindex [OF assms Some _ view_terminate_container [OF Some]]
  show ?thesis by simp
qed

subsection \<open>Inserting or updating a container\<close>

definition was_warm :: "container_scheduler \<Rightarrow> container_id \<Rightarrow> bool" where
  "was_warm s cid \<longleftrightarrow>
     (case cs_function_containers s cid of
        Some old \<Rightarrow> is_warm old \<and> \<not> desired_terminated old
      | None \<Rightarrow> False)"

lemma update_container_indices_fields:
  "cs_function_containers (update_container_indices cid meta s) =
     (cs_function_containers s)(cid \<mapsto> meta)"
  "cs_containers_by_function_uri (update_container_indices cid meta s) =
     (if desired_terminated meta then idx_remove (csm_uri meta) cid (cs_containers_by_function_uri s)
      else idx_insert (csm_uri meta) cid (cs_containers_by_function_uri s))"
  "cs_containers_by_pool (update_container_indices cid meta s) =
     (case csm_pool_key meta of
        None \<Rightarrow> cs_containers_by_pool s
      | Some k \<Rightarrow> if desired_terminated meta then idx_remove k cid (cs_containers_by_pool s)
                  else idx_insert k cid (cs_containers_by_pool s))"
  "cs_warm_containers_by_pool (update_container_indices cid meta s) =
     (case csm_pool_key meta of
        None \<Rightarrow> cs_warm_containers_by_pool s
      | Some k \<Rightarrow>
          if \<not> desired_terminated meta \<and> is_warm meta
          then idx_insert k cid (cs_warm_containers_by_pool s)
          else if was_warm s cid then idx_remove k cid (cs_warm_containers_by_pool s)
          else cs_warm_containers_by_pool s)"
  "cs_idle_containers (update_container_indices cid meta s) =
     (cs_idle_containers s -
        {(t, cid') | t cid'. cid' = cid \<and> Option.bind (cs_function_containers s cid) csm_idle_since = Some t}) \<union>
     {(t, cid') | t cid'. cid' = cid \<and> \<not> desired_terminated meta \<and> reapable_since meta = Some t}"
  by (auto simp: update_container_indices_def Let_def remove_from_uri_index_def
      remove_from_pool_index_def remove_from_warm_index_def mark_pool_dirty_def remove_idle_def
      was_warm_def is_warm_def reapable_since_def split: option.splits)

text \<open>The old entries of the container, if any, are at the keys of the new metadata.\<close>

definition update_ready :: "container_scheduler \<Rightarrow> container_id \<Rightarrow> container_server_metadata \<Rightarrow> bool" where
  "update_ready s cid meta \<longleftrightarrow>
     idx_tidy (cs_containers_by_function_uri s) \<and> idx_tidy (cs_containers_by_pool s) \<and>
     idx_tidy (cs_warm_containers_by_pool s) \<and>
     (\<forall>cid'. cid' \<noteq> cid \<longrightarrow> indexed_ok s cid') \<and>
     (\<forall>u. cid \<in> idx_get (cs_containers_by_function_uri s) u \<longrightarrow> u = csm_uri meta) \<and>
     (\<forall>k. cid \<in> idx_get (cs_containers_by_pool s) k \<longrightarrow> csm_pool_key meta = Some k) \<and>
     (\<forall>k. cid \<in> idx_get (cs_warm_containers_by_pool s) k \<longrightarrow>
        csm_pool_key meta = Some k \<and> was_warm s cid) \<and>
     (\<forall>t. (t, cid) \<in> cs_idle_containers s \<longrightarrow>
        Option.bind (cs_function_containers s cid) csm_idle_since = Some t)"

lemma live_update:
  "live (update_container_indices cid meta s) cid' =
     (if cid' = cid then if desired_terminated meta then None else Some meta else live s cid')"
  by (simp add: live_def update_container_indices_fields)

lemma indexed_ok_update_other:
  assumes "cid' \<noteq> cid"
  shows "indexed_ok (update_container_indices cid meta s) cid' = indexed_ok s cid'"
  using assms
  by (auto simp: indexed_ok_def live_update update_container_indices_fields split: option.split)

lemma indexed_ok_update_same:
  assumes "update_ready s cid meta"
  shows "indexed_ok (update_container_indices cid meta s) cid"
proof -
  let ?s = "update_container_indices cid meta s"
  have R: "cid \<in> idx_get (cs_containers_by_function_uri s) u \<Longrightarrow> u = csm_uri meta"
    "cid \<in> idx_get (cs_containers_by_pool s) k \<Longrightarrow> csm_pool_key meta = Some k"
    "cid \<in> idx_get (cs_warm_containers_by_pool s) k \<Longrightarrow> csm_pool_key meta = Some k \<and> was_warm s cid"
    "(t, cid) \<in> cs_idle_containers s \<Longrightarrow> Option.bind (cs_function_containers s cid) csm_idle_since = Some t"
    for u k t using assms by (auto simp: update_ready_def)
  have "cid \<in> idx_get (cs_containers_by_function_uri ?s) u \<longleftrightarrow> map_option csm_uri (live ?s cid) = Some u" for u
    using R(1) [of u] by (auto simp: update_container_indices_fields live_update)
  moreover have "cid \<in> idx_get (cs_containers_by_pool ?s) k \<longleftrightarrow> Option.bind (live ?s cid) csm_pool_key = Some k" for k
    using R(2) [of k] by (auto simp: update_container_indices_fields live_update split: option.splits)
  moreover have "cid \<in> idx_get (cs_warm_containers_by_pool ?s) k \<longleftrightarrow>
      Option.bind (live ?s cid) (\<lambda>fc. if is_warm fc then csm_pool_key fc else None) = Some k" for k
    using R(3) [of k] by (auto simp: update_container_indices_fields live_update split: option.splits)
  moreover have "(t, cid) \<in> cs_idle_containers ?s \<longleftrightarrow> Option.bind (live ?s cid) reapable_since = Some t" for t
    using R(4) [of t] by (auto simp: update_container_indices_fields live_update)
  ultimately show ?thesis by (simp add: indexed_ok_def)
qed

lemma containers_ok_update_ready:
  assumes "update_ready s cid meta"
  shows "containers_ok (update_container_indices cid meta s)"
proof -
  have "indexed_ok (update_container_indices cid meta s) cid'" for cid'
    using assms indexed_ok_update_same indexed_ok_update_other [of cid' cid]
    by (cases "cid' = cid") (auto simp: update_ready_def)
  with assms show ?thesis
    by (auto simp: containers_ok_def update_ready_def update_container_indices_fields split: option.split)
qed

text \<open>An update of a known container keeps its function and its pool.\<close>

definition same_identity :: "container_scheduler \<Rightarrow> container_id \<Rightarrow> container_server_metadata \<Rightarrow> bool" where
  "same_identity s cid meta \<longleftrightarrow>
     (case cs_function_containers s cid of
        None \<Rightarrow> True
      | Some old \<Rightarrow> csm_uri old = csm_uri meta \<and> csm_pool_key old = csm_pool_key meta)"

lemma update_ready_same_identity:
  assumes "containers_ok s" "same_identity s cid meta"
  shows "update_ready s cid meta"
proof (cases "cs_function_containers s cid")
  case None
  then have "live s cid = None" by (simp add: live_def)
  with assms(1) None show ?thesis
    unfolding update_ready_def containers_ok_def indexed_ok_def by simp
next
  case (Some old)
  have ok: "indexed_ok s cid" using assms(1) by (simp add: containers_ok_def)
  note D = indexed_okD [OF ok Some]
  have "csm_uri old = csm_uri meta" "csm_pool_key old = csm_pool_key meta"
    using assms(2) Some by (simp_all add: same_identity_def)
  moreover have "was_warm s cid" if "cid \<in> idx_get (cs_warm_containers_by_pool s) k" for k
    using D(4) [OF that] Some by (simp add: was_warm_def)
  ultimately show ?thesis
    using assms(1) D Some by (auto simp: update_ready_def containers_ok_def)
qed

lemma containers_ok_update_container_indices:
  assumes "containers_ok s" "same_identity s cid meta"
  shows "containers_ok (update_container_indices cid meta s)"
  using containers_ok_update_ready update_ready_same_identity [OF assms] by blast

text \<open>A claim changes nothing but the sandbox and the timeout of one container.\<close>

lemma view_claim_pool_container:
  assumes "claim_pool_container ord key sid timeout s = (Some (cid, eid, update), s')"
  obtains meta meta' where "cs_function_containers s cid = Some meta"
    "meta' = meta\<lparr>csm_function_container := (csm_function_container meta)
                 \<lparr>ct_sandbox_id := Some sid, ct_timeout_secs := timeout\<rparr>\<rparr>"
    "container_view s' = container_view (s\<lparr>cs_function_containers := (cs_function_containers s)(cid \<mapsto> meta'),
       cs_warm_containers_by_pool := idx_remove key cid (cs_warm_containers_by_pool s)\<rparr>)"
    "eid = csm_executor_id meta" "update = default_update\<lparr>su_containers := [cid \<mapsto> meta']\<rparr>"
    "key \<in> cs_dirty_pools s'"
    "\<exists>ids. cs_warm_containers_by_pool s key = Some ids \<and> cid \<in> set (ord ids)"
proof -
  obtain ids where ids: "cs_warm_containers_by_pool s key = Some ids"
    using assms by (auto simp: claim_pool_container_def split: option.splits)
  obtain c where c: "List.find (\<lambda>cid. cs_function_containers s cid \<noteq> None) (ord ids) = Some c"
    using assms ids by (auto simp: claim_pool_container_def split: option.splits)
  then obtain meta where meta: "cs_function_containers s c = Some meta" "c \<in> set (ord ids)"
    by (auto simp: find_Some_iff)
  show ?thesis
  proof (rule that [of meta])
    show "cs_function_containers s cid = Some meta"
      using assms ids c meta by (simp add: claim_pool_container_def Let_def)
  qed (use assms ids c meta in \<open>auto simp: claim_pool_container_def Let_def container_view_def
      mark_pool_dirty_def remove_from_warm_index_def\<close>)
qed

text \<open>A claim fails only when the pool has no warm container.\<close>

lemma claim_pool_container_None:
  assumes "containers_ok s" "enumerates ord" "finite (dom (cs_function_containers s))"
    and "claim_pool_container ord key sid timeout s = (None, s')"
  shows "idx_get (cs_warm_containers_by_pool s) key = {} \<and> s' = s"
proof -
  have sub: "idx_get (cs_warm_containers_by_pool s) key \<subseteq> dom (cs_function_containers s)"
    using assms(1) by (auto simp: containers_ok_def indexed_ok_def live_def split: option.splits)
  then have "set (ord (idx_get (cs_warm_containers_by_pool s) key)) = idx_get (cs_warm_containers_by_pool s) key"
    using enumeratesD(1) [OF assms(2)] finite_subset [OF sub assms(3)] by simp
  with assms(4) sub show ?thesis
    by (auto simp: claim_pool_container_def Let_def idx_get_def find_None_iff find_Some_iff
        split: option.splits)
qed

lemma claimed_container_warm:
  assumes ok: "containers_ok s" and ord: "enumerates ord" and fin: "finite (dom (cs_function_containers s))"
    and claim: "claim_pool_container ord key sid timeout s = (Some (cid, eid, update), s')"
  shows "cid \<in> idx_get (cs_warm_containers_by_pool s) key"
proof -
  obtain ids where ids: "cs_warm_containers_by_pool s key = Some ids" "cid \<in> set (ord ids)"
    by (rule view_claim_pool_container [OF claim]) blast
  then have "ids = idx_get (cs_warm_containers_by_pool s) key" by (simp add: idx_get_def)
  moreover have "idx_get (cs_warm_containers_by_pool s) key \<subseteq> dom (cs_function_containers s)"
    using ok by (auto simp: containers_ok_def indexed_ok_def live_def split: option.splits)
  ultimately show ?thesis using ids enumeratesD(1) [OF ord, of ids] finite_subset [OF _ fin] by auto
qed

lemma containers_ok_claim_pool_container:
  assumes ok: "containers_ok s" and ord: "enumerates ord" and fin: "finite (dom (cs_function_containers s))"
    and claim: "claim_pool_container ord key sid timeout s = (Some (cid, eid, update), s')"
  shows "containers_ok s'"
proof -
  obtain meta meta' where m: "cs_function_containers s cid = Some meta"
    "meta' = meta\<lparr>csm_function_container := (csm_function_container meta)
                 \<lparr>ct_sandbox_id := Some sid, ct_timeout_secs := timeout\<rparr>\<rparr>"
    and view: "container_view s' = container_view (s\<lparr>cs_function_containers := (cs_function_containers s)(cid \<mapsto> meta'),
       cs_warm_containers_by_pool := idx_remove key cid (cs_warm_containers_by_pool s)\<rparr>)"
    by (rule view_claim_pool_container [OF claim]) blast
  let ?s = "s\<lparr>cs_function_containers := (cs_function_containers s)(cid \<mapsto> meta'),
       cs_warm_containers_by_pool := idx_remove key cid (cs_warm_containers_by_pool s)\<rparr>"
  have same: "csm_uri meta' = csm_uri meta" "csm_pool_key meta' = csm_pool_key meta"
    "desired_terminated meta' = desired_terminated meta" "reapable_since meta' = reapable_since meta"
    "\<not> is_warm meta'"
    unfolding m(2) by (simp_all add: csm_uri_def csm_pool_key_def ct_pool_key_def uri_from_container_def
        desired_terminated_def reapable_since_def is_warm_def)
  have okc: "indexed_ok s cid" using ok by (simp add: containers_ok_def)
  have "indexed_ok ?s cid'" for cid'
  proof (cases "cid' = cid")
    case False
    then show ?thesis using ok by (simp add: containers_ok_def indexed_ok_def live_def)
  next
    case True
    have warm: "cid \<in> idx_get (cs_warm_containers_by_pool s) k \<Longrightarrow> k = key" for k
      using claimed_container_warm [OF ok ord fin claim] okc by (auto simp: indexed_ok_def)
    show ?thesis
      using okc m(1) same warm True
      by (auto simp: indexed_ok_def live_def)
  qed
  then have "containers_ok ?s" using ok by (simp add: containers_ok_def)
  then show ?thesis using containers_ok_view [OF view] by simp
qed

section \<open>The invariant of the executor indexes\<close>

text \<open>
  An entry of the memory index belongs to a known executor and carries its current free memory; the
  class index is the inverse of \<open>executor_classes\<close>, which holds the class of the current metadata.
\<close>

definition memory_ok :: "container_scheduler \<Rightarrow> bool" where
  "memory_ok s \<longleftrightarrow>
     (\<forall>m e. (m, e) \<in> cs_executors_by_free_memory s \<longrightarrow>
        map_option (\<lambda>st. host_memory_bytes (esm_free_resources st)) (cs_executor_states s e) = Some m)"

definition classes_ok :: "container_scheduler \<Rightarrow> bool" where
  "classes_ok s \<longleftrightarrow>
     idx_tidy (cs_executors_by_class s) \<and>
     (\<forall>c e. e \<in> idx_get (cs_executors_by_class s) c \<longleftrightarrow> cs_executor_classes s e = Some c) \<and>
     (\<forall>e c. cs_executor_classes s e = Some c \<longrightarrow> map_option class_from_executor (cs_executors s e) = Some c)"

definition scheduler_ok :: "container_scheduler \<Rightarrow> bool" where
  "scheduler_ok s \<longleftrightarrow> containers_ok s \<and> memory_ok s \<and> classes_ok s"

definition executor_view where
  "executor_view s =
     (cs_executors_by_free_memory s, cs_executor_states s, cs_executors_by_class s,
      cs_executor_classes s, cs_executors s)"

lemma executors_ok_view:
  assumes "executor_view s = executor_view s'"
  shows "memory_ok s = memory_ok s'" "classes_ok s = classes_ok s'"
  using assms by (simp_all add: executor_view_def memory_ok_def classes_ok_def)

lemma executor_view_container_ops [simp]:
  "executor_view (mark_pool_dirty k s) = executor_view s"
  "executor_view (remove_idle cid t s) = executor_view s"
  "executor_view (remove_from_uri_index u cid s) = executor_view s"
  "executor_view (remove_from_pool_index k cid s) = executor_view s"
  "executor_view (remove_from_warm_index k cid s) = executor_view s"
  "executor_view (s\<lparr>cs_function_containers := fcs\<rparr>) = executor_view s"
  "executor_view (s\<lparr>cs_idle_containers := idle\<rparr>) = executor_view s"
  "executor_view (s\<lparr>cs_containers_by_function_uri := byu\<rparr>) = executor_view s"
  "executor_view (s\<lparr>cs_containers_by_pool := byp\<rparr>) = executor_view s"
  "executor_view (s\<lparr>cs_warm_containers_by_pool := byw\<rparr>) = executor_view s"
  by (simp_all add: executor_view_def mark_pool_dirty_def remove_idle_def remove_from_uri_index_def
      remove_from_pool_index_def remove_from_warm_index_def split: option.split)

lemma executor_view_update_container_indices [simp]:
  "executor_view (update_container_indices cid meta s) = executor_view s"
  by (simp add: update_container_indices_def Let_def split: option.split)

lemma executor_view_remove_container_from_indices [simp]:
  "executor_view (remove_container_from_indices cid s) = executor_view s"
  by (simp add: remove_container_from_indices_def Let_def split: option.split)

lemma executor_view_terminate_container [simp]:
  "executor_view (snd (terminate_container cid s)) = executor_view s"
  by (simp add: terminate_container_def Let_def split: option.split)

lemma container_view_executor_ops [simp]:
  "container_view (set_executor_state eid st s) = container_view s"
  "container_view (remove_executor_state eid s) = container_view s"
  "container_view (upsert_executor em s) = container_view s"
  "container_view (deregister_executor eid s) = container_view s"
  by (simp_all add: container_view_def set_executor_state_def remove_executor_state_def
      insert_resource_index_def remove_resource_index_def upsert_executor_def deregister_executor_def
      Let_def split: option.split)

lemma classes_ok_memory_ops [simp]:
  "classes_ok (set_executor_state eid st s) = classes_ok s"
  "classes_ok (remove_executor_state eid s) = classes_ok s"
  by (simp_all add: classes_ok_def set_executor_state_def remove_executor_state_def
      insert_resource_index_def remove_resource_index_def Let_def split: option.split)

lemma memory_okD:
  assumes "memory_ok s" "(m, e) \<in> cs_executors_by_free_memory s"
  shows "\<exists>st. cs_executor_states s e = Some st \<and> m = host_memory_bytes (esm_free_resources st)"
  using assms by (auto simp: memory_ok_def)

lemma memory_ok_set_executor_state:
  assumes "memory_ok s"
  shows "memory_ok (set_executor_state eid st s)"
  unfolding memory_ok_def
proof (intro allI impI)
  fix m e assume "(m, e) \<in> cs_executors_by_free_memory (set_executor_state eid st s)"
  then show "map_option (\<lambda>st. host_memory_bytes (esm_free_resources st))
      (cs_executor_states (set_executor_state eid st s) e) = Some m"
    using memory_okD [OF assms, of m e]
    by (auto simp: set_executor_state_def insert_resource_index_def Let_def
        split: option.splits if_splits)
qed

lemma memory_ok_remove_executor_state:
  assumes "memory_ok s"
  shows "memory_ok (remove_executor_state eid s)"
  unfolding memory_ok_def
proof (intro allI impI)
  fix m e assume "(m, e) \<in> cs_executors_by_free_memory (remove_executor_state eid s)"
  then show "map_option (\<lambda>st. host_memory_bytes (esm_free_resources st))
      (cs_executor_states (remove_executor_state eid s) e) = Some m"
    using memory_okD [OF assms, of m e]
    by (auto simp: remove_executor_state_def remove_resource_index_def split: option.splits)
qed

lemma memory_ok_upsert_executor [simp]: "memory_ok (upsert_executor em s) = memory_ok s"
  by (simp add: memory_ok_def upsert_executor_def Let_def split: option.split)

lemma memory_ok_deregister_executor: "memory_ok s \<Longrightarrow> memory_ok (deregister_executor eid s)"
  by (auto simp: memory_ok_def deregister_executor_def Let_def split: option.splits)

lemma classes_ok_upsert_executor:
  assumes "classes_ok s"
  shows "classes_ok (upsert_executor em s)"
proof -
  let ?s = "upsert_executor em s" and ?c = "class_from_executor em"
  have idx: "e \<in> idx_get (cs_executors_by_class ?s) c \<longleftrightarrow> cs_executor_classes ?s e = Some c" for e c
    using assms
    by (auto simp: classes_ok_def upsert_executor_def Let_def split: option.splits if_splits)
  have "idx_tidy (cs_executors_by_class ?s)"
    using assms by (auto simp: classes_ok_def upsert_executor_def Let_def split: option.split)
  moreover have "map_option class_from_executor (cs_executors ?s e) = Some c"
    if "cs_executor_classes ?s e = Some c" for e c
    using assms that
    by (auto simp: classes_ok_def upsert_executor_def Let_def split: option.splits if_splits)
  ultimately show ?thesis using idx by (simp add: classes_ok_def)
qed

lemma classes_ok_deregister_executor:
  assumes "classes_ok s"
  shows "classes_ok (deregister_executor eid s)"
proof -
  let ?s = "deregister_executor eid s"
  have cl: "cs_executor_classes ?s = (cs_executor_classes s)(eid := None)"
    by (auto simp: deregister_executor_def Let_def fun_upd_idem split: option.splits)
  have byc: "cs_executors_by_class ?s =
      (case cs_executor_classes s eid of Some c \<Rightarrow> idx_remove c eid (cs_executors_by_class s)
       | None \<Rightarrow> cs_executors_by_class s)"
    by (auto simp: deregister_executor_def Let_def split: option.splits)
  have ex: "e \<noteq> eid \<Longrightarrow> cs_executors ?s e = cs_executors s e" for e
    by (auto simp: deregister_executor_def Let_def split: option.splits)
  show ?thesis
    using assms unfolding classes_ok_def cl byc
    by (auto simp: ex split: option.splits)
qed

section \<open>Properties\<close>

text \<open>
  C29: claiming a warm container.  On a consistent state a claim fails exactly when the pool has no
  warm container.  Otherwise it takes one that was running or starting, unclaimed and in that pool,
  gives it to the sandbox with the sandbox's timeout and leaves every other container as it was;
  the number of warm containers goes down by one, the number of containers in the pool stays, and
  the indexes remain consistent.
\<close>

theorem claim_pool_container_exact:
  assumes "containers_ok s" "enumerates ord" "finite (dom (cs_function_containers s))"
  shows "case claim_pool_container ord key sid timeout s of
           (None, s') \<Rightarrow> idx_get (cs_warm_containers_by_pool s) key = {} \<and> s' = s
         | (Some (cid, eid, update), s') \<Rightarrow>
             containers_ok s' \<and>
             (\<exists>fc. live s cid = Some fc \<and> is_warm fc \<and> csm_pool_key fc = Some key \<and>
                eid = csm_executor_id fc \<and>
                cs_function_containers s' = (cs_function_containers s)(cid \<mapsto>
                  fc\<lparr>csm_function_container := (csm_function_container fc)
                       \<lparr>ct_sandbox_id := Some sid, ct_timeout_secs := timeout\<rparr>\<rparr>)) \<and>
             idx_get (cs_warm_containers_by_pool s) key =
               insert cid (idx_get (cs_warm_containers_by_pool s') key) \<and>
             cid \<notin> idx_get (cs_warm_containers_by_pool s') key \<and>
             idx_get (cs_containers_by_pool s') key = idx_get (cs_containers_by_pool s) key"
proof (cases "claim_pool_container ord key sid timeout s")
  case (Pair r s')
  show ?thesis
  proof (cases r)
    case None
    with Pair claim_pool_container_None [OF assms] show ?thesis by simp
  next
    case (Some x)
    then obtain cid eid update where x: "r = Some (cid, eid, update)" by (cases x) auto
    note claim = Pair [unfolded x]
    obtain meta meta' where m: "cs_function_containers s cid = Some meta"
      "meta' = meta\<lparr>csm_function_container := (csm_function_container meta)
                   \<lparr>ct_sandbox_id := Some sid, ct_timeout_secs := timeout\<rparr>\<rparr>"
      and view: "container_view s' = container_view (s\<lparr>cs_function_containers := (cs_function_containers s)(cid \<mapsto> meta'),
         cs_warm_containers_by_pool := idx_remove key cid (cs_warm_containers_by_pool s)\<rparr>)"
      and eid: "eid = csm_executor_id meta"
      by (rule view_claim_pool_container [OF claim]) blast
    have warm: "cid \<in> idx_get (cs_warm_containers_by_pool s) key"
      by (rule claimed_container_warm [OF assms claim])
    have "indexed_ok s cid" using assms(1) by (simp add: containers_ok_def)
    then have "live s cid = Some meta \<and> is_warm meta \<and> csm_pool_key meta = Some key"
      using warm m(1) indexed_okD(3,4) [OF _ m(1)] by (auto simp: live_def)
    then show ?thesis
      using Pair x m view eid warm containers_ok_claim_pool_container [OF assms claim]
      by (auto simp: container_view_def)
  qed
qed

definition example_pool_container :: container_server_metadata where
  "example_pool_container =
     csm_new 0 ''e1'' ((example_container ''c1'' 512)\<lparr>ct_pool_id := Some ''pool'',
       ct_container_type := SandboxContainer\<rparr>) CS_Running"

definition example_scheduler :: container_scheduler where
  "example_scheduler = update_container_indices ''c1'' example_pool_container (cs_new [] [])"

lemma example_scheduler_ok: "containers_ok example_scheduler"
  unfolding example_scheduler_def
  by (rule containers_ok_update_container_indices [OF containers_ok_new])
    (simp add: same_identity_def cs_new_def)

lemma example_scheduler_containers:
  "cs_function_containers example_scheduler = [''c1'' \<mapsto> example_pool_container]"
  by (simp add: example_scheduler_def update_container_indices_fields cs_new_def)

lemma example_scheduler_warm:
  "cs_warm_containers_by_pool example_scheduler = [(''ns'', ''pool'') \<mapsto> {''c1''}]"
  by (simp add: example_scheduler_def update_container_indices_fields cs_new_def
      example_pool_container_def csm_new_def csm_pool_key_def ct_pool_key_def container_pool_key_new_def
      example_container_def desired_terminated_def is_warm_def idx_insert_def)

theorem claim_pool_container_exact_witness:
  "\<exists>eid update s'.
     claim_pool_container sorted_list_of_set (''ns'', ''pool'') ''sbx'' 600 example_scheduler =
       (Some (''c1'', eid, update), s') \<and>
     containers_ok s' \<and> idx_get (cs_warm_containers_by_pool s') (''ns'', ''pool'') = {}"
proof -
  have "finite (dom (cs_function_containers example_scheduler))"
    by (simp add: example_scheduler_containers)
  note exact = claim_pool_container_exact [OF example_scheduler_ok enumerates_sorted_list_of_set this,
      where key = "(''ns'', ''pool'')" and sid = "''sbx''" and timeout = 600]
  obtain eid update s' where claim:
    "claim_pool_container sorted_list_of_set (''ns'', ''pool'') ''sbx'' 600 example_scheduler =
       (Some (''c1'', eid, update), s')"
    by (simp add: claim_pool_container_def example_scheduler_warm example_scheduler_containers Let_def)
  have "idx_get (cs_warm_containers_by_pool example_scheduler) (''ns'', ''pool'') = {''c1''}"
    by (simp add: example_scheduler_warm idx_get_def)
  with exact claim show ?thesis by (auto simp: insert_eq_iff)
qed

end
