(* ===== verification/Placement.thy ===== *)
theory Placement
  imports SchedulerState
begin

text \<open>
  \<open>crates/server/src/scheduler/placement.rs\<close>: the feasibility cache, the classes that could run a
  workload, and the choice of an executor.  The random memory threshold is the argument
  \<open>random_mem\<close>, with the range \<open>random_range\<close> promises as a hypothesis; \<open>ordK\<close> and \<open>ordE\<close> are the
  iteration orders of the class index and of a set of executors.
\<close>

section \<open>The feasibility cache\<close>

datatype workload_key =
    FunctionWorkload string string string
  | SandboxWorkload string

type_synonym feasibility_cache = "workload_key \<rightharpoonup> (executor_class \<rightharpoonup> bool)"

definition cache_get :: "feasibility_cache \<Rightarrow> workload_key \<Rightarrow> executor_class \<Rightarrow> bool option" where
  "cache_get self workload c = Option.bind (self workload) (\<lambda>m. m c)"

definition cache_insert ::
  "workload_key \<Rightarrow> executor_class \<Rightarrow> bool \<Rightarrow> feasibility_cache \<Rightarrow> feasibility_cache" where
  "cache_insert workload c feasible self =
     self(workload \<mapsto> (unwrap_or (self workload) Map.empty)(c \<mapsto> feasible))"

text \<open>\<open>check_constraints\<close> delegates to \<open>executor_matches_constraints\<close>.\<close>

definition check_constraints ::
  "executor_metadata \<Rightarrow> string \<Rightarrow> string \<Rightarrow> app_function option \<Rightarrow> bool" where
  "check_constraints executor namespace application function =
     executor_matches_constraints executor namespace application function"

section \<open>Eligible classes\<close>

fun eligible_loop ::
  "container_scheduler \<Rightarrow> (executor_id set \<Rightarrow> executor_id list) \<Rightarrow> workload_key \<Rightarrow> string \<Rightarrow> string \<Rightarrow>
   app_function option \<Rightarrow> executor_class list \<Rightarrow> feasibility_cache \<Rightarrow> executor_class set \<Rightarrow>
   executor_class set \<times> feasibility_cache" where
  "eligible_loop scheduler ordE key namespace application function [] cache eligible = (eligible, cache)"
| "eligible_loop scheduler ordE key namespace application function (c # cs) cache eligible =
     (case ordE (idx_get (cs_executors_by_class scheduler) c) of
        [] \<Rightarrow> eligible_loop scheduler ordE key namespace application function cs cache eligible
      | executor_id # _ \<Rightarrow>
          (let (feasible, cache) =
             (case cache_get cache key c of
                Some cached \<Rightarrow> (cached, cache)
              | None \<Rightarrow>
                  (case cs_executors scheduler executor_id of
                     Some executor \<Rightarrow>
                       (let is_feasible = check_constraints executor namespace application function
                        in (is_feasible, cache_insert key c is_feasible cache))
                   | None \<Rightarrow> (False, cache)))
           in eligible_loop scheduler ordE key namespace application function cs cache
                (if feasible then insert c eligible else eligible)))"

definition compute_eligible_classes ::
  "(executor_class set \<Rightarrow> executor_class list) \<Rightarrow> (executor_id set \<Rightarrow> executor_id list) \<Rightarrow>
   container_scheduler \<Rightarrow> feasibility_cache \<Rightarrow> workload_key \<Rightarrow> string \<Rightarrow> string \<Rightarrow>
   app_function option \<Rightarrow> executor_class set \<times> feasibility_cache" where
  "compute_eligible_classes ordK ordE scheduler cache key namespace application function =
     eligible_loop scheduler ordE key namespace application function
       (ordK (dom (cs_executors_by_class scheduler))) cache {}"

section \<open>Selecting an executor\<close>

text \<open>The state of the candidate loop: the cache, \<open>eligible_classes\<close> and \<open>feasible_candidates\<close>.\<close>

record select_state =
  sel_cache :: feasibility_cache
  sel_eligible :: "executor_class set"
  sel_candidates :: "(executor_id \<times> u64) list"

text \<open>
  One iteration of the loop without the final \<open>break\<close>: it either adds the executor to the candidates
  or leaves the list as it is.
\<close>

definition consider_executor ::
  "container_scheduler \<Rightarrow> workload_key \<Rightarrow> string \<Rightarrow> string \<Rightarrow> app_function option \<Rightarrow> function_resources \<Rightarrow>
   u64 \<Rightarrow> u64 \<times> executor_id \<Rightarrow> select_state \<Rightarrow> select_state" where
  "consider_executor scheduler key namespace application function resources min_memory_bytes entry st =
     (let (snapshot_free_memory, executor_id) = entry in
      case cs_executors scheduler executor_id of
        None \<Rightarrow> st
      | Some executor \<Rightarrow>
          if em_tombstoned executor then st
          else
            let c = unwrap_or (cs_executor_classes scheduler executor_id) (class_from_executor executor);
                (feasible, cache) =
                  (case cache_get (sel_cache st) key c of
                     Some cached \<Rightarrow> (cached, sel_cache st)
                   | None \<Rightarrow>
                       (let is_feasible = check_constraints executor namespace application function
                        in (is_feasible, cache_insert key c is_feasible (sel_cache st))));
                st = st\<lparr>sel_cache := cache\<rparr>
            in if \<not> feasible then st
               else
                 let st = st\<lparr>sel_eligible := insert c (sel_eligible st)\<rparr> in
                 if snapshot_free_memory < min_memory_bytes then st
                 else (case cs_executor_states scheduler executor_id of
                         None \<Rightarrow> st
                       | Some executor_state \<Rightarrow>
                           let free = esm_free_resources executor_state in
                           if host_cpu_ms_per_sec free < fres_cpu_ms_per_sec resources then st
                           else if host_disk_bytes free < fres_ephemeral_disk_mb resources * 1024 * 1024 then st
                           else if \<not> is_ok (can_handle_function_resources free resources) then st
                           else st\<lparr>sel_candidates := sel_candidates st @ [(executor_id, snapshot_free_memory)]\<rparr>))"

fun select_loop ::
  "container_scheduler \<Rightarrow> workload_key \<Rightarrow> string \<Rightarrow> string \<Rightarrow> app_function option \<Rightarrow> function_resources \<Rightarrow>
   u64 \<Rightarrow> nat \<Rightarrow> (u64 \<times> executor_id) list \<Rightarrow> select_state \<Rightarrow> select_state" where
  "select_loop scheduler key namespace application function resources min_memory_bytes limit [] st = st"
| "select_loop scheduler key namespace application function resources min_memory_bytes limit (entry # entries) st =
     (let st' = consider_executor scheduler key namespace application function resources
                  min_memory_bytes entry st
      in if sel_candidates st' \<noteq> sel_candidates st \<and> limit \<le> length (sel_candidates st') then st'
         else select_loop scheduler key namespace application function resources min_memory_bytes limit
                entries st')"

text \<open>\<open>Iterator::max_by_key\<close>: of several maximal elements the last.\<close>

fun max_by_memory :: "(executor_id \<times> u64) list \<Rightarrow> (executor_id \<times> u64) option" where
  "max_by_memory [] = None"
| "max_by_memory (x # xs) =
     (case max_by_memory xs of
        None \<Rightarrow> Some x
      | Some y \<Rightarrow> if snd y < snd x then Some x else Some y)"

definition max_free_memory :: "container_scheduler \<Rightarrow> u64" where
  "max_free_memory scheduler =
     (if cs_executors_by_free_memory scheduler = {} then 0
      else fst (Max (cs_executors_by_free_memory scheduler)))"

text \<open>\<open>range(split_start..).chain(range(range_start()..split_end))\<close>\<close>

definition wrapped_iter :: "container_scheduler \<Rightarrow> u64 \<Rightarrow> u64 \<Rightarrow> (u64 \<times> executor_id) list" where
  "wrapped_iter scheduler min_memory_bytes random_mem =
     (let entries = sorted_list_of_set (cs_executors_by_free_memory scheduler)
      in filter (\<lambda>x. (random_mem, []) \<le> x) entries @
         filter (\<lambda>x. (min_memory_bytes, []) \<le> x \<and> x < (random_mem, [])) entries)"

definition select_executor ::
  "(executor_class set \<Rightarrow> executor_class list) \<Rightarrow> (executor_id set \<Rightarrow> executor_id list) \<Rightarrow> u64 \<Rightarrow>
   container_scheduler \<Rightarrow> feasibility_cache \<Rightarrow> workload_key \<Rightarrow> string \<Rightarrow> string \<Rightarrow>
   app_function option \<Rightarrow> function_resources \<Rightarrow> nat \<Rightarrow> placement_result \<times> feasibility_cache" where
  "select_executor ordK ordE random_mem scheduler cache key namespace application function resources limit =
     (let min_memory_bytes = fres_memory_mb resources * 1024 * 1024;
          max_memory = max_free_memory scheduler
      in if max_memory < min_memory_bytes
         then (let (eligible, cache) =
                 compute_eligible_classes ordK ordE scheduler cache key namespace application function
               in (\<lparr>pr_executor_id = None, pr_eligible_classes = eligible\<rparr>, cache))
         else (let st = select_loop scheduler key namespace application function resources
                          min_memory_bytes limit (wrapped_iter scheduler min_memory_bytes random_mem)
                          \<lparr>sel_cache = cache, sel_eligible = {}, sel_candidates = []\<rparr>
               in (\<lparr>pr_executor_id = map_option fst (max_by_memory (sel_candidates st)),
                    pr_eligible_classes = sel_eligible st\<rparr>, sel_cache st)))"

section \<open>Lemmas\<close>

subsection \<open>The cache\<close>

lemma cache_get_insert [simp]:
  "cache_get (cache_insert w c b cache) w' c' =
     (if w' = w \<and> c' = c then Some b else cache_get cache w' c')"
  by (auto simp: cache_get_def cache_insert_def unwrap_or_def split: option.splits)

text \<open>What the cache says about a workload is what the constraint check says of its classes.\<close>

definition cache_sound ::
  "feasibility_cache \<Rightarrow> workload_key \<Rightarrow> string \<Rightarrow> string \<Rightarrow> app_function option \<Rightarrow> bool" where
  "cache_sound cache key namespace application function \<longleftrightarrow>
     (\<forall>c b. cache_get cache key c = Some b \<longrightarrow> b = class_matches c namespace application function)"

lemma cache_sound_empty: "cache_sound Map.empty key namespace application function"
  by (simp add: cache_sound_def cache_get_def)

lemma cache_sound_insert:
  "cache_sound cache key namespace application function \<Longrightarrow>
   cache_sound (cache_insert key c (class_matches c namespace application function) cache)
     key namespace application function"
  by (simp add: cache_sound_def)

lemma cache_lookup_sound:
  assumes "cache_sound cache key namespace application function"
  shows "\<exists>cache'. cache_sound cache' key namespace application function \<and>
    (case cache_get cache key c of
       Some cached \<Rightarrow> (cached, cache)
     | None \<Rightarrow> (class_matches c namespace application function,
                cache_insert key c (class_matches c namespace application function) cache)) =
    (class_matches c namespace application function, cache')"
proof (cases "cache_get cache key c")
  case None
  with cache_sound_insert [OF assms, of c] show ?thesis by simp
next
  case (Some b)
  with assms have "b = class_matches c namespace application function" by (simp add: cache_sound_def)
  with Some assms show ?thesis by simp
qed

subsection \<open>One candidate\<close>

text \<open>An executor the workload can be placed on, seen from the index entry \<open>entry\<close>.\<close>

definition placeable ::
  "container_scheduler \<Rightarrow> string \<Rightarrow> string \<Rightarrow> app_function option \<Rightarrow> function_resources \<Rightarrow> executor_id \<Rightarrow> bool" where
  "placeable s namespace application function resources eid \<longleftrightarrow>
     (\<exists>em st. cs_executors s eid = Some em \<and> cs_executor_states s eid = Some st \<and>
        executor_matches_constraints em namespace application function \<and>
        is_ok (can_handle_function_resources (esm_free_resources st) resources))"

lemma executor_class_current:
  assumes "classes_ok s" "cs_executors s eid = Some em"
  shows "unwrap_or (cs_executor_classes s eid) (class_from_executor em) = class_from_executor em"
proof (cases "cs_executor_classes s eid")
  case (Some c)
  then have "map_option class_from_executor (cs_executors s eid) = Some c"
    using assms(1) unfolding classes_ok_def by blast
  with assms(2) Some show ?thesis by simp
qed simp

lemma can_handle_function_resources_base:
  assumes "is_ok (can_handle_function_resources h r)"
  shows "fres_cpu_ms_per_sec r \<le> host_cpu_ms_per_sec h"
    and "mb_to_bytes (fres_memory_mb r) \<le> host_memory_bytes h"
    and "mb_to_bytes (fres_ephemeral_disk_mb r) \<le> host_disk_bytes h"
  using assms
  by (auto simp: can_handle_function_resources_def can_handle_gpu_configs_ok can_handle_iff_fits
      fits_def fe_resources_no_gpu_def word_le_nat_alt req_memory_def req_disk_def split: if_splits)

lemma consider_executor_spec:
  assumes ok: "classes_ok s" "memory_ok s" and entry: "(m, eid) \<in> cs_executors_by_free_memory s"
    and sound: "cache_sound (sel_cache st) key namespace application function"
    and st': "st' = consider_executor s key namespace application function resources
                      (mb_to_bytes (fres_memory_mb resources)) (m, eid) st"
  shows "cache_sound (sel_cache st') key namespace application function"
    and "sel_candidates st' =
      (if placeable s namespace application function resources eid
       then sel_candidates st @ [(eid, m)] else sel_candidates st)"
    and "sel_eligible st' =
      (case cs_executors s eid of
         Some em \<Rightarrow>
           if executor_matches_constraints em namespace application function
           then insert (class_from_executor em) (sel_eligible st) else sel_eligible st
       | None \<Rightarrow> sel_eligible st)"
proof -
  let ?min = "mb_to_bytes (fres_memory_mb resources)"
  obtain ex where ex: "cs_executor_states s eid = Some ex" "m = host_memory_bytes (esm_free_resources ex)"
    using memory_okD [OF ok(2) entry] by blast
  note defs = st' consider_executor_def check_constraints_def
  have all: "cache_sound (sel_cache st') key namespace application function \<and>
    sel_candidates st' =
      (if placeable s namespace application function resources eid
       then sel_candidates st @ [(eid, m)] else sel_candidates st) \<and>
    sel_eligible st' =
      (case cs_executors s eid of
         Some em \<Rightarrow>
           if executor_matches_constraints em namespace application function
           then insert (class_from_executor em) (sel_eligible st) else sel_eligible st
       | None \<Rightarrow> sel_eligible st)"
  proof (cases "cs_executors s eid")
    case None
    then show ?thesis using sound by (simp add: defs placeable_def)
  next
    case (Some em)
    let ?c = "class_from_executor em"
    let ?fits = "is_ok (can_handle_function_resources (esm_free_resources ex) resources)"
    show ?thesis
    proof (cases "em_tombstoned em")
      case True
      then show ?thesis using Some sound by (simp add: defs placeable_def executor_matches_class)
    next
      case False
      have matches: "executor_matches_constraints em namespace application function =
          class_matches ?c namespace application function"
        using False by (simp add: executor_matches_class)
      obtain cache where cache: "cache_sound cache key namespace application function"
        "(case cache_get (sel_cache st) key ?c of
            Some cached \<Rightarrow> (cached, sel_cache st)
          | None \<Rightarrow> (class_matches ?c namespace application function,
                     cache_insert key ?c (class_matches ?c namespace application function) (sel_cache st))) =
         (class_matches ?c namespace application function, cache)"
        using cache_lookup_sound [OF sound] by blast
      have small: "?fits \<Longrightarrow> \<not> m < ?min \<and> \<not> host_cpu_ms_per_sec (esm_free_resources ex) < fres_cpu_ms_per_sec resources \<and>
          \<not> host_disk_bytes (esm_free_resources ex) < fres_ephemeral_disk_mb resources * 1024 * 1024"
        using can_handle_function_resources_base [of "esm_free_resources ex" resources] ex(2)
        by (auto simp: mb_to_bytes_def)
      show ?thesis
        unfolding st' consider_executor_def check_constraints_def Let_def
        using Some False cache small ex(1) executor_class_current [OF ok(1) Some]
        by (simp only: Some matches option.case prod.case if_False unwrap_or_simps)
          (simp add: placeable_def matches Some)
    qed
  qed
  from all show "cache_sound (sel_cache st') key namespace application function" by blast
  from all show "sel_candidates st' =
      (if placeable s namespace application function resources eid
       then sel_candidates st @ [(eid, m)] else sel_candidates st)" by blast
  from all show "sel_eligible st' =
      (case cs_executors s eid of
         Some em \<Rightarrow>
           if executor_matches_constraints em namespace application function
           then insert (class_from_executor em) (sel_eligible st) else sel_eligible st
       | None \<Rightarrow> sel_eligible st)" by blast
qed

subsection \<open>The candidate loop\<close>

text \<open>The classes of the executors of \<open>entries\<close> that satisfy the workload's constraints.\<close>

definition matching_classes ::
  "container_scheduler \<Rightarrow> string \<Rightarrow> string \<Rightarrow> app_function option \<Rightarrow> (u64 \<times> executor_id) list \<Rightarrow> executor_class set" where
  "matching_classes s namespace application function entries =
     {class_from_executor em | em m e. (m, e) \<in> set entries \<and> cs_executors s e = Some em \<and>
        executor_matches_constraints em namespace application function}"

lemma matching_classes_Cons:
  "matching_classes s namespace application function ((m, e) # entries) =
     (case cs_executors s e of
        Some em \<Rightarrow>
          if executor_matches_constraints em namespace application function
          then insert (class_from_executor em) (matching_classes s namespace application function entries)
          else matching_classes s namespace application function entries
      | None \<Rightarrow> matching_classes s namespace application function entries)"
  by (auto simp: matching_classes_def split: option.split)

text \<open>The candidates an unbounded loop collects.\<close>

definition walk_candidates ::
  "container_scheduler \<Rightarrow> string \<Rightarrow> string \<Rightarrow> app_function option \<Rightarrow> function_resources \<Rightarrow>
   (u64 \<times> executor_id) list \<Rightarrow> (executor_id \<times> u64) list" where
  "walk_candidates s namespace application function resources entries =
     map prod.swap (filter (\<lambda>(m, e). placeable s namespace application function resources e) entries)"

text \<open>
  The loop takes the first \<open>limit\<close> candidates of the whole walk; it visits every entry unless it
  collects them, so that without a candidate every matching class is recorded.
\<close>

lemma select_loop_spec:
  assumes ok: "classes_ok s" "memory_ok s" and "set entries \<subseteq> cs_executors_by_free_memory s"
    and "cache_sound (sel_cache st) key namespace application function"
    and "length (sel_candidates st) < limit"
    and st': "st' = select_loop s key namespace application function resources
    (mb_to_bytes (fres_memory_mb resources)) limit entries st"
  shows "cache_sound (sel_cache st') key namespace application function"
    and "sel_candidates st' =
      take limit (sel_candidates st @ walk_candidates s namespace application function resources entries)"
    and "sel_eligible st' \<subseteq> sel_eligible st \<union> matching_classes s namespace application function entries"
    and "length (sel_candidates st') < limit \<Longrightarrow>
      sel_eligible st' = sel_eligible st \<union> matching_classes s namespace application function entries"
proof -
  have "cache_sound (sel_cache st') key namespace application function \<and>
    sel_candidates st' =
      take limit (sel_candidates st @ walk_candidates s namespace application function resources entries) \<and>
    sel_eligible st' \<subseteq> sel_eligible st \<union> matching_classes s namespace application function entries \<and>
    (length (sel_candidates st') < limit \<longrightarrow>
      sel_eligible st' = sel_eligible st \<union> matching_classes s namespace application function entries)"
    using assms(3-5) unfolding st'
  proof (induction entries arbitrary: st)
    case Nil
    then show ?case by (simp add: walk_candidates_def matching_classes_def)
  next
    case (Cons entry entries)
    obtain m e where entry: "entry = (m, e)" by fastforce
    define st1 where "st1 = consider_executor s key namespace application function resources
      (mb_to_bytes (fres_memory_mb resources)) (m, e) st"
    have e: "(m, e) \<in> cs_executors_by_free_memory s" using Cons.prems(1) entry by simp
    note step = consider_executor_spec [OF ok e Cons.prems(2) st1_def]
    have eligible: "sel_eligible st1 \<union> matching_classes s namespace application function entries =
        sel_eligible st \<union> matching_classes s namespace application function (entry # entries)"
      unfolding entry matching_classes_Cons step(3) by (auto split: option.split)
    have eligible1: "sel_eligible st1 \<subseteq> sel_eligible st \<union> matching_classes s namespace application function (entry # entries)"
      using eligible by blast
    have cand: "sel_candidates st1 @ walk_candidates s namespace application function resources entries =
        sel_candidates st @ walk_candidates s namespace application function resources (entry # entries)"
      unfolding step(2) by (simp add: walk_candidates_def entry)
    show ?case
    proof (cases "sel_candidates st1 \<noteq> sel_candidates st \<and> limit \<le> length (sel_candidates st1)")
      case True
      then have limit: "length (sel_candidates st1) = limit"
        using Cons.prems(3) step(2) by (simp split: if_splits)
      have "take limit (sel_candidates st @ walk_candidates s namespace application function resources (entry # entries)) =
          sel_candidates st1"
        unfolding cand [symmetric] using limit by simp
      moreover have "select_loop s key namespace application function resources
          (mb_to_bytes (fres_memory_mb resources)) limit (entry # entries) st = st1"
        using True by (simp add: entry Let_def flip: st1_def)
      ultimately show ?thesis using limit step(1) eligible1 by simp
    next
      case False
      then have "length (sel_candidates st1) < limit" using Cons.prems(3) by auto
      then show ?thesis
        using False Cons.IH [of st1] Cons.prems(1) step(1)
        by (simp add: entry [symmetric] eligible cand) (simp add: entry Let_def flip: st1_def)
    qed
  qed
  then show "cache_sound (sel_cache st') key namespace application function"
    "sel_candidates st' =
      take limit (sel_candidates st @ walk_candidates s namespace application function resources entries)"
    "sel_eligible st' \<subseteq> sel_eligible st \<union> matching_classes s namespace application function entries"
    "length (sel_candidates st') < limit \<Longrightarrow>
      sel_eligible st' = sel_eligible st \<union> matching_classes s namespace application function entries"
    by blast+
qed

lemma max_by_memory_None [simp]: "max_by_memory xs = None \<longleftrightarrow> xs = []"
  by (cases xs) (auto split: option.split)

lemma max_by_memory_Some:
  "max_by_memory xs = Some x \<Longrightarrow> x \<in> set xs \<and> (\<forall>y \<in> set xs. snd y \<le> snd x)"
proof (induction xs arbitrary: x)
  case (Cons z xs)
  then show ?case by (cases "max_by_memory xs") (fastforce split: if_splits)+
qed simp

subsection \<open>The eligible classes\<close>

text \<open>
  No executor in the class index is tombstoned: \<open>deregister_executor\<close> takes it out of the index when
  it sets the flag.
\<close>

definition classes_live :: "container_scheduler \<Rightarrow> bool" where
  "classes_live s \<longleftrightarrow>
     (\<forall>e em. cs_executor_classes s e \<noteq> None \<longrightarrow> cs_executors s e = Some em \<longrightarrow> \<not> em_tombstoned em)"

lemma classes_live_upsert_executor:
  "classes_live s \<Longrightarrow> \<not> em_tombstoned em \<Longrightarrow> classes_live (upsert_executor em s)"
  by (auto simp: classes_live_def upsert_executor_def Let_def split: option.split)

lemma classes_live_deregister_executor: "classes_live s \<Longrightarrow> classes_live (deregister_executor eid s)"
  by (fastforce simp: classes_live_def deregister_executor_def Let_def split: option.splits if_splits)

text \<open>What the two iteration orders promise.\<close>

definition class_orders ::
  "(executor_class set \<Rightarrow> executor_class list) \<Rightarrow> (executor_id set \<Rightarrow> executor_id list) \<Rightarrow> container_scheduler \<Rightarrow> bool" where
  "class_orders ordK ordE s \<longleftrightarrow>
     set (ordK (dom (cs_executors_by_class s))) = dom (cs_executors_by_class s) \<and>
     (\<forall>c. set (ordE (idx_get (cs_executors_by_class s) c)) = idx_get (cs_executors_by_class s) c)"

lemma class_representative:
  assumes "classes_ok s" "classes_live s" "e \<in> idx_get (cs_executors_by_class s) c"
  obtains em where "cs_executors s e = Some em"
    "\<And>namespace application function.
       executor_matches_constraints em namespace application function = class_matches c namespace application function"
proof -
  have "cs_executor_classes s e = Some c" using assms(1,3) unfolding classes_ok_def by blast
  moreover from this have "map_option class_from_executor (cs_executors s e) = Some c"
    using assms(1) unfolding classes_ok_def by blast
  ultimately show thesis
    using that assms(2) by (auto simp: executor_matches_class classes_live_def)
qed

lemma eligible_loop_spec:
  assumes ok: "classes_ok s" "classes_live s" and "class_orders ordK ordE s"
    and "cache_sound cache key namespace application function"
    and "set cs \<subseteq> dom (cs_executors_by_class s)"
  shows "fst (eligible_loop s ordE key namespace application function cs cache eligible) =
      eligible \<union> {c \<in> set cs. class_matches c namespace application function} \<and>
    cache_sound (snd (eligible_loop s ordE key namespace application function cs cache eligible))
      key namespace application function"
  using assms(4,5)
proof (induction cs arbitrary: cache eligible)
  case (Cons c cs)
  have tidy: "idx_get (cs_executors_by_class s) c \<noteq> {}"
    using ok(1) Cons.prems(2) by (auto simp: classes_ok_def idx_tidy_def idx_get_def)
  have elems: "set (ordE (idx_get (cs_executors_by_class s) c)) = idx_get (cs_executors_by_class s) c"
    using assms(3) by (simp add: class_orders_def)
  obtain e es where e: "ordE (idx_get (cs_executors_by_class s) c) = e # es"
    using tidy elems by (cases "ordE (idx_get (cs_executors_by_class s) c)") auto
  then have "e \<in> idx_get (cs_executors_by_class s) c" using elems by auto
  then obtain em where em: "cs_executors s e = Some em"
    "executor_matches_constraints em namespace application function = class_matches c namespace application function"
    using class_representative [OF ok] by metis
  obtain cache' where cache': "cache_sound cache' key namespace application function"
    "(case cache_get cache key c of
        Some cached \<Rightarrow> (cached, cache)
      | None \<Rightarrow> (class_matches c namespace application function,
                 cache_insert key c (class_matches c namespace application function) cache)) =
     (class_matches c namespace application function, cache')"
    using cache_lookup_sound [OF Cons.prems(1)] by blast
  have step: "eligible_loop s ordE key namespace application function (c # cs) cache eligible =
      eligible_loop s ordE key namespace application function cs cache'
        (if class_matches c namespace application function then insert c eligible else eligible)"
    unfolding eligible_loop.simps e list.case em(1) option.case check_constraints_def Let_def em(2) cache'(2)
    by simp
  show ?case
    unfolding step using Cons.IH [OF cache'(1), of "if class_matches c namespace application function
      then insert c eligible else eligible"] Cons.prems(2) by auto
qed simp

lemma compute_eligible_classes_spec:
  assumes "classes_ok s" "classes_live s" "class_orders ordK ordE s"
    "cache_sound cache key namespace application function"
  shows "fst (compute_eligible_classes ordK ordE s cache key namespace application function) =
      {c \<in> dom (cs_executors_by_class s). class_matches c namespace application function}"
    and "cache_sound (snd (compute_eligible_classes ordK ordE s cache key namespace application function))
      key namespace application function"
  using eligible_loop_spec [OF assms, of "ordK (dom (cs_executors_by_class s))" "{}"] assms(3)
  by (auto simp: compute_eligible_classes_def class_orders_def)

subsection \<open>The walk over the index\<close>

text \<open>What \<open>random_range\<close> promises of the memory threshold.\<close>

definition in_memory_range :: "container_scheduler \<Rightarrow> function_resources \<Rightarrow> u64 \<Rightarrow> bool" where
  "in_memory_range s resources random_mem \<longleftrightarrow>
     mb_to_bytes (fres_memory_mb resources) \<le> random_mem \<and> random_mem \<le> max_free_memory s"

lemma set_wrapped_iter:
  assumes "finite (cs_executors_by_free_memory s)" "min_memory \<le> random_mem"
  shows "set (wrapped_iter s min_memory random_mem) = {(m, e) \<in> cs_executors_by_free_memory s. min_memory \<le> m}"
proof -
  have "(a, []) \<le> (m, e) \<longleftrightarrow> a \<le> m" "(m, e) < (a, []) \<longleftrightarrow> m < a" for a m :: u64 and e :: executor_id
    by (auto simp: less_eq_prod_def less_prod_def)
  then show ?thesis using assms by (auto simp: wrapped_iter_def Let_def)
qed

lemma max_free_memory_ge:
  assumes "finite (cs_executors_by_free_memory s)" "(m, e) \<in> cs_executors_by_free_memory s"
  shows "m \<le> max_free_memory s"
proof -
  have "(m, e) \<le> Max (cs_executors_by_free_memory s)" using assms by simp
  then have "m \<le> fst (Max (cs_executors_by_free_memory s))"
    by (cases "Max (cs_executors_by_free_memory s)") (auto simp: less_eq_prod_def)
  then show ?thesis using assms(2) by (auto simp: max_free_memory_def)
qed

lemma placeable_memory:
  assumes "memory_ok s" "(m, e) \<in> cs_executors_by_free_memory s"
    "placeable s namespace application function resources e"
  shows "mb_to_bytes (fres_memory_mb resources) \<le> m"
  using assms memory_okD [OF assms(1,2)] can_handle_function_resources_base(2)
  by (fastforce simp: placeable_def)

subsection \<open>The result of a selection\<close>

text \<open>The preconditions of a selection, as the code maintains them.\<close>

definition placement_ready ::
  "(executor_class set \<Rightarrow> executor_class list) \<Rightarrow> (executor_id set \<Rightarrow> executor_id list) \<Rightarrow> u64 \<Rightarrow>
   container_scheduler \<Rightarrow> feasibility_cache \<Rightarrow> workload_key \<Rightarrow> string \<Rightarrow> string \<Rightarrow>
   app_function option \<Rightarrow> function_resources \<Rightarrow> nat \<Rightarrow> bool" where
  "placement_ready ordK ordE random_mem s cache key namespace application function resources limit \<longleftrightarrow>
     classes_ok s \<and> memory_ok s \<and> classes_live s \<and> finite (cs_executors_by_free_memory s) \<and>
     class_orders ordK ordE s \<and> cache_sound cache key namespace application function \<and> 0 < limit \<and>
     (max_free_memory s < mb_to_bytes (fres_memory_mb resources) \<or> in_memory_range s resources random_mem)"

lemma select_executor_no_memory:
  assumes "placement_ready ordK ordE random_mem s cache key namespace application function resources limit"
    and max: "max_free_memory s < mb_to_bytes (fres_memory_mb resources)"
  obtains cache' where
    "select_executor ordK ordE random_mem s cache key namespace application function resources limit =
       (\<lparr>pr_executor_id = None, pr_eligible_classes =
           {c \<in> dom (cs_executors_by_class s). class_matches c namespace application function}\<rparr>, cache')"
    "cache_sound cache' key namespace application function"
    "\<forall>(m, e) \<in> cs_executors_by_free_memory s. \<not> placeable s namespace application function resources e"
proof -
  have ready: "classes_ok s" "memory_ok s" "classes_live s" "finite (cs_executors_by_free_memory s)"
    "class_orders ordK ordE s" "cache_sound cache key namespace application function"
    using assms(1) by (simp_all add: placement_ready_def)
  have "\<forall>(m, e) \<in> cs_executors_by_free_memory s. \<not> placeable s namespace application function resources e"
    using placeable_memory [OF ready(2)] max_free_memory_ge [OF ready(4)] max by fastforce
  moreover note compute_eligible_classes_spec [OF ready(1,3,5,6)]
  moreover have "select_executor ordK ordE random_mem s cache key namespace application function resources limit =
      (\<lparr>pr_executor_id = None, pr_eligible_classes =
         fst (compute_eligible_classes ordK ordE s cache key namespace application function)\<rparr>,
       snd (compute_eligible_classes ordK ordE s cache key namespace application function))"
    using max by (simp add: select_executor_def mb_to_bytes_def mult.assoc split_beta)
  ultimately show thesis using that by presburger
qed

lemma select_executor_walk:
  assumes "placement_ready ordK ordE random_mem s cache key namespace application function resources limit"
    and max: "\<not> max_free_memory s < mb_to_bytes (fres_memory_mb resources)"
  defines "entries \<equiv> wrapped_iter s (mb_to_bytes (fres_memory_mb resources)) random_mem"
  obtains eligible cache' where
    "select_executor ordK ordE random_mem s cache key namespace application function resources limit =
       (\<lparr>pr_executor_id = map_option fst (max_by_memory (take limit
            (walk_candidates s namespace application function resources entries))),
         pr_eligible_classes = eligible\<rparr>, cache')"
    "cache_sound cache' key namespace application function"
    "walk_candidates s namespace application function resources entries = [] \<longrightarrow>
       eligible = matching_classes s namespace application function entries"
    "set entries = {(m, e) \<in> cs_executors_by_free_memory s. mb_to_bytes (fres_memory_mb resources) \<le> m}"
proof -
  let ?st0 = "\<lparr>sel_cache = cache, sel_eligible = {}, sel_candidates = []\<rparr>"
  define st where "st = select_loop s key namespace application function resources
    (mb_to_bytes (fres_memory_mb resources)) limit entries ?st0"
  have ready: "classes_ok s" "memory_ok s" "finite (cs_executors_by_free_memory s)" "0 < limit"
    "cache_sound cache key namespace application function" "mb_to_bytes (fres_memory_mb resources) \<le> random_mem"
    using assms(1) max by (simp_all add: placement_ready_def in_memory_range_def)
  have entries: "set entries =
      {(m, e) \<in> cs_executors_by_free_memory s. mb_to_bytes (fres_memory_mb resources) \<le> m}"
    unfolding entries_def using set_wrapped_iter [OF ready(3,6)] .
  then have sub: "set entries \<subseteq> cs_executors_by_free_memory s" by auto
  have "cache_sound (sel_cache ?st0) key namespace application function" "length (sel_candidates ?st0) < limit"
    using ready by simp_all
  note loop = select_loop_spec [OF ready(1,2) sub this st_def, simplified]
  have "select_executor ordK ordE random_mem s cache key namespace application function resources limit =
      (\<lparr>pr_executor_id = map_option fst (max_by_memory (sel_candidates st)),
        pr_eligible_classes = sel_eligible st\<rparr>, sel_cache st)"
    using max by (simp add: select_executor_def mb_to_bytes_def mult.assoc Let_def st_def entries_def)
  with loop entries ready(4) that show thesis by simp
qed

lemma select_executor_outcome:
  assumes "placement_ready ordK ordE random_mem s cache key namespace application function resources limit"
  shows "cache_sound
      (snd (select_executor ordK ordE random_mem s cache key namespace application function resources limit))
      key namespace application function \<and>
    (case pr_executor_id (fst
        (select_executor ordK ordE random_mem s cache key namespace application function resources limit)) of
       Some e \<Rightarrow> placeable s namespace application function resources e \<and>
         (\<exists>m. (m, e) \<in> cs_executors_by_free_memory s \<and>
            list_all (\<lambda>(e', m'). m' \<le> m) (take limit (walk_candidates s namespace application function resources
              (wrapped_iter s (mb_to_bytes (fres_memory_mb resources)) random_mem))))
     | None \<Rightarrow> \<not> (\<exists>m e. (m, e) \<in> cs_executors_by_free_memory s \<and>
                    placeable s namespace application function resources e))"
proof (cases "max_free_memory s < mb_to_bytes (fres_memory_mb resources)")
  case True
  obtain cache' where
    "select_executor ordK ordE random_mem s cache key namespace application function resources limit =
       (\<lparr>pr_executor_id = None, pr_eligible_classes =
           {c \<in> dom (cs_executors_by_class s). class_matches c namespace application function}\<rparr>, cache')"
    "cache_sound cache' key namespace application function"
    "\<forall>(m, e) \<in> cs_executors_by_free_memory s. \<not> placeable s namespace application function resources e"
    by (rule select_executor_no_memory [OF assms True])
  then show ?thesis by auto
next
  case False
  let ?entries = "wrapped_iter s (mb_to_bytes (fres_memory_mb resources)) random_mem"
  let ?cands = "walk_candidates s namespace application function resources ?entries"
  obtain eligible cache' where r:
    "select_executor ordK ordE random_mem s cache key namespace application function resources limit =
       (\<lparr>pr_executor_id = map_option fst (max_by_memory (take limit ?cands)),
         pr_eligible_classes = eligible\<rparr>, cache')"
    "cache_sound cache' key namespace application function"
    "set ?entries = {(m, e) \<in> cs_executors_by_free_memory s. mb_to_bytes (fres_memory_mb resources) \<le> m}"
    using select_executor_walk [OF assms False] by blast
  have cands: "(e, m) \<in> set ?cands \<longleftrightarrow>
      (m, e) \<in> cs_executors_by_free_memory s \<and> placeable s namespace application function resources e" for e m
    using r(3) placeable_memory assms unfolding walk_candidates_def placement_ready_def by force
  show ?thesis
  proof (cases "max_by_memory (take limit ?cands)")
    case None
    then have "?cands = []" using assms by (simp add: placement_ready_def)
    then show ?thesis using r(1,2) None cands by simp
  next
    case (Some em)
    then show ?thesis
      using r(1,2) max_by_memory_Some [OF Some] cands [of "fst em" "snd em"] in_set_takeD [of em limit ?cands]
      by (auto simp: list_all_iff split_beta)
  qed
qed

text \<open>
  C6: \<open>select_executor\<close> is sound and complete.  An executor it returns is in the memory index, is not
  tombstoned, satisfies the workload's constraints and has the resources free; no candidate among
  the first \<open>limit\<close> of the walk has more free memory.  When it returns none, no indexed executor could
  take the workload.  The feasibility cache stays sound.
\<close>

theorem select_executor_correct:
  assumes "placement_ready ordK ordE random_mem s cache key namespace application function resources limit"
  shows "cache_sound
      (snd (select_executor ordK ordE random_mem s cache key namespace application function resources limit))
      key namespace application function \<and>
    (case pr_executor_id (fst
        (select_executor ordK ordE random_mem s cache key namespace application function resources limit)) of
       Some e \<Rightarrow> placeable s namespace application function resources e \<and>
         (\<exists>m. (m, e) \<in> cs_executors_by_free_memory s \<and>
            list_all (\<lambda>(e', m'). m' \<le> m) (take limit (walk_candidates s namespace application function resources
              (wrapped_iter s (mb_to_bytes (fres_memory_mb resources)) random_mem))))
     | None \<Rightarrow> \<not> (\<exists>m e. (m, e) \<in> cs_executors_by_free_memory s \<and>
                    placeable s namespace application function resources e))"
  using assms by (rule select_executor_outcome)

text \<open>
  The classes reported with an unsuccessful selection.  When no executor has the memory free,
  they are all the registered classes that satisfy the workload's constraints.  When some executor
  has the memory but lacks another resource, they are only the classes of the matching executors
  with that much memory free: a matching class whose executors are short of memory is left out, and
  the tracker does not wake the workload when that class frees resources.
\<close>

theorem unplaced_eligible_classes:
  assumes "placement_ready ordK ordE random_mem s cache key namespace application function resources limit"
    and "pr_executor_id (fst
      (select_executor ordK ordE random_mem s cache key namespace application function resources limit)) = None"
  shows "pr_eligible_classes (fst
      (select_executor ordK ordE random_mem s cache key namespace application function resources limit)) =
    (if max_free_memory s < mb_to_bytes (fres_memory_mb resources)
     then {c \<in> dom (cs_executors_by_class s). class_matches c namespace application function}
     else {class_from_executor em | em m e. (m, e) \<in> cs_executors_by_free_memory s \<and>
             mb_to_bytes (fres_memory_mb resources) \<le> m \<and> cs_executors s e = Some em \<and>
             executor_matches_constraints em namespace application function})"
proof (cases "max_free_memory s < mb_to_bytes (fres_memory_mb resources)")
  case True
  show ?thesis by (rule select_executor_no_memory [OF assms(1) True]) (simp add: True)
next
  case False
  let ?entries = "wrapped_iter s (mb_to_bytes (fres_memory_mb resources)) random_mem"
  let ?cands = "walk_candidates s namespace application function resources ?entries"
  obtain eligible cache' where r:
    "select_executor ordK ordE random_mem s cache key namespace application function resources limit =
       (\<lparr>pr_executor_id = map_option fst (max_by_memory (take limit ?cands)),
         pr_eligible_classes = eligible\<rparr>, cache')"
    "cache_sound cache' key namespace application function"
    "?cands = [] \<longrightarrow> eligible = matching_classes s namespace application function ?entries"
    "set ?entries = {(m, e) \<in> cs_executors_by_free_memory s. mb_to_bytes (fres_memory_mb resources) \<le> m}"
    by (rule select_executor_walk [OF assms(1) False])
  have "?cands = []" using assms r(1) by (simp add: placement_ready_def)
  with r(3) False show ?thesis by (simp add: r(1,4) matching_classes_def conj_assoc)
qed

section \<open>Examples\<close>

definition example_state :: "executor_id \<Rightarrow> u32 \<Rightarrow> u64 \<Rightarrow> executor_server_metadata" where
  "example_state e cpu memory =
     \<lparr>esm_executor_id = e, esm_function_container_ids = {},
      esm_free_resources = \<lparr>host_cpu_ms_per_sec = cpu, host_memory_bytes = memory,
        host_disk_bytes = 4294967296, host_gpu = None\<rparr>,
      esm_resource_claims = Map.empty\<rparr>"

definition example_request :: function_resources where
  "example_request = \<lparr>fres_cpu_ms_per_sec = 1000, fres_memory_mb = 2048, fres_ephemeral_disk_mb = 1024,
     fres_gpu_configs = []\<rparr>"

text \<open>
  Two executors of different classes: \<open>e1\<close> has 4 GiB free and little CPU, \<open>e2\<close> has 1 GiB free.
\<close>

definition example_placement :: "u32 \<Rightarrow> container_scheduler" where
  "example_placement cpu =
     set_executor_state ''e2'' (example_state ''e2'' 4000 1073741824)
       (set_executor_state ''e1'' (example_state ''e1'' cpu 4294967296)
         (upsert_executor (example_executor ''e2'' (Some [example_allow ''ns'']))
           (upsert_executor (example_executor ''e1'' None) (cs_new [] []))))"

definition example_classes :: "executor_class set \<Rightarrow> executor_class list" where
  "example_classes _ = [class_from_executor (example_executor ''e1'' None),
     class_from_executor (example_executor ''e2'' (Some [example_allow ''ns'']))]"

lemmas example_placement_defs =
  example_placement_def set_executor_state_def upsert_executor_def insert_resource_index_def cs_new_def
  example_executor_def example_state_def class_from_executor_def

lemma example_placement_fields:
  assumes "0 < cpu"
  shows "cs_executors_by_free_memory (example_placement cpu) = {(4294967296, ''e1''), (1073741824, ''e2'')}"
    and "cs_executor_states (example_placement cpu) =
      [''e1'' \<mapsto> example_state ''e1'' cpu 4294967296, ''e2'' \<mapsto> example_state ''e2'' 4000 1073741824]"
    and "cs_executors (example_placement cpu) =
      [''e1'' \<mapsto> example_executor ''e1'' None, ''e2'' \<mapsto> example_executor ''e2'' (Some [example_allow ''ns''])]"
  using assms by (auto simp: example_placement_defs Let_def)

lemma example_placement_by_class:
  "cs_executors_by_class (example_placement cpu) =
     [class_from_executor (example_executor ''e1'' None) \<mapsto> {''e1''},
      class_from_executor (example_executor ''e2'' (Some [example_allow ''ns''])) \<mapsto> {''e2''}]"
  by (simp add: example_placement_defs Let_def idx_insert_def)

lemma example_placement_max: "0 < cpu \<Longrightarrow> max_free_memory (example_placement cpu) = 4294967296"
  by (simp add: max_free_memory_def example_placement_fields)

lemma example_placement_ready:
  assumes "0 < cpu"
  shows "placement_ready example_classes sorted_list_of_set 2147483648 (example_placement cpu)
    Map.empty key namespace application function example_request 2"
proof -
  have "classes_ok (cs_new [] [])" "memory_ok (cs_new [] [])" "classes_live (cs_new [] [])"
    by (simp_all add: classes_ok_def memory_ok_def classes_live_def cs_new_def)
  then have "classes_ok (example_placement cpu)" "memory_ok (example_placement cpu)"
    by (auto simp: example_placement_def intro!: classes_ok_upsert_executor memory_ok_set_executor_state)
  moreover have "classes_live (example_placement cpu)"
    using assms by (auto simp: classes_live_def example_placement_fields example_executor_def split: if_splits)
  moreover have "class_orders example_classes sorted_list_of_set (example_placement cpu)"
    by (auto simp: class_orders_def example_placement_by_class example_classes_def)
  ultimately show ?thesis
    using assms cache_sound_empty
    by (simp add: placement_ready_def example_placement_fields in_memory_range_def example_placement_max
        example_request_def mb_to_bytes_def)
qed

lemma example_request_memory [simp]: "mb_to_bytes (fres_memory_mb example_request) = 2147483648"
  by (simp add: example_request_def mb_to_bytes_def)

lemma example_matches:
  "executor_matches_constraints (example_executor e None) namespace application None"
  "executor_matches_constraints (example_executor e (Some [example_allow ''ns''])) ''ns'' application None"
  by (simp_all add: executor_matches_constraints_def is_namespace_allowed_def example_executor_def
      example_allow_def)

lemma example_fits:
  "is_ok (can_handle_function_resources (esm_free_resources (example_state e cpu memory)) example_request)
     \<longleftrightarrow> 1000 \<le> cpu \<and> 2147483648 \<le> memory"
  by (auto simp: can_handle_function_resources_def can_handle_fe_resources_def can_handle_gpu_def
      fe_resources_no_gpu_def example_request_def example_state_def mb_to_bytes_def Let_def split: option.splits)

lemma example_placeable:
  assumes "0 < cpu"
  shows "placeable (example_placement cpu) ''ns'' application None example_request e \<longleftrightarrow>
    e = ''e1'' \<and> 1000 \<le> cpu"
  using assms by (auto simp: placeable_def example_placement_fields example_matches example_fits split: if_splits)

text \<open>With the CPU free the workload goes to \<open>e1\<close>.\<close>

theorem select_executor_correct_witness:
  "placeable (example_placement 2000) ''ns'' ''app'' None example_request ''e1'' \<and>
   pr_executor_id (fst (select_executor example_classes sorted_list_of_set 2147483648 (example_placement 2000)
     Map.empty (SandboxWorkload ''ns'') ''ns'' ''app'' None example_request 2)) = Some ''e1''"
proof -
  have "0 < (2000 :: u32)" by simp
  note correct = select_executor_correct [OF example_placement_ready [OF this],
      of "SandboxWorkload ''ns''" "''ns''" "''app''" None]
  have "(4294967296, ''e1'') \<in> cs_executors_by_free_memory (example_placement 2000)"
    by (simp add: example_placement_fields)
  then show ?thesis
    using correct by (cases "pr_executor_id (fst (select_executor example_classes sorted_list_of_set 2147483648
        (example_placement 2000) Map.empty (SandboxWorkload ''ns'') ''ns'' ''app'' None example_request 2))")
      (auto simp: example_placeable)
qed

text \<open>With the CPU taken on \<open>e1\<close>, the class of \<open>e2\<close>, which matches, is not among the eligible ones.\<close>

lemma example_unplaced:
  "pr_executor_id (fst (select_executor example_classes sorted_list_of_set 2147483648 (example_placement 500)
     Map.empty (SandboxWorkload ''ns'') ''ns'' ''app'' None example_request 2)) = None"
proof -
  note walk = select_executor_walk [OF example_placement_ready [of 500],
      of "SandboxWorkload ''ns''" "''ns''" "''app''" None]
  have none: "walk_candidates (example_placement 500) ''ns'' ''app'' None example_request entries = []" for entries
    by (simp add: walk_candidates_def example_placeable)
  show ?thesis
    by (rule walk) (simp_all add: none example_placement_max)
qed

theorem unplaced_eligible_classes_witness:
  "pr_eligible_classes (fst (select_executor example_classes sorted_list_of_set 2147483648 (example_placement 500)
     Map.empty (SandboxWorkload ''ns'') ''ns'' ''app'' None example_request 2)) =
     {class_from_executor (example_executor ''e1'' None)} \<and>
   class_matches (class_from_executor (example_executor ''e2'' (Some [example_allow ''ns'']))) ''ns'' ''app'' None"
proof -
  have "0 < (500 :: u32)" by simp
  note unplaced_eligible_classes [OF example_placement_ready [OF this] example_unplaced]
  moreover have "{class_from_executor em | em m e.
      (m, e) \<in> cs_executors_by_free_memory (example_placement 500) \<and>
      mb_to_bytes (fres_memory_mb example_request) \<le> m \<and> cs_executors (example_placement 500) e = Some em \<and>
      executor_matches_constraints em ''ns'' ''app'' None} = {class_from_executor (example_executor ''e1'' None)}"
    by (auto simp: example_placement_fields example_matches split: if_splits intro!: exI [of _ "''e1''"]
        exI [of _ "example_executor ''e1'' None"])
  moreover have "class_matches (class_from_executor (example_executor ''e2'' (Some [example_allow ''ns''])))
      ''ns'' ''app'' None"
    using example_matches(2) executor_matches_class by blast
  ultimately show ?thesis by (simp add: example_placement_max)
qed

end
