(* ===== verification/ContainerLifecycle.thy ===== *)
theory ContainerLifecycle
  imports Placement
begin

text \<open>
  Creating, reaping and restoring containers: the rest of \<open>ContainerScheduler\<close>
  (\<open>crates/server/src/processor/container_scheduler.rs\<close>) that changes executors and containers
  together.  What the code takes from its surroundings on a call is the argument \<open>ch\<close>: the two
  iteration orders, the random memory threshold, the clock and the fresh container id.
\<close>

section \<open>Errors and choices\<close>

text \<open>\<open>container_scheduler::Error\<close>, and the other two failures the \<open>anyhow::Result\<close> can carry.\<close>

datatype scheduler_error =
    ConstraintUnsatisfiable string string string
  | ExecutorStateNotFound executor_id
  | ResourceFailure resource_error

record choices =
  ch_class_order :: "executor_class set \<Rightarrow> executor_class list"
  ch_executor_order :: "executor_id set \<Rightarrow> executor_id list"
  ch_random_range :: "u64 \<Rightarrow> u64 \<Rightarrow> u64"
  ch_now :: instant
  ch_container_id :: container_id

section \<open>Counting and selecting\<close>

text \<open>\<open>ids\<close> is iterated with the order \<open>ord\<close>; the counters are \<open>u32\<close>.\<close>

definition count_active_idle_containers ::
  "(container_id set \<Rightarrow> container_id list) \<Rightarrow> container_scheduler \<Rightarrow> function_uri \<Rightarrow> u32 \<times> u32" where
  "count_active_idle_containers ord self uri =
     fold (\<lambda>cid (active, idle).
         case cs_function_containers self cid of
           Some meta \<Rightarrow> if csm_allocations meta = {} then (active, idle + 1) else (active + 1, idle)
         | None \<Rightarrow> (active, idle))
       (ord (idx_get (cs_containers_by_function_uri self) uri)) (0, 0)"

fun select_idle_loop ::
  "container_scheduler \<Rightarrow> nat \<Rightarrow> container_id list \<Rightarrow> container_id list \<Rightarrow> container_id list" where
  "select_idle_loop self count [] result = result"
| "select_idle_loop self count (cid # ids) result =
     (if count \<le> length result then result
      else case cs_function_containers self cid of
             Some meta \<Rightarrow>
               select_idle_loop self count ids (if csm_allocations meta = {} then result @ [cid] else result)
           | None \<Rightarrow> select_idle_loop self count ids result)"

definition select_idle_containers ::
  "(container_id set \<Rightarrow> container_id list) \<Rightarrow> container_scheduler \<Rightarrow> function_uri \<Rightarrow> u32 \<Rightarrow> container_id list" where
  "select_idle_containers ord self uri count =
     select_idle_loop self (unat count) (ord (idx_get (cs_containers_by_function_uri self) uri)) []"

definition select_warm_pool_containers ::
  "(container_id set \<Rightarrow> container_id list) \<Rightarrow> container_scheduler \<Rightarrow> container_pool_key \<Rightarrow> u32 \<Rightarrow> container_id list" where
  "select_warm_pool_containers ord self key count =
     (case cs_warm_containers_by_pool self key of
        Some warm_ids \<Rightarrow> take (unat count) (ord warm_ids)
      | None \<Rightarrow> [])"

definition fe_can_be_removed :: "container_server_metadata \<Rightarrow> bool" where
  "fe_can_be_removed fe_meta = can_be_removed fe_meta"

section \<open>Registering a container\<close>

definition register_container ::
  "instant \<Rightarrow> executor_id \<Rightarrow> container \<Rightarrow> container_type \<Rightarrow> container_scheduler \<Rightarrow>
   (scheduler_error + scheduler_update_request) \<times> container_scheduler" where
  "register_container now eid container ctype self =
     (case cs_executor_states self eid of
        None \<Rightarrow> (Err (ExecutorStateNotFound eid), self)
      | Some state \<Rightarrow>
          (let self = remove_resource_index eid (esm_free_resources state) self;
               (result, state) = add_container state container;
               self = self\<lparr>cs_executor_states := (cs_executor_states self)(eid \<mapsto> state)\<rparr>
           in case result of
                Inl e \<Rightarrow> (Err (ResourceFailure e), self)
              | Inr _ \<Rightarrow>
                  (let self = insert_resource_index eid (esm_free_resources state) self;
                       meta = \<lparr>csm_executor_id = eid, csm_function_container = container,
                               csm_desired_state = CS_Running, csm_container_type = ctype,
                               csm_allocations = {}, csm_idle_since = Some now\<rparr>
                   in (Ok (default_update\<lparr>su_updated_executor_states := [eid \<mapsto> state],
                            su_containers := [ct_id container \<mapsto> meta]\<rparr>), self))))"

definition workload_of :: "string \<Rightarrow> string \<Rightarrow> app_function option \<Rightarrow> workload_key" where
  "workload_of namespace application function =
     (case function of
        Some f \<Rightarrow> FunctionWorkload namespace application (fn_name f)
      | None \<Rightarrow> SandboxWorkload namespace)"

text \<open>
  \<open>create_container\<close>: the placement, stored in \<open>last_placement\<close> for the callers, and the
  registration.  The feasibility cache is passed in and returned.
\<close>

definition create_container ::
  "choices \<Rightarrow> string \<Rightarrow> string \<Rightarrow> app_function option \<Rightarrow> function_resources \<Rightarrow> container \<Rightarrow> container_type \<Rightarrow>
   feasibility_cache \<Rightarrow> container_scheduler \<Rightarrow>
   (scheduler_error + scheduler_update_request option) \<times> feasibility_cache \<times> container_scheduler" where
  "create_container ch namespace application function resources container ctype cache self =
     (let key = workload_of namespace application function;
          random_mem = ch_random_range ch (fres_memory_mb resources * 1024 * 1024) (max_free_memory self);
          (result, cache) = select_executor (ch_class_order ch) (ch_executor_order ch) random_mem self cache
                              key namespace application function resources 2;
          self = self\<lparr>cs_last_placement := Some result\<rparr>
      in case pr_executor_id result of
           None \<Rightarrow> (Ok None, cache, self)
         | Some eid \<Rightarrow>
             if cs_executor_states self eid = None then (Ok None, cache, self)
             else (case register_container (ch_now ch) eid container ctype self of
                     (Inl e, self) \<Rightarrow> (Err e, cache, self)
                   | (Inr update, self) \<Rightarrow> (Ok (Some update), cache, self)))"

section \<open>Restoring a reaped container\<close>

text \<open>
  The container popped from the back of the function's list is put back on its executor, which must
  still be there; then it is marked running and idle since now, in place, and reindexed.
\<close>

definition restore_container ::
  "instant \<Rightarrow> container_id \<Rightarrow> container_server_metadata \<Rightarrow> executor_server_metadata \<Rightarrow> container_scheduler \<Rightarrow>
   scheduler_update_request option \<times> container_scheduler" where
  "restore_container now cid fc state self =
     (let eid = csm_executor_id fc;
          old_mem = host_memory_bytes (esm_free_resources state);
          self = remove_resource_index eid (esm_free_resources state) self;
          (result, state) = add_container state (csm_function_container fc);
          self = self\<lparr>cs_executor_states := (cs_executor_states self)(eid \<mapsto> state)\<rparr>
      in case result of
           Inl _ \<Rightarrow>
             (None, self\<lparr>cs_executors_by_free_memory := insert (old_mem, eid) (cs_executors_by_free_memory self)\<rparr>)
         | Inr _ \<Rightarrow>
             (let self = insert_resource_index eid (esm_free_resources state) self;
                  fc = fc\<lparr>csm_desired_state := CS_Running, csm_idle_since := Some now\<rparr>;
                  self = self\<lparr>cs_function_containers := (cs_function_containers self)(cid \<mapsto> fc)\<rparr>;
                  self = update_container_indices cid fc self
              in (Some (default_update\<lparr>su_containers := [cid \<mapsto> fc],
                         su_updated_executor_states := [eid \<mapsto> state]\<rparr>), self)))"

definition restore_reaped_container ::
  "instant \<Rightarrow> function_uri \<Rightarrow> container_scheduler \<Rightarrow> scheduler_update_request option \<times> container_scheduler" where
  "restore_reaped_container now uri self =
     (case cs_reaped_containers self uri of
        None \<Rightarrow> (None, self)
      | Some reaped \<Rightarrow>
          if reaped = [] then (None, self)
          else
            let cid = last reaped;
                reaped = butlast reaped;
                self = self\<lparr>cs_reaped_containers :=
                  (cs_reaped_containers self)(uri := (if reaped = [] then None else Some reaped))\<rparr>
            in case cs_function_containers self cid of
                 None \<Rightarrow> (None, self)
               | Some fc \<Rightarrow>
                   (case cs_executor_states self (csm_executor_id fc) of
                      None \<Rightarrow> (None, self)
                    | Some state \<Rightarrow> restore_container now cid fc state self))"

section \<open>Creating containers\<close>

text \<open>\<open>ContainerBuilder::default()\<close> with the required fields and the defaults of the others.\<close>

definition container_builder ::
  "container_id \<Rightarrow> string \<Rightarrow> string \<Rightarrow> string \<Rightarrow> string \<Rightarrow> container_resources \<Rightarrow> u32 \<Rightarrow> container_type \<Rightarrow> container" where
  "container_builder cid namespace application function version resources max_concurrency ctype =
     \<lparr>ct_id = cid, ct_namespace = namespace, ct_application_name = application,
      ct_function_name = function, ct_version = version, ct_state = CS_Pending,
      ct_resources = resources, ct_max_concurrency = max_concurrency, ct_container_type = ctype,
      ct_image = None, ct_secret_names = [], ct_timeout_secs = 0, ct_entrypoint = [],
      ct_network_policy = None, ct_sandbox_id = None, ct_pool_id = None, ct_snapshot_uri = None,
      ct_created_at_clock = None, ct_updated_at_clock = None\<rparr>"

definition function_container_resources :: "function_resources \<Rightarrow> container_resources" where
  "function_container_resources r =
     \<lparr>cres_cpu_ms_per_sec = fres_cpu_ms_per_sec r, cres_memory_mb = fres_memory_mb r,
      cres_ephemeral_disk_mb = fres_ephemeral_disk_mb r,
      cres_gpu = (case fres_gpu_configs r of [] \<Rightarrow> None | g # _ \<Rightarrow> Some g)\<rparr>"

definition function_container ::
  "container_id \<Rightarrow> string \<Rightarrow> string \<Rightarrow> string \<Rightarrow> app_function \<Rightarrow> container" where
  "function_container cid namespace application version function =
     (container_builder cid namespace application (fn_name function) version
        (function_container_resources (fn_resources function)) (fn_max_concurrency function) FunctionContainer)
     \<lparr>ct_secret_names := unwrap_or (fn_secret_names function) [],
      ct_timeout_secs := ucast (fn_timeout function) div 1000,
      ct_pool_id := Some (pool_id_for_function application (fn_name function) version)\<rparr>"

definition create_container_for_function ::
  "choices \<Rightarrow> string \<Rightarrow> string \<Rightarrow> string \<Rightarrow> app_function \<Rightarrow> application_state \<Rightarrow> feasibility_cache \<Rightarrow>
   container_scheduler \<Rightarrow>
   (scheduler_error + scheduler_update_request option) \<times> feasibility_cache \<times> container_scheduler" where
  "create_container_for_function ch namespace application version function application_state cache self =
     (case application_state of
        AppDisabled reason \<Rightarrow> (Err (ConstraintUnsatisfiable reason version (fn_name function)), cache, self)
      | AppActive \<Rightarrow>
          (let uri = \<lparr>uri_namespace = namespace, uri_application = application,
                      uri_function = fn_name function, uri_version = version\<rparr>
           in case restore_reaped_container (ch_now ch) uri self of
                (Some restore_update, self) \<Rightarrow> (Ok (Some restore_update), cache, self)
              | (None, self) \<Rightarrow>
                  create_container ch namespace application (Some function) (fn_resources function)
                    (function_container (ch_container_id ch) namespace application version function)
                    FunctionContainer cache self))"

definition request_resources :: "container_resources \<Rightarrow> function_resources" where
  "request_resources r =
     \<lparr>fres_cpu_ms_per_sec = cres_cpu_ms_per_sec r, fres_memory_mb = cres_memory_mb r,
      fres_ephemeral_disk_mb = cres_ephemeral_disk_mb r,
      fres_gpu_configs = (case cres_gpu r of Some g \<Rightarrow> [g] | None \<Rightarrow> [])\<rparr>"

definition sandbox_container :: "sandbox \<Rightarrow> string option \<Rightarrow> container" where
  "sandbox_container sandbox snapshot_uri =
     (container_builder (sbx_id sandbox) (sbx_namespace sandbox) [] (sbx_id sandbox) []
        (sbx_resources sandbox) 1 SandboxContainer)
     \<lparr>ct_image := Some (sbx_image sandbox),
      ct_secret_names := sbx_secret_names sandbox,
      ct_timeout_secs := sbx_timeout_secs sandbox,
      ct_entrypoint := unwrap_or (sbx_entrypoint sandbox) [],
      ct_network_policy := sbx_network_policy sandbox,
      ct_sandbox_id := Some (sbx_id sandbox),
      ct_pool_id := sbx_pool_id sandbox,
      ct_snapshot_uri := snapshot_uri\<rparr>"

definition create_container_for_sandbox ::
  "choices \<Rightarrow> sandbox \<Rightarrow> string option \<Rightarrow> feasibility_cache \<Rightarrow> container_scheduler \<Rightarrow>
   (scheduler_error + scheduler_update_request option) \<times> feasibility_cache \<times> container_scheduler" where
  "create_container_for_sandbox ch sandbox snapshot_uri cache self =
     create_container ch (sbx_namespace sandbox) [] None (request_resources (sbx_resources sandbox))
       (sandbox_container sandbox snapshot_uri) SandboxContainer cache self"

definition pool_container :: "container_id \<Rightarrow> container_pool \<Rightarrow> container" where
  "pool_container cid pool =
     (container_builder cid (pool_namespace pool) [] (''pool:'' @ pool_id pool) []
        (pool_resources pool) 1 SandboxContainer)
     \<lparr>ct_image := Some (pool_image pool),
      ct_secret_names := pool_secret_names pool,
      ct_timeout_secs := pool_timeout_secs pool,
      ct_entrypoint := unwrap_or (pool_entrypoint pool) [],
      ct_network_policy := pool_network_policy pool,
      ct_pool_id := Some (pool_id pool)\<rparr>"

definition create_container_for_pool ::
  "choices \<Rightarrow> container_pool \<Rightarrow> feasibility_cache \<Rightarrow> container_scheduler \<Rightarrow>
   (scheduler_error + scheduler_update_request option) \<times> feasibility_cache \<times> container_scheduler" where
  "create_container_for_pool ch pool cache self =
     create_container ch (pool_namespace pool) [] None (request_resources (pool_resources pool))
       (pool_container (ch_container_id ch) pool) SandboxContainer cache self"

section \<open>Reaping idle containers\<close>

text \<open>The smallest size the reaper leaves a pool at.\<close>

definition pool_floor :: "container_scheduler \<Rightarrow> container_pool_key \<Rightarrow> u32" where
  "pool_floor self key =
     (case get_pool self key of
        Some p \<Rightarrow> max (unwrap_or (pool_min_containers p) 0) (unwrap_or (pool_buffer_containers p) 0)
      | None \<Rightarrow> 0)"

text \<open>The conditions under which the loop body goes on to reap the container.\<close>

definition reapable :: "container_scheduler \<Rightarrow> container_server_metadata \<Rightarrow> bool" where
  "reapable self fc =
     (if desired_terminated fc then False
      else if \<not> fe_can_be_removed fc then False
      else case csm_pool_key fc of
             Some key \<Rightarrow> \<not> pool_container_count self key \<le> pool_floor self key
           | None \<Rightarrow> True)"

text \<open>The optimistic release of the container's resources on its executor.\<close>

definition release_on_executor ::
  "executor_id \<Rightarrow> container \<Rightarrow> container_scheduler \<Rightarrow> container_scheduler" where
  "release_on_executor eid container self =
     (case cs_executor_states self eid of
        None \<Rightarrow> self
      | Some state \<Rightarrow>
          (let self = remove_resource_index eid (esm_free_resources state) self;
               (_, state) = remove_container state container;
               self = self\<lparr>cs_executor_states := (cs_executor_states self)(eid \<mapsto> state)\<rparr>
           in insert_resource_index eid (esm_free_resources state) self))"

text \<open>\<open>self.reaped_containers.entry(fn_uri).or_default().push(container_id)\<close>\<close>

definition push_reaped :: "function_uri \<Rightarrow> container_id \<Rightarrow> container_scheduler \<Rightarrow> container_scheduler" where
  "push_reaped uri cid self =
     self\<lparr>cs_reaped_containers := (cs_reaped_containers self)
       (uri \<mapsto> unwrap_or (cs_reaped_containers self uri) [] @ [cid])\<rparr>"

definition reap_container ::
  "container_id \<Rightarrow> container_server_metadata \<Rightarrow> scheduler_update_request \<Rightarrow> container_scheduler \<Rightarrow>
   scheduler_update_request \<times> container_scheduler" where
  "reap_container cid fc update self =
     (let (term_update, self) = terminate_container cid self;
          update = (case term_update of Some u \<Rightarrow> extend_update update u | None \<Rightarrow> update);
          self = release_on_executor (csm_executor_id fc) (csm_function_container fc) self;
          self = push_reaped (csm_uri fc) cid self
      in (update, self))"

text \<open>
  The loop over the snapshot of the ordered idle set.  \<open>duration_since\<close> saturates at zero, as
  subtraction of natural numbers does.
\<close>

fun reap_loop ::
  "instant \<Rightarrow> nat \<Rightarrow> (instant \<times> container_id) list \<Rightarrow>
   scheduler_update_request \<times> executor_id set \<times> container_scheduler \<Rightarrow>
   scheduler_update_request \<times> executor_id set \<times> container_scheduler" where
  "reap_loop now min_idle_age [] st = st"
| "reap_loop now min_idle_age ((idle_since, cid) # snapshot) (update, affected, self) =
     (if now - idle_since < min_idle_age then (update, affected, self)
      else case cs_function_containers self cid of
             None \<Rightarrow> reap_loop now min_idle_age snapshot (update, affected, self)
           | Some fc \<Rightarrow>
               if \<not> reapable self fc then reap_loop now min_idle_age snapshot (update, affected, self)
               else
                 let (update, self) = reap_container cid fc update self
                 in reap_loop now min_idle_age snapshot
                      (update, insert (csm_executor_id fc) affected, self))"

definition reap_idle_containers ::
  "instant \<Rightarrow> nat \<Rightarrow> container_scheduler \<Rightarrow> scheduler_update_request \<times> container_scheduler" where
  "reap_idle_containers now min_idle_age self =
     (let self = self\<lparr>cs_reaped_containers := Map.empty\<rparr>;
          (update, affected, self) =
            reap_loop now min_idle_age (sorted_list_of_set (cs_idle_containers self)) (default_update, {}, self)
      in (update\<lparr>su_updated_executor_states :=
            su_updated_executor_states update ++ cs_executor_states self |` affected\<rparr>, self))"

section \<open>Executors and their ledgers\<close>

text \<open>Every executor's ledger balances against some host.\<close>

definition ledgers_ok :: "container_scheduler \<Rightarrow> bool" where
  "ledgers_ok s \<longleftrightarrow> (\<forall>eid st. cs_executor_states s eid = Some st \<longrightarrow> (\<exists>host. ledger_ok host st))"

text \<open>Taking an entry out of the memory index, changing the executor and putting it back in.\<close>

lemma reindex_executor:
  assumes "cs_executor_states s eid = Some st"
  shows "insert_resource_index eid (esm_free_resources st')
     ((remove_resource_index eid (esm_free_resources st) s)\<lparr>cs_executor_states := (cs_executor_states s)(eid \<mapsto> st')\<rparr>) =
     set_executor_state eid st' s"
  using assms
  by (simp add: set_executor_state_def insert_resource_index_def remove_resource_index_def Let_def)

lemma cs_executor_states_index_ops [simp]:
  "cs_executor_states (remove_resource_index eid r s) = cs_executor_states s"
  "cs_executor_states (insert_resource_index eid r s) = cs_executor_states s"
  by (simp_all add: remove_resource_index_def insert_resource_index_def)

lemma set_executor_state_fields [simp]:
  "cs_executor_states (set_executor_state eid st s) = (cs_executor_states s)(eid \<mapsto> st)"
  "cs_reaped_containers (set_executor_state eid st s) = cs_reaped_containers s"
  "cs_executors (set_executor_state eid st s) = cs_executors s"
  "cs_function_pools (set_executor_state eid st s) = cs_function_pools s"
  "cs_sandbox_pools (set_executor_state eid st s) = cs_sandbox_pools s"
  "container_view (set_executor_state eid st s) = container_view s"
  by (simp_all add: set_executor_state_def insert_resource_index_def container_view_def Let_def split: option.split)

lemma register_container_eq:
  "register_container now eid container ctype s =
     (case cs_executor_states s eid of
        None \<Rightarrow> (Err (ExecutorStateNotFound eid), s)
      | Some st \<Rightarrow>
          (case add_container st container of
             (Inl e, st') \<Rightarrow>
               (Err (ResourceFailure e),
                (remove_resource_index eid (esm_free_resources st) s)
                  \<lparr>cs_executor_states := (cs_executor_states s)(eid \<mapsto> st')\<rparr>)
           | (Inr _, st') \<Rightarrow>
               (Ok (default_update\<lparr>su_updated_executor_states := [eid \<mapsto> st'],
                  su_containers := [ct_id container \<mapsto>
                    \<lparr>csm_executor_id = eid, csm_function_container = container,
                     csm_desired_state = CS_Running, csm_container_type = ctype,
                     csm_allocations = {}, csm_idle_since = Some now\<rparr>]\<rparr>),
                set_executor_state eid st' s)))"
  by (auto simp: register_container_def Let_def reindex_executor split: option.split prod.split sum.split)

lemma release_on_executor_eq:
  "release_on_executor eid container s =
     (case cs_executor_states s eid of
        None \<Rightarrow> s
      | Some st \<Rightarrow> set_executor_state eid (snd (remove_container st container)) s)"
  by (auto simp: release_on_executor_def Let_def reindex_executor split: option.split prod.split)

lemma ledgers_ok_set_executor_state:
  "ledgers_ok s \<Longrightarrow> ledger_ok host st \<Longrightarrow> ledgers_ok (set_executor_state eid st s)"
  by (auto simp: ledgers_ok_def)

lemma ledgers_ok_release:
  assumes "ledgers_ok s"
  shows "ledgers_ok (release_on_executor eid container s)"
proof (cases "cs_executor_states s eid")
  case (Some st)
  with assms obtain host where "ledger_ok host st" by (auto simp: ledgers_ok_def)
  then obtain st' where "remove_container st container = (Ok (), st')" "ledger_ok host st'"
    using ledger_ok_remove by blast
  with Some assms show ?thesis
    by (simp add: release_on_executor_eq ledgers_ok_set_executor_state)
qed (use assms in \<open>simp add: release_on_executor_eq\<close>)

end
