(* ===== verification/Retry.thy ===== *)
theory Retry
  imports DataModel
begin

text \<open>
  \<open>FunctionRunRetryPolicy\<close> of \<open>crates/server/src/processor/retry_policy.rs\<close>: what the outcome of an
  allocation does to the function run it executed.
\<close>

definition handle_allocation_failure ::
  "function_run \<Rightarrow> function_run_failure_reason \<Rightarrow> application_version \<Rightarrow> function_run" where
  "handle_allocation_failure run alloc_failure_reason application_version =
     (let uses_attempt = should_count_against_function_run_retry_attempts alloc_failure_reason;
          completed = run\<lparr>run_status := Completed,
                          run_outcome := Some (FunctionRunFailure alloc_failure_reason)\<rparr>
      in case function_run_max_retries application_version run of
           Some max_retries \<Rightarrow>
             if is_retriable alloc_failure_reason \<and>
                (run_attempt_number run < max_retries \<or> \<not> uses_attempt)
             then let run = run\<lparr>run_status := Pending\<rparr>
                  in if uses_attempt
                     then run\<lparr>run_attempt_number := run_attempt_number run + 1\<rparr>
                     else run
             else completed
         | None \<Rightarrow> completed)"

definition handle_allocation_outcome ::
  "function_run \<Rightarrow> allocation \<Rightarrow> application_version \<Rightarrow> function_run" where
  "handle_allocation_outcome run allocation application_version =
     (case al_outcome allocation of
        FunctionRunSuccess \<Rightarrow>
          run\<lparr>run_status := Completed, run_outcome := Some (al_outcome allocation)\<rparr>
      | FunctionRunFailure failure_reason \<Rightarrow>
          handle_allocation_failure run failure_reason application_version
      | FunctionRunUnknown \<Rightarrow> run)"

section \<open>A run that fails again and again\<close>

text \<open>The run is scheduled again for as long as the policy leaves it pending.\<close>

fun drive_failures ::
  "application_version \<Rightarrow> function_run_failure_reason list \<Rightarrow> function_run \<Rightarrow> function_run" where
  "drive_failures ver [] run = run"
| "drive_failures ver (r # rs) run =
     (let run' = handle_allocation_failure run r ver
      in if run_status run' = Pending then drive_failures ver rs run' else run')"

definition counted :: "function_run_failure_reason list \<Rightarrow> function_run_failure_reason list" where
  "counted rs = filter should_count_against_function_run_retry_attempts rs"

lemma counted_simps [simp]:
  "counted [] = []"
  "counted (r # rs) =
     (if should_count_against_function_run_retry_attempts r then r # counted rs else counted rs)"
  by (simp_all add: counted_def)

lemma function_run_max_retries_cong:
  "run_name run' = run_name run \<Longrightarrow>
   function_run_max_retries ver run' = function_run_max_retries ver run"
  by (simp add: function_run_max_retries_def)

lemma handle_allocation_failure_free:
  assumes "function_run_max_retries ver run = Some m" "is_retriable r"
    and "\<not> should_count_against_function_run_retry_attempts r"
  shows "handle_allocation_failure run r ver = run\<lparr>run_status := Pending\<rparr>"
  using assms by (simp add: handle_allocation_failure_def)

lemma handle_allocation_failure_counted:
  assumes "function_run_max_retries ver run = Some m"
    and "should_count_against_function_run_retry_attempts r"
  shows "handle_allocation_failure run r ver =
     (if run_attempt_number run < m
      then run\<lparr>run_status := Pending, run_attempt_number := run_attempt_number run + 1\<rparr>
      else run\<lparr>run_status := Completed, run_outcome := Some (FunctionRunFailure r)\<rparr>)"
  using assms counted_retriable [OF assms(2)] by (simp add: handle_allocation_failure_def)

lemma handle_allocation_failure_final:
  assumes "function_run_max_retries ver run = None \<or> \<not> is_retriable r"
  shows "handle_allocation_failure run r ver =
     run\<lparr>run_status := Completed, run_outcome := Some (FunctionRunFailure r)\<rparr>"
  using assms by (auto simp: handle_allocation_failure_def Let_def split: option.splits)

lemma unat_Suc_below:
  fixes a m :: u32
  assumes "a < m"
  shows "unat (a + 1) = Suc (unat a)"
  using assms unat_add_le [of a 1 m] by (simp add: word_less_nat_alt)

section \<open>Properties\<close>

text \<open>
  C4: the retry budget.  A run of a function with \<open>max_retries = m\<close> whose allocations keep failing
  with retriable failures stays pending, with its outcome untouched, for as long as at most \<open>m\<close> of
  the failures count (together with the attempts already used), and every one of them is recorded
  in its attempt number.  The first counted failure beyond the budget completes the run with that
  failure, and the attempt number never exceeds \<open>m\<close>.
\<close>

theorem retry_budget:
  assumes "function_run_max_retries ver run = Some m" "run_attempt_number run \<le> m"
    and "run_status run = Pending" "list_all is_retriable rs"
  shows "let run' = drive_failures ver rs run; used = unat (run_attempt_number run) in
         if used + length (counted rs) \<le> unat m
         then run_status run' = Pending \<and> run_outcome run' = run_outcome run \<and>
              unat (run_attempt_number run') = used + length (counted rs)
         else run_status run' = Completed \<and> run_attempt_number run' = m \<and>
              run_outcome run' = Some (FunctionRunFailure (counted rs ! (unat m - used)))"
  using assms
proof (induction rs arbitrary: run)
  case Nil
  then show ?case by (simp add: word_le_nat_alt)
next
  case (Cons r rs)
  show ?case
  proof (cases "should_count_against_function_run_retry_attempts r")
    case False
    let ?run = "run\<lparr>run_status := Pending\<rparr>"
    have "handle_allocation_failure run r ver = ?run"
      using Cons.prems False by (intro handle_allocation_failure_free) simp_all
    moreover have "function_run_max_retries ver ?run = Some m"
      using Cons.prems function_run_max_retries_cong [of ?run run] by simp
    ultimately show ?thesis using Cons.IH [of ?run] Cons.prems False by (simp add: Let_def)
  next
    case True
    note step = handle_allocation_failure_counted [OF Cons.prems(1) True]
    show ?thesis
    proof (cases "run_attempt_number run < m")
      case below: True
      let ?run = "run\<lparr>run_status := Pending, run_attempt_number := run_attempt_number run + 1\<rparr>"
      have "function_run_max_retries ver ?run = Some m"
        using Cons.prems function_run_max_retries_cong [of ?run run] by simp
      moreover have "unat (run_attempt_number run) < unat m"
        using below by (simp add: word_less_nat_alt)
      ultimately show ?thesis
        using Cons.IH [of ?run] Cons.prems step below True
        by (simp add: Let_def word_le_nat_alt unat_Suc_below [OF below] nth_Cons' split: if_splits)
    next
      case False
      with Cons.prems have "run_attempt_number run = m" by simp
      with step True show ?thesis by (simp add: Let_def)
    qed
  qed
qed

definition example_retry_function :: app_function where
  "example_retry_function =
     \<lparr>fn_name = ''f'', fn_description = [], fn_placement_constraints = [],
      fn_input_encoder = ''cloudpickle'', fn_output_encoder = ''cloudpickle'',
      fn_secret_names = None, fn_initialization_timeout = default_node_timeout_ms,
      fn_timeout = default_node_timeout_ms, fn_resources = default_function_resources,
      fn_retry_policy = default_function_retry_policy\<lparr>retry_max_retries := 1\<rparr>,
      fn_cache_key = None, fn_parameters = [], fn_return_type = None, fn_max_concurrency = 1,
      fn_min_containers = None, fn_max_containers = None, fn_warm_containers = None\<rparr>"

definition example_version :: application_version where
  "example_version =
     \<lparr>ver_namespace = ''ns'', ver_name = ''app'', ver_created_at = 0, ver_version = ''1'',
      ver_code = None, ver_entrypoint = None,
      ver_functions = [''f'' \<mapsto> example_retry_function], ver_edges = Map.empty,
      ver_state = AppActive, ver_created_at_clock = None, ver_updated_at_clock = None\<rparr>"

definition example_run :: function_run where
  "example_run =
     create_function_run example_version 0
       (create_function_call example_retry_function ''call'' [] [] None) [] ''r1''"

lemmas example_run_defs =
  example_run_def example_version_def example_retry_function_def create_function_run_def
  create_function_call_def function_run_max_retries_def

theorem retry_budget_witness:
  "run_outcome (drive_failures example_version
       [FR_FunctionError, FR_ExecutorRemoved, FR_OutOfMemory] example_run) =
     Some (FunctionRunFailure FR_OutOfMemory) \<and>
   run_status (drive_failures example_version [FR_FunctionError, FR_ExecutorRemoved] example_run) =
     Pending"
proof -
  have "function_run_max_retries example_version example_run = Some 1"
    "run_attempt_number example_run \<le> 1" "run_status example_run = Pending"
    "run_attempt_number example_run = 0"
    by (simp_all add: example_run_defs)
  then show ?thesis
    using retry_budget [of example_version example_run 1 "[FR_FunctionError, FR_ExecutorRemoved, FR_OutOfMemory]"]
      retry_budget [of example_version example_run 1 "[FR_FunctionError, FR_ExecutorRemoved]"]
    by (simp add: Let_def is_retriable_def should_count_against_function_run_retry_attempts_def)
qed

text \<open>
  One allocation outcome.  A success completes the run; a failure that is not retriable, or a
  function that is no longer part of the application version, completes it with that failure at
  once, without using an attempt; an unknown outcome leaves it as it is.  Nothing but status,
  outcome and attempt number is ever touched.
\<close>

theorem allocation_outcome_cases:
  "let run' = handle_allocation_outcome run allocation ver in
     run' = run\<lparr>run_status := run_status run', run_outcome := run_outcome run',
                run_attempt_number := run_attempt_number run'\<rparr> \<and>
     (case al_outcome allocation of
        FunctionRunUnknown \<Rightarrow> run' = run
      | FunctionRunSuccess \<Rightarrow>
          run_status run' = Completed \<and> run_outcome run' = Some FunctionRunSuccess \<and>
          run_attempt_number run' = run_attempt_number run
      | FunctionRunFailure r \<Rightarrow>
          if function_run_max_retries ver run \<noteq> None \<and> is_retriable r
          then (run_status run' = Pending \<and> run_outcome run' = run_outcome run) \<noteq>
               (run_status run' = Completed \<and> run_outcome run' = Some (FunctionRunFailure r))
          else run_status run' = Completed \<and> run_outcome run' = Some (FunctionRunFailure r) \<and>
               run_attempt_number run' = run_attempt_number run)"
proof (cases "al_outcome allocation")
  case (FunctionRunFailure r)
  have "handle_allocation_outcome run allocation ver = handle_allocation_failure run r ver"
    using FunctionRunFailure by (simp add: handle_allocation_outcome_def)
  then show ?thesis
    using FunctionRunFailure
    by (simp add: Let_def handle_allocation_failure_def split: option.split)
qed (simp_all add: Let_def handle_allocation_outcome_def)

end
