(* ===== verification/Creation.thy ===== *)
theory Creation
  imports ContainerLifecycle Retry
begin

text \<open>
  What creating a container does: where it is placed, what it takes from the executor, and when it
  can fail.
\<close>

section \<open>Registration\<close>

definition random_range_ok :: "choices \<Rightarrow> bool" where
  "random_range_ok ch \<longleftrightarrow>
     (\<forall>lo hi. lo \<le> hi \<longrightarrow> lo \<le> ch_random_range ch lo hi \<and> ch_random_range ch lo hi \<le> hi)"

text \<open>The preconditions of creating a container, as the code maintains them.\<close>

definition create_ready ::
  "choices \<Rightarrow> container_scheduler \<Rightarrow> feasibility_cache \<Rightarrow> string \<Rightarrow> string \<Rightarrow> app_function option \<Rightarrow> bool" where
  "create_ready ch s cache namespace application function \<longleftrightarrow>
     scheduler_ok s \<and> ledgers_ok s \<and> classes_live s \<and> finite (cs_executors_by_free_memory s) \<and>
     class_orders (ch_class_order ch) (ch_executor_order ch) s \<and> random_range_ok ch \<and>
     cache_sound cache (workload_of namespace application function) namespace application function"

text \<open>The container asks for what the placement checked: at most one GPU configuration.\<close>

definition resources_match :: "function_resources \<Rightarrow> container_resources \<Rightarrow> bool" where
  "resources_match fr cr \<longleftrightarrow> length (fres_gpu_configs fr) \<le> 1 \<and> cr = function_container_resources fr"

lemma request_resources_match: "resources_match (request_resources r) r"
  by (cases r) (simp add: resources_match_def request_resources_def function_container_resources_def
      split: option.split)

lemma can_handle_matching:
  assumes "resources_match fr cr"
  shows "is_ok (can_handle_function_resources h fr) \<longleftrightarrow> fits h cr"
proof (cases "fres_gpu_configs fr")
  case Nil
  with assms show ?thesis
    by (simp add: can_handle_function_resources_def can_handle_iff_fits resources_match_def
        function_container_resources_def fe_resources_no_gpu_def)
next
  case (Cons g gs)
  then have "gs = []" "cr = (fe_resources_no_gpu fr)\<lparr>cres_gpu := Some g\<rparr>"
    using assms by (simp_all add: resources_match_def function_container_resources_def fe_resources_no_gpu_def)
  with Cons show ?thesis
    by (simp only: can_handle_function_resources_def can_handle_gpu_configs_ok) simp
qed

lemma register_container_fits:
  assumes st: "cs_executor_states s eid = Some st" and fresh: "esm_resource_claims st (ct_id c) = None"
    and fit: "fits (esm_free_resources st) (ct_resources c)"
  shows "\<exists>st' update. add_container st c = (Ok (), st') \<and>
    register_container now eid c ctype s = (Ok update, set_executor_state eid st' s) \<and>
    su_containers update = [ct_id c \<mapsto> \<lparr>csm_executor_id = eid, csm_function_container = c,
       csm_desired_state = CS_Running, csm_container_type = ctype, csm_allocations = {},
       csm_idle_since = Some now\<rparr>] \<and>
    su_updated_executor_states update = [eid \<mapsto> st'] \<and>
    esm_free_resources st' = snd (consume_fe_resources (esm_free_resources st) (ct_resources c)) \<and>
    esm_resource_claims st' = (esm_resource_claims st)(ct_id c \<mapsto> ct_resources c)"
  using consume_fits [OF fit]
  by (simp add: register_container_eq st add_container_new [OF fresh])

lemma placement_ready_create:
  assumes "create_ready ch s cache namespace application function"
  shows "placement_ready (ch_class_order ch) (ch_executor_order ch)
    (ch_random_range ch (mb_to_bytes (fres_memory_mb resources)) (max_free_memory s)) s cache
    (workload_of namespace application function) namespace application function resources 2"
  using assms
  by (auto simp: create_ready_def scheduler_ok_def placement_ready_def in_memory_range_def random_range_ok_def)

section \<open>Properties\<close>

text \<open>
  C5: creating a container neither fails nor overcommits.  For a request with at most one GPU
  configuration and a container id no executor has seen, \<open>create_container\<close> returns no error; it
  returns no update exactly when no executor in the memory index could take the workload, given that
  the cache of infeasible classes is sound, and then leaves the executors as they were; otherwise it puts the container on an executor that satisfies the
  workload's constraints and takes exactly its resources from that executor's free ones, and from
  no other.
\<close>

theorem create_container_correct:
  assumes ready: "create_ready ch s cache namespace application function"
    and match: "resources_match resources (ct_resources c)"
    and fresh: "\<forall>eid st. cs_executor_states s eid = Some st \<longrightarrow> esm_resource_claims st (ct_id c) = None"
  shows "case create_container ch namespace application function resources c ctype cache s of
      (Inl e, cache', s') \<Rightarrow> False
    | (Inr None, cache', s') \<Rightarrow>
        executor_view s' = executor_view s \<and>
        \<not> (\<exists>m e. (m, e) \<in> cs_executors_by_free_memory s \<and> placeable s namespace application function resources e)
    | (Inr (Some update), cache', s') \<Rightarrow>
        scheduler_ok s' \<and> ledgers_ok s' \<and>
        (\<exists>eid st st'. placeable s namespace application function resources eid \<and>
           cs_executor_states s eid = Some st \<and> cs_executor_states s' = (cs_executor_states s)(eid \<mapsto> st') \<and>
           consume_fe_resources (esm_free_resources st) (ct_resources c) = (Ok (), esm_free_resources st') \<and>
           esm_resource_claims st' = (esm_resource_claims st)(ct_id c \<mapsto> ct_resources c) \<and>
           map_option csm_executor_id (su_containers update (ct_id c)) = Some eid)"
proof -
  let ?random = "ch_random_range ch (mb_to_bytes (fres_memory_mb resources)) (max_free_memory s)"
  let ?key = "workload_of namespace application function"
  obtain result cache' where sel: "select_executor (ch_class_order ch) (ch_executor_order ch) ?random s cache
      ?key namespace application function resources 2 = (result, cache')" by fastforce
  note outcome = select_executor_outcome [OF placement_ready_create [OF ready], of resources, unfolded sel]
  let ?s1 = "s\<lparr>cs_last_placement := Some result\<rparr>"
  have view: "executor_view ?s1 = executor_view s" "container_view ?s1 = container_view s"
    by (simp_all add: executor_view_def container_view_def)
  have mem: "mb_to_bytes (fres_memory_mb resources) = fres_memory_mb resources * 1024 * 1024"
    by (simp add: mb_to_bytes_def)
  show ?thesis
  proof (cases "pr_executor_id result")
    case None
    then show ?thesis
      using outcome view sel by (simp add: create_container_def mem)
  next
    case (Some eid)
    then have place: "placeable s namespace application function resources eid" using outcome by simp
    then obtain st where st: "cs_executor_states s eid = Some st" "fits (esm_free_resources st) (ct_resources c)"
      using can_handle_matching [OF match] by (auto simp: placeable_def)
    have st1: "cs_executor_states ?s1 eid = Some st" using st(1) by simp
    obtain st' update where reg: "add_container st c = (Ok (), st')"
      "register_container (ch_now ch) eid c ctype ?s1 = (Ok update, set_executor_state eid st' ?s1)"
      "map_option csm_executor_id (su_containers update (ct_id c)) = Some eid"
      "esm_free_resources st' = snd (consume_fe_resources (esm_free_resources st) (ct_resources c))"
      "esm_resource_claims st' = (esm_resource_claims st)(ct_id c \<mapsto> ct_resources c)"
      using register_container_fits [OF st1 fresh [rule_format, OF st(1)] st(2), of "ch_now ch" ctype] by auto
    have "scheduler_ok ?s1" "ledgers_ok ?s1"
      using ready executors_ok_view [OF view(1)] containers_ok_view [OF view(2)]
      by (simp_all add: create_ready_def scheduler_ok_def ledgers_ok_def)
    moreover obtain host where "ledger_ok host st" using ready st(1) by (auto simp: create_ready_def ledgers_ok_def)
    moreover from this have "ledger_ok host st'" using reg(1) by (rule ledger_ok_add)
    ultimately have ok: "scheduler_ok (set_executor_state eid st' ?s1)" "ledgers_ok (set_executor_state eid st' ?s1)"
      using containers_ok_view [OF container_view_executor_ops(1)]
      by (simp_all add: scheduler_ok_def memory_ok_set_executor_state ledgers_ok_set_executor_state)
    have create: "create_container ch namespace application function resources c ctype cache s =
        (Ok (Some update), cache', set_executor_state eid st' ?s1)"
      using sel Some st1 reg(2) by (simp add: create_container_def mem)
    have "consume_fe_resources (esm_free_resources st) (ct_resources c) = (Ok (), esm_free_resources st')"
      unfolding reg(4) consume_fits [OF st(2)] by simp
    with place st(1) reg(3,5) have "\<exists>eid st st'. placeable s namespace application function resources eid \<and>
       cs_executor_states s eid = Some st \<and>
       cs_executor_states (set_executor_state eid' st0 ?s1) = (cs_executor_states s)(eid \<mapsto> st') \<and>
       consume_fe_resources (esm_free_resources st) (ct_resources c) = (Ok (), esm_free_resources st') \<and>
       esm_resource_claims st' = (esm_resource_claims st)(ct_id c \<mapsto> ct_resources c) \<and>
       map_option csm_executor_id (su_containers update (ct_id c)) = Some eid"
      if "eid' = eid" "st0 = st'" for eid' st0
      using that by (intro exI [of _ eid] exI [of _ st] exI [of _ st']) simp
    with ok show ?thesis unfolding create by simp
  qed
qed

text \<open>
  C32: a failed registration hides the executor.  The placement accepts an executor that has any of the
  GPU configurations of the request, the container asks for the first one.  When the chosen executor
  does not have that one, \<open>create_container\<close> returns an error and the executor is no longer in the
  memory index, so no later placement considers it, although its free resources are unchanged.
\<close>

theorem failed_registration_hides_executor:
  assumes "memory_ok s" "cs_executor_states s eid = Some st"
    and fresh: "esm_resource_claims st (ct_id c) = None"
    and "\<not> fits (esm_free_resources st) (ct_resources c)"
    and "select_executor (ch_class_order ch) (ch_executor_order ch)
       (ch_random_range ch (mb_to_bytes (fres_memory_mb resources)) (max_free_memory s)) s cache
       (workload_of namespace application function) namespace application function resources 2 =
       (\<lparr>pr_executor_id = Some eid, pr_eligible_classes = eligible\<rparr>, cache')"
  shows "case create_container ch namespace application function resources c ctype cache s of
      (Inl e, cache', s') \<Rightarrow>
        (\<forall>m. (m, eid) \<notin> cs_executors_by_free_memory s') \<and>
        map_option esm_free_resources (cs_executor_states s' eid) = Some (esm_free_resources st)
    | (Inr update, cache', s') \<Rightarrow> False"
proof -
  obtain e where e: "add_container st c = (Err e, st\<lparr>esm_function_container_ids := insert (ct_id c) (esm_function_container_ids st),
        esm_resource_claims := (esm_resource_claims st)(ct_id c \<mapsto> ct_resources c)\<rparr>)"
    using consume_not_fits [OF assms(4)] by (auto simp: add_container_new [OF fresh])
  have "m = host_memory_bytes (esm_free_resources st)" if "(m, eid) \<in> cs_executors_by_free_memory s" for m
    using memory_okD [OF assms(1) that] assms(2) by auto
  with e assms(2,5) show ?thesis
    by (auto simp: create_container_def register_container_eq mb_to_bytes_def mult.assoc remove_resource_index_def)
qed

section \<open>Examples\<close>

definition example_choices :: choices where
  "example_choices =
     \<lparr>ch_class_order = example_classes, ch_executor_order = sorted_list_of_set,
      ch_random_range = (\<lambda>lo hi. lo), ch_now = 7, ch_container_id = ''c1''\<rparr>"

lemma example_state_ledger: "\<exists>host. ledger_ok host (example_state e cpu memory)"
  using ledger_ok_new [of "esm_free_resources (example_state e cpu memory)" e]
  by (auto simp: example_state_def new_ledger_def)

lemma example_create_ready:
  assumes "0 < cpu"
  shows "create_ready example_choices (example_placement cpu) Map.empty namespace application function"
proof -
  have "container_view (example_placement cpu) = container_view (cs_new [] [])"
    by (simp add: example_placement_def)
  then have "containers_ok (example_placement cpu)"
    using containers_ok_view containers_ok_new by blast
  moreover have "ledgers_ok (example_placement cpu)"
    using assms example_state_ledger by (auto simp: ledgers_ok_def example_placement_fields split: if_splits)
  ultimately show ?thesis
    using example_placement_ready [OF assms, of "workload_of namespace application function"
        namespace application "function"] cache_sound_empty
    by (simp add: create_ready_def placement_ready_def scheduler_ok_def example_choices_def random_range_ok_def)
qed

theorem create_container_correct_witness:
  "\<exists>update cache' s'.
     create_container example_choices ''ns'' [] None (request_resources (ct_resources (example_container ''c1'' 2048)))
       (example_container ''c1'' 2048) SandboxContainer Map.empty (example_placement 2000) =
       (Ok (Some update), cache', s') \<and>
     map_option (\<lambda>st. host_memory_bytes (esm_free_resources st)) (cs_executor_states s' ''e1'') = Some 2147483648"
proof -
  let ?c = "example_container ''c1'' 2048"
  let ?r = "request_resources (ct_resources ?c)"
  have fresh: "\<forall>eid st. cs_executor_states (example_placement 2000) eid = Some st \<longrightarrow>
      esm_resource_claims st (ct_id ?c) = None"
    by (auto simp: example_placement_fields example_state_def split: if_splits)
  have "0 < (2000 :: u32)" by simp
  note correct = create_container_correct [OF example_create_ready [OF this, of "''ns''" "[]" None]
      request_resources_match fresh, where ctype = SandboxContainer]
  have r: "?r = example_request"
    by (simp add: request_resources_def example_container_def example_request_def)
  have e1: "placeable (example_placement 2000) ''ns'' [] None ?r e \<longleftrightarrow> e = ''e1''" for e
    unfolding r by (simp add: example_placeable)
  have idx: "(4294967296, ''e1'') \<in> cs_executors_by_free_memory (example_placement 2000)"
    by (simp add: example_placement_fields)
  have consumed: "host_memory_bytes (snd (consume_fe_resources (esm_free_resources (example_state ''e1'' 2000 4294967296))
      (ct_resources ?c))) = 2147483648"
    by (subst consume_fits) (simp_all add: example_state_def example_container_def amount_defs mb_to_bytes_def)
  obtain res cache' s' where create: "create_container example_choices ''ns'' [] None ?r ?c SandboxContainer
      Map.empty (example_placement 2000) = (res, cache', s')" by (meson prod_cases3)
  obtain update st st' where "res = Inr (Some update)"
    "cs_executor_states (example_placement 2000) ''e1'' = Some st" "cs_executor_states s' ''e1'' = Some st'"
    "consume_fe_resources (esm_free_resources st) (ct_resources ?c) = (Ok (), esm_free_resources st')"
    using correct idx unfolding create e1 by (auto split: sum.splits option.splits)
  with create consumed show ?thesis by (auto simp: example_placement_fields)
qed

text \<open>An executor with a GPU of the second configuration of a function.\<close>

definition example_gpu :: "string \<Rightarrow> gpu_resources" where
  "example_gpu model = \<lparr>gpu_count = 1, gpu_model = model\<rparr>"

definition example_gpu_state :: executor_server_metadata where
  "example_gpu_state =
     new_ledger ''e1'' \<lparr>host_cpu_ms_per_sec = 4000, host_memory_bytes = 4294967296,
       host_disk_bytes = 4294967296, host_gpu = Some (example_gpu ''T4'')\<rparr>"

definition example_gpu_scheduler :: container_scheduler where
  "example_gpu_scheduler =
     set_executor_state ''e1'' example_gpu_state (upsert_executor (example_executor ''e1'' None) (cs_new [] []))"

definition example_gpu_request :: function_resources where
  "example_gpu_request = \<lparr>fres_cpu_ms_per_sec = 1000, fres_memory_mb = 2048, fres_ephemeral_disk_mb = 1024,
     fres_gpu_configs = [example_gpu ''A100'', example_gpu ''T4'']\<rparr>"

definition example_gpu_function :: app_function where
  "example_gpu_function = example_retry_function\<lparr>fn_resources := example_gpu_request\<rparr>"

definition example_gpu_container :: container where
  "example_gpu_container = function_container ''c1'' ''ns'' ''app'' ''1'' example_gpu_function"

definition example_gpu_choices :: choices where
  "example_gpu_choices = example_choices
     \<lparr>ch_class_order := (\<lambda>_. [class_from_executor (example_executor ''e1'' None)])\<rparr>"

lemma example_gpu_fields:
  "cs_executors_by_free_memory example_gpu_scheduler = {(4294967296, ''e1'')}"
  "cs_executor_states example_gpu_scheduler = [''e1'' \<mapsto> example_gpu_state]"
  "cs_executors example_gpu_scheduler = [''e1'' \<mapsto> example_executor ''e1'' None]"
  "cs_executors_by_class example_gpu_scheduler = [class_from_executor (example_executor ''e1'' None) \<mapsto> {''e1''}]"
  by (auto simp: example_gpu_scheduler_def example_gpu_state_def new_ledger_def set_executor_state_def
      upsert_executor_def insert_resource_index_def cs_new_def example_executor_def class_from_executor_def
      idx_insert_def Let_def)

lemma example_gpu_request_memory [simp]: "mb_to_bytes (fres_memory_mb example_gpu_request) = 2147483648"
  by (simp add: example_gpu_request_def mb_to_bytes_def)

lemma example_gpu_max: "max_free_memory example_gpu_scheduler = 4294967296"
  by (simp add: max_free_memory_def example_gpu_fields)

lemma example_gpu_ready:
  "placement_ready (ch_class_order example_gpu_choices) (ch_executor_order example_gpu_choices)
     (ch_random_range example_gpu_choices 2147483648 4294967296) example_gpu_scheduler Map.empty key
     namespace application function example_gpu_request 2"
proof -
  have "classes_ok (cs_new [] [])" "memory_ok (cs_new [] [])"
    by (simp_all add: classes_ok_def memory_ok_def cs_new_def)
  then have "classes_ok example_gpu_scheduler" "memory_ok example_gpu_scheduler"
    by (auto simp: example_gpu_scheduler_def intro!: classes_ok_upsert_executor memory_ok_set_executor_state)
  moreover have "classes_live example_gpu_scheduler"
    by (auto simp: classes_live_def example_gpu_fields example_executor_def split: if_splits)
  ultimately show ?thesis
    using cache_sound_empty
    by (auto simp: placement_ready_def example_gpu_fields in_memory_range_def example_gpu_max
        class_orders_def example_gpu_choices_def example_choices_def)
qed

lemma example_gpu_placeable:
  "placeable example_gpu_scheduler ''ns'' ''app'' (Some example_gpu_function) example_gpu_request e \<longleftrightarrow> e = ''e1''"
proof -
  have "executor_matches_constraints (example_executor ''e1'' None) ''ns'' ''app'' (Some example_gpu_function)"
    by (simp add: executor_matches_constraints_def example_executor_def is_function_allowed_def
        example_gpu_function_def example_retry_function_def labels_filter_matches_def)
  moreover have "is_ok (can_handle_function_resources (esm_free_resources example_gpu_state) example_gpu_request)"
    by (simp add: can_handle_function_resources_def can_handle_gpu_configs_ok example_gpu_request_def
        example_gpu_state_def new_ledger_def example_gpu_def amount_defs fe_resources_no_gpu_def mb_to_bytes_def
        del: can_handle_gpu_configs.simps)
  ultimately show ?thesis by (auto simp: placeable_def example_gpu_fields)
qed

theorem failed_registration_hides_executor_witness:
  "case create_container example_gpu_choices ''ns'' ''app'' (Some example_gpu_function) example_gpu_request
      example_gpu_container FunctionContainer Map.empty example_gpu_scheduler of
     (Inl e, cache', s') \<Rightarrow>
       (4294967296, ''e1'') \<in> cs_executors_by_free_memory example_gpu_scheduler \<and>
       (\<forall>m. (m, ''e1'') \<notin> cs_executors_by_free_memory s')
   | (Inr update, cache', s') \<Rightarrow> False"
proof -
  let ?f = "Some example_gpu_function"
  let ?sel = "select_executor (ch_class_order example_gpu_choices) (ch_executor_order example_gpu_choices)
    (ch_random_range example_gpu_choices 2147483648 4294967296) example_gpu_scheduler Map.empty
    (workload_of ''ns'' ''app'' ?f) ''ns'' ''app'' ?f example_gpu_request 2"
  have "pr_executor_id (fst ?sel) = Some ''e1''"
    using select_executor_outcome [OF example_gpu_ready, of "workload_of ''ns'' ''app'' ?f" "''ns''" "''app''" ?f]
      example_gpu_placeable example_gpu_fields(1)
    by (cases "pr_executor_id (fst ?sel)") auto
  then obtain eligible cache' where sel: "?sel = (\<lparr>pr_executor_id = Some ''e1'', pr_eligible_classes = eligible\<rparr>, cache')"
    by (cases ?sel) (metis fst_conv placement_result.cases placement_result.select_convs(1))
  have "memory_ok example_gpu_scheduler"
    using example_gpu_ready [of "SandboxWorkload []" "[]" "[]" None] by (simp add: placement_ready_def)
  moreover have "\<not> fits (esm_free_resources example_gpu_state) (ct_resources example_gpu_container)"
    "esm_resource_claims example_gpu_state (ct_id example_gpu_container) = None"
    by (simp_all add: example_gpu_state_def new_ledger_def example_gpu_container_def function_container_def
        container_builder_def function_container_resources_def example_gpu_function_def example_gpu_request_def
        example_gpu_def amount_defs)
  moreover have "cs_executor_states example_gpu_scheduler ''e1'' = Some example_gpu_state"
    by (simp add: example_gpu_fields)
  ultimately show ?thesis
    using failed_registration_hides_executor [of example_gpu_scheduler "''e1''" example_gpu_state example_gpu_container
        example_gpu_choices example_gpu_request Map.empty "''ns''" "''app''" ?f eligible cache' FunctionContainer] sel
    by (auto simp: example_gpu_max example_gpu_fields(1) split: prod.splits sum.splits)
qed

end
