(* ===== verification/Reaping.thy ===== *)
theory Reaping
  imports ContainerLifecycle
begin

text \<open>
  What \<open>reap_idle_containers\<close> and \<open>restore_reaped_container\<close> do: the reaper takes exactly the
  containers the pool floors allow, oldest first, and a container restored in the same batch is back
  on its executor, idle since the restore.
\<close>

section \<open>One reaped container\<close>

definition pool_view where
  "pool_view s = (cs_function_pools s, cs_sandbox_pools s)"

lemma pool_floor_view: "pool_view s = pool_view s' \<Longrightarrow> pool_floor s = pool_floor s'"
  by (rule ext) (simp add: pool_view_def pool_floor_def get_pool_def split: option.split)

lemma pool_view_terminate_container [simp]: "pool_view (snd (terminate_container cid s)) = pool_view s"
  by (simp add: pool_view_def terminate_container_def remove_idle_def remove_from_uri_index_def
      remove_from_pool_index_def remove_from_warm_index_def Let_def split: option.split)

lemma release_on_executor_views [simp]:
  "container_view (release_on_executor eid c s) = container_view s"
  "pool_view (release_on_executor eid c s) = pool_view s"
  "cs_reaped_containers (release_on_executor eid c s) = cs_reaped_containers s"
  "cs_executors (release_on_executor eid c s) = cs_executors s"
  by (simp_all add: release_on_executor_eq pool_view_def split: option.split)

lemma push_reaped_views [simp]:
  "container_view (push_reaped u cid s) = container_view s"
  "pool_view (push_reaped u cid s) = pool_view s"
  "executor_view (push_reaped u cid s) = executor_view s"
  by (simp_all add: push_reaped_def container_view_def pool_view_def executor_view_def)

lemma snd_reap_container:
  "snd (reap_container cid fc update s) =
     push_reaped (csm_uri fc) cid
       (release_on_executor (csm_executor_id fc) (csm_function_container fc) (snd (terminate_container cid s)))"
  by (simp add: reap_container_def Let_def split_beta)

lemma reap_container_views [simp]:
  "container_view (snd (reap_container cid fc update s)) = container_view (snd (terminate_container cid s))"
  "pool_view (snd (reap_container cid fc update s)) = pool_view s"
  by (simp_all add: snd_reap_container)

lemma containers_ok_reap_container:
  "containers_ok s \<Longrightarrow> containers_ok (snd (reap_container cid fc update s))"
  using containers_ok_terminate_container containers_ok_view [OF reap_container_views(1)] by blast

lemma reap_container_containers:
  assumes "cs_function_containers s cid = Some fc"
  shows "cs_function_containers (snd (reap_container cid fc update s)) =
    (cs_function_containers s)(cid \<mapsto> mark_terminated fc)"
  using view_terminate_container [OF assms] reap_container_views(1) [of cid fc update s]
  by (simp add: container_view_def)

lemma reap_container_pools:
  assumes ok: "containers_ok s" and fc: "cs_function_containers s cid = Some fc"
  shows "idx_get (cs_containers_by_pool (snd (reap_container cid fc update s))) k =
    idx_get (cs_containers_by_pool s) k - {cid}"
proof -
  have "indexed_ok s cid" using ok by (simp add: containers_ok_def)
  from unindexed_unindex [OF this fc] show ?thesis
    using view_terminate_container [OF fc] reap_container_views(1) [of cid fc update s]
    by (simp add: container_view_def unindexed_def)
qed

lemma pool_container_count_get:
  "pool_container_count s k = of_nat (card (idx_get (cs_containers_by_pool s) k))"
  by (simp add: pool_container_count_def ids_len_u32_def idx_get_def split: option.split)

text \<open>The container leaves its own pool, which had more than its floor, and no other.\<close>

lemma reap_container_count:
  assumes ok: "containers_ok s" and fc: "cs_function_containers s cid = Some fc" and r: "reapable s fc"
  shows "pool_container_count (snd (reap_container cid fc update s)) k =
    (if csm_pool_key fc = Some k then pool_container_count s k - 1 else pool_container_count s k)"
proof -
  have live: "live s cid = Some fc" using fc r by (simp add: live_def reapable_def split: if_splits)
  have "indexed_ok s cid" using ok by (simp add: containers_ok_def)
  then have mem: "cid \<in> idx_get (cs_containers_by_pool s) k \<longleftrightarrow> csm_pool_key fc = Some k"
    using live by (simp add: indexed_ok_def)
  show ?thesis
  proof (cases "csm_pool_key fc = Some k")
    case False
    with mem show ?thesis by (simp add: pool_container_count_get reap_container_pools [OF ok fc])
  next
    case True
    let ?ids = "idx_get (cs_containers_by_pool s) k"
    have "\<not> pool_container_count s k \<le> pool_floor s k"
      using r True by (simp add: reapable_def split: if_splits)
    then have nonzero: "pool_container_count s k \<noteq> 0" by auto
    have "card ?ids \<noteq> 0"
    proof
      assume empty: "card ?ids = 0"
      have "pool_container_count s k = 0" unfolding pool_container_count_get empty by simp
      with nonzero show False by contradiction
    qed
    then have "card (?ids - {cid}) = card ?ids - 1" using True mem by simp
    with \<open>card ?ids \<noteq> 0\<close> True show ?thesis
      by (simp add: pool_container_count_get reap_container_pools [OF ok fc] of_nat_diff Suc_le_eq)
  qed
qed

section \<open>The whole loop\<close>

text \<open>The states the loop goes through: each step reaps one entry of the snapshot that is old enough.\<close>

inductive reaps ::
  "instant \<Rightarrow> nat \<Rightarrow> (instant \<times> container_id) set \<Rightarrow> container_scheduler \<Rightarrow> container_scheduler \<Rightarrow> bool"
  for now age idle s where
  none: "reaps now age idle s s"
| one: "reaps now age idle s s1 \<Longrightarrow> (t, cid) \<in> idle \<Longrightarrow> age \<le> now - t \<Longrightarrow>
    cs_function_containers s1 cid = Some fc \<Longrightarrow> reapable s1 fc \<Longrightarrow>
    reaps now age idle s (snd (reap_container cid fc update s1))"

lemma reaps_trans: "reaps now age idle s1 s2 \<Longrightarrow> reaps now age idle s s1 \<Longrightarrow> reaps now age idle s s2"
  by (induction rule: reaps.induct) (auto intro: reaps.one)

lemma reap_loop_reaps:
  "reap_loop now age snapshot (update, affected, s) = (update', affected', s') \<Longrightarrow> set snapshot \<subseteq> idle \<Longrightarrow>
   reaps now age idle s s'"
proof (induction snapshot arbitrary: update affected s)
  case Nil
  then show ?case by (simp add: reaps.none)
next
  case (Cons entry snapshot)
  obtain t cid where entry: "entry = (t, cid)" by fastforce
  show ?case
  proof (cases "\<not> now - t < age \<and> (\<exists>fc. cs_function_containers s cid = Some fc \<and> reapable s fc)")
    case True
    then obtain fc where fc: "cs_function_containers s cid = Some fc" "reapable s fc" "age \<le> now - t" by auto
    have "reaps now age idle s (snd (reap_container cid fc update s))"
      using reaps.one [OF reaps.none _ fc(3,1,2)] Cons.prems(2) entry by simp
    with True fc Cons show ?thesis
      by (auto simp: entry Let_def split: prod.splits intro: reaps_trans)
  next
    case False
    with Cons show ?thesis by (auto simp: entry reaps.none split: if_splits option.splits)
  qed
qed

lemma containers_ok_reaps: "reaps now age idle s s' \<Longrightarrow> containers_ok s \<Longrightarrow> containers_ok s'"
  by (induction rule: reaps.induct) (auto intro: containers_ok_reap_container)

lemma pool_floor_reaps: "reaps now age idle s s' \<Longrightarrow> pool_floor s' = pool_floor s"
  by (induction rule: reaps.induct) (metis reap_container_views(2) pool_floor_view)+

text \<open>What has changed is terminated, and was removable, idle for long enough and not terminated.\<close>

lemma reaped_containers:
  assumes "reaps now age idle s s'"
    "cs_function_containers s' cid \<noteq> cs_function_containers s cid"
  shows "\<exists>fc t. cs_function_containers s cid = Some fc \<and> \<not> desired_terminated fc \<and> can_be_removed fc \<and>
    (t, cid) \<in> idle \<and> age \<le> now - t \<and> cs_function_containers s' cid = Some (mark_terminated fc)"
  using assms
proof (induction rule: reaps.induct)
  case (one s1 t cid1 fc update)
  show ?case
  proof (cases "cid1 = cid")
    case False
    with one show ?thesis by (simp add: reap_container_containers [OF one.hyps(4)])
  next
    case True
    have live: "\<not> desired_terminated fc" "can_be_removed fc"
      using one.hyps(5) by (simp_all add: reapable_def fe_can_be_removed_def split: if_splits)
    then have "cs_function_containers s cid = Some fc"
      using one.IH one.hyps(4) True desired_terminated_mark by force
    moreover have "cs_function_containers (snd (reap_container cid1 fc update s1)) cid =
        Some (mark_terminated fc)"
      by (simp only: reap_container_containers [OF one.hyps(4)]) (simp add: True)
    ultimately show ?thesis using live one.hyps(2,3) True by auto
  qed
qed simp

lemma less_minus_one: "f < c \<Longrightarrow> f \<le> c - 1 \<and> c - 1 < c" for f c :: "'a :: len word"
proof -
  assume less: "f < c"
  then have "1 \<le> c" by (simp add: word_le_nat_alt word_less_nat_alt)
  then have "unat (c - 1) = unat c - 1" by (simp add: unat_sub)
  with less show ?thesis unfolding word_less_nat_alt word_le_nat_alt by linarith
qed

text \<open>A pool at or below its floor is left alone, any other is not brought below it.\<close>

lemma reaps_floor:
  assumes "reaps now age idle s s'" "containers_ok s"
  shows "if pool_container_count s k \<le> pool_floor s k
    then pool_container_count s' k = pool_container_count s k
    else pool_floor s k \<le> pool_container_count s' k \<and> pool_container_count s' k \<le> pool_container_count s k"
  using assms
proof (induction rule: reaps.induct)
  case (one s1 t cid fc update)
  have ok: "containers_ok s1" using one.hyps(1) one.prems by (rule containers_ok_reaps)
  have floor: "pool_floor s1 k = pool_floor s k" using pool_floor_reaps [OF one.hyps(1)] by simp
  have less: "pool_floor s k < pool_container_count s1 k" if "csm_pool_key fc = Some k"
    using one.hyps(5) that floor by (auto simp: reapable_def split: if_splits)
  have step: "pool_floor s k \<le> pool_container_count s1 k - 1"
    "pool_container_count s1 k - 1 \<le> pool_container_count s1 k" if "csm_pool_key fc = Some k"
    using less_minus_one [OF less [OF that]] by (blast intro: less_imp_le)+
  note IH = one.IH [OF one.prems]
  show ?case
    unfolding reap_container_count [OF ok one.hyps(4,5)]
  proof (cases "csm_pool_key fc = Some k")
    case True
    with IH less [OF True] have "\<not> pool_container_count s k \<le> pool_floor s k" by auto
    with IH True step [OF True] show "if pool_container_count s k \<le> pool_floor s k
      then (if csm_pool_key fc = Some k then pool_container_count s1 k - 1 else pool_container_count s1 k) =
        pool_container_count s k
      else pool_floor s k \<le> (if csm_pool_key fc = Some k then pool_container_count s1 k - 1
          else pool_container_count s1 k) \<and>
        (if csm_pool_key fc = Some k then pool_container_count s1 k - 1 else pool_container_count s1 k) \<le>
        pool_container_count s k"
      by (auto intro: order_trans)
  qed (use IH in simp)
qed auto

text \<open>A container the loop has passed is not reapable any more, and stays so.\<close>

definition settled :: "container_scheduler \<Rightarrow> container_id \<Rightarrow> bool" where
  "settled s cid \<longleftrightarrow>
     (case cs_function_containers s cid of None \<Rightarrow> True | Some fc \<Rightarrow> \<not> reapable s fc)"

lemma reapable_other_pool:
  assumes "\<not> reapable s fc'" "containers_ok s" "cs_function_containers s cid = Some fc" "reapable s fc"
  shows "\<not> reapable (snd (reap_container cid fc update s)) fc'"
proof -
  have "pool_floor (snd (reap_container cid fc update s)) = pool_floor s"
    by (rule pool_floor_view) simp
  moreover have "csm_pool_key fc \<noteq> Some k"
    if "pool_container_count s k \<le> pool_floor s k" for k
    using assms(4) that by (auto simp: reapable_def split: if_splits)
  ultimately show ?thesis
    using assms(1) reap_container_count [OF assms(2-4), of update]
    by (auto simp: reapable_def split: if_splits option.splits)
qed

lemma settled_reap_container:
  assumes "settled s cid' \<or> cid' = cid" "containers_ok s" "cs_function_containers s cid = Some fc" "reapable s fc"
  shows "settled (snd (reap_container cid fc update s)) cid'"
proof (cases "cid' = cid")
  case True
  then show ?thesis
    by (simp add: settled_def reap_container_containers [OF assms(3)]) (simp add: reapable_def)
next
  case False
  with assms(1) reapable_other_pool [OF _ assms(2-4)] show ?thesis
    by (simp add: settled_def reap_container_containers [OF assms(3)] split: option.splits)
qed

lemma settled_reaps: "reaps now age idle s s' \<Longrightarrow> containers_ok s \<Longrightarrow> settled s cid \<Longrightarrow> settled s' cid"
proof (induction rule: reaps.induct)
  case (one s1 t cid1 fc update)
  then show ?case using settled_reap_container containers_ok_reaps by blast
qed

lemma reap_loop_settles:
  assumes "reap_loop now age snapshot (update, affected, s) = (update', affected', s')" "containers_ok s"
    "sorted snapshot" "(t, cid) \<in> set snapshot" "age \<le> now - t"
  shows "settled s' cid"
  using assms
proof (induction snapshot arbitrary: update affected s)
  case (Cons entry snapshot)
  obtain t1 cid1 where entry: "entry = (t1, cid1)" by fastforce
  have "t1 \<le> t" using Cons.prems(3,4) entry by (auto simp: less_eq_prod_def)
  then have old: "\<not> now - t1 < age" using Cons.prems(5) by simp
  show ?case
  proof (cases "\<exists>fc. cs_function_containers s cid1 = Some fc \<and> reapable s fc")
    case True
    then obtain fc where fc: "cs_function_containers s cid1 = Some fc" "reapable s fc" by blast
    let ?s1 = "snd (reap_container cid1 fc update s)"
    have loop: "reap_loop now age snapshot (fst (reap_container cid1 fc update s),
        insert (csm_executor_id fc) affected, ?s1) = (update', affected', s')"
      using Cons.prems(1) old fc by (simp add: entry Let_def split: prod.splits)
    have ok: "containers_ok ?s1" using Cons.prems(2) by (rule containers_ok_reap_container)
    show ?thesis
    proof (cases "(t, cid) \<in> set snapshot")
      case True
      then show ?thesis using Cons.IH [OF loop ok] Cons.prems(3,5) by simp
    next
      case False
      then have "settled ?s1 cid"
        using settled_reap_container [OF _ Cons.prems(2) fc] Cons.prems(4) entry by auto
      with ok show ?thesis using settled_reaps [OF reap_loop_reaps [OF loop order_refl]] by blast
    qed
  next
    case False
    then have loop: "reap_loop now age snapshot (update, affected, s) = (update', affected', s')"
      using Cons.prems(1) old by (auto simp: entry split: option.splits)
    show ?thesis
    proof (cases "(t, cid) \<in> set snapshot")
      case True
      then show ?thesis using Cons.IH [OF loop Cons.prems(2)] Cons.prems(3,5) by simp
    next
      case cid: False
      have "settled s cid" using False cid Cons.prems(4) entry by (auto simp: settled_def split: option.split)
      then show ?thesis using settled_reaps [OF reap_loop_reaps [OF loop order_refl] Cons.prems(2)] by blast
    qed
  qed
qed simp

lemma reap_idle_containers_loop:
  obtains update' affected' where
    "reap_loop now age (sorted_list_of_set (cs_idle_containers s))
       (default_update, {}, s\<lparr>cs_reaped_containers := Map.empty\<rparr>) =
       (update', affected', snd (reap_idle_containers now age s))"
  by (cases "reap_loop now age (sorted_list_of_set (cs_idle_containers s))
       (default_update, {}, s\<lparr>cs_reaped_containers := Map.empty\<rparr>)")
    (auto simp: reap_idle_containers_def Let_def)

lemma containers_ok_reaped_update [simp]:
  "containers_ok (s\<lparr>cs_reaped_containers := r\<rparr>) = containers_ok s"
  by (rule containers_ok_view) (simp add: container_view_def)

lemma count_reaped_update [simp]:
  "pool_container_count (s\<lparr>cs_reaped_containers := r\<rparr>) k = pool_container_count s k"
  "pool_floor (s\<lparr>cs_reaped_containers := r\<rparr>) k = pool_floor s k"
  by (simp_all add: pool_container_count_def pool_floor_def get_pool_def split: option.split)

section \<open>Executors through a reap\<close>

lemma scheduler_ok_reap_container:
  assumes "scheduler_ok s"
  shows "scheduler_ok (snd (reap_container cid fc update s))"
proof -
  let ?t = "snd (terminate_container cid s)"
  have "memory_ok ?t" "classes_ok ?t"
    using assms executors_ok_view [OF executor_view_terminate_container] by (simp_all add: scheduler_ok_def)
  then have "memory_ok (release_on_executor eid c ?t) \<and> classes_ok (release_on_executor eid c ?t)" for eid c
    by (simp add: release_on_executor_eq memory_ok_set_executor_state split: option.split)
  then show ?thesis
    using assms containers_ok_reap_container executors_ok_view [OF push_reaped_views(3)]
    by (simp add: scheduler_ok_def snd_reap_container)
qed

lemma ledgers_ok_view: "executor_view s = executor_view s' \<Longrightarrow> ledgers_ok s = ledgers_ok s'"
  by (simp add: executor_view_def ledgers_ok_def)

lemma ledgers_ok_reap_container:
  assumes "ledgers_ok s"
  shows "ledgers_ok (snd (reap_container cid fc update s))"
  unfolding snd_reap_container ledgers_ok_view [OF push_reaped_views(3)]
  using assms ledgers_ok_view [OF executor_view_terminate_container] by (simp add: ledgers_ok_release)

lemma scheduler_ok_reaps:
  "reaps now age idle s s' \<Longrightarrow> scheduler_ok s \<Longrightarrow> ledgers_ok s \<Longrightarrow> scheduler_ok s' \<and> ledgers_ok s'"
  by (induction rule: reaps.induct)
    (simp_all add: scheduler_ok_reap_container ledgers_ok_reap_container)

section \<open>Restoring what was reaped\<close>

lemma consume_after_free:
  assumes "gpu_compatible h r" "fits (snd (free_resources h r)) r"
  shows "consume_fe_resources (snd (free_resources h r)) r = (Ok (), h)"
  unfolding consume_fits [OF assms(2)] using assms(1)
  by (cases h; cases "host_gpu h"; cases "cres_gpu r")
    (auto simp: free_resources_def update_gpu_count_def gpu_compatible_def Let_def)

lemma add_after_remove:
  assumes ok: "ledger_ok host m" and claim: "esm_resource_claims m (ct_id c) = Some (ct_resources c)"
  shows "add_container (snd (remove_container m c)) c = (Ok (), m)"
proof -
  let ?h = "esm_free_resources m" and ?r = "ct_resources c"
  have compat: "gpu_compatible ?h ?r" and ids: "esm_function_container_ids m = dom (esm_resource_claims m)"
    and fin: "finite (dom (esm_resource_claims m))"
    using ok claim by (auto simp: ledger_ok_def ran_def)
  note le = map_sum_delete_le [OF fin claim]
  have "unat (host_cpu_ms_per_sec ?h) + unat (cres_cpu_ms_per_sec ?r) \<le> unat (host_cpu_ms_per_sec host)"
    "unat (host_memory_bytes ?h) + req_memory ?r \<le> unat (host_memory_bytes host)"
    "unat (host_disk_bytes ?h) + req_disk ?r \<le> unat (host_disk_bytes host)"
    "avail_gpu ?h + req_gpu ?r \<le> avail_gpu host"
    using ok le [of "\<lambda>r. unat (cres_cpu_ms_per_sec r)"] le [of req_memory] le [of req_disk] le [of req_gpu]
    by (simp_all add: ledger_ok_def)
  note amounts = free_amounts [OF compat this]
  have "fits (snd (free_resources ?h ?r)) ?r"
    using amounts compat by (simp add: fits_def free_gpu_compatible)
  note consume = consume_after_free [OF compat this]
  show ?thesis
    unfolding remove_container_claimed [OF claim compat]
    using consume claim ids
    by (cases m) (auto simp: add_container_def Let_def fun_upd_idem insert_absorb)
qed

text \<open>Restoring the last container of a function's list when its executor takes it back.\<close>

lemma restore_reaped_container_last:
  assumes "cs_reaped_containers s uri = Some (ids @ [cid])" "cs_function_containers s cid = Some fc"
    "cs_executor_states s (csm_executor_id fc) = Some st"
    "add_container st (csm_function_container fc) = (Ok (), st')"
    and fc': "fc' = fc\<lparr>csm_desired_state := CS_Running, csm_idle_since := Some now\<rparr>"
    and s1: "s1 = set_executor_state (csm_executor_id fc) st'
    (s\<lparr>cs_reaped_containers := (cs_reaped_containers s)(uri := (if ids = [] then None else Some ids))\<rparr>)"
  shows "restore_reaped_container now uri s =
    (Some (default_update\<lparr>su_containers := [cid \<mapsto> fc'], su_updated_executor_states := [csm_executor_id fc \<mapsto> st']\<rparr>),
     update_container_indices cid fc' (s1\<lparr>cs_function_containers := (cs_function_containers s)(cid \<mapsto> fc')\<rparr>))"
  using assms(1-4) unfolding fc' s1
  by (simp add: restore_reaped_container_def restore_container_def Let_def flip: reindex_executor)
    (simp add: insert_resource_index_def remove_resource_index_def)

text \<open>A terminated container is in no index, so it can be marked running in place.\<close>

lemma update_ready_revived:
  assumes ok: "containers_ok s" and fc: "cs_function_containers s cid = Some fc" "desired_terminated fc"
    and view: "container_view s' = container_view (s\<lparr>cs_function_containers := fcs(cid \<mapsto> meta)\<rparr>)"
    and fcs: "fcs = cs_function_containers s"
  shows "update_ready s' cid meta"
proof -
  have dead: "live s cid = None" using fc by (simp add: live_def)
  have "indexed_ok s cid" using ok by (simp add: containers_ok_def)
  then have gone: "cid \<notin> idx_get (cs_containers_by_function_uri s) u"
    "cid \<notin> idx_get (cs_containers_by_pool s) k" "cid \<notin> idx_get (cs_warm_containers_by_pool s) k"
    "(t, cid) \<notin> cs_idle_containers s" for u k t
    using dead by (simp_all add: indexed_ok_def)
  have "indexed_ok s' cid' = indexed_ok s cid'" if "cid' \<noteq> cid" for cid'
    using view fcs that by (simp add: container_view_def indexed_ok_def live_def)
  with gone ok view fcs show ?thesis
    by (simp add: update_ready_def containers_ok_def container_view_def)
qed

lemma reap_container_executor:
  assumes "cs_function_containers s cid = Some fc" "cs_executor_states s (csm_executor_id fc) = Some st"
  shows "cs_executor_states (snd (reap_container cid fc update s)) =
    (cs_executor_states s)(csm_executor_id fc \<mapsto> snd (remove_container st (csm_function_container fc)))"
proof -
  have "cs_executor_states (snd (terminate_container cid s)) = cs_executor_states s"
    using executor_view_terminate_container [of cid s] by (simp add: executor_view_def)
  then show ?thesis using assms(2) by (simp add: snd_reap_container push_reaped_def release_on_executor_eq)
qed

lemma reap_container_reaped:
  "cs_reaped_containers (snd (reap_container cid fc update s)) =
     (cs_reaped_containers s)(csm_uri fc \<mapsto> unwrap_or (cs_reaped_containers s (csm_uri fc)) [] @ [cid])"
proof -
  have "cs_reaped_containers (snd (terminate_container cid s)) = cs_reaped_containers s"
    by (simp add: terminate_container_def remove_idle_def remove_from_uri_index_def
        remove_from_pool_index_def remove_from_warm_index_def Let_def split: option.split)
  then show ?thesis by (simp add: snd_reap_container push_reaped_def)
qed

text \<open>The entry of the memory index for an executor: none when it has no free memory or CPU.\<close>

definition memory_entry :: "executor_id \<Rightarrow> executor_server_metadata \<Rightarrow> (u64 \<times> executor_id) set" where
  "memory_entry eid st =
     (if 0 < host_memory_bytes (esm_free_resources st) \<and> 0 < host_cpu_ms_per_sec (esm_free_resources st)
      then {(host_memory_bytes (esm_free_resources st), eid)} else {})"

text \<open>The indexes other than the idle set are determined by the function and pool of the live containers.\<close>

lemma indexes_determined:
  assumes "containers_ok s" "containers_ok s'"
    and "\<And>cid. map_option (\<lambda>fc. (csm_uri fc, csm_pool_key fc, is_warm fc)) (live s cid) =
               map_option (\<lambda>fc. (csm_uri fc, csm_pool_key fc, is_warm fc)) (live s' cid)"
  shows "cs_containers_by_function_uri s = cs_containers_by_function_uri s'"
    and "cs_containers_by_pool s = cs_containers_by_pool s'"
    and "cs_warm_containers_by_pool s = cs_warm_containers_by_pool s'"
proof -
  have mem: "cid \<in> idx_get (cs_containers_by_function_uri x) u \<longleftrightarrow> map_option csm_uri (live x cid) = Some u"
    "cid \<in> idx_get (cs_containers_by_pool x) k \<longleftrightarrow> Option.bind (live x cid) csm_pool_key = Some k"
    "cid \<in> idx_get (cs_warm_containers_by_pool x) k \<longleftrightarrow>
      Option.bind (live x cid) (\<lambda>fc. if is_warm fc then csm_pool_key fc else None) = Some k"
    if "containers_ok x" for x cid u k
    using that by (simp_all add: containers_ok_def indexed_ok_def)
  have same: "map_option csm_uri (live s cid) = map_option csm_uri (live s' cid)"
    "Option.bind (live s cid) csm_pool_key = Option.bind (live s' cid) csm_pool_key"
    "Option.bind (live s cid) (\<lambda>fc. if is_warm fc then csm_pool_key fc else None) =
     Option.bind (live s' cid) (\<lambda>fc. if is_warm fc then csm_pool_key fc else None)" for cid
    using assms(3) [of cid] by (auto split: option.splits simp: map_option_case bind_split)
  have "idx_get (cs_containers_by_function_uri s) u = idx_get (cs_containers_by_function_uri s') u" for u
    by (rule set_eqI) (simp only: mem [OF assms(1)] mem [OF assms(2)] same)
  then show "cs_containers_by_function_uri s = cs_containers_by_function_uri s'"
    using assms(1,2) by (intro idx_tidy_eqI) (simp_all add: containers_ok_def)
  have "idx_get (cs_containers_by_pool s) k = idx_get (cs_containers_by_pool s') k" for k
    by (rule set_eqI) (simp only: mem [OF assms(1)] mem [OF assms(2)] same)
  then show "cs_containers_by_pool s = cs_containers_by_pool s'"
    using assms(1,2) by (intro idx_tidy_eqI) (simp_all add: containers_ok_def)
  have "idx_get (cs_warm_containers_by_pool s) k = idx_get (cs_warm_containers_by_pool s') k" for k
    by (rule set_eqI) (simp only: mem [OF assms(1)] mem [OF assms(2)] same)
  then show "cs_warm_containers_by_pool s = cs_warm_containers_by_pool s'"
    using assms(1,2) by (intro idx_tidy_eqI) (simp_all add: containers_ok_def)
qed

text \<open>So is the idle set, by the times at which the live containers became idle.\<close>

lemma idle_determined:
  assumes "containers_ok s"
  shows "cs_idle_containers s = {(t, cid). Option.bind (live s cid) reapable_since = Some t}"
  using assms by (auto simp: containers_ok_def indexed_ok_def)

text \<open>Setting the state of an executor replaces its entry of the memory index and keeps the others.\<close>

lemma memory_index_set_executor_state:
  assumes "memory_ok s"
  shows "cs_executors_by_free_memory (set_executor_state eid st s) =
    {(m, e) \<in> cs_executors_by_free_memory s. e \<noteq> eid} \<union> memory_entry eid st"
  using memory_okD [OF assms]
  by (auto simp: set_executor_state_def insert_resource_index_def memory_entry_def Let_def split: option.split) fastforce+

lemma class_index_set_executor_state [simp]:
  "cs_executors_by_class (set_executor_state eid st s) = cs_executors_by_class s"
  by (simp add: set_executor_state_def insert_resource_index_def Let_def split: option.split)

lemma reap_container_memory:
  assumes "memory_ok s"
  shows "{(m, e) \<in> cs_executors_by_free_memory (snd (reap_container cid fc update s)). e \<noteq> csm_executor_id fc} =
    {(m, e) \<in> cs_executors_by_free_memory s. e \<noteq> csm_executor_id fc}"
proof -
  let ?t = "snd (terminate_container cid s)"
  have same: "cs_executors_by_free_memory ?t = cs_executors_by_free_memory s" "memory_ok ?t"
    using executor_view_terminate_container [of cid s] executors_ok_view(1) [OF executor_view_terminate_container] assms
    by (simp_all add: executor_view_def)
  show ?thesis
    by (auto simp: snd_reap_container push_reaped_def release_on_executor_eq memory_index_set_executor_state [OF same(2)] same(1)
        memory_entry_def split: option.split)
qed

section \<open>Properties\<close>

text \<open>
  C24: reaping is safe and complete.  On a consistent state a reap terminates only function containers
  that had no allocation and had been idle for the minimum age, and changes no other container; it
  leaves alone every pool at or below its floor, the larger of its minimum and its buffer, and
  brings no other pool below it; and every container of the snapshot that is old enough and that
  the floors allow to go has gone.  The indexes and the executors' ledgers stay consistent.
\<close>

theorem reap_idle_containers_exact:
  assumes ok: "scheduler_ok s" "ledgers_ok s" and fin: "finite (cs_idle_containers s)"
    and s': "s' = snd (reap_idle_containers now age s)"
  shows "scheduler_ok s' \<and> ledgers_ok s' \<and>
    (\<forall>cid. cs_function_containers s' cid \<noteq> cs_function_containers s cid \<longrightarrow>
       (\<exists>fc t. cs_function_containers s cid = Some fc \<and> \<not> desired_terminated fc \<and> can_be_removed fc \<and>
          csm_idle_since fc = Some t \<and> age \<le> now - t \<and>
          cs_function_containers s' cid = Some (mark_terminated fc))) \<and>
    (\<forall>k. if pool_container_count s k \<le> pool_floor s k
         then pool_container_count s' k = pool_container_count s k
         else pool_floor s k \<le> pool_container_count s' k) \<and>
    (\<forall>t cid. (t, cid) \<in> cs_idle_containers s \<longrightarrow> age \<le> now - t \<longrightarrow>
       (case live s' cid of None \<Rightarrow> True | Some fc \<Rightarrow> \<not> reapable s' fc))"
proof -
  let ?s0 = "s\<lparr>cs_reaped_containers := Map.empty\<rparr>"
  have cok: "containers_ok ?s0" using ok(1) by (simp add: scheduler_ok_def)
  have ok0: "scheduler_ok ?s0" "ledgers_ok ?s0"
    using ok executors_ok_view [of ?s0 s] ledgers_ok_view [of ?s0 s]
    by (simp_all add: scheduler_ok_def executor_view_def)
  obtain update affected where loop:
    "reap_loop now age (sorted_list_of_set (cs_idle_containers s)) (default_update, {}, ?s0) = (update, affected, s')"
    unfolding s' by (rule reap_idle_containers_loop)
  have reaps: "reaps now age (cs_idle_containers s) ?s0 s'"
    using reap_loop_reaps [OF loop] fin by simp
  have idle: "csm_idle_since fc = Some t"
    if "cs_function_containers s cid = Some fc" "(t, cid) \<in> cs_idle_containers s" for cid fc t
    using indexed_okD(5) [OF _ that] ok(1) by (simp add: scheduler_ok_def containers_ok_def)
  have changed: "\<exists>fc t. cs_function_containers s cid = Some fc \<and> \<not> desired_terminated fc \<and> can_be_removed fc \<and>
      csm_idle_since fc = Some t \<and> age \<le> now - t \<and> cs_function_containers s' cid = Some (mark_terminated fc)"
    if "cs_function_containers s' cid \<noteq> cs_function_containers s cid" for cid
    using reaped_containers [OF reaps, of cid] that idle by auto
  have floor: "if pool_container_count s k \<le> pool_floor s k
      then pool_container_count s' k = pool_container_count s k
      else pool_floor s k \<le> pool_container_count s' k" for k
    using reaps_floor [OF reaps cok, of k] by (simp split: if_splits)
  have "settled s' cid" if "(t, cid) \<in> cs_idle_containers s" "age \<le> now - t" for t cid
    using reap_loop_settles [OF loop cok] that fin by simp
  then have settled: "case live s' cid of None \<Rightarrow> True | Some fc \<Rightarrow> \<not> reapable s' fc"
    if "(t, cid) \<in> cs_idle_containers s" "age \<le> now - t" for t cid
    using that by (fastforce simp: settled_def live_def split: option.splits)
  show ?thesis using scheduler_ok_reaps [OF reaps ok0] changed floor settled by blast
qed

text \<open>
  C25: a container reaped and restored in the same batch goes back to the executor it had.  The executors'
  ledgers are what they were before the reap; the container is running and idle since the restore,
  with nothing else of it changed; and the function, pool, warm and class indexes are those from
  before.  The idle index has the container under the time of the restore in place of its old time,
  and nothing else of it changed.  The memory index has the other executors' entries as they were
  and the executor's one under the free memory of the ledger, none if it has no free memory or CPU.
\<close>

theorem reap_restore_roundtrip:
  assumes ok: "scheduler_ok s" "ledgers_ok s"
    and fc: "cs_function_containers s cid = Some fc" "reapable s fc"
    and st: "cs_executor_states s (csm_executor_id fc) = Some st"
      "esm_resource_claims st (ct_id (csm_function_container fc)) = Some (ct_resources (csm_function_container fc))"
    and s1: "s1 = snd (reap_container cid fc update s)"
  shows "case restore_reaped_container now (csm_uri fc) s1 of
      (None, s2) \<Rightarrow> False
    | (Some u, s2) \<Rightarrow>
        scheduler_ok s2 \<and> cs_executor_states s2 = cs_executor_states s \<and>
        cs_function_containers s2 = (cs_function_containers s)
          (cid \<mapsto> fc\<lparr>csm_desired_state := CS_Running, csm_idle_since := Some now\<rparr>) \<and>
        cs_containers_by_function_uri s2 = cs_containers_by_function_uri s \<and>
        cs_containers_by_pool s2 = cs_containers_by_pool s \<and>
        cs_warm_containers_by_pool s2 = cs_warm_containers_by_pool s \<and>
        cs_executors_by_class s2 = cs_executors_by_class s \<and>
        cs_idle_containers s2 = {(t, cid') \<in> cs_idle_containers s. cid' \<noteq> cid} \<union> {(now, cid)} \<and>
        cs_executors_by_free_memory s2 =
          {(m, e) \<in> cs_executors_by_free_memory s. e \<noteq> csm_executor_id fc} \<union> memory_entry (csm_executor_id fc) st"
proof -
  have cok: "containers_ok s" using ok(1) by (simp add: scheduler_ok_def)
  have mok: "memory_ok s" using ok(1) by (simp add: scheduler_ok_def)
  let ?c = "csm_function_container fc" and ?e = "csm_executor_id fc"
  define fc' where "fc' = fc\<lparr>csm_desired_state := CS_Running, csm_idle_since := Some now\<rparr>"
  obtain host where host: "ledger_ok host st" using ok(2) st(1) by (auto simp: ledgers_ok_def)
  note fields = reap_container_containers [OF fc(1), of update, folded s1]
    reap_container_executor [OF fc(1) st(1), of update, folded s1]
    reap_container_reaped [of cid fc update s, folded s1]
  let ?ids = "unwrap_or (cs_reaped_containers s (csm_uri fc)) []"
  have h: "cs_reaped_containers s1 (csm_uri fc) = Some (?ids @ [cid])"
    "cs_function_containers s1 cid = Some (mark_terminated fc)"
    "cs_executor_states s1 (csm_executor_id (mark_terminated fc)) = Some (snd (remove_container st ?c))"
    "add_container (snd (remove_container st ?c)) (csm_function_container (mark_terminated fc)) = (Ok (), st)"
    "fc' = (mark_terminated fc)\<lparr>csm_desired_state := CS_Running, csm_idle_since := Some now\<rparr>"
    using add_after_remove [OF host st(2)] by (simp_all add: fields mark_terminated_def fc'_def)
  note restore = restore_reaped_container_last [OF h refl]
  define s3 where "s3 = (set_executor_state (csm_executor_id (mark_terminated fc)) st (s1\<lparr>cs_reaped_containers :=
      (cs_reaped_containers s1)(csm_uri fc := (if ?ids = [] then None else Some ?ids))\<rparr>))
      \<lparr>cs_function_containers := (cs_function_containers s1)(cid \<mapsto> fc')\<rparr>"
  define s2 where "s2 = update_container_indices cid fc' s3"
  note restore = restore [folded s3_def, folded s2_def]
  have s3: "container_view s3 = container_view (s1\<lparr>cs_function_containers := (cs_function_containers s1)(cid \<mapsto> fc')\<rparr>)"
    "cs_executor_states s3 = (cs_executor_states s1)(?e \<mapsto> st)"
    by (simp_all add: s3_def container_view_def mark_terminated_def set_executor_state_def
        insert_resource_index_def Let_def split: option.split)
  have sok1: "scheduler_ok s1" unfolding s1 using ok(1) by (rule scheduler_ok_reap_container)
  then have ok1: "containers_ok s1" by (simp add: scheduler_ok_def)
  have "update_ready s3 cid fc'"
    using update_ready_revived [OF ok1 h(2) _ s3(1) refl] by simp
  then have ok2: "containers_ok s2" unfolding s2_def by (rule containers_ok_update_ready)
  have fcs: "cs_function_containers s2 = (cs_function_containers s)(cid \<mapsto> fc')"
    using s3(1) by (simp add: s2_def update_container_indices_fields container_view_def fields)
  have exs: "cs_executor_states s2 = cs_executor_states s"
    using executor_view_update_container_indices [of cid fc' s3] st(1)
    by (simp add: executor_view_def s2_def s3 fields fun_upd_idem)
  have "\<not> desired_terminated fc" using fc(2) by (simp add: reapable_def split: if_splits)
  then have "map_option (\<lambda>fc. (csm_uri fc, csm_pool_key fc, is_warm fc)) (live s2 cid1) =
      map_option (\<lambda>fc. (csm_uri fc, csm_pool_key fc, is_warm fc)) (live s cid1)" for cid1
    using fc(1) by (simp add: live_def fcs fc'_def desired_terminated_def csm_uri_def csm_pool_key_def is_warm_def)
  note indexes = indexes_determined [OF ok2 cok this]
  have "live s2 cid1 = (if cid1 = cid then Some fc' else live s cid1)" for cid1
    by (simp add: live_def fcs fc'_def desired_terminated_def)
  moreover have "reapable_since fc' = Some now"
    using fc(2) by (auto simp: reapable_since_def fc'_def reapable_def fe_can_be_removed_def can_be_removed_def split: if_splits)
  ultimately have idle: "cs_idle_containers s2 = {(t, cid') \<in> cs_idle_containers s. cid' \<noteq> cid} \<union> {(now, cid)}"
    unfolding idle_determined [OF ok2] idle_determined [OF cok] by auto
  have view: "executor_view s2 = executor_view (set_executor_state ?e st s1)"
    using executor_view_update_container_indices [of cid fc' s3]
    by (simp add: s2_def s3_def executor_view_def mark_terminated_def set_executor_state_def
        insert_resource_index_def Let_def split: option.split)
  have mem1: "memory_ok s1" "classes_ok s1" using sok1 by (simp_all add: scheduler_ok_def)
  have "scheduler_ok s2" using executors_ok_view [OF view] mem1 ok2
    by (simp add: scheduler_ok_def memory_ok_set_executor_state)
  moreover have "cs_executors_by_free_memory s2 = {(m, e) \<in> cs_executors_by_free_memory s. e \<noteq> ?e} \<union> memory_entry ?e st"
    using view memory_index_set_executor_state [OF mem1(1), of ?e st] reap_container_memory [OF mok, of cid fc update, folded s1]
    by (simp add: executor_view_def)
  moreover have "cs_executors_by_class s2 = cs_executors_by_class s"
    using view executor_view_terminate_container [of cid s]
    by (simp add: executor_view_def s1 snd_reap_container push_reaped_def release_on_executor_eq split: option.split)
  ultimately show ?thesis using restore fcs exs indexes idle by (simp add: fc'_def)
qed

section \<open>Examples\<close>

text \<open>One idle function container, outside any pool, on an executor.\<close>

definition example_idle :: container_server_metadata where
  "example_idle = csm_new 5 ''e1'' (example_container ''c'' 1024) CS_Running"

definition example_reaper :: container_scheduler where
  "example_reaper =
     set_executor_state ''e1'' (snd (add_container (new_ledger ''e'' example_host) (example_container ''c'' 1024)))
       (update_container_indices ''c'' example_idle (cs_new [] []))"

lemma example_idle_reapable: "reapable s example_idle"
  by (simp add: reapable_def example_idle_def csm_new_def desired_terminated_def fe_can_be_removed_def
      can_be_removed_def csm_pool_key_def ct_pool_key_def example_container_def)

lemma example_reaper_container: "cs_function_containers example_reaper = [''c'' \<mapsto> example_idle]"
  using container_view_executor_ops(1) [of "''e1''" _ "update_container_indices ''c'' example_idle (cs_new [] [])"]
  by (simp add: example_reaper_def container_view_def update_container_indices_fields) (simp add: cs_new_def)

lemma example_reaper_ok: "scheduler_ok example_reaper" "ledgers_ok example_reaper"
proof -
  let ?s = "update_container_indices ''c'' example_idle (cs_new [] [])"
  have "containers_ok ?s"
    by (rule containers_ok_update_container_indices [OF containers_ok_new])
      (simp add: same_identity_def cs_new_def)
  moreover have "memory_ok ?s" "classes_ok ?s"
    using executors_ok_view [OF executor_view_update_container_indices, of "''c''" example_idle "cs_new [] []"]
    by (simp_all add: memory_ok_def classes_ok_def cs_new_def)
  ultimately show "scheduler_ok example_reaper"
    using containers_ok_view [OF container_view_executor_ops(1)]
    by (simp add: scheduler_ok_def example_reaper_def memory_ok_set_executor_state)
  have "ledgers_ok ?s"
    using ledgers_ok_view [OF executor_view_update_container_indices, of "''c''" example_idle "cs_new [] []"]
    by (simp add: ledgers_ok_def cs_new_def)
  then show "ledgers_ok example_reaper"
    using ledger_ok_add [OF ledger_ok_new [of example_host "''e''"]] example_add_container
    by (auto simp: example_reaper_def intro: ledgers_ok_set_executor_state)
qed

lemma example_reaper_idle: "cs_idle_containers example_reaper = {(5, ''c'')}"
proof -
  have "cs_idle_containers example_reaper =
      cs_idle_containers (update_container_indices ''c'' example_idle (cs_new [] []))"
    using container_view_executor_ops(1) [of "''e1''" _ "update_container_indices ''c'' example_idle (cs_new [] [])"]
    by (simp add: example_reaper_def container_view_def)
  then show ?thesis
    by (auto simp: update_container_indices_fields cs_new_def example_idle_def csm_new_def
        desired_terminated_def reapable_since_def example_container_def)
qed

theorem reap_idle_containers_exact_witness:
  "scheduler_ok (snd (reap_idle_containers 10 3 example_reaper)) \<and>
   live (snd (reap_idle_containers 10 3 example_reaper)) ''c'' = None"
proof -
  let ?s' = "snd (reap_idle_containers 10 3 example_reaper)"
  have "finite (cs_idle_containers example_reaper)" by (simp add: example_reaper_idle)
  note exact = reap_idle_containers_exact [OF example_reaper_ok this refl, of 10 3]
  have "cs_function_containers ?s' ''c'' \<noteq> Some example_idle"
    using exact example_idle_reapable
    by (auto simp: live_def reapable_def example_reaper_idle split: if_splits option.splits)
  then have "cs_function_containers ?s' ''c'' = Some (mark_terminated example_idle)"
    using exact [THEN conjunct2, THEN conjunct2, THEN conjunct1, rule_format, of "''c''"]
    by (auto simp: example_reaper_container)
  then show ?thesis using exact by (simp add: live_def)
qed

theorem reap_restore_roundtrip_witness:
  "\<exists>u s2. restore_reaped_container 20 (csm_uri example_idle)
       (snd (reap_container ''c'' example_idle default_update example_reaper)) = (Some u, s2) \<and>
     cs_executor_states s2 = cs_executor_states example_reaper"
proof -
  have "cs_executor_states example_reaper (csm_executor_id example_idle) =
      Some (snd (add_container (new_ledger ''e'' example_host) (example_container ''c'' 1024)))"
    by (simp add: example_reaper_def example_idle_def csm_new_def)
  moreover have "esm_resource_claims (snd (add_container (new_ledger ''e'' example_host) (example_container ''c'' 1024)))
      (ct_id (csm_function_container example_idle)) = Some (ct_resources (csm_function_container example_idle))"
    by (simp add: example_add_container example_idle_def csm_new_def) (simp add: example_container_def)
  ultimately show ?thesis
    using reap_restore_roundtrip [of example_reaper "''c''" example_idle _ _ default_update 20]
      example_reaper_ok example_idle_reapable example_reaper_container
    by (fastforce split: prod.splits option.splits)
qed

end
