(* ===== verification/Requests.thy ===== *)
theory Requests
  imports Updates
begin

text \<open>
  The requests the state machine accepts (\<open>crates/server/src/state_store/requests.rs\<close>) and the state
  changes each of them announces to the scheduler (\<open>state_store/state_changes.rs\<close>).  The shared
  \<open>AtomicU64\<close> is passed through: \<open>fetch_add(1)\<close> returns the old value and wraps.  \<open>now i\<close> is what the
  \<open>i\<close>-th reading of the clock in a call returns.
\<close>

section \<open>Payloads\<close>

record request_updates =
  ru_request_updates :: "compute_op list"
  ru_output_function_call_id :: function_call_id

record allocation_output =
  ao_request_id :: string
  ao_allocation :: allocation
  ao_data_payload :: "data_payload option"
  ao_executor_id :: executor_id
  ao_request_exception :: "data_payload option"
  ao_graph_updates :: "request_updates option"

record invoke_application_request =
  ia_namespace :: string
  ia_application_name :: string
  ia_ctx :: request_ctx

record function_call_request =
  fcr_namespace :: string
  fcr_application_name :: string
  fcr_request_id :: string
  fcr_graph_updates :: request_updates
  fcr_source_function_call_id :: function_call_id

record namespace_request =
  nsr_name :: string
  nsr_blob_storage_bucket :: "string option"
  nsr_blob_storage_region :: "string option"

record create_or_update_application_request =
  cua_namespace :: string
  cua_application :: application
  cua_upgrade_requests_to_current_version :: bool
  cua_container_pools :: "container_pool list"

record delete_application_request =
  da_namespace :: string
  da_name :: string

record delete_request_request =
  dr_namespace :: string
  dr_application :: string
  dr_request_id :: string

record upsert_executor_request =
  ue_executor :: executor_metadata
  ue_allocation_outputs :: "allocation_output list"
  ue_update_executor_state :: bool
  ue_state_changes :: "state_change list"

record deregister_executor_request =
  de_executor_id :: executor_id
  de_state_changes :: "state_change list"

record create_sandbox_request =
  csr_sandbox :: sandbox

record terminate_sandbox_request =
  tsr_namespace :: string
  tsr_sandbox_id :: sandbox_id

text \<open>\<open>CreateContainerPoolRequest\<close> and \<open>UpdateContainerPoolRequest\<close> have the same field.\<close>

record container_pool_request =
  cpr_pool :: container_pool

record delete_container_pool_request =
  dcp_namespace :: string
  dcp_pool_id :: container_pool_id

record dataplane_results_request =
  dpr_event :: dataplane_results_ingested_event

record create_cron_schedule_request =
  ccs_id :: string
  ccs_namespace :: string
  ccs_application_name :: string
  ccs_cron_expression :: string
  ccs_input :: "data_payload option"

record delete_cron_schedule_request =
  dcs_namespace :: string
  dcs_application_name :: string
  dcs_schedule_id :: string

record advance_cron_schedule_request =
  acs_namespace :: string
  acs_application_name :: string
  acs_schedule_id :: string
  acs_cron_expression :: string
  acs_fired_at_ms :: u64

record snapshot_sandbox_request =
  ssr_snapshot :: snapshot
  ssr_upload_uri :: string

record complete_snapshot_request =
  cps_snapshot_id :: snapshot_id
  cps_snapshot_uri :: string
  cps_size_bytes :: u64

record fail_snapshot_request =
  fsr_snapshot_id :: snapshot_id
  fsr_error :: string

record delete_snapshot_request =
  dsr_namespace :: string
  dsr_snapshot_id :: snapshot_id

datatype request_payload =
    RP_InvokeApplication invoke_application_request
  | RP_CreateFunctionCall function_call_request
  | RP_CreateNameSpace namespace_request
  | RP_CreateOrUpdateApplication create_or_update_application_request
  | RP_TombstoneApplication delete_application_request
  | RP_TombstoneRequest delete_request_request
  | RP_UpsertExecutor upsert_executor_request
  | RP_DeregisterExecutor deregister_executor_request
  | RP_CreateSandbox create_sandbox_request
  | RP_TerminateSandbox terminate_sandbox_request
  | RP_SnapshotSandbox snapshot_sandbox_request
  | RP_CompleteSnapshot complete_snapshot_request
  | RP_FailSnapshot fail_snapshot_request
  | RP_DeleteSnapshot delete_snapshot_request
  | RP_CreateContainerPool container_pool_request
  | RP_UpdateContainerPool container_pool_request
  | RP_DataplaneResults dataplane_results_request
  | RP_CreateCronSchedule create_cron_schedule_request
  | RP_DeleteCronSchedule delete_cron_schedule_request
  | RP_AdvanceCronSchedule advance_cron_schedule_request
  | RP_SchedulerUpdate scheduler_update_request
  | RP_DeleteApplicationRequest delete_application_request
  | RP_DeleteRequestRequest delete_request_request
  | RP_TombstoneContainerPool delete_container_pool_request
  | RP_DeleteContainerPool delete_container_pool_request

section \<open>State changes\<close>

definition fetch_add :: "u64 \<Rightarrow> u64 \<times> u64" where
  "fetch_add seq = (seq, seq + 1)"

text \<open>\<open>StateChangeBuilder\<close> with all fields set and \<open>processed_at(None)\<close>\<close>

definition build_state_change ::
  "string option \<Rightarrow> string option \<Rightarrow> change_type \<Rightarrow> u64 \<Rightarrow> string \<Rightarrow> u64 \<Rightarrow> state_change" where
  "build_state_change namespace application change created_at object_id change_id =
     \<lparr>sc_id = change_id, sc_object_id = object_id, sc_change_type = change, sc_created_at = created_at,
      sc_processed_at = None, sc_namespace = namespace, sc_application = application\<rparr>"

definition sc_invoke_application ::
  "u64 \<Rightarrow> invoke_application_request \<Rightarrow> u64 \<Rightarrow> state_change list \<times> u64" where
  "sc_invoke_application now request seq =
     (let (last_change_id, seq) = fetch_add seq
      in ([build_state_change (Some (ia_namespace request)) (Some (ia_application_name request))
             (InvokeApplication \<lparr>iae_request_id = req_request_id (ia_ctx request),
                iae_namespace = ia_namespace request, iae_application = ia_application_name request\<rparr>)
             now (req_request_id (ia_ctx request)) last_change_id], seq))"

definition graph_updates_of :: "request_updates \<Rightarrow> graph_updates" where
  "graph_updates_of u =
     \<lparr>gu_graph_updates = ru_request_updates u, gu_output_function_call_id = ru_output_function_call_id u\<rparr>"

definition sc_create_function_call ::
  "u64 \<Rightarrow> function_call_request \<Rightarrow> u64 \<Rightarrow> state_change list \<times> u64" where
  "sc_create_function_call now request seq =
     (let (last_change_id, seq) = fetch_add seq
      in ([build_state_change (Some (fcr_namespace request)) (Some (fcr_application_name request))
             (CreateFunctionCall \<lparr>fce_namespace = fcr_namespace request,
                fce_application = fcr_application_name request, fce_request_id = fcr_request_id request,
                fce_source_function_call_id = fcr_source_function_call_id request,
                fce_graph_updates = graph_updates_of (fcr_graph_updates request)\<rparr>)
             now (fcr_request_id request) last_change_id], seq))"

definition sc_tombstone_application ::
  "u64 \<Rightarrow> delete_application_request \<Rightarrow> u64 \<Rightarrow> state_change list \<times> u64" where
  "sc_tombstone_application now request seq =
     (let (last_change_id, seq) = fetch_add seq
      in ([build_state_change (Some (da_namespace request)) (Some (da_name request))
             (TombstoneApplication \<lparr>tae_namespace = da_namespace request, tae_application = da_name request\<rparr>)
             now (da_name request) last_change_id], seq))"

definition sc_tombstone_request ::
  "u64 \<Rightarrow> delete_request_request \<Rightarrow> u64 \<Rightarrow> state_change list \<times> u64" where
  "sc_tombstone_request now request seq =
     (let (last_change_id, seq) = fetch_add seq
      in ([build_state_change (Some (dr_namespace request)) (Some (dr_application request))
             (TombstoneRequest \<lparr>tre_namespace = dr_namespace request, tre_application = dr_application request,
                tre_request_id = dr_request_id request\<rparr>)
             now (dr_request_id request) last_change_id], seq))"

definition sc_task_outputs_ingested ::
  "u64 \<Rightarrow> allocation_output \<Rightarrow> u64 \<Rightarrow> state_change list \<times> u64" where
  "sc_task_outputs_ingested now request seq =
     (let (last_change_id, seq) = fetch_add seq;
          allocation = ao_allocation request
      in ([build_state_change (Some (al_namespace allocation)) (Some (al_application allocation))
             (AllocationOutputsIngested
                \<lparr>aoe_namespace = al_namespace allocation, aoe_application = al_application allocation,
                 aoe_function = al_function allocation, aoe_request_id = ao_request_id request,
                 aoe_function_call_id = al_function_call_id allocation,
                 aoe_data_payload = ao_data_payload request,
                 aoe_graph_updates = map_option graph_updates_of (ao_graph_updates request),
                 aoe_request_exception = ao_request_exception request,
                 aoe_allocation_id = al_id allocation, aoe_allocation_target = al_target allocation,
                 aoe_allocation_outcome = al_outcome allocation,
                 aoe_execution_duration_ms = al_execution_duration_ms allocation\<rparr>)
             now (al_function_call_id allocation) last_change_id], seq))"

definition sc_upsert_executor :: "u64 \<Rightarrow> executor_id \<Rightarrow> u64 \<Rightarrow> state_change list \<times> u64" where
  "sc_upsert_executor now eid seq =
     (let (last_change_id, seq) = fetch_add seq
      in ([build_state_change None None (ExecutorUpserted \<lparr>eue_executor_id = eid\<rparr>) now eid last_change_id], seq))"

definition sc_create_sandbox :: "u64 \<Rightarrow> create_sandbox_request \<Rightarrow> u64 \<Rightarrow> state_change list \<times> u64" where
  "sc_create_sandbox now request seq =
     (let (last_change_id, seq) = fetch_add seq; sandbox = csr_sandbox request
      in ([build_state_change (Some (sbx_namespace sandbox)) None
             (CreateSandbox \<lparr>sbe_namespace = sbx_namespace sandbox, sbe_sandbox_id = sbx_id sandbox\<rparr>)
             now (sbx_id sandbox) last_change_id], seq))"

definition sc_terminate_sandbox :: "u64 \<Rightarrow> terminate_sandbox_request \<Rightarrow> u64 \<Rightarrow> state_change list \<times> u64" where
  "sc_terminate_sandbox now request seq =
     (let (last_change_id, seq) = fetch_add seq
      in ([build_state_change (Some (tsr_namespace request)) None
             (TerminateSandbox \<lparr>sbe_namespace = tsr_namespace request, sbe_sandbox_id = tsr_sandbox_id request\<rparr>)
             now (tsr_sandbox_id request) last_change_id], seq))"

text \<open>\<open>create_container_pool\<close> and \<open>update_container_pool\<close> differ in the kind of change.\<close>

definition pool_change ::
  "(container_pool_event \<Rightarrow> change_type) \<Rightarrow> u64 \<Rightarrow> container_pool_request \<Rightarrow> u64 \<Rightarrow> state_change list \<times> u64" where
  "pool_change kind now request seq =
     (let (last_change_id, seq) = fetch_add seq; pool = cpr_pool request
      in ([build_state_change (Some (pool_namespace pool)) None
             (kind \<lparr>cpe_namespace = pool_namespace pool, cpe_pool_id = pool_id pool\<rparr>)
             now (pool_id pool) last_change_id], seq))"

definition sc_create_container_pool :: "u64 \<Rightarrow> container_pool_request \<Rightarrow> u64 \<Rightarrow> state_change list \<times> u64" where
  "sc_create_container_pool = pool_change CreateContainerPool"

definition sc_update_container_pool :: "u64 \<Rightarrow> container_pool_request \<Rightarrow> u64 \<Rightarrow> state_change list \<times> u64" where
  "sc_update_container_pool = pool_change UpdateContainerPool"

definition sc_delete_container_pool ::
  "u64 \<Rightarrow> delete_container_pool_request \<Rightarrow> u64 \<Rightarrow> state_change list \<times> u64" where
  "sc_delete_container_pool now request seq =
     (let (last_change_id, seq) = fetch_add seq
      in ([build_state_change (Some (dcp_namespace request)) None
             (DeleteContainerPool \<lparr>cpe_namespace = dcp_namespace request, cpe_pool_id = dcp_pool_id request\<rparr>)
             now (dcp_pool_id request) last_change_id], seq))"

fun pool_changes_loop ::
  "(nat \<Rightarrow> u64) \<Rightarrow> create_or_update_application_request \<Rightarrow> nat \<Rightarrow> container_pool list \<Rightarrow> u64 \<Rightarrow>
   state_change list \<times> u64" where
  "pool_changes_loop now request i [] seq = ([], seq)"
| "pool_changes_loop now request i (pool # pools) seq =
     (let (last_id, seq) = fetch_add seq;
          change = build_state_change (Some (cua_namespace request))
            (Some (app_name (cua_application request)))
            (CreateContainerPool \<lparr>cpe_namespace = cua_namespace request, cpe_pool_id = pool_id pool\<rparr>)
            (now i) (pool_id pool) last_id;
          (changes, seq) = pool_changes_loop now request (Suc i) pools seq
      in (change # changes, seq))"

definition sc_create_or_update_application_pools ::
  "(nat \<Rightarrow> u64) \<Rightarrow> create_or_update_application_request \<Rightarrow> u64 \<Rightarrow> state_change list \<times> u64" where
  "sc_create_or_update_application_pools now request seq =
     pool_changes_loop now request 0 (cua_container_pools request) seq"

definition sc_snapshot_sandbox :: "u64 \<Rightarrow> snapshot_sandbox_request \<Rightarrow> u64 \<Rightarrow> state_change list \<times> u64" where
  "sc_snapshot_sandbox now request seq =
     (let (last_change_id, seq) = fetch_add seq; snapshot = ssr_snapshot request
      in ([build_state_change (Some (snap_namespace snapshot)) None
             (SnapshotSandbox \<lparr>sse_namespace = snap_namespace snapshot, sse_sandbox_id = snap_sandbox_id snapshot,
                sse_snapshot_id = snap_id snapshot, sse_upload_uri = ssr_upload_uri request\<rparr>)
             now (snap_id snapshot) last_change_id], seq))"

definition sc_dataplane_results_ingested ::
  "u64 \<Rightarrow> dataplane_results_request \<Rightarrow> u64 \<Rightarrow> state_change list \<times> u64" where
  "sc_dataplane_results_ingested now request seq =
     (let (last_change_id, seq) = fetch_add seq
      in ([build_state_change None None (DataplaneResultsIngested (dpr_event request)) now
             (dre_executor_id (dpr_event request)) last_change_id], seq))"

text \<open>\<open>UpsertExecutorRequest::build\<close>\<close>

definition build_upsert_executor ::
  "u64 \<Rightarrow> executor_metadata \<Rightarrow> allocation_output list \<Rightarrow> bool \<Rightarrow> u64 \<Rightarrow> upsert_executor_request \<times> u64" where
  "build_upsert_executor now executor allocation_outputs update_executor_state seq =
     (let (changes, seq) =
        (if update_executor_state then sc_upsert_executor now (em_id executor) seq else ([], seq))
      in (\<lparr>ue_executor = executor, ue_allocation_outputs = allocation_outputs,
           ue_update_executor_state = update_executor_state, ue_state_changes = changes\<rparr>, seq))"

section \<open>The request as a whole\<close>

fun state_changes :: "(nat \<Rightarrow> u64) \<Rightarrow> request_payload \<Rightarrow> u64 \<Rightarrow> state_change list \<times> u64" where
  "state_changes now (RP_InvokeApplication request) seq = sc_invoke_application (now 0) request seq"
| "state_changes now (RP_CreateFunctionCall request) seq = sc_create_function_call (now 0) request seq"
| "state_changes now (RP_TombstoneApplication request) seq = sc_tombstone_application (now 0) request seq"
| "state_changes now (RP_TombstoneRequest request) seq = sc_tombstone_request (now 0) request seq"
| "state_changes now (RP_SchedulerUpdate update) seq = (su_new_state_changes update, seq)"
| "state_changes now (RP_DeregisterExecutor request) seq = (de_state_changes request, seq)"
| "state_changes now (RP_UpsertExecutor request) seq = (ue_state_changes request, seq)"
| "state_changes now (RP_CreateSandbox request) seq = sc_create_sandbox (now 0) request seq"
| "state_changes now (RP_TerminateSandbox request) seq = sc_terminate_sandbox (now 0) request seq"
| "state_changes now (RP_SnapshotSandbox request) seq = sc_snapshot_sandbox (now 0) request seq"
| "state_changes now (RP_CompleteSnapshot _) seq = ([], seq)"
| "state_changes now (RP_FailSnapshot _) seq = ([], seq)"
| "state_changes now (RP_DeleteSnapshot _) seq = ([], seq)"
| "state_changes now (RP_CreateContainerPool request) seq = sc_create_container_pool (now 0) request seq"
| "state_changes now (RP_UpdateContainerPool request) seq = sc_update_container_pool (now 0) request seq"
| "state_changes now (RP_TombstoneContainerPool request) seq = sc_delete_container_pool (now 0) request seq"
| "state_changes now (RP_CreateOrUpdateApplication request) seq =
     sc_create_or_update_application_pools now request seq"
| "state_changes now (RP_DataplaneResults request) seq = sc_dataplane_results_ingested (now 0) request seq"
| "state_changes now _ seq = ([], seq)"

fun payload_prepare_for_persistence :: "request_payload \<Rightarrow> u64 \<Rightarrow> request_payload" where
  "payload_prepare_for_persistence (RP_InvokeApplication req) clock =
     RP_InvokeApplication (req\<lparr>ia_ctx := req_prepare_for_persistence (ia_ctx req) clock\<rparr>)"
| "payload_prepare_for_persistence (RP_SchedulerUpdate update) clock =
     RP_SchedulerUpdate (update\<lparr>su_updated_request_states :=
       (\<lambda>k. map_option (\<lambda>ctx. req_prepare_for_persistence ctx clock) (su_updated_request_states update k))\<rparr>)"
| "payload_prepare_for_persistence payload clock = payload"

section \<open>Lemmas\<close>

text \<open>The changes a request announces take consecutive ids from the counter.\<close>

definition numbered :: "u64 \<Rightarrow> state_change list \<times> u64 \<Rightarrow> bool" where
  "numbered seq result \<longleftrightarrow>
     map sc_id (fst result) = map (\<lambda>i. seq + of_nat i) [0..<length (fst result)] \<and>
     snd result = seq + of_nat (length (fst result))"

lemma numbered_Nil [simp]: "numbered seq ([], seq)"
  by (simp add: numbered_def)

lemma numbered_single: "sc_id c = seq \<Longrightarrow> numbered seq ([c], seq + 1)"
  by (simp add: numbered_def)

lemma numbered_Cons:
  assumes "sc_id c = seq" "numbered (seq + 1) (cs, seq')"
  shows "numbered seq (c # cs, seq')"
proof -
  have "map (\<lambda>i. seq + of_nat i) [0..<Suc n] = seq # map (\<lambda>i. seq + 1 + of_nat i) [0..<n]" for n
    by (simp add: upt_conv_Cons add.assoc flip: map_Suc_upt del: upt_Suc)
  with assms show ?thesis by (simp add: numbered_def add.assoc del: upt_Suc)
qed

lemma sc_id_build [simp]: "sc_id (build_state_change ns app change t obj i) = i"
  by (simp add: build_state_change_def)

lemma numbered_pool_changes: "numbered seq (pool_changes_loop now request i pools seq)"
proof (induction pools arbitrary: i seq)
  case (Cons pool pools)
  obtain changes seq' where rest: "pool_changes_loop now request (Suc i) pools (seq + 1) = (changes, seq')" by fastforce
  have "numbered (seq + 1) (changes, seq')" using Cons [of "seq + 1" "Suc i"] rest by simp
  then show ?case by (simp add: fetch_add_def Let_def rest numbered_Cons)
qed simp

lemmas sc_defs =
  sc_invoke_application_def sc_create_function_call_def sc_tombstone_application_def
  sc_tombstone_request_def sc_create_sandbox_def sc_terminate_sandbox_def sc_snapshot_sandbox_def
  sc_create_container_pool_def sc_update_container_pool_def pool_change_def sc_delete_container_pool_def
  sc_create_or_update_application_pools_def sc_dataplane_results_ingested_def

text \<open>The three payloads that carry state changes made elsewhere.\<close>

fun carries_changes :: "request_payload \<Rightarrow> bool" where
  "carries_changes (RP_SchedulerUpdate _) = True"
| "carries_changes (RP_DeregisterExecutor _) = True"
| "carries_changes (RP_UpsertExecutor _) = True"
| "carries_changes _ = False"

section \<open>Properties\<close>

text \<open>
  State change ids.  The changes a request announces carry the consecutive ids from the counter
  on, the counter moves past them, and no two of them share an id below the counter's range; only
  scheduler updates and the two executor requests bring changes numbered before.
\<close>

theorem state_change_ids_consecutive:
  assumes "\<not> carries_changes payload" "state_changes now payload seq = (changes, seq')"
  shows "map sc_id changes = map (\<lambda>i. seq + of_nat i) [0..<length changes] \<and>
         seq' = seq + of_nat (length changes) \<and>
         (length changes < 2 ^ 64 \<longrightarrow> distinct (map sc_id changes))"
proof -
  have "numbered seq (state_changes now payload seq)"
    using assms(1)
    by (cases payload) (simp_all add: sc_defs fetch_add_def numbered_single numbered_pool_changes Let_def)
  then have "map sc_id changes = map (\<lambda>i. seq + of_nat i) [0..<length changes]"
    "seq' = seq + of_nat (length changes)"
    using assms(2) by (simp_all add: numbered_def)
  moreover have "distinct (map (\<lambda>i. seq + of_nat i) [0..<n])" if "n < 2 ^ 64" for n
  proof -
    have "inj_on (\<lambda>i. of_nat i :: u64) {0..<n}"
    proof (rule inj_onI)
      fix i j assume "i \<in> {0..<n}" "j \<in> {0..<n}" "(of_nat i :: u64) = of_nat j"
      moreover have "unat (of_nat k :: u64) = k" if "k < 2 ^ 64" for k
        using that by (simp add: unat_of_nat take_bit_nat_eq_self)
      ultimately show "i = j" using that by (metis atLeastLessThan_iff less_trans)
    qed
    then show ?thesis by (simp add: distinct_map inj_on_def)
  qed
  ultimately show ?thesis by simp
qed

theorem state_change_ids_consecutive_witness:
  "\<exists>changes. state_changes (\<lambda>_. 5) (RP_TombstoneApplication \<lparr>da_namespace = ''ns'', da_name = ''app''\<rparr>) 41 =
     (changes, 42) \<and> map sc_id changes = [41]"
proof -
  let ?p = "RP_TombstoneApplication \<lparr>da_namespace = ''ns'', da_name = ''app''\<rparr>"
  obtain changes seq' where r: "state_changes (\<lambda>_. 5) ?p 41 = (changes, seq')" by fastforce
  then have "length changes = 1" by (auto simp: sc_tombstone_application_def fetch_add_def)
  with state_change_ids_consecutive [OF _ r] r show ?thesis by simp
qed

end
