(* ===== verification/SchedulerRequests.thy ===== *)
theory SchedulerRequests
  imports ContainerLifecycle Requests
begin

text \<open>
  How \<open>ContainerScheduler\<close> applies the requests of the state machine
  (\<open>crates/server/src/processor/container_scheduler.rs\<close>): deleting applications and pools, merging
  the executor states of a scheduler update with the current ones, and the dispatch
  \<open>update_with_intents\<close>.  The iteration orders of the hash containers are the fields of \<open>orders\<close>.
\<close>

section \<open>Operations\<close>

record orders =
  ord_uris :: "function_uri set \<Rightarrow> function_uri list"
  ord_containers :: "container_id set \<Rightarrow> container_id list"
  ord_executors :: "executor_id set \<Rightarrow> executor_id list"

text \<open>The function pools of an application, and the loop that removes pools and marks them dirty.\<close>

definition application_pools :: "string \<Rightarrow> string \<Rightarrow> container_scheduler \<Rightarrow> container_pool_key set" where
  "application_pools namespace name self =
     {key \<in> dom (cs_function_pools self). fst key = namespace \<and> starts_with (name @ ''|'') (snd key)}"

definition remove_function_pools :: "container_pool_key set \<Rightarrow> container_scheduler \<Rightarrow> container_scheduler" where
  "remove_function_pools keys self =
     self\<lparr>cs_function_pools := cs_function_pools self |` (- keys),
          cs_blocked_pools := cs_blocked_pools self - keys,
          cs_dirty_pools := cs_dirty_pools self \<union> keys\<rparr>"

text \<open>
  \<open>delete_application\<close>: the first loop marks the containers and collects what the second loop needs to
  take them out of the indexes.
\<close>

type_synonym removal = "container_pool_key option \<times> function_uri \<times> container_id \<times> bool \<times> instant option"

definition delete_mark ::
  "function_uri \<times> container_id \<Rightarrow> removal list \<times> scheduler_update_request \<times> container_scheduler \<Rightarrow>
   removal list \<times> scheduler_update_request \<times> container_scheduler" where
  "delete_mark entry st =
     (let (uri, cid) = entry; (to_remove, command_update, self) = st in
      case cs_function_containers self cid of
        None \<Rightarrow> (to_remove, command_update, self)
      | Some fc \<Rightarrow>
          (let to_remove = (if \<not> desired_terminated fc
                 then to_remove @ [(csm_pool_key fc, uri, cid,
                        ct_sandbox_id (csm_function_container fc) = None, csm_idle_since fc)]
                 else to_remove);
               fc = mark_terminated fc
           in (to_remove,
               command_update\<lparr>su_containers := (su_containers command_update)(cid \<mapsto> fc)\<rparr>,
               self\<lparr>cs_function_containers := (cs_function_containers self)(cid \<mapsto> fc)\<rparr>)))"

definition delete_unindex :: "removal \<Rightarrow> container_scheduler \<Rightarrow> container_scheduler" where
  "delete_unindex removal self =
     (let (key, uri, cid, was_warm, idle_since) = removal;
          self = remove_idle cid idle_since self;
          self = (case key of
                    Some key \<Rightarrow>
                      (let self = remove_from_pool_index key cid self
                       in if was_warm then remove_from_warm_index key cid self else self)
                  | None \<Rightarrow> self);
          self = remove_from_uri_index uri cid self
      in case key of Some key \<Rightarrow> mark_pool_dirty key self | None \<Rightarrow> self)"

definition application_entries ::
  "orders \<Rightarrow> string \<Rightarrow> string \<Rightarrow> container_scheduler \<Rightarrow> (function_uri \<times> container_id) list" where
  "application_entries ord namespace name self =
     concat (map (\<lambda>uri. map (Pair uri) (ord_containers ord (idx_get (cs_containers_by_function_uri self) uri)))
       (ord_uris ord {uri \<in> dom (cs_containers_by_function_uri self).
                       uri_namespace uri = namespace \<and> uri_application uri = name}))"

definition delete_application ::
  "orders \<Rightarrow> string \<Rightarrow> string \<Rightarrow> container_scheduler \<Rightarrow> scheduler_update_request \<times> container_scheduler" where
  "delete_application ord namespace name self =
     (let (to_remove, command_update, self) =
            fold delete_mark (application_entries ord namespace name self) ([], default_update, self);
          self = fold delete_unindex to_remove self
      in (command_update, remove_function_pools (application_pools namespace name self) self))"

text \<open>\<open>delete_container_pool\<close>: \<open>fn_uris\<close> are the warm containers that are not terminated yet.\<close>

definition delete_container_pool ::
  "orders \<Rightarrow> string \<Rightarrow> container_pool_id \<Rightarrow> container_scheduler \<Rightarrow> scheduler_update_request \<times> container_scheduler" where
  "delete_container_pool ord namespace pid self =
     (let key = container_pool_key_new namespace pid;
          warm_ids = (case cs_warm_containers_by_pool self key of Some ids \<Rightarrow> ord_containers ord ids | None \<Rightarrow> []);
          fn_uris = concat (map (\<lambda>cid.
            case cs_function_containers self cid of
              Some fc \<Rightarrow> if \<not> desired_terminated fc then [(cid, csm_uri fc, csm_idle_since fc)] else []
            | None \<Rightarrow> []) warm_ids);
          (command_update, self) =
            fold (\<lambda>(cid, _, _) (u, self).
                case cs_function_containers self cid of
                  None \<Rightarrow> (u, self)
                | Some fc \<Rightarrow>
                    (u\<lparr>su_containers := (su_containers u)(cid \<mapsto> mark_terminated fc)\<rparr>,
                     self\<lparr>cs_function_containers := (cs_function_containers self)(cid \<mapsto> mark_terminated fc)\<rparr>))
              fn_uris (default_update, self);
          self = fold (\<lambda>(cid, _, idle_since). remove_idle cid idle_since) fn_uris self;
          self = self\<lparr>cs_warm_containers_by_pool := (cs_warm_containers_by_pool self)(key := None)\<rparr>;
          self = (case cs_containers_by_pool self key of
                    None \<Rightarrow> self
                  | Some pool_ids \<Rightarrow>
                      (let pool_ids = pool_ids - set warm_ids
                       in self\<lparr>cs_containers_by_pool := (cs_containers_by_pool self)
                            (key := if pool_ids = {} then None else Some pool_ids)\<rparr>));
          self = fold (\<lambda>(cid, uri, _). remove_from_uri_index uri cid) fn_uris self
      in (command_update, mark_pool_dirty key self))"

section \<open>Scheduler updates\<close>

text \<open>
  One container of the old executor state that the update does not mention: it is dropped when the
  update terminates it, otherwise it is kept with its claim.
\<close>

definition merge_container ::
  "scheduler_update_request \<Rightarrow> executor_server_metadata \<Rightarrow> container_id \<Rightarrow>
   executor_server_metadata \<times> container_id list \<Rightarrow> executor_server_metadata \<times> container_id list" where
  "merge_container update old_state cid st =
     (let (merged, dropped) = st in
      if cid \<in> esm_function_container_ids merged then st
      else
        let being_terminated = (case su_containers update cid of Some c \<Rightarrow> desired_terminated c | None \<Rightarrow> False)
        in if \<not> being_terminated
           then (let merged = merged\<lparr>esm_function_container_ids := insert cid (esm_function_container_ids merged)\<rparr>
                 in case esm_resource_claims old_state cid of
                      Some claim \<Rightarrow>
                        if esm_resource_claims merged cid = None
                        then (merged\<lparr>esm_resource_claims := (esm_resource_claims merged)(cid \<mapsto> claim),
                                esm_free_resources := force_consume_fe_resources (esm_free_resources merged) claim\<rparr>,
                              dropped)
                        else (merged, dropped)
                    | None \<Rightarrow> (merged, dropped))
           else (merged, dropped @ [cid]))"

definition merge_executor_state ::
  "orders \<Rightarrow> scheduler_update_request \<Rightarrow> executor_server_metadata option \<Rightarrow> executor_server_metadata \<Rightarrow>
   container_id list \<Rightarrow> executor_server_metadata \<times> container_id list" where
  "merge_executor_state ord update old new_state dropped =
     (case old of
        Some old_state \<Rightarrow>
          fold (merge_container update old_state) (ord_containers ord (esm_function_container_ids old_state))
            (new_state, dropped)
      | None \<Rightarrow> (new_state, dropped))"

definition merge_executor ::
  "orders \<Rightarrow> scheduler_update_request \<Rightarrow> executor_id \<Rightarrow> container_id list \<times> container_scheduler \<Rightarrow>
   container_id list \<times> container_scheduler" where
  "merge_executor ord update eid st =
     (let (dropped, self) = st;
          (merged, dropped) = merge_executor_state ord update (cs_executor_states self eid)
             (the (su_updated_executor_states update eid)) dropped
      in (dropped, set_executor_state eid merged self))"

definition remove_executor ::
  "orders \<Rightarrow> executor_id \<Rightarrow> container_scheduler \<Rightarrow> container_scheduler" where
  "remove_executor ord eid self =
     (let self = (case cs_executor_states self eid of
                    Some old_state \<Rightarrow>
                      fold remove_container_from_indices
                        (ord_containers ord (esm_function_container_ids old_state)) self
                  | None \<Rightarrow> self)
      in remove_executor_state eid self)"

definition update_scheduler_update ::
  "orders \<Rightarrow> scheduler_update_request \<Rightarrow> container_scheduler \<Rightarrow> container_scheduler" where
  "update_scheduler_update ord update self =
     (let (dropped, self) = fold (merge_executor ord update)
            (ord_executors ord (dom (su_updated_executor_states update))) ([], self);
          self = fold (\<lambda>cid self. if cid \<in> set dropped then self
                         else update_container_indices cid (the (su_containers update cid)) self)
                   (ord_containers ord (dom (su_containers update))) self;
          self = fold remove_container_from_indices dropped self;
          self = fold (remove_executor ord) (su_remove_executors update) self
      in self\<lparr>cs_blocked_pools := cs_blocked_pools self \<union> su_newly_blocked_pools update\<rparr>)"

section \<open>Dispatch\<close>

definition set_pool :: "container_pool \<Rightarrow> container_scheduler \<Rightarrow> container_scheduler" where
  "set_pool pool self = mark_pool_dirty (pool_key pool) (pool_map_insert pool (pool_key pool) self)"

fun update_with_intents ::
  "orders \<Rightarrow> request_payload \<Rightarrow> container_scheduler \<Rightarrow> scheduler_update_request \<times> container_scheduler" where
  "update_with_intents ord (RP_UpsertExecutor request) self =
     (default_update, upsert_executor (ue_executor request) self)"
| "update_with_intents ord (RP_DeleteApplicationRequest request) self =
     (let (u, self) = delete_application ord (da_namespace request) (da_name request) self
      in (extend_update default_update u, self))"
| "update_with_intents ord (RP_SchedulerUpdate update) self =
     (default_update, update_scheduler_update ord update self)"
| "update_with_intents ord (RP_DeregisterExecutor request) self =
     (default_update, deregister_executor (de_executor_id request) self)"
| "update_with_intents ord (RP_CreateContainerPool request) self = (default_update, set_pool (cpr_pool request) self)"
| "update_with_intents ord (RP_UpdateContainerPool request) self = (default_update, set_pool (cpr_pool request) self)"
| "update_with_intents ord (RP_TombstoneContainerPool request) self =
     (let key = container_pool_key_new (dcp_namespace request) (dcp_pool_id request)
      in (default_update,
          mark_pool_dirty key
            (self\<lparr>cs_function_pools := (cs_function_pools self)(key := None),
                  cs_sandbox_pools := (cs_sandbox_pools self)(key := None)\<rparr>)))"
| "update_with_intents ord (RP_DeleteContainerPool request) self =
     (let (u, self) = delete_container_pool ord (dcp_namespace request) (dcp_pool_id request) self
      in (extend_update default_update u, self))"
| "update_with_intents ord (RP_CreateOrUpdateApplication req) self =
     (if cua_container_pools req \<noteq> []
      then (let self = remove_function_pools
                  (application_pools (cua_namespace req) (app_name (cua_application req)) self) self
            in (default_update,
                fold (\<lambda>pool self. mark_pool_dirty (pool_key pool)
                       (self\<lparr>cs_function_pools := (cs_function_pools self)(pool_key pool \<mapsto> pool)\<rparr>))
                  (cua_container_pools req) self))
      else (default_update, self))"
| "update_with_intents ord _ self = (default_update, self)"

section \<open>Lemmas\<close>

declare split_paired_All [simp del] split_paired_Ex [simp del]

text \<open>What iterating a hash container promises.\<close>

definition orders_ok :: "orders \<Rightarrow> bool" where
  "orders_ok ord \<longleftrightarrow>
     enumerates (ord_uris ord) \<and> enumerates (ord_containers ord) \<and> enumerates (ord_executors ord)"

lemma live_Some: "live s cid = Some fc \<longleftrightarrow> cs_function_containers s cid = Some fc \<and> \<not> desired_terminated fc"
  by (auto simp: live_def split: option.splits)

lemma index_uri_iff:
  assumes "containers_ok s"
  shows "cid \<in> idx_get (cs_containers_by_function_uri s) u \<longleftrightarrow> (\<exists>fc. live s cid = Some fc \<and> csm_uri fc = u)"
  using assms by (auto simp: containers_ok_def indexed_ok_def)

lemma index_warm_iff:
  assumes "containers_ok s"
  shows "cid \<in> idx_get (cs_warm_containers_by_pool s) k \<longleftrightarrow>
    (\<exists>fc. live s cid = Some fc \<and> is_warm fc \<and> csm_pool_key fc = Some k)"
  using assms by (cases "live s cid") (auto simp: containers_ok_def indexed_ok_def)

lemma finite_uri_index:
  assumes "containers_ok s" "finite (dom (cs_function_containers s))"
  shows "finite (idx_get (cs_containers_by_function_uri s) u)" "finite (dom (cs_containers_by_function_uri s))"
proof -
  show "finite (idx_get (cs_containers_by_function_uri s) u)"
    by (rule finite_subset [OF _ assms(2)]) (auto simp: index_uri_iff [OF assms(1)] live_Some)
  have "dom (cs_containers_by_function_uri s) \<subseteq> (\<lambda>cid. csm_uri (the (live s cid))) ` dom (cs_function_containers s)"
  proof
    fix u assume u: "u \<in> dom (cs_containers_by_function_uri s)"
    have "idx_tidy (cs_containers_by_function_uri s)" using assms(1) by (simp add: containers_ok_def)
    from u idx_tidy_get [OF this, of u] obtain cid where "cid \<in> idx_get (cs_containers_by_function_uri s) u"
      by (auto split: if_splits)
    then show "u \<in> (\<lambda>cid. csm_uri (the (live s cid))) ` dom (cs_function_containers s)"
      by (auto simp: index_uri_iff [OF assms(1)] live_Some intro!: image_eqI [of _ _ cid])
        (simp add: live_def)
  qed
  then show "finite (dom (cs_containers_by_function_uri s))"
    using assms(2) finite_surj by blast
qed

subsection \<open>Deleting an application\<close>

lemma delete_unindex_containers:
  "delete_unindex r (s\<lparr>cs_function_containers := f\<rparr>) = (delete_unindex r s)\<lparr>cs_function_containers := f\<rparr>"
  by (simp add: delete_unindex_def remove_idle_def remove_from_pool_index_def remove_from_warm_index_def
      remove_from_uri_index_def mark_pool_dirty_def Let_def split: prod.split option.split)

lemma fold_delete_unindex_containers:
  "fold delete_unindex rs (s\<lparr>cs_function_containers := f\<rparr>) =
     (fold delete_unindex rs s)\<lparr>cs_function_containers := f\<rparr>"
  by (induction rs arbitrary: s) (simp_all add: delete_unindex_containers)

lemma delete_unindex_same_containers [simp]:
  "cs_function_containers (delete_unindex r s) = cs_function_containers s"
  by (simp add: delete_unindex_def remove_idle_def remove_from_pool_index_def remove_from_warm_index_def
      remove_from_uri_index_def mark_pool_dirty_def Let_def split: prod.split option.split)

lemma fold_delete_unindex_same [simp]:
  "cs_function_containers (fold delete_unindex rs s) = cs_function_containers s"
  by (induction rs arbitrary: s) simp_all

lemma executor_view_delete_unindex [simp]: "executor_view (delete_unindex r s) = executor_view s"
  by (simp add: delete_unindex_def Let_def split: prod.split option.split)

lemma executor_view_fold_delete_unindex [simp]: "executor_view (fold delete_unindex rs s) = executor_view s"
  by (induction rs arbitrary: s) simp_all

lemma remove_unwarm:
  assumes "idx_tidy m" "v \<notin> idx_get m k"
  shows "idx_remove k v m = m"
  using assms by (intro idx_tidy_eqI) auto

text \<open>Taking a live container out of the indexes and marking it.\<close>

lemma containers_ok_delete_live:
  assumes ok: "containers_ok s" and fc: "cs_function_containers s cid = Some fc" "\<not> desired_terminated fc"
  shows "containers_ok ((delete_unindex (csm_pool_key fc, csm_uri fc, cid,
      ct_sandbox_id (csm_function_container fc) = None, csm_idle_since fc) s)
      \<lparr>cs_function_containers := (cs_function_containers s)(cid \<mapsto> mark_terminated fc)\<rparr>)"
proof (rule containers_ok_unindex [OF ok fc(1), where new = "Some (mark_terminated fc)"])
  have "cid \<notin> idx_get (cs_warm_containers_by_pool s) k" if "\<not> is_warm fc" for k
    using indexed_okD(4) [OF _ fc(1), of k] ok that by (auto simp: containers_ok_def)
  then have "idx_remove k cid (cs_warm_containers_by_pool s) = cs_warm_containers_by_pool s" if "\<not> is_warm fc" for k
    using ok that by (intro remove_unwarm) (auto simp: containers_ok_def)
  then show "container_view ((delete_unindex (csm_pool_key fc, csm_uri fc, cid,
      ct_sandbox_id (csm_function_container fc) = None, csm_idle_since fc) s)
      \<lparr>cs_function_containers := (cs_function_containers s)(cid \<mapsto> mark_terminated fc)\<rparr>) =
    container_view ((unindex cid fc s)\<lparr>cs_function_containers :=
      (cs_function_containers s)(cid := Some (mark_terminated fc))\<rparr>)"
    by (auto simp: container_view_def delete_unindex_def unindex_def remove_idle_def
        remove_from_pool_index_def remove_from_warm_index_def remove_from_uri_index_def mark_pool_dirty_def
        is_warm_def Let_def split: option.split)
qed simp

text \<open>Marking a terminated container again.\<close>

lemma containers_ok_remark:
  assumes ok: "containers_ok s" and fc: "cs_function_containers s cid = Some fc" "desired_terminated fc"
  shows "containers_ok (s\<lparr>cs_function_containers := (cs_function_containers s)(cid \<mapsto> mark_terminated fc)\<rparr>)"
proof -
  have "live (s\<lparr>cs_function_containers := (cs_function_containers s)(cid \<mapsto> mark_terminated fc)\<rparr>) = live s"
    using fc by (auto simp: live_def fun_eq_iff)
  then show ?thesis using ok by (simp add: containers_ok_def indexed_ok_def)
qed

lemma delete_mark_None:
  "cs_function_containers s cid = None \<Longrightarrow> delete_mark (uri, cid) (rs, u, s) = (rs, u, s)"
  by (simp add: delete_mark_def)

lemma delete_mark_Some:
  "cs_function_containers s cid = Some fc \<Longrightarrow> delete_mark (uri, cid) (rs, u, s) =
     (if desired_terminated fc then rs
      else rs @ [(csm_pool_key fc, uri, cid, ct_sandbox_id (csm_function_container fc) = None, csm_idle_since fc)],
      u\<lparr>su_containers := (su_containers u)(cid \<mapsto> mark_terminated fc)\<rparr>,
      s\<lparr>cs_function_containers := (cs_function_containers s)(cid \<mapsto> mark_terminated fc)\<rparr>)"
  by (simp add: delete_mark_def Let_def)

text \<open>The state the two loops together lead to stays consistent throughout the first.\<close>

lemma fold_delete_mark:
  assumes "containers_ok (fold delete_unindex rs s)"
    and "\<forall>(uri, cid) \<in> set es. \<forall>fc. cs_function_containers s cid = Some fc \<longrightarrow> csm_uri fc = uri"
    and "fold delete_mark es (rs, u, s) = (rs', u', s')"
  shows "containers_ok (fold delete_unindex rs' s') \<and> executor_view s' = executor_view s \<and>
    cs_function_containers s' = (\<lambda>cid. if cid \<in> snd ` set es
      then map_option mark_terminated (cs_function_containers s cid) else cs_function_containers s cid)"
  using assms
proof (induction es arbitrary: rs u s)
  case Nil
  then show ?case by simp
next
  case (Cons e es)
  obtain uri cid where e: "e = (uri, cid)" by fastforce
  let ?G = "fold delete_unindex rs s"
  show ?case
  proof (cases "cs_function_containers s cid")
    case None
    then have "fold delete_mark es (rs, u, s) = (rs', u', s')"
      using Cons.prems(3) by (simp add: e delete_mark_None)
    from Cons.IH [OF Cons.prems(1) _ this] Cons.prems(2) None show ?thesis
      by (auto simp: e fun_eq_iff)
  next
    case (Some fc)
    let ?f = "(cs_function_containers s)(cid \<mapsto> mark_terminated fc)"
    let ?s1 = "s\<lparr>cs_function_containers := ?f\<rparr>"
    let ?u1 = "u\<lparr>su_containers := (su_containers u)(cid \<mapsto> mark_terminated fc)\<rparr>"
    let ?r = "(csm_pool_key fc, csm_uri fc, cid, ct_sandbox_id (csm_function_container fc) = None, csm_idle_since fc)"
    let ?rs1 = "if desired_terminated fc then rs else rs @ [?r]"
    have uri: "uri = csm_uri fc" using Cons.prems(2) Some by (auto simp: e)
    have step: "fold delete_mark es (?rs1, ?u1, ?s1) = (rs', u', s')"
      using Cons.prems(3) by (simp only: e uri fold_simps delete_mark_Some [OF Some])
    have G: "cs_function_containers ?G = cs_function_containers s" by simp
    have "containers_ok (fold delete_unindex ?rs1 ?s1)"
      using containers_ok_delete_live [OF Cons.prems(1), of cid fc] containers_ok_remark [OF Cons.prems(1), of cid fc] Some
      by (simp add: fold_delete_unindex_containers delete_unindex_containers)
    moreover have "csm_uri fc' = uri'"
      if "(uri', cid') \<in> set es" "cs_function_containers ?s1 cid' = Some fc'" for uri' cid' fc'
      using Cons.prems(2) Some that
      by (cases "cid' = cid") (auto simp: csm_uri_def mark_terminated_def)
    then have "\<forall>(uri, cid) \<in> set es. \<forall>fc. cs_function_containers ?s1 cid = Some fc \<longrightarrow> csm_uri fc = uri"
      by blast
    ultimately have IH: "containers_ok (fold delete_unindex rs' s') \<and> executor_view s' = executor_view ?s1 \<and>
      cs_function_containers s' = (\<lambda>cid. if cid \<in> snd ` set es
        then map_option mark_terminated (cs_function_containers ?s1 cid) else cs_function_containers ?s1 cid)"
      using Cons.IH step by blast
    then show ?thesis using Some by (auto simp: e fun_eq_iff mark_terminated_def)
  qed
qed

definition of_application :: "string \<Rightarrow> string \<Rightarrow> container_server_metadata \<Rightarrow> bool" where
  "of_application namespace name fc \<longleftrightarrow> uri_namespace (csm_uri fc) = namespace \<and> uri_application (csm_uri fc) = name"

lemma set_application_entries:
  assumes "containers_ok s" "finite (dom (cs_function_containers s))" "orders_ok ord"
  shows "set (application_entries ord namespace name s) =
    {(csm_uri fc, cid) |cid fc. live s cid = Some fc \<and> of_application namespace name fc}"
proof -
  have ids: "set (ord_containers ord (idx_get (cs_containers_by_function_uri s) u)) =
      idx_get (cs_containers_by_function_uri s) u" for u
    using assms(3) finite_uri_index(1) [OF assms(1,2)] by (simp add: orders_ok_def enumerates_def)
  let ?U = "{uri \<in> dom (cs_containers_by_function_uri s).
      uri_namespace uri = namespace \<and> uri_application uri = name}"
  have "finite ?U" using finite_uri_index(2) [OF assms(1,2)] by simp
  then have uris: "set (ord_uris ord ?U) = ?U" using assms(3) by (simp add: orders_ok_def enumerates_def)
  have "u \<in> dom (cs_containers_by_function_uri s)" if "cid \<in> idx_get (cs_containers_by_function_uri s) u" for cid u
    using that by (auto simp: idx_get_def split: option.splits)
  then have "set (application_entries ord namespace name s) =
      {(u, cid) |u cid. cid \<in> idx_get (cs_containers_by_function_uri s) u \<and>
         uri_namespace u = namespace \<and> uri_application u = name}"
    unfolding application_entries_def set_concat set_map image_image uris ids by blast
  then show ?thesis by (auto simp: index_uri_iff [OF assms(1)] of_application_def)
qed

lemma delete_application_effect:
  assumes ok: "containers_ok s" and fin: "finite (dom (cs_function_containers s))" and ord: "orders_ok ord"
    and del: "delete_application ord namespace name s = (u', s')"
  shows "containers_ok s' \<and> executor_view s' = executor_view s \<and>
    cs_function_containers s' = (\<lambda>cid. case live s cid of
        Some fc \<Rightarrow> if of_application namespace name fc then Some (mark_terminated fc) else Some fc
      | None \<Rightarrow> cs_function_containers s cid)"
proof -
  let ?es = "application_entries ord namespace name s"
  obtain rs u t where loop: "fold delete_mark ?es ([], default_update, s) = (rs, u, t)"
    by (metis prod_cases3)
  note es = set_application_entries [OF ok fin ord, of namespace name]
  have "\<forall>(uri, cid) \<in> set ?es. \<forall>fc. cs_function_containers s cid = Some fc \<longrightarrow> csm_uri fc = uri"
    by (auto simp: es live_Some)
  from fold_delete_mark [OF _ this loop] ok
  have R: "containers_ok (fold delete_unindex rs t)" "executor_view t = executor_view s"
    "cs_function_containers t = (\<lambda>cid. if cid \<in> snd ` set ?es
        then map_option mark_terminated (cs_function_containers s cid) else cs_function_containers s cid)"
    by simp_all
  have s': "s' = remove_function_pools (application_pools namespace name (fold delete_unindex rs t))
      (fold delete_unindex rs t)"
    using del by (simp add: delete_application_def loop Let_def)
  have "cid \<in> snd ` set ?es \<longleftrightarrow> (\<exists>fc. live s cid = Some fc \<and> of_application namespace name fc)" for cid
    by (force simp: es)
  then have "cs_function_containers s' = (\<lambda>cid. case live s cid of
        Some fc \<Rightarrow> if of_application namespace name fc then Some (mark_terminated fc) else Some fc
      | None \<Rightarrow> cs_function_containers s cid)"
    by (auto simp: s' remove_function_pools_def R(3) fun_eq_iff split: option.split
        dest: live_Some [THEN iffD1])
  moreover have "container_view s' = container_view (fold delete_unindex rs t)"
    by (simp add: s' remove_function_pools_def container_view_def)
  moreover have "executor_view s' = executor_view s"
    by (simp add: s' remove_function_pools_def executor_view_def R(2) [unfolded executor_view_def]
        executor_view_fold_delete_unindex [unfolded executor_view_def])
  ultimately show ?thesis using R(1) containers_ok_view by blast
qed

subsection \<open>Deleting a pool\<close>

text \<open>The loops of \<open>delete_container_pool\<close> in closed form.\<close>

lemma fold_pool_mark:
  "snd (fold (\<lambda>(cid, _, _) (u, self).
      case cs_function_containers self cid of
        None \<Rightarrow> (u, self)
      | Some fc \<Rightarrow> (u\<lparr>su_containers := (su_containers u)(cid \<mapsto> mark_terminated fc)\<rparr>,
          self\<lparr>cs_function_containers := (cs_function_containers self)(cid \<mapsto> mark_terminated fc)\<rparr>)) xs (u, s)) =
     s\<lparr>cs_function_containers := (\<lambda>cid. if cid \<in> fst ` set xs
         then map_option mark_terminated (cs_function_containers s cid) else cs_function_containers s cid)\<rparr>"
proof (induction xs arbitrary: u s)
  case Nil
  then show ?case by simp
next
  case (Cons x xs)
  obtain cid a b where x: "x = (cid, a, b)" by (metis prod_cases3)
  let ?F = "\<lambda>s xs cid. if cid \<in> fst ` set xs
      then map_option mark_terminated (cs_function_containers s cid) else cs_function_containers s cid"
  show ?case
  proof (cases "cs_function_containers s cid")
    case None
    then have "?F s xs = ?F s (x # xs)" by (auto simp: x fun_eq_iff)
    then show ?thesis using Cons [of u s] None by (simp add: x)
  next
    case (Some fc)
    let ?u = "u\<lparr>su_containers := (su_containers u)(cid \<mapsto> mark_terminated fc)\<rparr>"
    let ?s = "s\<lparr>cs_function_containers := (cs_function_containers s)(cid \<mapsto> mark_terminated fc)\<rparr>"
    have F: "?F ?s xs = ?F s (x # xs)" using Some by (auto simp: x fun_eq_iff mark_terminated_def)
    have "?s\<lparr>cs_function_containers := ?F ?s xs\<rparr> = s\<lparr>cs_function_containers := ?F s (x # xs)\<rparr>"
      unfolding F by simp
    then show ?thesis using Cons [of ?u ?s] Some by (simp add: x)
  qed
qed

lemma fold_pool_idle:
  "fold (\<lambda>(cid, _, t). remove_idle cid t) xs s =
     s\<lparr>cs_idle_containers := cs_idle_containers s - {(t, cid). \<exists>u. (cid, u, Some t) \<in> set xs}\<rparr>"
proof (induction xs arbitrary: s)
  case (Cons x xs)
  obtain cid u t where x: "x = (cid, u, t)" by (metis prod_cases3)
  show ?case
  proof (cases t)
    case None
    then show ?thesis using Cons [of s] by (simp add: x remove_idle_def)
  next
    case (Some t')
    have "cs_idle_containers s - {(t', cid)} - {(t, cid). \<exists>u. (cid, u, Some t) \<in> set xs} =
        cs_idle_containers s - {(t, cid). \<exists>u. (cid, u, Some t) \<in> set (x # xs)}"
      by (auto simp: x Some)
    then show ?thesis using Cons [of "remove_idle cid t s"] by (simp add: x Some remove_idle_def)
  qed
qed simp

lemma fold_pool_uris:
  "(\<forall>u. idx_get (cs_containers_by_function_uri (fold (\<lambda>(cid, uri, _). remove_from_uri_index uri cid) xs s)) u =
      idx_get (cs_containers_by_function_uri s) u - {cid. \<exists>t. (cid, u, t) \<in> set xs}) \<and>
   (idx_tidy (cs_containers_by_function_uri s) \<longrightarrow>
      idx_tidy (cs_containers_by_function_uri (fold (\<lambda>(cid, uri, _). remove_from_uri_index uri cid) xs s))) \<and>
   cs_containers_by_pool (fold (\<lambda>(cid, uri, _). remove_from_uri_index uri cid) xs s) = cs_containers_by_pool s \<and>
   cs_warm_containers_by_pool (fold (\<lambda>(cid, uri, _). remove_from_uri_index uri cid) xs s) = cs_warm_containers_by_pool s \<and>
   cs_idle_containers (fold (\<lambda>(cid, uri, _). remove_from_uri_index uri cid) xs s) = cs_idle_containers s \<and>
   cs_function_containers (fold (\<lambda>(cid, uri, _). remove_from_uri_index uri cid) xs s) = cs_function_containers s \<and>
   executor_view (fold (\<lambda>(cid, uri, _). remove_from_uri_index uri cid) xs s) = executor_view s"
proof (induction xs arbitrary: s)
  case (Cons x xs)
  obtain cid u t where x: "x = (cid, u, t)" by (metis prod_cases3)
  show ?case using Cons [of "remove_from_uri_index u cid s"]
    by (auto simp: x remove_from_uri_index_def)
qed simp

text \<open>
  Taking a set \<open>W\<close> of warm containers of a pool out of all indexes, at the keys their metadata name,
  and terminating them.
\<close>

lemma containers_ok_drop_warm:
  assumes ok: "containers_ok s" and W: "W = idx_get (cs_warm_containers_by_pool s) key"
    and uri: "idx_tidy (cs_containers_by_function_uri s')"
      "\<forall>u. idx_get (cs_containers_by_function_uri s') u = idx_get (cs_containers_by_function_uri s) u - W"
    and pool: "idx_tidy (cs_containers_by_pool s')"
      "\<forall>k. idx_get (cs_containers_by_pool s') k = idx_get (cs_containers_by_pool s) k - W"
    and warm: "cs_warm_containers_by_pool s' = (cs_warm_containers_by_pool s)(key := None)"
    and idle: "cs_idle_containers s' = cs_idle_containers s - UNIV \<times> W"
    and fcs: "cs_function_containers s' = (\<lambda>cid. if cid \<in> W
      then map_option mark_terminated (cs_function_containers s cid) else cs_function_containers s cid)"
  shows "containers_ok s'"
proof -
  have "\<forall>k. cid \<in> idx_get (cs_warm_containers_by_pool s) k \<longrightarrow> k = key" if "cid \<in> W" for cid
    using that ok by (auto simp: W index_warm_iff)
  then have warm': "\<forall>k. idx_get (cs_warm_containers_by_pool s') k = idx_get (cs_warm_containers_by_pool s) k - W"
    unfolding warm by (auto simp: W idx_get_def split: option.splits)
  have "indexed_ok s' cid" for cid
  proof (cases "cid \<in> W")
    case True
    then have "live s' cid = None" by (cases "cs_function_containers s cid") (simp_all add: live_def fcs)
    with True show ?thesis by (simp add: indexed_ok_def uri pool warm' idle)
  next
    case False
    then have "live s' cid = live s cid" by (simp add: live_def fcs)
    moreover have "indexed_ok s cid" using ok by (simp add: containers_ok_def)
    ultimately show ?thesis using False by (simp add: indexed_ok_def uri pool warm' idle)
  qed
  moreover have "idx_tidy (cs_warm_containers_by_pool s')" using ok by (simp add: warm containers_ok_def)
  ultimately show ?thesis using uri(1) pool(1) by (simp add: containers_ok_def)
qed

lemma pool_index_drop:
  assumes "idx_tidy m"
  shows "idx_tidy (m(k := if ids - W = {} then None else Some (ids - W)))"
    and "m k = Some ids \<Longrightarrow> (\<forall>k'. k' \<noteq> k \<longrightarrow> idx_get m k' \<inter> W = {}) \<Longrightarrow>
      \<forall>k'. idx_get (m(k := if ids - W = {} then None else Some (ids - W))) k' = idx_get m k' - W"
  using assms by (auto simp: idx_tidy_def idx_get_def)

lemma warm_members:
  assumes ok: "containers_ok s" and "cid \<in> idx_get (cs_warm_containers_by_pool s) key"
  shows "\<exists>fc. cs_function_containers s cid = Some fc \<and> \<not> desired_terminated fc \<and>
    (\<forall>u. cid \<in> idx_get (cs_containers_by_function_uri s) u \<longleftrightarrow> u = csm_uri fc) \<and>
    (\<forall>k. cid \<in> idx_get (cs_containers_by_pool s) k \<longleftrightarrow> k = key) \<and>
    (\<forall>t. (t, cid) \<in> cs_idle_containers s \<longrightarrow> csm_idle_since fc = Some t)"
proof -
  obtain fc where fc: "live s cid = Some fc" "csm_pool_key fc = Some key"
    using assms by (auto simp: index_warm_iff)
  have I: "indexed_ok s cid" using ok by (simp add: containers_ok_def)
  have "\<forall>t. (t, cid) \<in> cs_idle_containers s \<longrightarrow> csm_idle_since fc = Some t"
    using indexed_okD(5) [OF I] fc(1) by (simp add: live_Some)
  moreover have "\<forall>u. cid \<in> idx_get (cs_containers_by_function_uri s) u \<longleftrightarrow> u = csm_uri fc"
    "\<forall>k. cid \<in> idx_get (cs_containers_by_pool s) k \<longleftrightarrow> k = key"
    using I fc by (auto simp: indexed_ok_def)
  ultimately show ?thesis using fc(1) by (simp add: live_Some)
qed

text \<open>\<open>delete_container_pool\<close> with its loops in closed form, when every warm container is live.\<close>

lemma delete_container_pool_eq:
  assumes key: "key = container_pool_key_new namespace pid"
    and ids: "warm_ids = (case cs_warm_containers_by_pool s key of Some ids \<Rightarrow> ord_containers ord ids | None \<Rightarrow> [])"
    and live: "\<forall>cid \<in> set warm_ids. cs_function_containers s cid = Some (F cid) \<and> \<not> desired_terminated (F cid)"
    and xs: "xs = map (\<lambda>cid. (cid, csm_uri (F cid), csm_idle_since (F cid))) warm_ids"
  shows "snd (delete_container_pool ord namespace pid s) = mark_pool_dirty key
    (fold (\<lambda>(cid, uri, _). remove_from_uri_index uri cid) xs
      (s\<lparr>cs_function_containers := (\<lambda>cid. if cid \<in> set warm_ids
           then map_option mark_terminated (cs_function_containers s cid) else cs_function_containers s cid),
         cs_idle_containers := cs_idle_containers s - {(t, cid). \<exists>u. (cid, u, Some t) \<in> set xs},
         cs_warm_containers_by_pool := (cs_warm_containers_by_pool s)(key := None),
         cs_containers_by_pool := (case cs_containers_by_pool s key of None \<Rightarrow> cs_containers_by_pool s
           | Some ids \<Rightarrow> (cs_containers_by_pool s)
               (key := if ids - set warm_ids = {} then None else Some (ids - set warm_ids)))\<rparr>))"
proof -
  have "concat (map (\<lambda>cid. case cs_function_containers s cid of
      Some fc \<Rightarrow> if \<not> desired_terminated fc then [(cid, csm_uri fc, csm_idle_since fc)] else []
    | None \<Rightarrow> []) warm_ids) = concat (map (\<lambda>cid. [(cid, csm_uri (F cid), csm_idle_since (F cid))]) warm_ids)"
    using live by (intro arg_cong [where f = concat] map_cong) auto
  then have xs': "concat (map (\<lambda>cid. case cs_function_containers s cid of
      Some fc \<Rightarrow> if \<not> desired_terminated fc then [(cid, csm_uri fc, csm_idle_since fc)] else []
    | None \<Rightarrow> []) warm_ids) = xs" by (simp add: xs concat_map_singleton)
  have fst_xs: "fst ` set xs = set warm_ids" by (force simp: xs)
  show ?thesis
    unfolding delete_container_pool_def Let_def key [symmetric] ids [symmetric] xs' split_beta snd_conv
      fold_pool_mark [unfolded split_beta] fst_xs fold_pool_idle [unfolded split_beta]
    by (cases "cs_containers_by_pool s key") simp_all
qed

lemma delete_container_pool_effect:
  assumes ok: "containers_ok s" and fin: "finite (dom (cs_function_containers s))" and ord: "orders_ok ord"
    and key: "key = container_pool_key_new namespace pid"
    and W: "W = idx_get (cs_warm_containers_by_pool s) key"
    and del: "s' = snd (delete_container_pool ord namespace pid s)"
  shows "containers_ok s' \<and> executor_view s' = executor_view s \<and>
    cs_function_containers s' = (\<lambda>cid. if cid \<in> W
      then map_option mark_terminated (cs_function_containers s cid) else cs_function_containers s cid)"
proof -
  define warm_ids where "warm_ids = (case cs_warm_containers_by_pool s key of
      Some ids \<Rightarrow> ord_containers ord ids | None \<Rightarrow> [])"
  have "\<exists>F. \<forall>cid \<in> W. cs_function_containers s cid = Some (F cid) \<and> \<not> desired_terminated (F cid) \<and>
    (\<forall>u. cid \<in> idx_get (cs_containers_by_function_uri s) u \<longleftrightarrow> u = csm_uri (F cid)) \<and>
    (\<forall>k. cid \<in> idx_get (cs_containers_by_pool s) k \<longleftrightarrow> k = key) \<and>
    (\<forall>t. (t, cid) \<in> cs_idle_containers s \<longrightarrow> csm_idle_since (F cid) = Some t)"
    using warm_members [OF ok] W by (intro bchoice ballI) blast
  then obtain F where F: "\<forall>cid \<in> W. cs_function_containers s cid = Some (F cid) \<and> \<not> desired_terminated (F cid)"
    "\<forall>cid \<in> W. \<forall>u. cid \<in> idx_get (cs_containers_by_function_uri s) u \<longleftrightarrow> u = csm_uri (F cid)"
    "\<forall>cid \<in> W. \<forall>k. cid \<in> idx_get (cs_containers_by_pool s) k \<longleftrightarrow> k = key"
    "\<forall>cid \<in> W. \<forall>t. (t, cid) \<in> cs_idle_containers s \<longrightarrow> csm_idle_since (F cid) = Some t" by blast
  have "finite W" by (rule finite_subset [OF _ fin]) (use F(1) in auto)
  then have ids: "set warm_ids = W"
    using ord by (auto simp: warm_ids_def W idx_get_def orders_ok_def enumerates_def split: option.splits)
  define xs where "xs = map (\<lambda>cid. (cid, csm_uri (F cid), csm_idle_since (F cid))) warm_ids"
  define d where "d = s\<lparr>cs_function_containers := (\<lambda>cid. if cid \<in> W
         then map_option mark_terminated (cs_function_containers s cid) else cs_function_containers s cid),
       cs_idle_containers := cs_idle_containers s - {(t, cid). \<exists>u. (cid, u, Some t) \<in> set xs},
       cs_warm_containers_by_pool := (cs_warm_containers_by_pool s)(key := None),
       cs_containers_by_pool := (case cs_containers_by_pool s key of None \<Rightarrow> cs_containers_by_pool s
         | Some ids \<Rightarrow> (cs_containers_by_pool s)(key := if ids - W = {} then None else Some (ids - W)))\<rparr>"
  define e where "e = fold (\<lambda>(cid, uri, _). remove_from_uri_index uri cid) xs d"
  have s': "s' = mark_pool_dirty key e"
    unfolding del e_def d_def
    by (rule delete_container_pool_eq [OF key warm_ids_def _ xs_def, unfolded ids]) (use F(1) in blast)
  note U = fold_pool_uris [of xs d, folded e_def]
  have xs: "set xs = (\<lambda>cid. (cid, csm_uri (F cid), csm_idle_since (F cid))) ` W" by (simp add: xs_def ids)
  have "containers_ok e"
  proof (rule containers_ok_drop_warm [OF ok W])
    show "idx_tidy (cs_containers_by_function_uri e)" using U ok by (simp add: d_def containers_ok_def)
    show "\<forall>u. idx_get (cs_containers_by_function_uri e) u = idx_get (cs_containers_by_function_uri s) u - W"
    proof
      fix u
      have "idx_get (cs_containers_by_function_uri e) u =
          idx_get (cs_containers_by_function_uri s) u - {cid. \<exists>t. (cid, u, t) \<in> set xs}"
        using U by (simp add: d_def)
      also have "{cid. \<exists>t. (cid, u, t) \<in> set xs} = {cid \<in> W. csm_uri (F cid) = u}"
        unfolding xs by (auto simp: image_iff)
      finally show "idx_get (cs_containers_by_function_uri e) u = idx_get (cs_containers_by_function_uri s) u - W"
        using F(2) by auto
    qed
    have tidy: "idx_tidy (cs_containers_by_pool s)" using ok by (simp add: containers_ok_def)
    have *: "\<forall>k. k \<noteq> key \<longrightarrow> idx_get (cs_containers_by_pool s) k \<inter> W = {}" using F(3) by auto
    show "idx_tidy (cs_containers_by_pool e)"
      using U pool_index_drop(1) [OF tidy] tidy by (simp add: d_def split: option.split)
    show "\<forall>k. idx_get (cs_containers_by_pool e) k = idx_get (cs_containers_by_pool s) k - W"
    proof (cases "cs_containers_by_pool s key")
      case None
      then have "idx_get (cs_containers_by_pool s) key = {}" by (simp add: idx_get_def)
      then have "W = {}" using F(3) by blast
      with U None show ?thesis by (simp add: d_def)
    next
      case (Some ids)
      with U pool_index_drop(2) [OF tidy Some *] show ?thesis by (simp add: d_def)
    qed
    show "cs_warm_containers_by_pool e = (cs_warm_containers_by_pool s)(key := None)" using U by (simp add: d_def)
    have "{(t, cid). \<exists>u. (cid, u, Some t) \<in> set xs} = {(t, cid). cid \<in> W \<and> csm_idle_since (F cid) = Some t}"
      unfolding xs by (auto simp: image_iff)
    then have "cs_idle_containers s - {(t, cid). \<exists>u. (cid, u, Some t) \<in> set xs} = cs_idle_containers s - UNIV \<times> W"
      using F(4) by auto
    then show "cs_idle_containers e = cs_idle_containers s - UNIV \<times> W" using U by (simp add: d_def)
  qed (use U in \<open>simp add: d_def\<close>)
  moreover have "executor_view e = executor_view s" using U by (simp add: d_def executor_view_def)
  moreover have "cs_function_containers s' = cs_function_containers d"
    using U by (simp add: s' mark_pool_dirty_def)
  ultimately show ?thesis using containers_ok_view [of s' e] by (simp add: s' d_def)
qed

subsection \<open>Scheduler updates\<close>

text \<open>Each loop of \<open>update_scheduler_update\<close> keeps the invariant.\<close>

lemma merge_executor_frame:
  assumes "merge_executor ord update eid (dropped, s) = (dropped', s')"
  shows "container_view s' = container_view s" "memory_ok s \<Longrightarrow> memory_ok s'" "classes_ok s' = classes_ok s"
  using assms by (auto simp: merge_executor_def memory_ok_set_executor_state split: prod.splits)

lemma fold_merge_executor_frame:
  assumes "fold (merge_executor ord update) eids (dropped, s) = (dropped', s')"
  shows "container_view s' = container_view s \<and> (memory_ok s \<longrightarrow> memory_ok s') \<and> classes_ok s' = classes_ok s"
  using assms
proof (induction eids arbitrary: dropped s)
  case (Cons eid eids)
  obtain d1 s1 where 1: "merge_executor ord update eid (dropped, s) = (d1, s1)" by fastforce
  with Cons.prems have "fold (merge_executor ord update) eids (d1, s1) = (dropped', s')" by simp
  from Cons.IH [OF this] merge_executor_frame [OF 1] show ?case by simp
qed simp

lemma same_identity_update_other:
  "cid' \<noteq> cid \<Longrightarrow> same_identity (update_container_indices cid meta s) cid' meta' = same_identity s cid' meta'"
  by (simp add: same_identity_def update_container_indices_fields)

lemma fold_update_indices_ok:
  assumes "containers_ok s" "distinct cids" "\<forall>cid \<in> set cids. same_identity s cid (m cid)"
  shows "containers_ok (fold (\<lambda>cid self. if cid \<in> D then self else update_container_indices cid (m cid) self) cids s)"
  using assms
proof (induction cids arbitrary: s)
  case (Cons cid cids)
  let ?s = "update_container_indices cid (m cid) s"
  have "containers_ok ?s" using Cons.prems by (simp add: containers_ok_update_container_indices)
  moreover have "\<forall>cid' \<in> set cids. same_identity ?s cid' (m cid')"
  proof
    fix cid' assume "cid' \<in> set cids"
    with Cons.prems have "cid' \<noteq> cid" "same_identity s cid' (m cid')" by auto
    then show "same_identity ?s cid' (m cid')" by (simp add: same_identity_update_other)
  qed
  ultimately show ?case using Cons.IH [of ?s] Cons.IH [of s] Cons.prems by simp
qed simp

lemma executor_view_fold_update [simp]:
  "executor_view (fold (\<lambda>cid self. if cid \<in> D then self else update_container_indices cid (m cid) self) cids s) =
     executor_view s"
  by (induction cids arbitrary: s) simp_all

lemma fold_remove_indices_ok:
  "containers_ok s \<Longrightarrow> containers_ok (fold remove_container_from_indices cids s)"
  by (induction cids arbitrary: s) (simp_all add: containers_ok_remove_container_from_indices)

lemma executor_view_fold_remove [simp]:
  "executor_view (fold remove_container_from_indices cids s) = executor_view s"
  by (induction cids arbitrary: s) simp_all

lemma remove_executor_ok:
  assumes "scheduler_ok s"
  shows "scheduler_ok (remove_executor ord eid s)"
proof -
  let ?t = "case cs_executor_states s eid of
      Some st \<Rightarrow> fold remove_container_from_indices (ord_containers ord (esm_function_container_ids st)) s
    | None \<Rightarrow> s"
  have "containers_ok ?t" "executor_view ?t = executor_view s"
    using assms by (auto simp: scheduler_ok_def fold_remove_indices_ok split: option.split)
  moreover from this executors_ok_view [of ?t s] have "memory_ok ?t" "classes_ok ?t"
    using assms by (simp_all add: scheduler_ok_def)
  ultimately show ?thesis
    using containers_ok_view [of "remove_executor_state eid ?t" ?t]
    by (simp add: remove_executor_def Let_def scheduler_ok_def memory_ok_remove_executor_state)
qed

lemma fold_remove_executor_ok:
  "scheduler_ok s \<Longrightarrow> scheduler_ok (fold (remove_executor ord) eids s)"
  by (induction eids arbitrary: s) (simp_all add: remove_executor_ok)

text \<open>The containers of an update keep the function and the pool of the containers they replace.\<close>

definition update_compatible :: "container_scheduler \<Rightarrow> scheduler_update_request \<Rightarrow> bool" where
  "update_compatible s update \<longleftrightarrow> finite (dom (su_containers update)) \<and>
     (\<forall>cid meta. su_containers update cid = Some meta \<longrightarrow> same_identity s cid meta)"

lemma update_scheduler_update_ok:
  assumes ok: "scheduler_ok s" and ord: "orders_ok ord" and upd: "update_compatible s update"
  shows "scheduler_ok (update_scheduler_update ord update s)"
proof -
  obtain dropped s1 where 1: "fold (merge_executor ord update)
      (ord_executors ord (dom (su_updated_executor_states update))) ([], s) = (dropped, s1)"
    by fastforce
  note F = fold_merge_executor_frame [OF 1]
  let ?cids = "ord_containers ord (dom (su_containers update))"
  have fcs: "cs_function_containers s1 = cs_function_containers s" using F by (simp add: container_view_def)
  have cids: "distinct ?cids" "set ?cids = dom (su_containers update)"
    using ord upd enumeratesD [of "ord_containers ord" "dom (su_containers update)"]
    by (simp_all add: orders_ok_def update_compatible_def)
  have "\<forall>cid \<in> set ?cids. same_identity s1 cid (the (su_containers update cid))"
    using upd by (auto simp: cids update_compatible_def same_identity_def fcs)
  moreover have "containers_ok s1" using ok F containers_ok_view [of s1 s] by (simp add: scheduler_ok_def)
  ultimately have 2: "containers_ok (fold (\<lambda>cid self. if cid \<in> set dropped then self
      else update_container_indices cid (the (su_containers update cid)) self) ?cids s1)" (is "containers_ok ?s2")
    by (intro fold_update_indices_ok cids(1))
  let ?s3 = "fold remove_container_from_indices dropped ?s2"
  have "containers_ok ?s3" "executor_view ?s3 = executor_view s1"
    using 2 by (simp_all add: fold_remove_indices_ok)
  then have "scheduler_ok ?s3"
    using executors_ok_view [of ?s3 s1] F ok by (simp add: scheduler_ok_def)
  from fold_remove_executor_ok [OF this, of ord "su_remove_executors update"]
  have 4: "scheduler_ok (fold (remove_executor ord) (su_remove_executors update) ?s3)" (is "scheduler_ok ?s4") .
  then have "scheduler_ok (?s4\<lparr>cs_blocked_pools := b\<rparr>)" for b
    by (simp add: scheduler_ok_def containers_ok_def indexed_ok_def live_def memory_ok_def classes_ok_def)
  then show ?thesis by (simp add: update_scheduler_update_def 1 Let_def)
qed

subsection \<open>All requests\<close>

definition scheduler_inv :: "container_scheduler \<Rightarrow> bool" where
  "scheduler_inv s \<longleftrightarrow> scheduler_ok s \<and> finite (dom (cs_function_containers s))"

lemma scheduler_inv_views:
  assumes "container_view s' = container_view s" "executor_view s' = executor_view s"
  shows "scheduler_inv s' = scheduler_inv s"
  using containers_ok_view [OF assms(1)] executors_ok_view [OF assms(2)] assms(1)
  by (simp add: scheduler_inv_def scheduler_ok_def container_view_def)

lemma pool_ops_views [simp]:
  "container_view (remove_function_pools K s) = container_view s"
  "executor_view (remove_function_pools K s) = executor_view s"
  "container_view (pool_map_insert pool key s) = container_view s"
  "executor_view (pool_map_insert pool key s) = executor_view s"
  "container_view (s\<lparr>cs_function_pools := f\<rparr>) = container_view s"
  "executor_view (s\<lparr>cs_function_pools := f\<rparr>) = executor_view s"
  "container_view (s\<lparr>cs_sandbox_pools := f\<rparr>) = container_view s"
  "executor_view (s\<lparr>cs_sandbox_pools := f\<rparr>) = executor_view s"
  by (simp_all add: remove_function_pools_def pool_map_insert_def container_view_def executor_view_def)

lemma finite_remove_indices: "finite (dom (cs_function_containers s)) \<Longrightarrow>
    finite (dom (cs_function_containers (remove_container_from_indices cid s)))"
proof (cases "cs_function_containers s cid")
  case (Some fc)
  assume "finite (dom (cs_function_containers s))"
  with view_remove_container_from_indices [OF Some] show ?thesis by (simp add: container_view_def)
qed (simp add: remove_container_from_indices_def)

lemma finite_fold_remove_indices: "finite (dom (cs_function_containers s)) \<Longrightarrow>
    finite (dom (cs_function_containers (fold remove_container_from_indices cids s)))"
  by (induction cids arbitrary: s) (simp_all add: finite_remove_indices)

lemma finite_remove_executor: "finite (dom (cs_function_containers s)) \<Longrightarrow>
    finite (dom (cs_function_containers (remove_executor ord eid s)))"
  using container_view_executor_ops(2)
  by (auto simp: remove_executor_def Let_def finite_fold_remove_indices container_view_def split: option.split)

lemma finite_fold_remove_executor: "finite (dom (cs_function_containers s)) \<Longrightarrow>
    finite (dom (cs_function_containers (fold (remove_executor ord) eids s)))"
  by (induction eids arbitrary: s) (simp_all add: finite_remove_executor)

lemma finite_fold_update_indices: "finite (dom (cs_function_containers s)) \<Longrightarrow>
    finite (dom (cs_function_containers (fold (\<lambda>cid self. if cid \<in> D then self
      else update_container_indices cid (m cid) self) cids s)))"
  by (induction cids arbitrary: s) (simp_all add: update_container_indices_fields)

lemma finite_update_scheduler_update:
  assumes "finite (dom (cs_function_containers s))"
  shows "finite (dom (cs_function_containers (update_scheduler_update ord update s)))"
proof -
  obtain dropped s1 where 1: "fold (merge_executor ord update)
      (ord_executors ord (dom (su_updated_executor_states update))) ([], s) = (dropped, s1)"
    by fastforce
  have "cs_function_containers s1 = cs_function_containers s"
    using fold_merge_executor_frame [OF 1] by (simp add: container_view_def)
  with assms show ?thesis
    by (simp add: update_scheduler_update_def 1 Let_def finite_fold_remove_executor
        finite_fold_remove_indices finite_fold_update_indices)
qed

definition request_compatible :: "container_scheduler \<Rightarrow> request_payload \<Rightarrow> bool" where
  "request_compatible s payload \<longleftrightarrow>
     (case payload of RP_SchedulerUpdate update \<Rightarrow> update_compatible s update | _ \<Rightarrow> True)"

lemma dom_marked: "dom (\<lambda>cid. if P cid then map_option f (m cid) else m cid) = dom m"
  by (auto split: if_splits)

lemma delete_application_inv:
  assumes "scheduler_inv s" "orders_ok ord"
  shows "scheduler_inv (snd (delete_application ord namespace name s))"
proof -
  obtain u' s' where del: "delete_application ord namespace name s = (u', s')" by fastforce
  have ok: "containers_ok s" "finite (dom (cs_function_containers s))"
    using assms by (simp_all add: scheduler_inv_def scheduler_ok_def)
  note E = delete_application_effect [OF ok assms(2) del]
  have "dom (cs_function_containers s') \<subseteq> dom (cs_function_containers s)"
    using E by (auto simp: live_Some split: option.splits if_splits)
  with E ok(2) have "finite (dom (cs_function_containers s'))" using finite_subset by blast
  with E assms(1) executors_ok_view [of s' s] show ?thesis
    by (simp add: del scheduler_inv_def scheduler_ok_def)
qed

lemma delete_container_pool_inv:
  assumes "scheduler_inv s" "orders_ok ord"
  shows "scheduler_inv (snd (delete_container_pool ord namespace pid s))"
proof -
  have ok: "containers_ok s" "finite (dom (cs_function_containers s))"
    using assms by (simp_all add: scheduler_inv_def scheduler_ok_def)
  note E = delete_container_pool_effect [OF ok assms(2) refl refl refl, of namespace pid]
  then have "finite (dom (cs_function_containers (snd (delete_container_pool ord namespace pid s))))"
    using ok(2) by (simp add: dom_marked)
  with E assms(1) executors_ok_view [of "snd (delete_container_pool ord namespace pid s)" s] show ?thesis
    by (simp add: scheduler_inv_def scheduler_ok_def)
qed

lemma fold_set_pools_views:
  "container_view (fold (\<lambda>pool self. mark_pool_dirty (pool_key pool)
     (self\<lparr>cs_function_pools := (cs_function_pools self)(pool_key pool \<mapsto> pool)\<rparr>)) pools s) = container_view s \<and>
   executor_view (fold (\<lambda>pool self. mark_pool_dirty (pool_key pool)
     (self\<lparr>cs_function_pools := (cs_function_pools self)(pool_key pool \<mapsto> pool)\<rparr>)) pools s) = executor_view s"
  by (induction pools arbitrary: s) simp_all

lemma executor_requests_inv:
  assumes "scheduler_inv s"
  shows "scheduler_inv (upsert_executor em s)" "scheduler_inv (deregister_executor eid s)"
  using assms containers_ok_view [of "upsert_executor em s" s] containers_ok_view [of "deregister_executor eid s" s]
    container_view_executor_ops(3) [of em s] container_view_executor_ops(4) [of eid s]
  by (simp_all add: scheduler_inv_def scheduler_ok_def classes_ok_upsert_executor classes_ok_deregister_executor
      memory_ok_deregister_executor container_view_def)

lemma update_with_intents_inv:
  assumes inv: "scheduler_inv s" and ord: "orders_ok ord" and "request_compatible s payload"
  shows "scheduler_inv (snd (update_with_intents ord payload s))"
proof -
  have frame: "scheduler_inv s'" if "container_view s' = container_view s" "executor_view s' = executor_view s" for s'
    using inv scheduler_inv_views [OF that] by simp
  show ?thesis
  proof (cases payload)
    case (RP_SchedulerUpdate update)
    with assms update_scheduler_update_ok [of s ord update] finite_update_scheduler_update show ?thesis
      by (simp add: request_compatible_def scheduler_inv_def)
  next
    case (RP_DeleteApplicationRequest request)
    with delete_application_inv [OF inv ord] show ?thesis by (simp add: split_beta)
  next
    case (RP_DeleteContainerPool request)
    with delete_container_pool_inv [OF inv ord] show ?thesis by (simp add: split_beta)
  next
    case (RP_UpsertExecutor request)
    with executor_requests_inv(1) [OF inv] show ?thesis by simp
  next
    case (RP_DeregisterExecutor request)
    with executor_requests_inv(2) [OF inv] show ?thesis by simp
  qed (rule frame; simp add: set_pool_def Let_def fold_set_pools_views)+
qed

subsection \<open>Merging executor states\<close>

definition being_terminated :: "scheduler_update_request \<Rightarrow> container_id \<Rightarrow> bool" where
  "being_terminated update cid \<longleftrightarrow>
     (case su_containers update cid of Some c \<Rightarrow> desired_terminated c | None \<Rightarrow> False)"

text \<open>The claims of the old state that the merge adds to the new one, over the containers \<open>C\<close>.\<close>

definition readded :: "scheduler_update_request \<Rightarrow> executor_server_metadata \<Rightarrow> executor_server_metadata \<Rightarrow>
    container_id set \<Rightarrow> container_id \<rightharpoonup> container_resources" where
  "readded update old new C = esm_resource_claims old |`
     {cid \<in> C. \<not> being_terminated update cid \<and> cid \<notin> esm_function_container_ids new \<and> esm_resource_claims new cid = None}"

lemma readded_insert:
  assumes "cid \<notin> C"
  shows "readded update old new (insert cid C) =
    (if \<not> being_terminated update cid \<and> cid \<notin> esm_function_container_ids new \<and> esm_resource_claims new cid = None
     then (readded update old new C)(cid := esm_resource_claims old cid) else readded update old new C)"
    "readded update old new C cid = None"
  using assms by (auto simp: readded_def restrict_map_def fun_eq_iff)

lemma fold_merge_container:
  assumes "distinct cids" "fold (merge_container update old) cids (new, dropped) = (merged, dropped')"
  shows "esm_function_container_ids merged =
      esm_function_container_ids new \<union> {cid \<in> set cids. \<not> being_terminated update cid} \<and>
    set dropped' = set dropped \<union> {cid \<in> set cids. being_terminated update cid \<and> cid \<notin> esm_function_container_ids new} \<and>
    esm_resource_claims merged = esm_resource_claims new ++ readded update old new (set cids) \<and>
    unat (host_memory_bytes (esm_free_resources merged)) = unat (host_memory_bytes (esm_free_resources new)) -
      map_sum (\<lambda>c. unat (mb_to_bytes (cres_memory_mb c))) (readded update old new (set cids))"
  using assms
proof (induction cids arbitrary: merged dropped' rule: rev_induct)
  case Nil
  then show ?case by (simp add: readded_def restrict_map_def)
next
  case (snoc cid cids)
  obtain m1 d1 where 1: "fold (merge_container update old) cids (new, dropped) = (m1, d1)" by fastforce
  have d: "distinct cids" "cid \<notin> set cids" using snoc.prems(1) by auto
  have step: "merge_container update old cid (m1, d1) = (merged, dropped')" using snoc.prems(2) 1 by simp
  note IH = snoc.IH [OF d(1) 1]
  let ?R = "readded update old new (set cids)"
  have fin: "finite (dom ?R)" by (rule finite_subset [of _ "set cids"]) (auto simp: readded_def)
  have R: "?R cid = None" "readded update old new (set (cids @ [cid])) =
    (if \<not> being_terminated update cid \<and> cid \<notin> esm_function_container_ids new \<and> esm_resource_claims new cid = None
     then ?R(cid := esm_resource_claims old cid) else ?R)"
    using readded_insert [OF d(2)] by simp_all
  have cl: "esm_resource_claims m1 cid = esm_resource_claims new cid" using IH R(1) by (simp add: map_add_def)
  have mem: "cid \<in> esm_function_container_ids m1 \<longleftrightarrow> cid \<in> esm_function_container_ids new" using IH d(2) by auto
  note B = being_terminated_def [symmetric]
  show ?case
  proof (cases "\<not> being_terminated update cid \<and> cid \<notin> esm_function_container_ids new \<and>
      esm_resource_claims new cid = None \<and> esm_resource_claims old cid \<noteq> None")
    case True
    then obtain claim where c: "esm_resource_claims old cid = Some claim" by auto
    have m: "merged = m1\<lparr>esm_function_container_ids := insert cid (esm_function_container_ids m1),
        esm_resource_claims := (esm_resource_claims m1)(cid \<mapsto> claim),
        esm_free_resources := force_consume_fe_resources (esm_free_resources m1) claim\<rparr>" "dropped' = d1"
      using step True c cl mem by (simp_all add: merge_container_def Let_def B)
    have R': "readded update old new (set (cids @ [cid])) = ?R(cid \<mapsto> claim)" using R(2) True c by simp
    show ?thesis
      unfolding R' m map_sum_insert [OF fin R(1)]
      using IH True by (auto simp: force_consume_fe_resources_def unat_saturating_sub add.commute map_add_def fun_eq_iff)
  next
    case False
    show ?thesis using step IH False cl mem R(1) unfolding R(2)
      by (auto simp: merge_container_def Let_def B fun_upd_idem split: if_splits option.splits)
  qed
qed

section \<open>Properties\<close>

text \<open>
  C33: merging the executor state of a scheduler update with the current one loses no container and no
  claim.  The merged state has the containers of the update and those of the current state that the
  update does not terminate; a container that only the current state had keeps its claim; a container
  that the current state had and the update terminates is dropped.  The free memory is that of the
  update less the memory of the claims added back, and zero when they exceed it.
\<close>

theorem merge_executor_state_exact:
  assumes "enumerates (ord_containers ord)" "finite (esm_function_container_ids old)"
    and "merge_executor_state ord update (Some old) new dropped = (merged, dropped')"
  shows "esm_function_container_ids merged = esm_function_container_ids new \<union>
      {cid \<in> esm_function_container_ids old. \<not> being_terminated update cid} \<and>
    set dropped' = set dropped \<union> {cid \<in> esm_function_container_ids old.
      being_terminated update cid \<and> cid \<notin> esm_function_container_ids new} \<and>
    esm_resource_claims merged = esm_resource_claims new ++
      readded update old new (esm_function_container_ids old) \<and>
    unat (host_memory_bytes (esm_free_resources merged)) = unat (host_memory_bytes (esm_free_resources new)) -
      map_sum (\<lambda>c. unat (mb_to_bytes (cres_memory_mb c)))
        (readded update old new (esm_function_container_ids old))"
proof -
  let ?cids = "ord_containers ord (esm_function_container_ids old)"
  have "distinct ?cids" "set ?cids = esm_function_container_ids old"
    using enumeratesD [OF assms(1,2)] by simp_all
  with fold_merge_container [of ?cids update old new dropped merged dropped'] assms(3) show ?thesis
    by (simp add: merge_executor_state_def)
qed

text \<open>A container placed between the snapshot the update was computed from and its application.\<close>

definition example_orders :: orders where
  "example_orders = \<lparr>ord_uris = sorted_list_of_set, ord_containers = sorted_list_of_set,
     ord_executors = sorted_list_of_set\<rparr>"

lemma example_orders_ok: "orders_ok example_orders"
  by (simp add: orders_ok_def example_orders_def enumerates_sorted_list_of_set)

theorem merge_executor_state_exact_witness:
  "let old = snd (add_container (new_ledger ''e'' example_host) (example_container ''c'' 1024));
       merged = fst (merge_executor_state example_orders default_update (Some old) (new_ledger ''e'' example_host) [])
   in esm_function_container_ids merged = {''c''} \<and>
      esm_resource_claims merged = [''c'' \<mapsto> ct_resources (example_container ''c'' 1024)] \<and>
      unat (host_memory_bytes (esm_free_resources merged)) = 3221225472"
proof -
  let ?old = "snd (add_container (new_ledger ''e'' example_host) (example_container ''c'' 1024))"
  let ?new = "new_ledger ''e'' example_host"
  obtain merged dropped where m: "merge_executor_state example_orders default_update (Some ?old) ?new [] = (merged, dropped)"
    by fastforce
  have ids: "esm_function_container_ids ?old = {''c''}" by (simp add: example_add_container)
  have B: "\<not> being_terminated default_update cid" for cid by (simp add: being_terminated_def default_update_def)
  have R: "readded default_update ?old ?new {''c''} = [''c'' \<mapsto> ct_resources (example_container ''c'' 1024)]"
  proof -
    have "esm_resource_claims ?new = Map.empty" "esm_function_container_ids ?new = {}"
      by (simp_all add: new_ledger_def)
    then show ?thesis by (auto simp: readded_def restrict_map_def B example_add_container fun_eq_iff)
  qed
  have "enumerates (ord_containers example_orders)" "finite (esm_function_container_ids ?old)"
    using example_orders_ok ids by (simp_all add: orders_ok_def)
  note M = merge_executor_state_exact [OF this m, unfolded ids R]
  have "map_sum f [''c'' \<mapsto> v] = f v" for f :: "container_resources \<Rightarrow> nat" and v
    by (simp add: map_sum_def)
  with M B show ?thesis
    unfolding Let_def m fst_conv
    by (simp add: new_ledger_def example_host_def example_container_def mb_to_bytes_def)
qed

end
