(* ===== verification/SchedulerRuns.thy ===== *)
theory SchedulerRuns
  imports Reaping SchedulerRequests
begin

text \<open>
  The container scheduler over time: requests of the state machine, placements, claims, terminations
  and reaps in any order, and what stays true of the state throughout.
\<close>

declare split_paired_All [simp del] split_paired_Ex [simp del]

section \<open>Steps\<close>

text \<open>
  The states reached from a fresh scheduler.  A scheduler update is applied to a state in which its
  containers keep the function and the pool of those they replace (\<open>request_compatible\<close>).
\<close>

inductive served :: "orders \<Rightarrow> container_scheduler \<Rightarrow> bool" for ord where
  start: "served ord (cs_new fn_pools sb_pools)"
| request: "served ord s \<Longrightarrow> request_compatible s payload \<Longrightarrow>
    served ord (snd (update_with_intents ord payload s))"
| claim: "served ord s \<Longrightarrow> claim_pool_container (ord_containers ord) key sid timeout s = (Some claimed, s') \<Longrightarrow>
    served ord s'"
| terminate: "served ord s \<Longrightarrow> served ord (snd (terminate_container cid s))"
| place: "served ord s \<Longrightarrow>
    create_container ch namespace application function resources c ctype cache s = (result, cache', s') \<Longrightarrow>
    served ord s'"
| reap: "served ord s \<Longrightarrow> served ord (snd (reap_idle_containers now age s))"

inductive_cases served_elim: "served ord s"

section \<open>Each step keeps the invariant\<close>

lemma scheduler_inv_new: "scheduler_inv (cs_new fn_pools sb_pools)"
proof -
  have "memory_ok (cs_new fn_pools sb_pools)" "classes_ok (cs_new fn_pools sb_pools)"
    "cs_function_containers (cs_new fn_pools sb_pools) = Map.empty"
    by (simp_all add: cs_new_def memory_ok_def classes_ok_def)
  then show ?thesis by (simp add: scheduler_inv_def scheduler_ok_def containers_ok_new)
qed

lemma scheduler_inv_set_executor_state:
  assumes "scheduler_inv s"
  shows "scheduler_inv (set_executor_state eid st s)"
  using assms containers_ok_view [of "set_executor_state eid st s" s]
    container_view_executor_ops(1) [of eid st s]
  by (simp add: scheduler_inv_def scheduler_ok_def memory_ok_set_executor_state container_view_def)

text \<open>An executor state replaced without an entry in the memory index, as after a failed registration.\<close>

lemma scheduler_inv_unindexed_state:
  assumes inv: "scheduler_inv s" and st: "cs_executor_states s eid = Some st"
  shows "scheduler_inv ((remove_resource_index eid (esm_free_resources st) s)
    \<lparr>cs_executor_states := (cs_executor_states s)(eid \<mapsto> st')\<rparr>)" (is "scheduler_inv ?s'")
proof -
  have "memory_ok ?s'"
    unfolding memory_ok_def
  proof (intro allI impI)
    fix m e assume "(m, e) \<in> cs_executors_by_free_memory ?s'"
    then have 1: "(m, e) \<in> cs_executors_by_free_memory s" "(m, e) \<noteq> (host_memory_bytes (esm_free_resources st), eid)"
      by (simp_all add: remove_resource_index_def)
    have "memory_ok s" using inv by (simp add: scheduler_inv_def scheduler_ok_def)
    from memory_okD [OF this 1(1)] 1(2) st
    show "map_option (\<lambda>st. host_memory_bytes (esm_free_resources st)) (cs_executor_states ?s' e) = Some m"
      by auto
  qed
  moreover have "container_view ?s' = container_view s" "classes_ok ?s' = classes_ok s"
    by (simp_all add: container_view_def remove_resource_index_def classes_ok_def)
  ultimately show ?thesis
    using inv containers_ok_view [of ?s' s] by (simp add: scheduler_inv_def scheduler_ok_def container_view_def)
qed

lemma register_container_inv:
  assumes "scheduler_inv s"
  shows "scheduler_inv (snd (register_container now eid c ctype s))"
proof (cases "cs_executor_states s eid")
  case None
  with assms show ?thesis by (simp add: register_container_eq)
next
  case (Some st)
  with assms scheduler_inv_unindexed_state [OF assms Some] show ?thesis
    by (auto simp: register_container_eq scheduler_inv_set_executor_state split: prod.split sum.split)
qed

lemma scheduler_inv_placement:
  "scheduler_inv (s\<lparr>cs_last_placement := p\<rparr>) = scheduler_inv s"
  by (rule scheduler_inv_views) (simp_all add: container_view_def executor_view_def)

lemma create_container_inv:
  assumes "scheduler_inv s"
    and "create_container ch namespace application function resources c ctype cache s = (result, cache', s')"
  shows "scheduler_inv s'"
proof -
  have "scheduler_inv (s\<lparr>cs_last_placement := p\<rparr>)" for p using assms(1) by (simp add: scheduler_inv_placement)
  moreover from this register_container_inv [of "s\<lparr>cs_last_placement := p\<rparr>" for p]
  have "scheduler_inv t" if "register_container now eid c ctype (s\<lparr>cs_last_placement := p\<rparr>) = (r, t)" for now eid p r t
    using that by (metis snd_conv)
  ultimately show ?thesis
    using assms(2)
    by (auto simp: create_container_def Let_def split: prod.splits option.splits if_splits sum.splits)
qed

lemma terminate_inv:
  assumes "scheduler_inv s"
  shows "scheduler_inv (snd (terminate_container cid s))"
proof -
  have "finite (dom (cs_function_containers (snd (terminate_container cid s))))"
  proof (cases "cs_function_containers s cid")
    case None
    with assms show ?thesis by (simp add: terminate_container_def scheduler_inv_def)
  next
    case (Some fc)
    with assms view_terminate_container [OF Some] show ?thesis by (simp add: container_view_def scheduler_inv_def)
  qed
  with assms executors_ok_view [OF executor_view_terminate_container] containers_ok_terminate_container
  show ?thesis by (simp add: scheduler_inv_def scheduler_ok_def)
qed

lemma claim_inv:
  assumes inv: "scheduler_inv s" and "orders_ok ord"
    and claim: "claim_pool_container (ord_containers ord) key sid timeout s = (Some claimed, s')"
  shows "scheduler_inv s'"
proof -
  obtain cid eid update where c: "claimed = (cid, eid, update)" by (cases claimed)
  note claim = claim [unfolded c]
  obtain meta meta' where "cs_function_containers s cid = Some meta"
    and view: "container_view s' = container_view (s\<lparr>cs_function_containers := (cs_function_containers s)(cid \<mapsto> meta'),
       cs_warm_containers_by_pool := idx_remove key cid (cs_warm_containers_by_pool s)\<rparr>)"
    by (rule view_claim_pool_container [OF claim])
  then have "finite (dom (cs_function_containers s'))" using inv by (simp add: container_view_def scheduler_inv_def)
  moreover have "executor_view s' = executor_view s"
    using claim by (auto simp: claim_pool_container_def Let_def executor_view_def remove_from_warm_index_def
        mark_pool_dirty_def split: option.splits)
  moreover have "containers_ok s'"
    using containers_ok_claim_pool_container [OF _ _ _ claim] assms(2) inv
    by (simp add: scheduler_inv_def scheduler_ok_def orders_ok_def)
  ultimately show ?thesis
    using inv executors_ok_view [of s' s] by (simp add: scheduler_inv_def scheduler_ok_def)
qed

lemma reaps_inv: "reaps now age idle s s' \<Longrightarrow> scheduler_inv s \<Longrightarrow> scheduler_inv s'"
proof (induction rule: reaps.induct)
  case (one s1 t cid fc update)
  then have "dom (cs_function_containers (snd (reap_container cid fc update s1))) =
      dom (cs_function_containers s1)"
    by (auto simp: reap_container_containers)
  with one show ?case by (simp add: scheduler_inv_def scheduler_ok_reap_container)
qed

lemma reap_inv:
  assumes "scheduler_inv s"
  shows "scheduler_inv (snd (reap_idle_containers now age s))"
proof -
  let ?s0 = "s\<lparr>cs_reaped_containers := Map.empty\<rparr>"
  obtain update affected where "reap_loop now age (sorted_list_of_set (cs_idle_containers s)) (default_update, {}, ?s0) =
      (update, affected, snd (reap_idle_containers now age s))"
    by (rule reap_idle_containers_loop)
  from reap_loop_reaps [OF this, of UNIV] have "reaps now age UNIV ?s0 (snd (reap_idle_containers now age s))" by simp
  moreover have "scheduler_inv ?s0"
    using assms scheduler_inv_views [of ?s0 s] by (simp add: container_view_def executor_view_def)
  ultimately show ?thesis by (rule reaps_inv)
qed

lemma served_inv: "served ord s \<Longrightarrow> orders_ok ord \<Longrightarrow> scheduler_inv s"
  by (induction rule: served.induct)
    (blast intro: scheduler_inv_new update_with_intents_inv claim_inv terminate_inv create_container_inv reap_inv)+

section \<open>Properties\<close>

text \<open>
  C2: the scheduler's container indexes never drift from its containers.  After any sequence of
  requests, claims, terminations, placements and reaps, whatever their order: a container is listed
  under its function, and under its pool, exactly when it is not marked for termination; a pool's
  warm list has exactly its unclaimed containers; the idle set has exactly the idle ones that may be
  reaped, each under the time it became idle; and the class index is the inverse of the executors'
  classes.  The memory index is sound but not complete: each of its entries carries the current free
  memory of a known executor, while an executor can be missing, as after a failed registration.  The
  scheduler updates among the requests replace a container only by one of the same function and pool;
  the allocation of a run to an existing container, which is done in place, is not one of the steps.
\<close>

theorem served_scheduler_consistent:
  assumes "served ord s" "orders_ok ord"
  shows "(\<forall>cid u. cid \<in> idx_get (cs_containers_by_function_uri s) u \<longleftrightarrow>
      (\<exists>fc. live s cid = Some fc \<and> csm_uri fc = u)) \<and>
    (\<forall>cid k. cid \<in> idx_get (cs_containers_by_pool s) k \<longleftrightarrow>
      (\<exists>fc. live s cid = Some fc \<and> csm_pool_key fc = Some k)) \<and>
    (\<forall>cid k. cid \<in> idx_get (cs_warm_containers_by_pool s) k \<longleftrightarrow>
      (\<exists>fc. live s cid = Some fc \<and> is_warm fc \<and> csm_pool_key fc = Some k)) \<and>
    (\<forall>cid t. (t, cid) \<in> cs_idle_containers s \<longleftrightarrow> (\<exists>fc. live s cid = Some fc \<and> reapable_since fc = Some t)) \<and>
    memory_ok s \<and> classes_ok s"
proof -
  have ok: "containers_ok s" "memory_ok s" "classes_ok s"
    using served_inv [OF assms] by (simp_all add: scheduler_inv_def scheduler_ok_def)
  have "indexed_ok s cid" for cid using ok(1) by (simp add: containers_ok_def)
  then have "cid \<in> idx_get (cs_containers_by_pool s) k \<longleftrightarrow> (\<exists>fc. live s cid = Some fc \<and> csm_pool_key fc = Some k)"
    "(t, cid) \<in> cs_idle_containers s \<longleftrightarrow> (\<exists>fc. live s cid = Some fc \<and> reapable_since fc = Some t)" for cid k t
    by (cases "live s cid"; simp add: indexed_ok_def)+
  with ok index_uri_iff [OF ok(1)] index_warm_iff [OF ok(1)] show ?thesis by simp
qed

text \<open>A pool container reported by an update, then claimed by a sandbox.\<close>

theorem served_scheduler_consistent_witness:
  "\<exists>s. (let update = default_update\<lparr>su_containers := [''c1'' \<mapsto> example_pool_container]\<rparr>
        in s = snd (update_with_intents example_orders (RP_SchedulerUpdate update) (cs_new [] []))) \<and>
     idx_get (cs_warm_containers_by_pool s) (''ns'', ''pool'') = {''c1''}"
proof -
  let ?u = "default_update\<lparr>su_containers := [''c1'' \<mapsto> example_pool_container]\<rparr>"
  define s where "s = snd (update_with_intents example_orders (RP_SchedulerUpdate ?u) (cs_new [] []))"
  have new: "cs_function_containers (cs_new [] []) = Map.empty" by (simp add: cs_new_def)
  have "request_compatible (cs_new [] []) (RP_SchedulerUpdate ?u)"
    by (simp add: request_compatible_def update_compatible_def same_identity_def new)
  then have "served example_orders s" unfolding s_def by (intro served.request served.start)
  note C = served_scheduler_consistent [OF this example_orders_ok]
  have "cs_function_containers s =
      cs_function_containers (update_container_indices ''c1'' example_pool_container (cs_new [] []))"
    by (simp add: s_def update_scheduler_update_def example_orders_def default_update_def)
  then have "cs_function_containers s = [''c1'' \<mapsto> example_pool_container]"
    by (simp add: update_container_indices_fields new)
  moreover have "is_warm example_pool_container" "\<not> desired_terminated example_pool_container"
    "csm_pool_key example_pool_container = Some (''ns'', ''pool'')"
    by (simp_all add: example_pool_container_def csm_new_def csm_pool_key_def ct_pool_key_def
        container_pool_key_new_def example_container_def desired_terminated_def is_warm_def)
  ultimately have "(\<exists>fc. live s cid = Some fc \<and> is_warm fc \<and> csm_pool_key fc = Some (''ns'', ''pool'')) \<longleftrightarrow>
      cid = ''c1''" for cid
    by (simp add: live_def)
  with C [THEN conjunct2, THEN conjunct2, THEN conjunct1, rule_format, of _ "(''ns'', ''pool'')"]
  have "idx_get (cs_warm_containers_by_pool s) (''ns'', ''pool'') = {''c1''}"
    by (intro set_eqI) (simp only: singleton_iff)
  with s_def show ?thesis unfolding Let_def by (intro exI conjI)
qed

end
