(* ===== verification/Applications.thy ===== *)
theory Applications
  imports Retry
begin

text \<open>
  Admission of an application: \<open>Application::can_be_scheduled\<close> of \<open>data_model/mod.rs\<close> against the
  executor catalog (\<open>ExecutorCatalog\<close> of \<open>state_store/mod.rs\<close>).  The functions of the application
  are a hash map; the order in which the loop visits them is the parameter \<open>ord\<close>.
\<close>

type_synonym executor_catalog = "executor_catalog_entry list"

definition catalog_empty :: "executor_catalog \<Rightarrow> bool" where
  "catalog_empty catalog = (catalog = [])"

datatype schedule_error =
    LabelsNotMatched string labels_filter
  | CpuNotAvailable string u32
  | MemoryNotAvailable string u64
  | DiskNotAvailable string u64
  | GpuModelsNotAvailable string "string list"

text \<open>The flags \<open>has_cpu\<close>, \<open>has_mem\<close>, \<open>has_disk\<close>, \<open>has_gpu_models\<close>, \<open>met_placement_constraints\<close>.\<close>

record schedule_flags =
  has_cpu :: bool
  has_mem :: bool
  has_disk :: bool
  has_gpu_models :: bool
  met_placement_constraints :: bool

definition initial_flags :: schedule_flags where
  "initial_flags = \<lparr>has_cpu = False, has_mem = False, has_disk = False, has_gpu_models = False,
                    met_placement_constraints = False\<rparr>"

definition entry_flags ::
  "app_function \<Rightarrow> executor_catalog_entry \<Rightarrow> schedule_flags \<Rightarrow> schedule_flags" where
  "entry_flags node entry flags =
     (let res = fn_resources node in
      \<lparr>has_cpu = (fres_cpu_ms_per_sec res div 1000 \<le> cat_cpu_cores entry),
       has_mem = (fres_memory_mb res \<le> cat_memory_gb entry * 1024),
       has_disk = (fres_ephemeral_disk_mb res \<le> cat_disk_gb entry * 1024),
       has_gpu_models =
         (if fres_gpu_configs res = [] then True
          else case cat_gpu_model entry of
                 None \<Rightarrow> False
               | Some catalog_gpu \<Rightarrow>
                   list_ex (\<lambda>gpu. gpu_model gpu = gpu_model catalog_gpu \<and>
                                  gpu_count gpu \<le> gpu_count catalog_gpu) (fres_gpu_configs res)),
       met_placement_constraints =
         (if labels_filter_matches (fn_placement_constraints node) (cat_labels entry)
          then True else met_placement_constraints flags)\<rparr>)"

definition all_flags :: "schedule_flags \<Rightarrow> bool" where
  "all_flags flags =
     (met_placement_constraints flags \<and> has_cpu flags \<and> has_mem flags \<and> has_disk flags \<and>
      has_gpu_models flags)"

text \<open>The loop over \<open>executor_catalog.entries\<close> with its \<open>break\<close>.\<close>

fun scan_entries :: "app_function \<Rightarrow> executor_catalog \<Rightarrow> schedule_flags \<Rightarrow> schedule_flags" where
  "scan_entries node [] flags = flags"
| "scan_entries node (entry # entries) flags =
     (let flags' = entry_flags node entry flags
      in if all_flags flags' then flags' else scan_entries node entries flags')"

definition node_can_be_scheduled ::
  "executor_catalog \<Rightarrow> app_function \<Rightarrow> schedule_error + unit" where
  "node_can_be_scheduled catalog node =
     (let flags = scan_entries node catalog initial_flags
      in if \<not> met_placement_constraints flags
         then Err (LabelsNotMatched (fn_name node) (fn_placement_constraints node))
         else if \<not> has_cpu flags
         then Err (CpuNotAvailable (fn_name node) (fres_cpu_ms_per_sec (fn_resources node) div 1000))
         else if \<not> has_mem flags
         then Err (MemoryNotAvailable (fn_name node) (fres_memory_mb (fn_resources node)))
         else if \<not> has_disk flags
         then Err (DiskNotAvailable (fn_name node) (fres_ephemeral_disk_mb (fn_resources node)))
         else if \<not> has_gpu_models flags
         then Err (GpuModelsNotAvailable (fn_name node)
                     (map gpu_model (fres_gpu_configs (fn_resources node))))
         else Ok ())"

text \<open>The loop over \<open>self.functions.values()\<close>.\<close>

fun nodes_can_be_scheduled ::
  "executor_catalog \<Rightarrow> app_function list \<Rightarrow> schedule_error + unit" where
  "nodes_can_be_scheduled catalog [] = Ok ()"
| "nodes_can_be_scheduled catalog (node # nodes) =
     (if catalog_empty catalog then Ok ()
      else case node_can_be_scheduled catalog node of
             Inl e \<Rightarrow> Err e
           | Inr _ \<Rightarrow> nodes_can_be_scheduled catalog nodes)"

definition can_be_scheduled ::
  "(string set \<Rightarrow> string list) \<Rightarrow> application \<Rightarrow> executor_catalog \<Rightarrow> schedule_error + unit" where
  "can_be_scheduled ord self executor_catalog =
     nodes_can_be_scheduled executor_catalog
       (map (\<lambda>name. the (app_functions self name)) (ord (dom (app_functions self))))"

section \<open>Lemmas\<close>

text \<open>
  What a catalog entry has to offer, in natural numbers: whole cores for the CPU rounded down to cores,
  the memory and the disk in gigabytes (their conversion to megabytes wraps), and a GPU of
  one of the models asked for in the number asked for.
\<close>

definition entry_resources_ok :: "app_function \<Rightarrow> executor_catalog_entry \<Rightarrow> bool" where
  "entry_resources_ok node entry \<longleftrightarrow>
     unat (fres_cpu_ms_per_sec (fn_resources node)) < 1000 * (unat (cat_cpu_cores entry) + 1) \<and>
     unat (fres_memory_mb (fn_resources node)) \<le> unat (cat_memory_gb entry) * 1024 mod 2 ^ 64 \<and>
     unat (fres_ephemeral_disk_mb (fn_resources node)) \<le> unat (cat_disk_gb entry) * 1024 mod 2 ^ 64 \<and>
     (fres_gpu_configs (fn_resources node) = [] \<or>
      (\<exists>catalog_gpu gpu. cat_gpu_model entry = Some catalog_gpu \<and> gpu \<in> set (fres_gpu_configs (fn_resources node)) \<and>
         gpu_model gpu = gpu_model catalog_gpu \<and> unat (gpu_count gpu) \<le> unat (gpu_count catalog_gpu)))"

text \<open>Every constraint names a label of the entry, with the value asked for or, for \<open>!=\<close>, another one.\<close>

definition entry_labels_ok :: "app_function \<Rightarrow> executor_catalog_entry \<Rightarrow> bool" where
  "entry_labels_ok node entry \<longleftrightarrow>
     (\<forall>e \<in> set (fn_placement_constraints node). \<exists>label. cat_labels entry (expr_key e) = Some label \<and>
        (label = expr_value e \<longleftrightarrow> expr_operator e = Eq))"

lemma cores_le_iff: "(cpu :: u32) div 1000 \<le> cores \<longleftrightarrow> unat cpu < 1000 * (unat cores + 1)"
  by (simp add: word_le_nat_alt unat_div_distrib less_Suc_eq_le [symmetric] div_less_iff_less_mult mult.commute
      del: less_Suc_eq_le)

lemma megabytes_le_iff: "(mb :: u64) \<le> gb * 1024 \<longleftrightarrow> unat mb \<le> unat gb * 1024 mod 2 ^ 64"
  by (simp add: word_le_nat_alt unat_word_ariths)

lemma labels_filter_matches_iff:
  "labels_filter_matches constraints labels \<longleftrightarrow>
     (\<forall>e \<in> set constraints. \<exists>label. labels (expr_key e) = Some label \<and> (label = expr_value e \<longleftrightarrow> expr_operator e = Eq))"
  unfolding labels_filter_matches_def list_all_iff expression_matches_def
  by (rule ball_cong [OF refl]) (auto split: option.split operator.split)

lemma entry_flags_iff:
  "has_cpu (entry_flags node entry flags) \<and> has_mem (entry_flags node entry flags) \<and>
   has_disk (entry_flags node entry flags) \<and> has_gpu_models (entry_flags node entry flags) \<longleftrightarrow>
     entry_resources_ok node entry"
  unfolding entry_flags_def entry_resources_ok_def Let_def schedule_flags.simps cores_le_iff megabytes_le_iff
  by (auto simp: list_ex_iff word_le_nat_alt split: option.splits)

text \<open>Some entry offers the resources, and that entry or one before it has the labels.\<close>

definition entry_accepts :: "executor_catalog \<Rightarrow> app_function \<Rightarrow> bool \<Rightarrow> bool" where
  "entry_accepts entries node met =
     (\<exists>i < length entries. entry_resources_ok node (entries ! i) \<and>
        (met \<or> (\<exists>j \<le> i. entry_labels_ok node (entries ! j))))"

lemma met_entry_flags:
  "met_placement_constraints (entry_flags node entry flags) \<longleftrightarrow>
     entry_labels_ok node entry \<or> met_placement_constraints flags"
  unfolding entry_labels_ok_def labels_filter_matches_iff [symmetric] by (simp add: entry_flags_def Let_def)

lemma all_flags_entry_flags:
  "all_flags (entry_flags node entry flags) \<longleftrightarrow>
     entry_resources_ok node entry \<and> (entry_labels_ok node entry \<or> met_placement_constraints flags)"
  using entry_flags_iff [of node entry flags] met_entry_flags [of node entry flags] by (auto simp: all_flags_def)

lemma entry_accepts_Nil [simp]: "\<not> entry_accepts [] node met"
  by (simp add: entry_accepts_def)

lemma entry_accepts_Cons:
  "entry_accepts (e # es) node met \<longleftrightarrow>
     entry_resources_ok node e \<and> (met \<or> entry_labels_ok node e) \<or>
     entry_accepts es node (met \<or> entry_labels_ok node e)"
proof -
  have "entry_accepts (e # es) node met \<longleftrightarrow>
      (entry_resources_ok node e \<and> (met \<or> entry_labels_ok node e)) \<or>
      (\<exists>i < length es. entry_resources_ok node (es ! i) \<and>
         (met \<or> (\<exists>j \<le> Suc i. entry_labels_ok node ((e # es) ! j))))"
    unfolding entry_accepts_def by (simp add: Ex_less_Suc2)
  moreover have "(\<exists>j \<le> Suc i. entry_labels_ok node ((e # es) ! j)) \<longleftrightarrow>
      entry_labels_ok node e \<or> (\<exists>j \<le> i. entry_labels_ok node (es ! j))" for i
    by (metis Suc_le_mono le0 nth_Cons_0 nth_Cons_Suc old.nat.exhaust)
  ultimately show ?thesis by (auto simp: entry_accepts_def)
qed

lemma all_flags_scan_entries:
  "\<not> all_flags flags \<Longrightarrow>
   all_flags (scan_entries node entries flags) \<longleftrightarrow>
     entry_accepts entries node (met_placement_constraints flags)"
proof (induction entries arbitrary: flags)
  case (Cons e es)
  then show ?case
    by (auto simp: Let_def entry_accepts_Cons all_flags_entry_flags met_entry_flags disj_commute)
qed simp

lemma node_can_be_scheduled_iff:
  "is_ok (node_can_be_scheduled catalog node) \<longleftrightarrow> entry_accepts catalog node False"
proof -
  have "is_ok (node_can_be_scheduled catalog node) \<longleftrightarrow>
      all_flags (scan_entries node catalog initial_flags)"
    by (auto simp: node_can_be_scheduled_def all_flags_def Let_def)
  then show ?thesis
    by (subst (asm) all_flags_scan_entries) (simp_all add: all_flags_def initial_flags_def)
qed

lemma nodes_can_be_scheduled_iff:
  "is_ok (nodes_can_be_scheduled catalog nodes) \<longleftrightarrow>
     catalog = [] \<or> list_all (\<lambda>node. entry_accepts catalog node False) nodes"
proof (induction nodes)
  case (Cons node nodes)
  show ?case
  proof (cases "node_can_be_scheduled catalog node")
    case (Inl e)
    then have "\<not> entry_accepts catalog node False"
      using node_can_be_scheduled_iff [of catalog node] by simp
    with Inl show ?thesis by (simp add: catalog_empty_def)
  next
    case (Inr u)
    then have "entry_accepts catalog node False"
      using node_can_be_scheduled_iff [of catalog node] by simp
    with Inr Cons show ?thesis by (simp add: catalog_empty_def)
  qed
qed simp

section \<open>Properties\<close>

text \<open>
  C26: exactly which applications are admitted.  With an empty catalog every application is;
  otherwise each function needs a catalog entry with its cores, its memory, its disk and, if it asks
  for GPUs, enough GPUs of one of its models, and all its label constraints have to hold for that
  entry or for any one entry before it in the catalog.  In particular
  an application is admitted whenever each of its functions has one entry that meets everything,
  and the order in which the functions are visited does not matter.
\<close>

theorem can_be_scheduled_iff:
  assumes "enumerates ord" "finite (dom (app_functions app))"
  shows "is_ok (can_be_scheduled ord app catalog) =
     (catalog = [] \<or>
      (\<forall>node \<in> ran (app_functions app). \<exists>i < length catalog.
         entry_resources_ok node (catalog ! i) \<and> (\<exists>j \<le> i. entry_labels_ok node (catalog ! j))))"
proof -
  have "set (map (\<lambda>name. the (app_functions app name)) (ord (dom (app_functions app)))) =
      ran (app_functions app)"
    using enumeratesD(1) [OF assms] by (force simp: ran_def dom_def image_def)
  then show ?thesis
    by (simp add: can_be_scheduled_def nodes_can_be_scheduled_iff list_all_iff entry_accepts_def
        del: set_map)
qed

definition example_entry :: "string \<Rightarrow> u32 \<Rightarrow> (string \<rightharpoonup> string) \<Rightarrow> executor_catalog_entry" where
  "example_entry name cores labels =
     \<lparr>cat_name = name, cat_cpu_cores = cores, cat_memory_gb = 16, cat_disk_gb = 100,
      cat_gpu_model = None, cat_labels = labels\<rparr>"

definition example_application :: "app_function \<Rightarrow> application" where
  "example_application node =
     \<lparr>app_namespace = ''ns'', app_name = ''app'', app_tombstoned = False, app_description = [],
      app_tags = Map.empty, app_created_at = 0, app_version = ''1'', app_code = None,
      app_functions = [fn_name node \<mapsto> node], app_state = AppActive, app_created_at_clock = None,
      app_updated_at_clock = None, app_entrypoint = None\<rparr>"

definition example_east_function :: app_function where
  "example_east_function = example_retry_function
     \<lparr>fn_placement_constraints :=
        [\<lparr>expr_key = ''zone'', expr_value = ''east'', expr_operator = Eq\<rparr>],
      fn_resources := default_function_resources\<lparr>fres_cpu_ms_per_sec := 4000\<rparr>\<rparr>"

lemmas example_application_defs =
  example_entry_def example_application_def example_east_function_def example_retry_function_def
  default_function_resources_def

lemma example_entry_resources_ok:
  "entry_resources_ok example_east_function (example_entry name cores labels) = (4 \<le> cores)"
  by (simp add: entry_resources_ok_def example_application_defs word_le_nat_alt) linarith

lemma example_entry_labels_ok:
  "entry_labels_ok example_east_function (example_entry name cores labels) =
     (labels ''zone'' = Some ''east'')"
  by (auto simp: entry_labels_ok_def example_application_defs)

lemma ran_example_application: "ran (app_functions (example_application node)) = {node}"
  by (simp add: example_application_def)

theorem can_be_scheduled_iff_witness:
  "is_ok (can_be_scheduled sorted_list_of_set (example_application example_east_function)
     [example_entry ''small'' 2 [''zone'' \<mapsto> ''east''], example_entry ''large'' 8 [''zone'' \<mapsto> ''east'']])"
proof -
  have "finite (dom (app_functions (example_application example_east_function)))"
    by (simp add: example_application_def)
  from can_be_scheduled_iff [OF enumerates_sorted_list_of_set this] show ?thesis
    by (simp add: ran_example_application)
      (rule exI [of _ 1], auto simp: example_entry_resources_ok example_entry_labels_ok)
qed

text \<open>
  Admission can be wrong.  The label flag is carried over from one catalog entry to the next,
  so a function that needs four cores in the zone \<open>east\<close> is admitted by a catalog whose \<open>east\<close>
  entry has two cores and whose other entry is in the zone \<open>west\<close>: no entry can run it.
\<close>

theorem can_be_scheduled_without_entry:
  "let catalog = [example_entry ''small'' 2 [''zone'' \<mapsto> ''east''],
                  example_entry ''large'' 8 [''zone'' \<mapsto> ''west'']] in
   can_be_scheduled sorted_list_of_set (example_application example_east_function) catalog = Ok () \<and>
   \<not> list_ex (\<lambda>entry. entry_resources_ok example_east_function entry \<and>
                     entry_labels_ok example_east_function entry) catalog"
proof -
  let ?catalog = "[example_entry ''small'' 2 [''zone'' \<mapsto> ''east''],
                   example_entry ''large'' 8 [''zone'' \<mapsto> ''west'']]"
  have "entry_accepts ?catalog example_east_function False"
    unfolding entry_accepts_Cons by (simp add: example_entry_resources_ok example_entry_labels_ok)
  then have "is_ok (nodes_can_be_scheduled ?catalog [example_east_function])"
    by (simp add: nodes_can_be_scheduled_iff del: nodes_can_be_scheduled.simps)
  then have "is_ok (can_be_scheduled sorted_list_of_set (example_application example_east_function) ?catalog)"
    by (simp add: can_be_scheduled_def example_application_def)
  then have "can_be_scheduled sorted_list_of_set (example_application example_east_function) ?catalog = Ok ()"
    by (auto elim: is_okE)
  then show ?thesis by (simp add: example_entry_resources_ok example_entry_labels_ok)
qed

end
