(* ===== verification/Persistence.thy ===== *)
theory Persistence
  imports DataModel
begin

text \<open>
  What \<open>data_model/mod.rs\<close> fixes about storage: the server clocks written by
  \<open>prepare_for_persistence\<close>, the shared contract of its nine implementations, and the byte keys
  under which requests and usage events are sorted in RocksDB.
\<close>

section \<open>The other persisted records\<close>

record gc_url =
  gc_url :: string
  gc_namespace :: string
  gc_created_at_clock :: "u64 option"
  gc_updated_at_clock :: "u64 option"

definition gc_key :: "gc_url \<Rightarrow> string" where
  "gc_key self = gc_namespace self @ ''|'' @ gc_url self"

definition gc_prepare_for_persistence :: "gc_url \<Rightarrow> u64 \<Rightarrow> gc_url" where
  "gc_prepare_for_persistence self clock =
     (let self = (if gc_created_at_clock self = None
                  then self\<lparr>gc_created_at_clock := Some clock\<rparr> else self)
      in self\<lparr>gc_updated_at_clock := Some clock\<rparr>)"

record namespace =
  ns_name :: string
  ns_created_at :: u64
  ns_blob_storage_bucket :: "string option"
  ns_blob_storage_region :: "string option"
  ns_created_at_clock :: "u64 option"
  ns_updated_at_clock :: "u64 option"

definition ns_prepare_for_persistence :: "namespace \<Rightarrow> u64 \<Rightarrow> namespace" where
  "ns_prepare_for_persistence self clock =
     (let self = (if ns_created_at_clock self = None
                  then self\<lparr>ns_created_at_clock := Some clock\<rparr> else self)
      in self\<lparr>ns_updated_at_clock := Some clock\<rparr>)"

record allocation_usage_event =
  usage_id :: u64
  usage_namespace :: string
  usage_application :: string
  usage_application_version :: string
  usage_request_id :: string
  usage_allocation_id :: allocation_id
  usage_execution_duration_ms :: u64
  usage_function :: string
  usage_created_at_clock :: "u64 option"
  usage_updated_at_clock :: "u64 option"

definition usage_prepare_for_persistence ::
  "allocation_usage_event \<Rightarrow> u64 \<Rightarrow> allocation_usage_event" where
  "usage_prepare_for_persistence self clock =
     (let self = (if usage_created_at_clock self = None
                  then self\<lparr>usage_created_at_clock := Some clock\<rparr> else self)
      in self\<lparr>usage_updated_at_clock := Some clock\<rparr>)"

section \<open>Keys as bytes\<close>

text \<open>\<open>u64::to_be_bytes\<close>: the eight bytes, most significant first.\<close>

fun be_bytes :: "nat \<Rightarrow> u64 \<Rightarrow> bytes" where
  "be_bytes 0 w = []"
| "be_bytes (Suc n) w = ucast (drop_bit (8 * n) w) # be_bytes n w"

definition to_be_bytes :: "u64 \<Rightarrow> bytes" where
  "to_be_bytes w = be_bytes 8 w"

definition usage_key :: "allocation_usage_event \<Rightarrow> bytes" where
  "usage_key self = to_be_bytes (usage_id self)"

definition as_bytes :: "string \<Rightarrow> bytes" where
  "as_bytes s = map of_char s"

definition bar :: "8 word" where
  "bar = of_char (CHR ''|'')"

definition secondary_index_key :: "request_ctx \<Rightarrow> bytes" where
  "secondary_index_key self =
     (let key = [];
          key = key @ as_bytes (req_namespace self);
          key = key @ [bar];
          key = key @ as_bytes (req_application_name self);
          key = key @ [bar];
          key = key @ to_be_bytes (req_created_at self);
          key = key @ [bar];
          key = key @ as_bytes (req_request_id self)
      in key)"

text \<open>\<open>slice::split\<close> on the bytes equal to \<open>sep\<close>.\<close>

fun split_bytes :: "8 word \<Rightarrow> bytes \<Rightarrow> bytes list" where
  "split_bytes sep [] = [[]]"
| "split_bytes sep (b # bs) =
     (if b = sep then [] # split_bytes sep bs
      else (case split_bytes sep bs of
              [] \<Rightarrow> [[b]]
            | part # parts \<Rightarrow> (b # part) # parts))"

text \<open>
  \<open>get_request_id_from_secondary_index_key\<close> before the last step, the conversion of the bytes to
  a string, which is the identity on UTF-8 text.
\<close>

definition get_request_id_from_secondary_index_key :: "bytes \<Rightarrow> bytes option" where
  "get_request_id_from_secondary_index_key key =
     (let parts = split_bytes bar key in if 3 < length parts then Some (parts ! 3) else None)"

section \<open>The contract of \<open>prepare_for_persistence\<close>\<close>

locale clocked =
  fixes created_at_clock :: "'a \<Rightarrow> u64 option"
    and updated_at_clock :: "'a \<Rightarrow> u64 option"
    and prepare :: "'a \<Rightarrow> u64 \<Rightarrow> 'a"
  assumes created_prepare:
      "created_at_clock (prepare x c) = Some (unwrap_or (created_at_clock x) c)"
    and updated_prepare: "updated_at_clock (prepare x c) = Some c"
begin

lemma created_fold:
  "created_at_clock (fold (\<lambda>c x. prepare x c) (c # cs) x) = Some (unwrap_or (created_at_clock x) c)"
  by (induction cs arbitrary: c x) (simp_all add: created_prepare)

lemma updated_fold:
  "updated_at_clock (fold (\<lambda>c x. prepare x c) (c # cs) x) = Some (last (c # cs))"
  by (induction cs arbitrary: c x) (simp_all add: updated_prepare)

end

interpretation run_clocks: clocked run_created_at_clock run_updated_at_clock run_prepare_for_persistence
  by unfold_locales (auto simp: run_prepare_for_persistence_def)

interpretation app_clocks: clocked app_created_at_clock app_updated_at_clock app_prepare_for_persistence
  by unfold_locales (auto simp: app_prepare_for_persistence_def)

interpretation ver_clocks: clocked ver_created_at_clock ver_updated_at_clock ver_prepare_for_persistence
  by unfold_locales (auto simp: ver_prepare_for_persistence_def)

interpretation req_clocks: clocked req_created_at_clock req_updated_at_clock req_prepare_for_persistence
  by unfold_locales (auto simp: req_prepare_for_persistence_def Let_def)

interpretation pool_clocks: clocked pool_created_at_clock pool_updated_at_clock pool_prepare_for_persistence
  by unfold_locales (auto simp: pool_prepare_for_persistence_def)

interpretation sbx_clocks: clocked sbx_created_at_clock sbx_updated_at_clock sbx_prepare_for_persistence
  by unfold_locales (auto simp: sbx_prepare_for_persistence_def)

interpretation gc_clocks: clocked gc_created_at_clock gc_updated_at_clock gc_prepare_for_persistence
  by unfold_locales (auto simp: gc_prepare_for_persistence_def)

interpretation ns_clocks: clocked ns_created_at_clock ns_updated_at_clock ns_prepare_for_persistence
  by unfold_locales (auto simp: ns_prepare_for_persistence_def)

interpretation usage_clocks:
  clocked usage_created_at_clock usage_updated_at_clock usage_prepare_for_persistence
  by unfold_locales (auto simp: usage_prepare_for_persistence_def)

section \<open>Lemmas\<close>

lemma req_function_runs_prepare_fold:
  "req_function_runs (fold (\<lambda>c x. req_prepare_for_persistence x c) cs ctx) fid =
     map_option (fold (\<lambda>c x. run_prepare_for_persistence x c) cs) (req_function_runs ctx fid)"
  by (induction cs arbitrary: ctx)
    (simp_all add: req_prepare_for_persistence_def Let_def option.map_comp comp_def option.map_id)

subsection \<open>Big-endian bytes sort like numbers\<close>

lemma digits_less_iff:
  fixes a b d e B :: nat
  assumes "a < B" "b < B"
  shows "d * B + a < e * B + b \<longleftrightarrow> d < e \<or> d = e \<and> a < b"
proof (cases d e rule: linorder_cases)
  case less
  have "d * B + a < Suc d * B" using assms by simp
  also have "\<dots> \<le> e * B" using less by (intro mult_le_mono1) simp
  finally show ?thesis using less by simp
next
  case greater
  have "e * B + b < Suc e * B" using assms by simp
  also have "\<dots> \<le> d * B" using greater by (intro mult_le_mono1) simp
  finally show ?thesis using greater by simp
qed simp

lemma unat_u64_mod: "unat (x :: u64) mod 2 ^ 64 = unat x"
  by (rule mod_less) (rule order.strict_trans2 [OF unsigned_less], simp)

lemma unat_digit:
  "unat (ucast (drop_bit (8 * n) (w :: u64)) :: 8 word) = unat w div 2 ^ (8 * n) mod 256"
  unfolding unsigned_ucast_eq unsigned_drop_bit_eq
  by (simp add: take_bit_eq_mod drop_bit_eq_div unat_u64_mod [simplified])

lemma mod_Suc_digit:
  fixes x :: nat
  shows "x mod 2 ^ (8 * Suc n) = (x div 2 ^ (8 * n) mod 256) * 2 ^ (8 * n) + x mod 2 ^ (8 * n)"
proof -
  have "x mod (2 ^ (8 * n) * 256) = 2 ^ (8 * n) * (x div 2 ^ (8 * n) mod 256) + x mod 2 ^ (8 * n)"
    by (rule mod_mult2_eq)
  moreover have "(2 :: nat) ^ (8 * Suc n) = 2 ^ (8 * n) * 256"
    by (simp add: power_add)
  ultimately show ?thesis by (simp only: mult.commute)
qed

lemma be_bytes_less_iff:
  "be_bytes n v < be_bytes n w \<longleftrightarrow> unat v mod 2 ^ (8 * n) < unat w mod 2 ^ (8 * n)"
proof (induction n)
  case 0
  show ?case by simp
next
  case (Suc n)
  show ?case
    unfolding be_bytes.simps Cons_less_Cons mod_Suc_digit Suc.IH
    by (subst digits_less_iff) (simp_all add: word_less_nat_alt unat_digit word_unat_eq_iff)
qed

lemma to_be_bytes_less_iff: "to_be_bytes v < to_be_bytes w \<longleftrightarrow> v < w"
  by (simp add: to_be_bytes_def be_bytes_less_iff word_less_nat_alt unat_u64_mod [simplified])

lemma length_be_bytes [simp]: "length (be_bytes n w) = n"
  by (induction n) simp_all

lemma length_to_be_bytes [simp]: "length (to_be_bytes w) = 8"
  by (simp add: to_be_bytes_def)

lemma to_be_bytes_eq_iff: "to_be_bytes v = to_be_bytes w \<longleftrightarrow> v = w"
  by (metis less_irrefl linorder_cases to_be_bytes_less_iff)

lemma append_less_prefix:
  fixes xs ys :: "'a :: linorder list"
  assumes "xs < ys" "length xs = length ys"
  shows "xs @ us < ys @ vs"
  using assms
proof (induction xs arbitrary: ys)
  case (Cons x xs)
  then show ?case by (cases ys) auto
qed simp

lemma append_less_same [simp]:
  fixes xs :: "'a :: linorder list"
  shows "xs @ us < xs @ vs \<longleftrightarrow> us < vs"
  by (induction xs) simp_all

lemma be_bytes_map: "be_bytes n w = map (\<lambda>i. ucast (drop_bit (8 * i) w)) (rev [0..<n])"
  by (induction n) simp_all

lemma to_be_bytes_unfold:
  "to_be_bytes w =
     [ucast (drop_bit 56 w), ucast (drop_bit 48 w), ucast (drop_bit 40 w), ucast (drop_bit 32 w),
      ucast (drop_bit 24 w), ucast (drop_bit 16 w), ucast (drop_bit 8 w), ucast w]"
proof -
  have "rev [0..<8] = [7, 6, 5, 4, 3, 2, 1, 0]" by code_simp
  then show ?thesis by (simp only: to_be_bytes_def be_bytes_map) simp
qed

lemma unat_of_char: "unat (of_char c :: 8 word) = of_char c"
  by (subst of_nat_of_char [symmetric]) (simp add: unsigned_of_nat take_bit_eq_mod)

lemma of_char_byte_eq_iff: "(of_char c :: 8 word) = of_char d \<longleftrightarrow> c = d"
  unfolding word_unat_eq_iff unat_of_char by (rule of_char_eq_iff)

lemma bar_as_bytes: "bar \<in> set (as_bytes s) \<longleftrightarrow> CHR ''|'' \<in> set s"
  unfolding as_bytes_def bar_def set_map
  by (rule inj_image_mem_iff) (rule injI, simp only: of_char_byte_eq_iff)

subsection \<open>Splitting\<close>

lemma split_bytes_not_Nil [simp]: "split_bytes sep bs \<noteq> []"
  by (cases bs) (auto split: list.splits)

lemma split_bytes_no_sep: "sep \<notin> set bs \<Longrightarrow> split_bytes sep bs = [bs]"
  by (induction bs) auto

lemma split_bytes_sep: "sep \<notin> set bs \<Longrightarrow> split_bytes sep (bs @ sep # cs) = bs # split_bytes sep cs"
  by (induction bs) auto

section \<open>Properties\<close>

text \<open>
  The server clocks of a request.  However often a request is persisted (at the clocks \<open>c\<close>,
  then \<open>cs\<close>), \<open>created_at_clock\<close> is set by the first write and kept by the later ones, and
  \<open>updated_at_clock\<close> is that of the last write, for the request and for each function run in it;
  a run that is new stops being new.
\<close>

theorem request_persistence_clocks:
  "let ctx' = fold (\<lambda>c x. req_prepare_for_persistence x c) (c # cs) ctx in
     req_created_at_clock ctx' = Some (unwrap_or (req_created_at_clock ctx) c) \<and>
     req_updated_at_clock ctx' = Some (last (c # cs)) \<and>
     dom (req_function_runs ctx') = dom (req_function_runs ctx) \<and>
     (case req_function_runs ctx fid of
        None \<Rightarrow> req_function_runs ctx' fid = None
      | Some run \<Rightarrow>
          (case req_function_runs ctx' fid of
             None \<Rightarrow> False
           | Some run' \<Rightarrow>
               run_created_at_clock run' = Some (unwrap_or (run_created_at_clock run) c) \<and>
               run_updated_at_clock run' = Some (last (c # cs)) \<and> \<not> run_is_new run'))"
proof -
  define F where "F = fold (\<lambda>c x. run_prepare_for_persistence x c) (c # cs)"
  let ?ctx' = "fold (\<lambda>c x. req_prepare_for_persistence x c) (c # cs) ctx"
  have runs: "req_function_runs ?ctx' x = map_option F (req_function_runs ctx x)" for x
    unfolding F_def by (rule req_function_runs_prepare_fold)
  have F: "run_created_at_clock (F run) = Some (unwrap_or (run_created_at_clock run) c)"
    "run_updated_at_clock (F run) = Some (last (c # cs))" for run
    unfolding F_def by (rule run_clocks.created_fold run_clocks.updated_fold)+
  have "dom (req_function_runs ?ctx') = dom (req_function_runs ctx)"
    unfolding dom_def runs by simp
  then show ?thesis
    unfolding Let_def req_clocks.created_fold req_clocks.updated_fold runs run_is_new_def
    by (cases "req_function_runs ctx fid") (simp_all add: F)
qed

text \<open>
  RocksDB iterates the secondary index of an application's requests in creation order: with
  the same namespace and application the key of the older request sorts first, whatever the
  request ids are.  Usage events sort by their sequence number.
\<close>

theorem secondary_index_key_order:
  assumes "req_namespace a = req_namespace b" "req_application_name a = req_application_name b"
    and "req_created_at a \<noteq> req_created_at b"
  shows "(secondary_index_key a < secondary_index_key b) = (req_created_at a < req_created_at b) \<and>
         (usage_key u < usage_key v) = (usage_id u < usage_id v)"
proof -
  have older: "secondary_index_key x < secondary_index_key y"
    if "req_created_at x < req_created_at y" "req_namespace x = req_namespace y"
      "req_application_name x = req_application_name y" for x y
    using that unfolding secondary_index_key_def Let_def
    by simp (simp add: append_less_prefix to_be_bytes_less_iff)
  show ?thesis
    using assms older [of a b] older [of b a]
    by (cases "req_created_at a" "req_created_at b" rule: linorder_cases)
      (auto simp: usage_key_def to_be_bytes_less_iff)
qed

definition example_request :: "u64 \<Rightarrow> string \<Rightarrow> request_ctx" where
  "example_request created_at request_id =
     \<lparr>req_namespace = ''default'', req_application_name = ''app'', req_application_version = ''1'',
      req_request_id = request_id, req_outcome = None, req_created_at = created_at,
      req_request_error = None, req_created_at_clock = None, req_updated_at_clock = None,
      req_function_runs = Map.empty, req_function_calls = Map.empty\<rparr>"

theorem secondary_index_key_order_witness:
  "(secondary_index_key (example_request 255 ''z'') < secondary_index_key (example_request 256 ''a'')) =
     (req_created_at (example_request 255 ''z'') < req_created_at (example_request 256 ''a'')) \<and>
   secondary_index_key (example_request 255 ''z'') < secondary_index_key (example_request 256 ''a'')"
  using secondary_index_key_order [of "example_request 255 ''z''" "example_request 256 ''a''"]
  by (simp add: example_request_def)

text \<open>
  The request id is read back from a secondary index key whenever neither the namespace, nor
  the application, nor the request id contain the separator, and no byte of the creation time
  happens to be the separator.
\<close>

theorem secondary_index_roundtrip:
  assumes "CHR ''|'' \<notin> set (req_namespace ctx)" "CHR ''|'' \<notin> set (req_application_name ctx)"
    and "CHR ''|'' \<notin> set (req_request_id ctx)" "bar \<notin> set (to_be_bytes (req_created_at ctx))"
  shows "get_request_id_from_secondary_index_key (secondary_index_key ctx) =
           Some (as_bytes (req_request_id ctx))"
  using assms
  by (simp add: get_request_id_from_secondary_index_key_def secondary_index_key_def
      split_bytes_sep split_bytes_no_sep bar_as_bytes)

theorem secondary_index_roundtrip_witness:
  "get_request_id_from_secondary_index_key
     (secondary_index_key (example_request 1760000000000 ''r1'')) = Some (as_bytes ''r1'')"
  using secondary_index_roundtrip [of "example_request 1760000000000 ''r1''"]
  by (simp add: example_request_def to_be_bytes_unfold bar_def)

text \<open>
  The last condition is needed.  The creation time is written as raw bytes, so a request
  created at a millisecond with a byte \<open>0x7C\<close> in it, here \<open>1760000000124\<close>, has a separator too
  many in its key, and the id that is read back is not its id.
\<close>

theorem secondary_index_wrong_request_id:
  "get_request_id_from_secondary_index_key (secondary_index_key (example_request 1760000000124 ''r1''))
     \<noteq> Some (as_bytes ''r1'')"
  by (simp add: get_request_id_from_secondary_index_key_def secondary_index_key_def
      example_request_def to_be_bytes_unfold bar_def as_bytes_def)

end
