(* ===== verification/InMemoryState.thy ===== *)
theory InMemoryState
  imports Applications Persistence Requests
begin

text \<open>
  The state the processors schedule from, \<open>InMemoryState\<close> of
  \<open>crates/server/src/state_store/in_memory_state.rs\<close>: its construction from the stored rows, the
  application of scheduler updates and of every other request, and the deletion of requests.

  The ordered maps (\<open>imbl::OrdMap\<close>) are maps whose key sets are listed in order; a range scan with a
  prefix is written as the source has it (\<open>prefix_scan\<close>).  The hash containers are iterated in the
  orders of \<open>state_orders\<close>.  Logging and metrics are left out.
\<close>

section \<open>State\<close>

record pending_resources =
  pend_function_runs :: histogram
  pend_sandboxes :: histogram
  pend_function_pool_deficits :: histogram
  pend_sandbox_pool_deficits :: histogram

definition default_pending_resources :: pending_resources where
  "default_pending_resources =
     \<lparr>pend_function_runs = Map.empty, pend_sandboxes = Map.empty,
      pend_function_pool_deficits = Map.empty, pend_sandbox_pool_deficits = Map.empty\<rparr>"

type_synonym executor_allocations = "container_id \<rightharpoonup> (allocation_id \<rightharpoonup> allocation)"

record in_memory_state =
  ims_clock :: u64
  ims_namespaces :: "string \<rightharpoonup> namespace"
  ims_applications :: "string \<rightharpoonup> application"
  ims_application_versions :: "string \<rightharpoonup> application_version"
  ims_allocations_by_executor :: "executor_id \<rightharpoonup> executor_allocations"
  ims_unallocated_function_runs :: "function_run_key set"
  ims_function_runs :: "function_run_key \<rightharpoonup> function_run"
  ims_request_ctx :: "request_ctx_key \<rightharpoonup> request_ctx"
  ims_executor_catalog :: executor_catalog
  ims_sandboxes :: "sandbox_key \<rightharpoonup> sandbox"
  ims_sandboxes_by_id :: "(string, sandbox_key) index"
  ims_sandbox_by_container :: "container_id \<rightharpoonup> sandbox_key"
  ims_sandboxes_by_executor :: "(executor_id, sandbox_key) index"
  ims_pending_sandboxes :: "sandbox_key set"
  ims_pending_sandboxes_by_profile :: "(resource_profile, sandbox_key) index"
  ims_pending_sandbox_profile :: "sandbox_key \<rightharpoonup> resource_profile"
  ims_snapshots :: "snapshot_key \<rightharpoonup> snapshot"
  ims_pending_resources :: pending_resources

record state_orders =
  so_requests :: "request_ctx_key set \<Rightarrow> request_ctx_key list"
  so_runs :: "function_call_id set \<Rightarrow> function_call_id list"
  so_sandboxes :: "sandbox_key set \<Rightarrow> sandbox_key list"

text \<open>\<open>map.range(prefix..).take_while(|(k, _)| k.starts_with(&prefix))\<close> on an ordered map.\<close>

definition prefix_scan :: "(string \<rightharpoonup> 'v) \<Rightarrow> string \<Rightarrow> string list" where
  "prefix_scan m prefix =
     takeWhile (starts_with prefix) (filter (\<lambda>k. prefix \<le> k) (sorted_list_of_set (dom m)))"

section \<open>Lookups\<close>

definition key_application_version :: "function_run \<Rightarrow> string \<Rightarrow> string" where
  "key_application_version run application = run_namespace run @ ''|'' @ application @ ''|'' @ run_version run"

definition version_key_from :: "string \<Rightarrow> string \<Rightarrow> string \<Rightarrow> string" where
  "version_key_from namespace application version = namespace @ ''|'' @ application @ ''|'' @ version"

definition app_key_from :: "string \<Rightarrow> string \<Rightarrow> string" where
  "app_key_from namespace name = namespace @ ''|'' @ name"

definition app_key_prefix :: "string \<Rightarrow> string \<Rightarrow> string" where
  "app_key_prefix namespace name = namespace @ ''|'' @ name @ ''|''"

definition run_key_prefix_for_request :: "string \<Rightarrow> string \<Rightarrow> string \<Rightarrow> string" where
  "run_key_prefix_for_request namespace application request_id =
     namespace @ ''|'' @ application @ ''|'' @ request_id @ ''|''"

definition get_function_static :: "(string \<rightharpoonup> application_version) \<Rightarrow> function_run \<Rightarrow> app_function option" where
  "get_function_static application_versions run =
     (case application_versions (key_application_version run (run_application run)) of
        None \<Rightarrow> None
      | Some ver \<Rightarrow> ver_functions ver (run_name run))"

definition get_function :: "in_memory_state \<Rightarrow> function_run \<Rightarrow> app_function option" where
  "get_function self run = get_function_static (ims_application_versions self) run"

definition ims_application_version ::
  "in_memory_state \<Rightarrow> string \<Rightarrow> string \<Rightarrow> string \<Rightarrow> application_version option" where
  "ims_application_version self namespace application version =
     ims_application_versions self (version_key_from namespace application version)"

definition get_existing_application_version :: "in_memory_state \<Rightarrow> function_run \<Rightarrow> application_version option" where
  "get_existing_application_version self run =
     ims_application_versions self (key_application_version run (run_application run))"

definition resolve_pending_function_runs :: "in_memory_state \<Rightarrow> function_run_key list \<Rightarrow> function_run list" where
  "resolve_pending_function_runs self keys =
     filter (\<lambda>run. run_status run = Pending) (List.map_filter (ims_function_runs self) keys)"

section \<open>Pending work\<close>

definition count_run :: "function_run \<Rightarrow> in_memory_state \<Rightarrow> in_memory_state" where
  "count_run run self =
     (case get_function self run of
        Some f \<Rightarrow>
          self\<lparr>ims_pending_resources := (ims_pending_resources self)\<lparr>pend_function_runs :=
            hist_increment (profile_from_function f) (pend_function_runs (ims_pending_resources self))\<rparr>\<rparr>
      | None \<Rightarrow> self)"

definition uncount_run :: "function_run \<Rightarrow> in_memory_state \<Rightarrow> in_memory_state" where
  "uncount_run run self =
     (case get_function self run of
        Some f \<Rightarrow>
          self\<lparr>ims_pending_resources := (ims_pending_resources self)\<lparr>pend_function_runs :=
            hist_decrement (profile_from_function f) (pend_function_runs (ims_pending_resources self))\<rparr>\<rparr>
      | None \<Rightarrow> self)"

definition add_pending_sandbox :: "sandbox_key \<Rightarrow> resource_profile \<Rightarrow> in_memory_state \<Rightarrow> in_memory_state" where
  "add_pending_sandbox key profile self =
     self\<lparr>ims_pending_sandboxes := insert key (ims_pending_sandboxes self),
          ims_pending_sandboxes_by_profile := idx_insert profile key (ims_pending_sandboxes_by_profile self),
          ims_pending_sandbox_profile := (ims_pending_sandbox_profile self)(key \<mapsto> profile),
          ims_pending_resources := (ims_pending_resources self)\<lparr>pend_sandboxes :=
            hist_increment profile (pend_sandboxes (ims_pending_resources self))\<rparr>\<rparr>"

definition remove_pending_sandbox :: "sandbox_key \<Rightarrow> in_memory_state \<Rightarrow> in_memory_state" where
  "remove_pending_sandbox key self =
     (let profile = ims_pending_sandbox_profile self key;
          self = self\<lparr>ims_pending_sandboxes := ims_pending_sandboxes self - {key},
                      ims_pending_sandbox_profile := (ims_pending_sandbox_profile self)(key := None)\<rparr>
      in case profile of
           Some profile \<Rightarrow>
             self\<lparr>ims_pending_sandboxes_by_profile := idx_remove profile key (ims_pending_sandboxes_by_profile self),
                  ims_pending_resources := (ims_pending_resources self)\<lparr>pend_sandboxes :=
                    hist_decrement profile (pend_sandboxes (ims_pending_resources self))\<rparr>\<rparr>
         | None \<Rightarrow> self)"

section \<open>Deleting requests\<close>

definition delete_function_run :: "function_run \<Rightarrow> in_memory_state \<Rightarrow> in_memory_state" where
  "delete_function_run run self =
     (let key = run_key run;
          was_pending = (key \<in> ims_unallocated_function_runs self);
          self = self\<lparr>ims_function_runs := (ims_function_runs self)(key := None),
                      ims_unallocated_function_runs := ims_unallocated_function_runs self - {key}\<rparr>
      in if was_pending then uncount_run run self else self)"

text \<open>\<open>retain\<close> on every container of every executor.\<close>

definition drop_allocations :: "function_run list \<Rightarrow> in_memory_state \<Rightarrow> in_memory_state" where
  "drop_allocations runs self =
     self\<lparr>ims_allocations_by_executor := (\<lambda>eid. map_option (\<lambda>by_fe cid. map_option (\<lambda>allocations aid.
        case allocations aid of
          Some allocation \<Rightarrow>
            if list_ex (\<lambda>run. run_id run = al_function_call_id allocation) runs then None else Some allocation
        | None \<Rightarrow> None) (by_fe cid)) (ims_allocations_by_executor self eid))\<rparr>"

definition delete_function_runs :: "function_run list \<Rightarrow> in_memory_state \<Rightarrow> in_memory_state" where
  "delete_function_runs runs self = drop_allocations runs (fold delete_function_run runs self)"

definition delete_request :: "string \<Rightarrow> string \<Rightarrow> string \<Rightarrow> in_memory_state \<Rightarrow> in_memory_state" where
  "delete_request namespace application request_id self =
     (let self = self\<lparr>ims_request_ctx :=
            (ims_request_ctx self)(request_ctx_key_new namespace application request_id := None)\<rparr>;
          runs = map (\<lambda>k. the (ims_function_runs self k))
            (prefix_scan (ims_function_runs self) (run_key_prefix_for_request namespace application request_id))
      in delete_function_runs runs self)"

section \<open>Scheduler updates\<close>

text \<open>One function run of \<open>updated_function_runs\<close>, with the four cases of the \<open>match\<close>.\<close>

definition apply_function_run :: "function_run \<Rightarrow> in_memory_state \<Rightarrow> in_memory_state" where
  "apply_function_run run self =
     (let key = run_key run;
          was_pending = (key \<in> ims_unallocated_function_runs self);
          is_pending = (run_status run = Pending);
          inserted = self\<lparr>ims_unallocated_function_runs := insert key (ims_unallocated_function_runs self)\<rparr>;
          removed = self\<lparr>ims_unallocated_function_runs := ims_unallocated_function_runs self - {key}\<rparr>;
          self = (if \<not> was_pending \<and> is_pending then count_run run inserted
                  else if was_pending \<and> \<not> is_pending then uncount_run run removed
                  else if is_pending then inserted
                  else removed)
      in self\<lparr>ims_function_runs := (ims_function_runs self)(key \<mapsto> run)\<rparr>)"

definition updated_function_run ::
  "scheduler_update_request \<Rightarrow> request_ctx_key \<Rightarrow> function_call_id \<Rightarrow> in_memory_state \<Rightarrow> in_memory_state" where
  "updated_function_run req ctx_key cid self =
     (case su_updated_request_states req ctx_key of
        None \<Rightarrow> self
      | Some ctx \<Rightarrow>
          (case req_function_runs ctx cid of
             None \<Rightarrow> self
           | Some run \<Rightarrow> apply_function_run run self))"

definition apply_request_state :: "request_ctx_key \<Rightarrow> request_ctx \<Rightarrow> in_memory_state \<Rightarrow> in_memory_state" where
  "apply_request_state key ctx self =
     (if req_outcome ctx \<noteq> None
      then delete_request (req_namespace ctx) (req_application_name ctx) (req_request_id ctx) self
      else self\<lparr>ims_request_ctx := (ims_request_ctx self)(key \<mapsto> ctx)\<rparr>)"

definition insert_allocation :: "allocation \<Rightarrow> in_memory_state \<Rightarrow> in_memory_state" where
  "insert_allocation allocation self =
     (let eid = target_executor_id (al_target allocation);
          cid = target_container_id (al_target allocation);
          by_fe = unwrap_or (ims_allocations_by_executor self eid) Map.empty;
          allocations = unwrap_or (by_fe cid) Map.empty
      in self\<lparr>ims_allocations_by_executor := (ims_allocations_by_executor self)
           (eid \<mapsto> by_fe(cid \<mapsto> allocations(al_id allocation \<mapsto> allocation)))\<rparr>)"

definition apply_new_allocation ::
  "allocation \<Rightarrow> executor_id set \<times> in_memory_state \<Rightarrow> executor_id set \<times> in_memory_state" where
  "apply_new_allocation allocation st =
     (let (changed_executors, self) = st
      in if ims_function_runs self (function_run_key_of_allocation allocation) = None then st
         else (insert (target_executor_id (al_target allocation)) changed_executors,
               insert_allocation allocation self))"

definition store_sandbox :: "sandbox_key \<Rightarrow> sandbox \<Rightarrow> in_memory_state \<Rightarrow> in_memory_state" where
  "store_sandbox key sandbox self =
     self\<lparr>ims_sandboxes := (ims_sandboxes self)(key \<mapsto> sandbox),
          ims_sandboxes_by_id := idx_insert (sbx_id sandbox) key (ims_sandboxes_by_id self)\<rparr>"

definition locate_sandbox :: "sandbox_key \<Rightarrow> sandbox \<Rightarrow> in_memory_state \<Rightarrow> in_memory_state" where
  "locate_sandbox key sandbox self =
     (let self = (case sbx_container_id sandbox of
                    Some cid \<Rightarrow> self\<lparr>ims_sandbox_by_container := (ims_sandbox_by_container self)(cid \<mapsto> key)\<rparr>
                  | None \<Rightarrow> self)
      in case sbx_executor_id sandbox of
           Some eid \<Rightarrow> self\<lparr>ims_sandboxes_by_executor := idx_insert eid key (ims_sandboxes_by_executor self)\<rparr>
         | None \<Rightarrow> self)"

definition drop_sandbox :: "sandbox_key \<Rightarrow> in_memory_state \<Rightarrow> in_memory_state" where
  "drop_sandbox key self =
     (let old = ims_sandboxes self key;
          self = (case Option.bind old sbx_container_id of
                    Some cid \<Rightarrow> self\<lparr>ims_sandbox_by_container := (ims_sandbox_by_container self)(cid := None)\<rparr>
                  | None \<Rightarrow> self);
          self = (case Option.bind old sbx_executor_id of
                    Some eid \<Rightarrow> self\<lparr>ims_sandboxes_by_executor := idx_remove eid key (ims_sandboxes_by_executor self)\<rparr>
                  | None \<Rightarrow> self);
          self = (case old of
                    Some sandbox \<Rightarrow>
                      self\<lparr>ims_sandboxes_by_id := idx_remove (sbx_id sandbox) key (ims_sandboxes_by_id self)\<rparr>
                  | None \<Rightarrow> self)
      in self\<lparr>ims_sandboxes := (ims_sandboxes self)(key := None)\<rparr>)"

definition apply_sandbox :: "sandbox_key \<Rightarrow> sandbox \<Rightarrow> in_memory_state \<Rightarrow> in_memory_state" where
  "apply_sandbox key sandbox self =
     (let was_pending = (key \<in> ims_pending_sandboxes self) in
      case sbx_status sandbox of
        SB_Pending reason \<Rightarrow>
          (let self = store_sandbox key sandbox self;
               awaiting_alloc = (reason \<noteq> SB_WaitingForContainer);
               self = (if was_pending \<and> \<not> awaiting_alloc then remove_pending_sandbox key self
                       else if \<not> was_pending \<and> awaiting_alloc
                       then add_pending_sandbox key (profile_from_container_resources (sbx_resources sandbox)) self
                       else self)
           in locate_sandbox key sandbox self)
      | SB_Running \<Rightarrow>
          (let self = store_sandbox key sandbox self
           in if was_pending then locate_sandbox key sandbox (remove_pending_sandbox key self) else self)
      | SB_Snapshotting _ \<Rightarrow> store_sandbox key sandbox self
      | SB_Terminated \<Rightarrow>
          drop_sandbox key (if was_pending then remove_pending_sandbox key self else self))"

definition container_changes_executor :: "container_server_metadata \<Rightarrow> bool" where
  "container_changes_executor fc \<longleftrightarrow>
     (case ct_state (csm_function_container fc) of CS_Pending \<Rightarrow> True | _ \<Rightarrow> False) \<or>
     (case csm_desired_state fc of CS_Terminated _ \<Rightarrow> True | _ \<Rightarrow> False) \<or>
     ct_sandbox_id (csm_function_container fc) \<noteq> None"

definition set_deficits :: "scheduler_update_request \<Rightarrow> pending_resources \<Rightarrow> pending_resources" where
  "set_deficits req pending =
     (let pending = (case su_function_pool_deficits req of
                       Some d \<Rightarrow> pending\<lparr>pend_function_pool_deficits := d\<rparr> | None \<Rightarrow> pending)
      in case su_sandbox_pool_deficits req of
           Some d \<Rightarrow> pending\<lparr>pend_sandbox_pool_deficits := d\<rparr> | None \<Rightarrow> pending)"

definition apply_scheduler_update_inner ::
  "state_orders \<Rightarrow> scheduler_update_request \<Rightarrow> executor_id set \<times> in_memory_state \<Rightarrow>
   executor_id set \<times> in_memory_state" where
  "apply_scheduler_update_inner ord req st =
     (let (changed_executors, self) = st;
          changed_executors = changed_executors \<union>
            (\<lambda>allocation. target_executor_id (al_target allocation)) ` set (su_updated_allocations req);
          self = fold (\<lambda>ctx_key. fold (updated_function_run req ctx_key)
                     (so_runs ord (the (su_updated_function_runs req ctx_key))))
                   (so_requests ord (dom (su_updated_function_runs req))) self;
          self = fold (\<lambda>key. apply_request_state key (the (su_updated_request_states req key)))
                   (so_requests ord (dom (su_updated_request_states req))) self;
          (changed_executors, self) = fold apply_new_allocation (su_new_allocations req) (changed_executors, self);
          changed_executors = changed_executors \<union> set (su_remove_executors req);
          self = self\<lparr>ims_allocations_by_executor :=
            ims_allocations_by_executor self |` (- set (su_remove_executors req))\<rparr>;
          self = fold (\<lambda>key. apply_sandbox key (the (su_updated_sandboxes req key)))
                   (so_sandboxes ord (dom (su_updated_sandboxes req))) self;
          self = self\<lparr>ims_snapshots := ims_snapshots self ++ su_updated_snapshots req\<rparr>;
          changed_executors = changed_executors \<union>
            csm_executor_id ` {fc \<in> ran (su_containers req). container_changes_executor fc}
      in (changed_executors, self\<lparr>ims_pending_resources := set_deficits req (ims_pending_resources self)\<rparr>))"

definition apply_scheduler_update ::
  "state_orders \<Rightarrow> u64 \<Rightarrow> scheduler_update_request \<Rightarrow> in_memory_state \<Rightarrow> executor_id set \<times> in_memory_state" where
  "apply_scheduler_update ord clock update self =
     apply_scheduler_update_inner ord update ({}, self\<lparr>ims_clock := clock\<rparr>)"

section \<open>Other requests\<close>

definition invoke_run :: "function_run \<Rightarrow> in_memory_state \<Rightarrow> in_memory_state" where
  "invoke_run run self =
     count_run run (self\<lparr>ims_function_runs := (ims_function_runs self)(run_key run \<mapsto> run),
       ims_unallocated_function_runs := insert (run_key run) (ims_unallocated_function_runs self)\<rparr>)"

definition create_namespace :: "u64 \<Rightarrow> namespace_request \<Rightarrow> in_memory_state \<Rightarrow> in_memory_state" where
  "create_namespace now req self =
     (let created_at = (case ims_namespaces self (nsr_name req) of
            Some existing \<Rightarrow> ns_created_at existing | None \<Rightarrow> now)
      in self\<lparr>ims_namespaces := (ims_namespaces self)(nsr_name req \<mapsto>
           \<lparr>ns_name = nsr_name req, ns_created_at = created_at,
            ns_blob_storage_bucket = nsr_blob_storage_bucket req,
            ns_blob_storage_region = nsr_blob_storage_region req,
            ns_created_at_clock = None, ns_updated_at_clock = None\<rparr>)\<rparr>)"

text \<open>The upgrade of the requests of an application to its new version.\<close>

definition upgrade_run ::
  "string \<Rightarrow> function_run \<Rightarrow> request_ctx \<times> in_memory_state \<Rightarrow> request_ctx \<times> in_memory_state" where
  "upgrade_run version run st =
     (let (ctx, self) = st;
          (run, ctx) = (if run_version run \<noteq> version
             then (let run = run\<lparr>run_version := version\<rparr>
                   in (run, ctx\<lparr>req_function_runs := (req_function_runs ctx)(run_id run \<mapsto> run)\<rparr>))
             else (run, ctx));
          self = (if ims_function_runs self (run_key run) \<noteq> None
             then self\<lparr>ims_function_runs := (ims_function_runs self)(run_key run \<mapsto> run)\<rparr> else self)
      in (ctx, self))"

definition upgrade_request ::
  "state_orders \<Rightarrow> string \<Rightarrow> request_ctx \<Rightarrow> request_ctx list \<times> in_memory_state \<Rightarrow> request_ctx list \<times> in_memory_state" where
  "upgrade_request ord version ctx st =
     (let (upgraded, self) = st;
          (ctx, self) = fold (\<lambda>cid. upgrade_run version (the (req_function_runs ctx cid)))
                          (so_runs ord (dom (req_function_runs ctx))) (ctx, self)
      in (upgraded @ [ctx], self))"

definition upgrade_requests ::
  "state_orders \<Rightarrow> string \<Rightarrow> string \<Rightarrow> string \<Rightarrow> in_memory_state \<Rightarrow> in_memory_state" where
  "upgrade_requests ord namespace application version self =
     (let ctxs = map (\<lambda>k. (the (ims_request_ctx self k))\<lparr>req_application_version := version\<rparr>)
            (prefix_scan (ims_request_ctx self) (app_key_prefix namespace application));
          (ctxs, self) = fold (upgrade_request ord version) ctxs ([], self)
      in fold (\<lambda>ctx self. self\<lparr>ims_request_ctx := (ims_request_ctx self)(req_key ctx \<mapsto> ctx)\<rparr>) ctxs self)"

definition create_or_update_application ::
  "state_orders \<Rightarrow> create_or_update_application_request \<Rightarrow> in_memory_state \<Rightarrow> in_memory_state" where
  "create_or_update_application ord req self =
     (let app = cua_application req;
          ver = to_version app;
          self = self\<lparr>ims_applications := (ims_applications self)(app_key_from (app_namespace app) (app_name app) \<mapsto> app),
            ims_application_versions := (ims_application_versions self)
              (version_key_from (ver_namespace ver) (ver_name ver) (ver_version ver) \<mapsto> ver)\<rparr>
      in if cua_upgrade_requests_to_current_version req
         then upgrade_requests ord (cua_namespace req) (app_name app) (ver_version ver) self
         else self)"

definition ims_delete_application :: "delete_application_request \<Rightarrow> in_memory_state \<Rightarrow> in_memory_state" where
  "ims_delete_application req self =
     (let namespace = da_namespace req; name = da_name req;
          self = self\<lparr>ims_applications := (ims_applications self)(app_key_from namespace name := None)\<rparr>;
          request_ids = map (\<lambda>k. req_request_id (the (ims_request_ctx self k)))
            (prefix_scan (ims_request_ctx self) (app_key_prefix namespace name));
          self = fold (delete_request namespace name) request_ids self;
          keys = prefix_scan (ims_application_versions self) (app_key_prefix namespace name)
      in self\<lparr>ims_application_versions := ims_application_versions self |` (- set keys)\<rparr>)"

text \<open>\<open>allocations_by_executor.entry(..).and_modify(..)\<close> with the \<open>retain\<close> of non-empty containers.\<close>

definition remove_allocation ::
  "executor_id \<Rightarrow> container_id \<Rightarrow> allocation_id \<Rightarrow> in_memory_state \<Rightarrow> in_memory_state" where
  "remove_allocation eid cid aid self =
     (case ims_allocations_by_executor self eid of
        None \<Rightarrow> self
      | Some by_fe \<Rightarrow>
          (let by_fe = (case by_fe cid of
                          Some allocations \<Rightarrow> by_fe(cid \<mapsto> allocations(aid := None))
                        | None \<Rightarrow> by_fe);
               by_fe = (\<lambda>cid. case by_fe cid of
                          Some allocations \<Rightarrow> if dom allocations = {} then None else Some allocations
                        | None \<Rightarrow> None)
           in self\<lparr>ims_allocations_by_executor := (ims_allocations_by_executor self)(eid \<mapsto> by_fe)\<rparr>))"

definition snapshot_sandbox :: "snapshot_sandbox_request \<Rightarrow> in_memory_state \<Rightarrow> in_memory_state" where
  "snapshot_sandbox req self =
     (let snapshot = ssr_snapshot req;
          self = self\<lparr>ims_snapshots := (ims_snapshots self)(snapshot_key snapshot \<mapsto> snapshot)\<rparr>;
          key = sandbox_key_new (snap_namespace snapshot) (snap_sandbox_id snapshot)
      in case ims_sandboxes self key of
           Some sandbox \<Rightarrow>
             self\<lparr>ims_sandboxes := (ims_sandboxes self)(key \<mapsto> sandbox
               \<lparr>sbx_status := SB_Snapshotting (snap_id snapshot), sbx_snapshot_id := Some (snap_id snapshot)\<rparr>)\<rparr>
         | None \<Rightarrow> self)"

text \<open>\<open>snapshots.iter().find(|(_, s)| s.id == id)\<close>\<close>

definition find_snapshot :: "snapshot_id \<Rightarrow> in_memory_state \<Rightarrow> snapshot_key option" where
  "find_snapshot sid self =
     find (\<lambda>k. snap_id (the (ims_snapshots self k)) = sid) (sorted_list_of_set (dom (ims_snapshots self)))"

text \<open>
  The sandbox of a completed snapshot: unlike \<open>drop_sandbox\<close> this keeps the executor's entry in
  \<open>sandboxes_by_executor\<close> when its set becomes empty, and goes by the sandbox's status.
\<close>

definition terminate_snapshotted :: "sandbox_key \<Rightarrow> in_memory_state \<Rightarrow> in_memory_state" where
  "terminate_snapshotted key self =
     (case ims_sandboxes self key of
        None \<Rightarrow> self
      | Some sandbox \<Rightarrow>
          (let self = (if sandbox_is_pending (sbx_status sandbox) then remove_pending_sandbox key self else self);
               self = (case sbx_container_id sandbox of
                         Some cid \<Rightarrow> self\<lparr>ims_sandbox_by_container := (ims_sandbox_by_container self)(cid := None)\<rparr>
                       | None \<Rightarrow> self);
               self = (case sbx_executor_id sandbox of
                         Some eid \<Rightarrow> self\<lparr>ims_sandboxes_by_executor := (case ims_sandboxes_by_executor self eid of
                             Some keys \<Rightarrow> (ims_sandboxes_by_executor self)(eid \<mapsto> keys - {key})
                           | None \<Rightarrow> ims_sandboxes_by_executor self)\<rparr>
                       | None \<Rightarrow> self)
           in self\<lparr>ims_sandboxes_by_id := idx_remove (sbx_id sandbox) key (ims_sandboxes_by_id self),
                   ims_sandboxes := (ims_sandboxes self)(key := None)\<rparr>))"

definition complete_snapshot :: "complete_snapshot_request \<Rightarrow> in_memory_state \<Rightarrow> in_memory_state" where
  "complete_snapshot req self =
     (case find_snapshot (cps_snapshot_id req) self of
        None \<Rightarrow> self
      | Some k \<Rightarrow>
          (let snapshot = the (ims_snapshots self k);
               self = self\<lparr>ims_snapshots := (ims_snapshots self)(k \<mapsto> snapshot\<lparr>snap_status := SnapshotCompleted,
                 snap_snapshot_uri := Some (cps_snapshot_uri req), snap_size_bytes := Some (cps_size_bytes req)\<rparr>)\<rparr>
           in terminate_snapshotted (sandbox_key_new (snap_namespace snapshot) (snap_sandbox_id snapshot)) self))"

definition fail_snapshot :: "fail_snapshot_request \<Rightarrow> in_memory_state \<Rightarrow> in_memory_state" where
  "fail_snapshot req self =
     (case find_snapshot (fsr_snapshot_id req) self of
        None \<Rightarrow> self
      | Some k \<Rightarrow>
          (let snapshot = the (ims_snapshots self k);
               self = self\<lparr>ims_snapshots := (ims_snapshots self)
                 (k \<mapsto> snapshot\<lparr>snap_status := SnapshotFailed (fsr_error req)\<rparr>)\<rparr>;
               key = sandbox_key_new (snap_namespace snapshot) (snap_sandbox_id snapshot)
           in case ims_sandboxes self key of
                Some sandbox \<Rightarrow> self\<lparr>ims_sandboxes := (ims_sandboxes self)(key \<mapsto> sandbox\<lparr>sbx_status := SB_Terminated\<rparr>)\<rparr>
              | None \<Rightarrow> self))"

definition create_sandbox :: "create_sandbox_request \<Rightarrow> in_memory_state \<Rightarrow> in_memory_state" where
  "create_sandbox req self =
     (let sandbox = csr_sandbox req;
          key = sandbox_key_from_sandbox sandbox;
          self = store_sandbox key sandbox self
      in if sandbox_is_pending (sbx_status sandbox)
         then add_pending_sandbox key (profile_from_container_resources (sbx_resources sandbox)) self
         else self)"

fun update_payload ::
  "state_orders \<Rightarrow> u64 \<Rightarrow> request_payload \<Rightarrow> in_memory_state \<Rightarrow> executor_id set \<times> in_memory_state" where
  "update_payload ord now (RP_InvokeApplication req) self =
     ({}, fold (\<lambda>cid. invoke_run (the (req_function_runs (ia_ctx req) cid)))
       (so_runs ord (dom (req_function_runs (ia_ctx req))))
       (self\<lparr>ims_request_ctx := (ims_request_ctx self)(req_key (ia_ctx req) \<mapsto> ia_ctx req)\<rparr>))"
| "update_payload ord now (RP_CreateNameSpace req) self = ({}, create_namespace now req self)"
| "update_payload ord now (RP_CreateOrUpdateApplication req) self = ({}, create_or_update_application ord req self)"
| "update_payload ord now (RP_DeleteRequestRequest req) self =
     ({}, delete_request (dr_namespace req) (dr_application req) (dr_request_id req) self)"
| "update_payload ord now (RP_DeleteApplicationRequest req) self = ({}, ims_delete_application req self)"
| "update_payload ord now (RP_SchedulerUpdate update) self = apply_scheduler_update_inner ord update ({}, self)"
| "update_payload ord now (RP_UpsertExecutor req) self =
     (ao_executor_id ` set (ue_allocation_outputs req),
      fold (\<lambda>out. remove_allocation (ao_executor_id out)
          (target_container_id (al_target (ao_allocation out))) (al_id (ao_allocation out)))
        (ue_allocation_outputs req) self)"
| "update_payload ord now (RP_DataplaneResults req) self =
     ((\<lambda>_. dre_executor_id (dpr_event req)) ` set (dre_allocation_events (dpr_event req)),
      fold (\<lambda>event. remove_allocation (dre_executor_id (dpr_event req))
          (target_container_id (aoe_allocation_target event)) (aoe_allocation_id event))
        (dre_allocation_events (dpr_event req)) self)"
| "update_payload ord now (RP_CreateSandbox req) self = ({}, create_sandbox req self)"
| "update_payload ord now (RP_SnapshotSandbox req) self = ({}, snapshot_sandbox req self)"
| "update_payload ord now (RP_CompleteSnapshot req) self = ({}, complete_snapshot req self)"
| "update_payload ord now (RP_FailSnapshot req) self = ({}, fail_snapshot req self)"
| "update_payload ord now (RP_DeleteSnapshot req) self =
     ({}, self\<lparr>ims_snapshots := (ims_snapshots self)(dsr_namespace req @ ''|'' @ dsr_snapshot_id req := None)\<rparr>)"
| "update_payload ord now _ self = ({}, self)"

definition update_state ::
  "state_orders \<Rightarrow> u64 \<Rightarrow> u64 \<Rightarrow> request_payload \<Rightarrow> in_memory_state \<Rightarrow> executor_id set \<times> in_memory_state" where
  "update_state ord now new_clock payload self = update_payload ord now payload (self\<lparr>ims_clock := new_clock\<rparr>)"

section \<open>Construction from the store\<close>

text \<open>The rows read from the column families, each with its key where the code uses it.\<close>

record stored_rows =
  rows_namespaces :: "namespace list"
  rows_applications :: "application list"
  rows_application_versions :: "(string \<times> application_version) list"
  rows_allocations :: "allocation list"
  rows_request_ctx :: "persisted_request_ctx list"
  rows_function_runs :: "function_run list"
  rows_function_calls :: "(string \<times> function_call) list"
  rows_sandboxes :: "sandbox list"
  rows_snapshots :: "snapshot list"

definition group_run ::
  "function_run \<Rightarrow> (string \<rightharpoonup> (function_call_id \<rightharpoonup> function_run)) \<Rightarrow> string \<rightharpoonup> (function_call_id \<rightharpoonup> function_run)" where
  "group_run run m =
     (let key = run_namespace run @ ''|'' @ run_application run @ ''|'' @ run_request_id run
      in m(key \<mapsto> (unwrap_or (m key) Map.empty)(run_id run \<mapsto> run)))"

text \<open>\<open>key.rsplitn(2, '|').last()\<close>: the key without its last segment, or all of it.\<close>

definition request_key_of_call :: "string \<Rightarrow> string" where
  "request_key_of_call key =
     (if CHR ''|'' \<in> set key then rev (drop 1 (dropWhile (\<lambda>c. c \<noteq> CHR ''|'') (rev key))) else key)"

definition group_call ::
  "string \<times> function_call \<Rightarrow> (string \<rightharpoonup> (function_call_id \<rightharpoonup> function_call)) \<Rightarrow>
   string \<rightharpoonup> (function_call_id \<rightharpoonup> function_call)" where
  "group_call entry m =
     (let (key, fc) = entry; key = request_key_of_call key
      in m(key \<mapsto> (unwrap_or (m key) Map.empty)(call_function_call_id fc \<mapsto> fc)))"

definition preq_key :: "persisted_request_ctx \<Rightarrow> string" where
  "preq_key self = preq_namespace self @ ''|'' @ preq_application_name self @ ''|'' @ preq_request_id self"

text \<open>The runs and calls of a request are taken out of their groups (\<open>remove\<close>).\<close>

definition restore_request ::
  "persisted_request_ctx \<Rightarrow>
   (string \<rightharpoonup> (function_call_id \<rightharpoonup> function_run)) \<times> (string \<rightharpoonup> (function_call_id \<rightharpoonup> function_call)) \<times>
     (request_ctx_key \<rightharpoonup> request_ctx) \<Rightarrow>
   (string \<rightharpoonup> (function_call_id \<rightharpoonup> function_run)) \<times> (string \<rightharpoonup> (function_call_id \<rightharpoonup> function_call)) \<times>
     (request_ctx_key \<rightharpoonup> request_ctx)" where
  "restore_request persisted st =
     (let (runs, calls, ctxs) = st;
          key = preq_key persisted;
          ctx = from_persisted persisted (unwrap_or (runs key) Map.empty) (unwrap_or (calls key) Map.empty)
      in (runs(key := None), calls(key := None), ctxs(req_key ctx \<mapsto> ctx)))"

definition restore_run :: "function_run \<Rightarrow> in_memory_state \<Rightarrow> in_memory_state" where
  "restore_run run self =
     (let self = (if run_status run = Pending
            then count_run run (self\<lparr>ims_unallocated_function_runs :=
                   insert (run_key run) (ims_unallocated_function_runs self)\<rparr>)
            else self)
      in self\<lparr>ims_function_runs := (ims_function_runs self)(run_key run \<mapsto> run)\<rparr>)"

definition restore_sandbox :: "sandbox \<Rightarrow> in_memory_state \<Rightarrow> in_memory_state" where
  "restore_sandbox sandbox self =
     (let key = sandbox_key_from_sandbox sandbox;
          awaiting_alloc = (case sbx_status sandbox of
            SB_Pending reason \<Rightarrow> reason \<noteq> SB_WaitingForContainer | _ \<Rightarrow> False);
          self = (if awaiting_alloc
                  then add_pending_sandbox key (profile_from_container_resources (sbx_resources sandbox)) self
                  else self)
      in store_sandbox key sandbox (locate_sandbox key sandbox self))"

definition restore_requests :: "stored_rows \<Rightarrow> request_ctx_key \<rightharpoonup> request_ctx" where
  "restore_requests rows =
     snd (snd (fold restore_request (filter (\<lambda>ctx. preq_outcome ctx = None) (rows_request_ctx rows))
       (fold group_run (rows_function_runs rows) Map.empty, fold group_call (rows_function_calls rows) Map.empty,
        Map.empty)))"

definition ims_new :: "state_orders \<Rightarrow> u64 \<Rightarrow> stored_rows \<Rightarrow> executor_catalog \<Rightarrow> in_memory_state" where
  "ims_new ord clock rows catalog =
     (let ctxs = restore_requests rows;
          self = \<lparr>ims_clock = clock,
            ims_namespaces = fold (\<lambda>ns m. m(ns_name ns \<mapsto> ns)) (rows_namespaces rows) Map.empty,
            ims_applications = fold (\<lambda>app m. m(app_key_from (app_namespace app) (app_name app) \<mapsto> app))
              (rows_applications rows) Map.empty,
            ims_application_versions = fold (\<lambda>(key, ver) m. m(key \<mapsto> ver)) (rows_application_versions rows) Map.empty,
            ims_allocations_by_executor = Map.empty,
            ims_unallocated_function_runs = {}, ims_function_runs = Map.empty,
            ims_request_ctx = ctxs, ims_executor_catalog = catalog,
            ims_sandboxes = Map.empty, ims_sandboxes_by_id = Map.empty, ims_sandbox_by_container = Map.empty,
            ims_sandboxes_by_executor = Map.empty, ims_pending_sandboxes = {},
            ims_pending_sandboxes_by_profile = Map.empty, ims_pending_sandbox_profile = Map.empty,
            ims_snapshots = fold (\<lambda>snapshot m. m(snapshot_key snapshot \<mapsto> snapshot)) (rows_snapshots rows) Map.empty,
            ims_pending_resources = default_pending_resources\<rparr>;
          self = fold insert_allocation (filter (\<lambda>a. \<not> allocation_is_terminal a) (rows_allocations rows)) self;
          self = fold (\<lambda>key. let ctx = the (ctxs key) in
                     fold (\<lambda>cid. restore_run (the (req_function_runs ctx cid))) (so_runs ord (dom (req_function_runs ctx))))
                   (sorted_list_of_set (dom ctxs)) self
      in fold restore_sandbox (filter (\<lambda>sandbox. sbx_status sandbox \<noteq> SB_Terminated) (rows_sandboxes rows)) self)"

section \<open>Range scans\<close>

lemma starts_with_iff: "starts_with p k \<longleftrightarrow> (\<exists>r. k = p @ r)"
  by (metis append_eq_conv_conj append_take_drop_id starts_with_def)

lemma starts_with_Nil [simp]: "starts_with [] k"
  by (simp add: starts_with_def)

lemma starts_with_Cons: "starts_with (c # p) k \<longleftrightarrow> (\<exists>k'. k = c # k' \<and> starts_with p k')"
  by (auto simp: starts_with_iff)

lemma starts_with_ge: "starts_with p k \<Longrightarrow> p \<le> k"
  by (induction p arbitrary: k) (auto simp: starts_with_Cons)

text \<open>The keys with a prefix are contiguous in the order of the keys.\<close>

lemma starts_with_between: "p \<le> k \<Longrightarrow> k \<le> k' \<Longrightarrow> starts_with p k' \<Longrightarrow> starts_with p k"
proof (induction p arbitrary: k k')
  case (Cons c p)
  then obtain r where r: "k' = c # r" "starts_with p r" by (auto simp: starts_with_Cons)
  from Cons.prems obtain d q where k: "k = d # q" by (cases k) auto
  with Cons.prems r show ?case using Cons.IH [of q r] by (auto simp: starts_with_Cons)
qed simp

lemma takeWhile_filter_sorted:
  assumes "sorted xs" "\<forall>x y. Q x \<longrightarrow> x \<le> y \<longrightarrow> P y \<longrightarrow> P x" "\<forall>x \<in> set xs. Q x"
  shows "takeWhile P xs = filter P xs"
  using assms
proof (induction xs)
  case (Cons x xs)
  show ?case
  proof (cases "P x")
    case False
    have "\<not> P y" if "y \<in> set xs" for y using Cons.prems False that by auto
    then have "filter P xs = []" by (simp add: filter_empty_conv)
    with False show ?thesis by simp
  qed (use Cons in auto)
qed simp

lemma prefix_scan_eq:
  assumes "finite (dom m)"
  shows "prefix_scan m p = filter (starts_with p) (sorted_list_of_set (dom m))"
proof -
  let ?xs = "filter (\<lambda>k. p \<le> k) (sorted_list_of_set (dom m))"
  have "sorted ?xs" by (simp add: sorted_wrt_filter)
  then have "takeWhile (starts_with p) ?xs = filter (starts_with p) ?xs"
    by (rule takeWhile_filter_sorted [where Q = "\<lambda>k. p \<le> k"]) (use starts_with_between in auto)
  also have "\<dots> = filter (starts_with p) (sorted_list_of_set (dom m))"
    by (simp, rule filter_cong) (auto intro: starts_with_ge)
  finally show ?thesis by (simp add: prefix_scan_def)
qed

lemma set_prefix_scan: "finite (dom m) \<Longrightarrow> set (prefix_scan m p) = {k \<in> dom m. starts_with p k}"
  by (auto simp: prefix_scan_eq)

lemma distinct_prefix_scan: "finite (dom m) \<Longrightarrow> distinct (prefix_scan m p)"
  by (simp add: prefix_scan_eq)

section \<open>Histograms as counts\<close>

definition hist_of :: "('k \<rightharpoonup> resource_profile) \<Rightarrow> histogram" where
  "hist_of m = (\<lambda>p. let n = card {k. m k = Some p} in if n = 0 then None else Some (of_nat n))"

lemma hist_of_empty [simp]: "hist_of Map.empty = Map.empty"
  by (simp add: hist_of_def)

lemma finite_profile: "finite (dom m) \<Longrightarrow> finite {k. m k = Some p}"
  by (rule finite_subset [of _ "dom m"]) auto

lemma hist_of_increment:
  assumes "finite (dom m)" "m k = None"
  shows "hist_increment p (hist_of m) = hist_of (m(k \<mapsto> p))"
proof
  fix q
  have "{k'. (m(k \<mapsto> p)) k' = Some q} = (if q = p then insert k {k'. m k' = Some p} else {k'. m k' = Some q})"
    using assms(2) by auto
  moreover have "k \<notin> {k'. m k' = Some p}" using assms(2) by simp
  ultimately show "hist_increment p (hist_of m) q = hist_of (m(k \<mapsto> p)) q"
    using finite_profile [OF assms(1), of p]
    by (simp add: hist_increment_def hist_of_def unwrap_or_def Let_def add.commute)
qed

lemma unat_of_nat_u64: "n < 2 ^ 64 \<Longrightarrow> unat (of_nat n :: u64) = n"
  by (simp add: unat_of_nat take_bit_nat_eq_self)

lemma of_nat_u64_0: "n < 2 ^ 64 \<Longrightarrow> (of_nat n :: u64) = 0 \<longleftrightarrow> n = 0"
  using unat_of_nat_u64 [of n] by (auto simp: unat_eq_zero)

lemma hist_of_decrement:
  assumes fin: "finite (dom m)" and k: "m k = Some p" and bound: "card (dom m) < 2 ^ 64"
  shows "hist_decrement p (hist_of m) = hist_of (m(k := None))"
proof
  fix q
  let ?S = "{k'. m k' = Some p}"
  have S: "finite ?S" "k \<in> ?S" using finite_profile [OF fin] k by auto
  then have pos: "0 < card ?S" by (auto simp: card_gt_0_iff)
  have "card ?S \<le> card (dom m)" using fin by (intro card_mono) auto
  then have n: "unat (of_nat (card ?S) :: u64) = card ?S" using bound by (intro unat_of_nat_u64) simp
  have "{k'. (m(k := None)) k' = Some q} = (if q = p then ?S - {k} else {k'. m k' = Some q})" using k by auto
  moreover have "card (?S - {k}) = card ?S - 1" using S by simp
  moreover have "saturating_sub (of_nat (card ?S) :: u64) 1 = of_nat (card ?S - 1)"
    using n pos by (simp add: saturating_sub_def word_less_nat_alt of_nat_diff Suc_leI)
  moreover have "(of_nat (card ?S - 1) :: u64) = 0 \<longleftrightarrow> card ?S - 1 = 0"
    using bound \<open>card ?S \<le> card (dom m)\<close> by (intro of_nat_u64_0) simp
  ultimately show "hist_decrement p (hist_of m) q = hist_of (m(k := None)) q"
    using pos by (auto simp: hist_decrement_def hist_of_def Let_def)
qed

section \<open>Pending sandboxes\<close>

text \<open>
  Everything that can be pending is in a universe of fewer than \<open>2 ^ 64\<close> keys, so no counter
  overflows.
\<close>

definition universe :: "string set \<Rightarrow> bool" where
  "universe U \<longleftrightarrow> finite U \<and> card U < 2 ^ 64"

definition pending_view where
  "pending_view s = (ims_pending_sandboxes s, ims_pending_sandboxes_by_profile s, ims_pending_sandbox_profile s,
     pend_sandboxes (ims_pending_resources s))"

definition pending_ok :: "sandbox_key set \<Rightarrow> in_memory_state \<Rightarrow> bool" where
  "pending_ok U s \<longleftrightarrow>
     ims_pending_sandboxes s = dom (ims_pending_sandbox_profile s) \<and> ims_pending_sandboxes s \<subseteq> U \<and>
     idx_tidy (ims_pending_sandboxes_by_profile s) \<and>
     (\<forall>k p. k \<in> idx_get (ims_pending_sandboxes_by_profile s) p \<longleftrightarrow> ims_pending_sandbox_profile s k = Some p) \<and>
     pend_sandboxes (ims_pending_resources s) = hist_of (ims_pending_sandbox_profile s)"

lemma pending_ok_view: "pending_view s' = pending_view s \<Longrightarrow> pending_ok U s' = pending_ok U s"
  by (simp add: pending_view_def pending_ok_def)

lemma universe_sub:
  assumes "universe U" "dom m \<subseteq> U"
  shows "finite (dom m)" "card (dom m) < 2 ^ 64"
  using assms finite_subset [of "dom m" U] card_mono [of U "dom m"] by (auto simp: universe_def)

lemma pending_ok_add:
  assumes ok: "pending_ok U s" and "universe U" "key \<in> U" "key \<notin> ims_pending_sandboxes s"
  shows "pending_ok U (add_pending_sandbox key profile s)"
proof -
  have none: "ims_pending_sandbox_profile s key = None" and sub: "dom (ims_pending_sandbox_profile s) \<subseteq> U"
    using assms by (auto simp: pending_ok_def)
  note hist = hist_of_increment [OF universe_sub(1) [OF assms(2) sub] none]
  let ?s = "add_pending_sandbox key profile s"
  have "k \<in> idx_get (ims_pending_sandboxes_by_profile ?s) p \<longleftrightarrow> ims_pending_sandbox_profile ?s k = Some p" for k p
    using ok none by (auto simp: pending_ok_def add_pending_sandbox_def)
  moreover have "ims_pending_sandboxes ?s = dom (ims_pending_sandbox_profile ?s)" "ims_pending_sandboxes ?s \<subseteq> U"
    using ok assms(3) by (auto simp: pending_ok_def add_pending_sandbox_def)
  moreover have "idx_tidy (ims_pending_sandboxes_by_profile ?s)"
    "pend_sandboxes (ims_pending_resources ?s) = hist_of (ims_pending_sandbox_profile ?s)"
    using ok hist by (simp_all add: pending_ok_def add_pending_sandbox_def)
  ultimately show ?thesis by (simp add: pending_ok_def)
qed

lemma pending_ok_remove:
  assumes ok: "pending_ok U s" and "universe U"
  shows "pending_ok U (remove_pending_sandbox key s)"
proof (cases "ims_pending_sandbox_profile s key")
  case None
  with ok have "key \<notin> ims_pending_sandboxes s" by (simp add: pending_ok_def domIff)
  with None have "pending_view (remove_pending_sandbox key s) = pending_view s"
    by (simp add: remove_pending_sandbox_def fun_upd_idem pending_view_def)
  with ok show ?thesis using pending_ok_view by blast
next
  case (Some profile)
  have sub: "dom (ims_pending_sandbox_profile s) \<subseteq> U" using ok by (auto simp: pending_ok_def)
  note hist = hist_of_decrement [OF universe_sub(1) [OF assms(2) sub] Some universe_sub(2) [OF assms(2) sub]]
  let ?s = "remove_pending_sandbox key s"
  have "k \<in> idx_get (ims_pending_sandboxes_by_profile ?s) p \<longleftrightarrow> ims_pending_sandbox_profile ?s k = Some p" for k p
    using ok Some by (auto simp: pending_ok_def remove_pending_sandbox_def)
  moreover have "ims_pending_sandboxes ?s = dom (ims_pending_sandbox_profile ?s)" "ims_pending_sandboxes ?s \<subseteq> U"
    using ok Some by (auto simp: pending_ok_def remove_pending_sandbox_def)
  moreover have "idx_tidy (ims_pending_sandboxes_by_profile ?s)"
    "pend_sandboxes (ims_pending_resources ?s) = hist_of (ims_pending_sandbox_profile ?s)"
    using ok Some hist by (simp_all add: pending_ok_def remove_pending_sandbox_def)
  ultimately show ?thesis by (simp add: pending_ok_def)
qed

lemma pending_view_ops [simp]:
  "pending_view (store_sandbox key sandbox s) = pending_view s"
  "pending_view (locate_sandbox key sandbox s) = pending_view s"
  "pending_view (drop_sandbox key s) = pending_view s"
  "pending_view (count_run run s) = pending_view s"
  "pending_view (uncount_run run s) = pending_view s"
  "pending_view (insert_allocation a s) = pending_view s"
  "pending_view (remove_allocation eid cid aid s) = pending_view s"
  "pending_view (drop_allocations runs s) = pending_view s"
  by (simp_all add: pending_view_def store_sandbox_def locate_sandbox_def drop_sandbox_def count_run_def
      uncount_run_def insert_allocation_def remove_allocation_def drop_allocations_def Let_def split: option.split)

lemma pending_sandboxes_store [simp]: "ims_pending_sandboxes (store_sandbox key sandbox s) = ims_pending_sandboxes s"
  by (simp add: store_sandbox_def)

lemma pending_ok_apply_sandbox:
  assumes ok: "pending_ok U s" and U: "universe U" "key \<in> U"
  shows "pending_ok U (apply_sandbox key sandbox s)"
proof -
  have store: "pending_ok U (store_sandbox key sandbox s)" using ok pending_ok_view [OF pending_view_ops(1)] by simp
  note V = pending_ok_view [OF pending_view_ops(2)] pending_ok_view [OF pending_view_ops(3)]
  show ?thesis
  proof (cases "sbx_status sandbox")
    case (SB_Pending reason)
    then show ?thesis
      using store pending_ok_add [OF store U] pending_ok_remove [OF store U(1)]
      by (simp add: apply_sandbox_def Let_def V)
  next
    case SB_Running
    then show ?thesis using store pending_ok_remove [OF store U(1)] by (simp add: apply_sandbox_def Let_def V)
  next
    case SB_Terminated
    then show ?thesis using ok pending_ok_remove [OF ok U(1)] by (simp add: apply_sandbox_def Let_def V)
  next
    case (SB_Snapshotting sid)
    then show ?thesis using store by (simp add: apply_sandbox_def)
  qed
qed

text \<open>
  The sandboxes that wait for an allocation are the ones pending for any other reason than a container
  that is starting; each is counted under the profile of its resources.
\<close>

definition waiting_ok :: "in_memory_state \<Rightarrow> bool" where
  "waiting_ok s \<longleftrightarrow>
     (\<forall>k p. ims_pending_sandbox_profile s k = Some p \<longleftrightarrow>
        (\<exists>sandbox reason. ims_sandboxes s k = Some sandbox \<and> sbx_status sandbox = SB_Pending reason \<and>
           reason \<noteq> SB_WaitingForContainer \<and> p = profile_from_container_resources (sbx_resources sandbox)))"

text \<open>A sandbox that waits keeps its profile while it does, and does not become a snapshot before it runs.\<close>

definition sandbox_known :: "in_memory_state \<Rightarrow> sandbox_key \<Rightarrow> sandbox \<Rightarrow> bool" where
  "sandbox_known s key sandbox \<longleftrightarrow>
     (case ims_pending_sandbox_profile s key of
        None \<Rightarrow> True
      | Some p \<Rightarrow> profile_from_container_resources (sbx_resources sandbox) = p \<and>
          (\<forall>sid. sbx_status sandbox \<noteq> SB_Snapshotting sid))"

lemma pending_sandbox_fields [simp]:
  "ims_sandboxes (store_sandbox key sandbox s) = (ims_sandboxes s)(key \<mapsto> sandbox)"
  "ims_sandboxes (locate_sandbox key sandbox s) = ims_sandboxes s"
  "ims_sandboxes (drop_sandbox key s) = (ims_sandboxes s)(key := None)"
  "ims_sandboxes (add_pending_sandbox key p s) = ims_sandboxes s"
  "ims_sandboxes (remove_pending_sandbox key s) = ims_sandboxes s"
  "ims_pending_sandbox_profile (store_sandbox key sandbox s) = ims_pending_sandbox_profile s"
  "ims_pending_sandbox_profile (locate_sandbox key sandbox s) = ims_pending_sandbox_profile s"
  "ims_pending_sandbox_profile (drop_sandbox key s) = ims_pending_sandbox_profile s"
  "ims_pending_sandbox_profile (add_pending_sandbox key p s) = (ims_pending_sandbox_profile s)(key \<mapsto> p)"
  "ims_pending_sandbox_profile (remove_pending_sandbox key s) = (ims_pending_sandbox_profile s)(key := None)"
  by (simp_all add: store_sandbox_def locate_sandbox_def drop_sandbox_def add_pending_sandbox_def
      remove_pending_sandbox_def Let_def fun_upd_idem split: option.split)

lemma apply_sandbox_effect:
  assumes ok: "pending_ok U s" and known: "sandbox_known s key sandbox"
  shows "ims_sandboxes (apply_sandbox key sandbox s) =
      (ims_sandboxes s)(key := if sbx_status sandbox = SB_Terminated then None else Some sandbox)"
    and "ims_pending_sandbox_profile (apply_sandbox key sandbox s) = (ims_pending_sandbox_profile s)
      (key := if \<exists>reason. sbx_status sandbox = SB_Pending reason \<and> reason \<noteq> SB_WaitingForContainer
              then Some (profile_from_container_resources (sbx_resources sandbox)) else None)"
proof -
  show "ims_sandboxes (apply_sandbox key sandbox s) =
      (ims_sandboxes s)(key := if sbx_status sandbox = SB_Terminated then None else Some sandbox)"
    by (cases "sbx_status sandbox") (simp_all add: apply_sandbox_def Let_def)
  have "key \<in> ims_pending_sandboxes s \<longleftrightarrow> ims_pending_sandbox_profile s key \<noteq> None"
    using ok by (auto simp: pending_ok_def)
  then show "ims_pending_sandbox_profile (apply_sandbox key sandbox s) = (ims_pending_sandbox_profile s)
      (key := if \<exists>reason. sbx_status sandbox = SB_Pending reason \<and> reason \<noteq> SB_WaitingForContainer
              then Some (profile_from_container_resources (sbx_resources sandbox)) else None)"
    using known by (cases "sbx_status sandbox"; cases "ims_pending_sandbox_profile s key")
      (simp_all add: apply_sandbox_def Let_def sandbox_known_def fun_upd_idem)
qed

lemma waiting_ok_apply_sandboxes:
  assumes "pending_ok U s" "waiting_ok s" "universe U" "set keys \<subseteq> U" "distinct keys"
    and "\<forall>key \<in> set keys. sandbox_known s key (sandboxes key)"
  shows "pending_ok U (fold (\<lambda>key. apply_sandbox key (sandboxes key)) keys s) \<and>
    waiting_ok (fold (\<lambda>key. apply_sandbox key (sandboxes key)) keys s)"
  using assms
proof (induction keys arbitrary: s)
  case (Cons key keys)
  let ?s = "apply_sandbox key (sandboxes key) s"
  have known: "sandbox_known s key (sandboxes key)" using Cons.prems(6) by simp
  note effect = apply_sandbox_effect [OF Cons.prems(1) known]
  have "pending_ok U ?s" using Cons.prems(1,3,4) by (simp add: pending_ok_apply_sandbox)
  moreover have "waiting_ok ?s"
    using Cons.prems(2) unfolding waiting_ok_def effect by (auto split: if_splits)
  moreover have "\<forall>k \<in> set keys. sandbox_known ?s k (sandboxes k)"
    using Cons.prems(5,6) unfolding sandbox_known_def effect by auto
  ultimately show ?case using Cons.IH [of ?s] Cons.prems(3,4,5) by simp
qed simp

section \<open>Pending function runs\<close>

definition runs_view where
  "runs_view s = (ims_unallocated_function_runs s, ims_function_runs s, ims_application_versions s,
     pend_function_runs (ims_pending_resources s))"

text \<open>The profile under which a run is counted_runs, given the function \<open>F k\<close> of each run \<open>k\<close>.\<close>

definition counted_runs :: "(function_run_key \<Rightarrow> app_function option) \<Rightarrow> function_run_key set \<Rightarrow>
    function_run_key \<rightharpoonup> resource_profile" where
  "counted_runs F S = (\<lambda>k. if k \<in> S then map_option profile_from_function (F k) else None)"

definition runs_ok ::
  "function_run_key set \<Rightarrow> (function_run_key \<Rightarrow> app_function option) \<Rightarrow> in_memory_state \<Rightarrow> bool" where
  "runs_ok U F s \<longleftrightarrow>
     (\<forall>k run. ims_function_runs s k = Some run \<longrightarrow> k \<in> U \<and> run_key run = k \<and> get_function s run = F k) \<and>
     ims_unallocated_function_runs s = {k. \<exists>run. ims_function_runs s k = Some run \<and> run_status run = Pending} \<and>
     pend_function_runs (ims_pending_resources s) = hist_of (counted_runs F (ims_unallocated_function_runs s))"

lemma runs_ok_view: "runs_view s' = runs_view s \<Longrightarrow> runs_ok U F s' = runs_ok U F s"
  by (simp add: runs_view_def runs_ok_def get_function_def)

lemma counted_insert: "k \<notin> S \<Longrightarrow> counted_runs F (insert k S) =
    (case F k of Some f \<Rightarrow> (counted_runs F S)(k \<mapsto> profile_from_function f) | None \<Rightarrow> counted_runs F S)"
  by (auto simp: counted_runs_def fun_eq_iff split: option.split)

lemma counted_delete: "counted_runs F (S - {k}) = (counted_runs F S)(k := None)"
  by (auto simp: counted_runs_def fun_eq_iff)

lemma dom_counted: "dom (counted_runs F S) \<subseteq> S"
  by (auto simp: counted_runs_def split: if_splits)

text \<open>The histogram after a run enters or leaves the set of pending ones.\<close>

lemma hist_counted_insert:
  assumes "universe U" "S \<subseteq> U" "k \<notin> S"
  shows "hist_of (counted_runs F (insert k S)) = (case F k of
      Some f \<Rightarrow> hist_increment (profile_from_function f) (hist_of (counted_runs F S)) | None \<Rightarrow> hist_of (counted_runs F S))"
proof -
  have sub: "dom (counted_runs F S) \<subseteq> U" using dom_counted assms(2) by blast
  have "counted_runs F S k = None" using assms(3) by (simp add: counted_runs_def)
  from hist_of_increment [OF universe_sub(1) [OF assms(1) sub] this] show ?thesis
    by (simp add: counted_insert [OF assms(3)] split: option.split)
qed

lemma hist_counted_delete:
  assumes "universe U" "S \<subseteq> U" "k \<in> S"
  shows "hist_of (counted_runs F (S - {k})) = (case F k of
      Some f \<Rightarrow> hist_decrement (profile_from_function f) (hist_of (counted_runs F S)) | None \<Rightarrow> hist_of (counted_runs F S))"
proof -
  have sub: "dom (counted_runs F S) \<subseteq> U" using dom_counted assms(2) by blast
  note U = universe_sub [OF assms(1) sub]
  show ?thesis
  proof (cases "F k")
    case None
    then have "(counted_runs F S)(k := None) = counted_runs F S" by (simp add: counted_runs_def fun_upd_idem)
    with None show ?thesis by (simp add: counted_delete)
  next
    case (Some f)
    then have "counted_runs F S k = Some (profile_from_function f)" using assms(3) by (simp add: counted_runs_def)
    from hist_of_decrement [OF U(1) this U(2)] Some show ?thesis by (simp add: counted_delete)
  qed
qed

lemma runs_okD:
  assumes "runs_ok U F s"
  shows "ims_unallocated_function_runs s \<subseteq> U" "dom (ims_function_runs s) \<subseteq> U"
  using assms by (auto simp: runs_ok_def)

lemma count_run_fields:
  assumes "get_function s run = F"
  shows "count_run run s = s\<lparr>ims_pending_resources := (ims_pending_resources s)\<lparr>pend_function_runs := (case F of
      Some f \<Rightarrow> hist_increment (profile_from_function f) (pend_function_runs (ims_pending_resources s))
    | None \<Rightarrow> pend_function_runs (ims_pending_resources s))\<rparr>\<rparr>"
    and "uncount_run run s = s\<lparr>ims_pending_resources := (ims_pending_resources s)\<lparr>pend_function_runs := (case F of
      Some f \<Rightarrow> hist_decrement (profile_from_function f) (pend_function_runs (ims_pending_resources s))
    | None \<Rightarrow> pend_function_runs (ims_pending_resources s))\<rparr>\<rparr>"
  using assms by (simp_all add: count_run_def uncount_run_def split: option.split)

lemma apply_function_run_view:
  assumes ok: "runs_ok U F s" and U: "universe U" and F: "get_function s run = F (run_key run)"
  shows "runs_view (apply_function_run run s) =
    (let S = (if run_status run = Pending then insert (run_key run) (ims_unallocated_function_runs s)
              else ims_unallocated_function_runs s - {run_key run})
     in (S, (ims_function_runs s)(run_key run \<mapsto> run), ims_application_versions s, hist_of (counted_runs F S)))"
proof -
  let ?k = "run_key run" and ?S = "ims_unallocated_function_runs s"
  have h: "pend_function_runs (ims_pending_resources s) = hist_of (counted_runs F ?S)" using ok by (simp add: runs_ok_def)
  have F': "get_function (s\<lparr>ims_unallocated_function_runs := T\<rparr>) run = F ?k" for T
    using F by (simp add: get_function_def)
  note C = count_run_fields [OF F']
  note sub = runs_okD(1) [OF ok]
  show ?thesis
  proof (cases "run_status run = Pending"; cases "?k \<in> ?S")
    assume "run_status run = Pending" "?k \<notin> ?S"
    then show ?thesis using hist_counted_insert [OF U sub, of ?k F]
      by (simp add: apply_function_run_def Let_def runs_view_def C h split: option.split)
  next
    assume "run_status run \<noteq> Pending" "?k \<in> ?S"
    then show ?thesis using hist_counted_delete [OF U sub, of ?k F]
      by (simp add: apply_function_run_def Let_def runs_view_def C h split: option.split)
  qed (simp_all add: apply_function_run_def Let_def runs_view_def h insert_absorb)
qed

lemma runs_ok_apply_function_run:
  assumes ok: "runs_ok U F s" and U: "universe U" "run_key run \<in> U" and F: "get_function s run = F (run_key run)"
  shows "runs_ok U F (apply_function_run run s)"
proof -
  let ?s = "apply_function_run run s" and ?k = "run_key run"
  have V: "ims_unallocated_function_runs ?s = (if run_status run = Pending
      then insert ?k (ims_unallocated_function_runs s) else ims_unallocated_function_runs s - {?k})"
    "ims_function_runs ?s = (ims_function_runs s)(?k \<mapsto> run)"
    "ims_application_versions ?s = ims_application_versions s"
    "pend_function_runs (ims_pending_resources ?s) = hist_of (counted_runs F (ims_unallocated_function_runs ?s))"
    using apply_function_run_view [OF ok U(1) F] by (simp_all add: runs_view_def Let_def)
  have G: "get_function ?s = get_function s" using V(3) unfolding get_function_def by simp
  have "k \<in> U \<and> run_key r = k \<and> get_function ?s r = F k" if "ims_function_runs ?s k = Some r" for k r
    using that ok U(2) F by (auto simp: V(2) G runs_ok_def split: if_splits)
  moreover have "ims_unallocated_function_runs ?s =
      {k. \<exists>run. ims_function_runs ?s k = Some run \<and> run_status run = Pending}"
    using ok by (auto simp: V(1,2) runs_ok_def split: if_splits)
  ultimately show ?thesis using V(4) by (simp add: runs_ok_def)
qed

lemma runs_ok_delete_function_run:
  assumes ok: "runs_ok U F s" and U: "universe U" and run: "ims_function_runs s (run_key run) = Some run"
  shows "runs_ok U F (delete_function_run run s)"
    "ims_function_runs (delete_function_run run s) = (ims_function_runs s)(run_key run := None)"
proof -
  let ?s = "delete_function_run run s" and ?k = "run_key run" and ?S = "ims_unallocated_function_runs s"
  have h: "pend_function_runs (ims_pending_resources s) = hist_of (counted_runs F ?S)" using ok by (simp add: runs_ok_def)
  have "get_function s run = F ?k" using ok run unfolding runs_ok_def by blast
  then have F': "get_function (s\<lparr>ims_function_runs := a, ims_unallocated_function_runs := b\<rparr>) run = F ?k" for a b
    by (simp add: get_function_def)
  note C = count_run_fields(2) [OF F']
  have V: "runs_view ?s = (?S - {?k}, (ims_function_runs s)(?k := None), ims_application_versions s,
      hist_of (counted_runs F (?S - {?k})))"
  proof (cases "?k \<in> ?S")
    case True
    then show ?thesis using hist_counted_delete [OF U runs_okD(1) [OF ok], of ?k F]
      by (simp add: delete_function_run_def Let_def runs_view_def C h split: option.split)
  qed (simp add: delete_function_run_def Let_def runs_view_def h)
  then show "ims_function_runs ?s = (ims_function_runs s)(?k := None)" by (simp add: runs_view_def)
  have G: "get_function ?s = get_function s" using V unfolding get_function_def by (simp add: runs_view_def)
  have R: "ims_function_runs ?s = (ims_function_runs s)(?k := None)"
    "ims_unallocated_function_runs ?s = ?S - {?k}"
    "pend_function_runs (ims_pending_resources ?s) = hist_of (counted_runs F (?S - {?k}))"
    using V by (simp_all add: runs_view_def)
  have "k \<in> U \<and> run_key r = k \<and> get_function s r = F k" if "ims_function_runs ?s k = Some r" for k r
    using that ok unfolding runs_ok_def R(1) by (simp split: if_splits)
  moreover have "?S - {?k} = {k. \<exists>run. ims_function_runs ?s k = Some run \<and> run_status run = Pending}"
    using ok unfolding runs_ok_def R(1) by auto
  ultimately show "runs_ok U F ?s" unfolding runs_ok_def R(2,3) G by blast
qed

lemma runs_ok_fold_delete:
  assumes "runs_ok U F s" "universe U" "distinct (map run_key runs)"
    "\<forall>run \<in> set runs. ims_function_runs s (run_key run) = Some run"
  shows "runs_ok U F (fold delete_function_run runs s)"
  using assms
proof (induction runs arbitrary: s)
  case (Cons run runs)
  let ?s = "delete_function_run run s"
  have "ims_function_runs s (run_key run) = Some run" using Cons.prems by simp
  note D = runs_ok_delete_function_run [OF Cons.prems(1,2) this]
  have "\<forall>r \<in> set runs. ims_function_runs ?s (run_key r) = Some r"
    using Cons.prems(3,4) by (auto simp: D(2) image_iff)
  then show ?case using Cons.IH [OF D(1) Cons.prems(2)] Cons.prems(3) by simp
qed simp

lemma pending_view_delete [simp]:
  "pending_view (fold delete_function_run runs s) = pending_view s"
  "pending_view (delete_request namespace application request_id s) = pending_view s"
proof -
  have one: "pending_view (delete_function_run run s) = pending_view s" for run s
    by (simp add: delete_function_run_def Let_def) (simp add: pending_view_def)
  show fold: "pending_view (fold delete_function_run runs s) = pending_view s" for runs s
    by (induction runs arbitrary: s) (simp_all add: one)
  show "pending_view (delete_request namespace application request_id s) = pending_view s"
    by (simp add: delete_request_def delete_function_runs_def Let_def fold) (simp add: pending_view_def)
qed

lemma runs_view_ops [simp]:
  "runs_view (drop_allocations runs s) = runs_view s"
  "runs_view (insert_allocation a s) = runs_view s"
  "runs_view (remove_allocation eid cid aid s) = runs_view s"
  "runs_view (s\<lparr>ims_request_ctx := c\<rparr>) = runs_view s"
  "runs_view (store_sandbox key sandbox s) = runs_view s"
  "runs_view (locate_sandbox key sandbox s) = runs_view s"
  "runs_view (drop_sandbox key s) = runs_view s"
  "runs_view (add_pending_sandbox key p s) = runs_view s"
  "runs_view (remove_pending_sandbox key s) = runs_view s"
  by (simp_all add: runs_view_def drop_allocations_def insert_allocation_def remove_allocation_def
      store_sandbox_def locate_sandbox_def drop_sandbox_def add_pending_sandbox_def remove_pending_sandbox_def
      Let_def split: option.split)

lemma runs_ok_delete_request:
  assumes ok: "runs_ok U F s" and U: "universe U"
  shows "runs_ok U F (delete_request namespace application request_id s)"
proof -
  let ?s = "s\<lparr>ims_request_ctx := (ims_request_ctx s)(request_ctx_key_new namespace application request_id := None)\<rparr>"
  let ?p = "run_key_prefix_for_request namespace application request_id"
  let ?runs = "map (\<lambda>k. the (ims_function_runs s k)) (prefix_scan (ims_function_runs s) ?p)"
  have fin: "finite (dom (ims_function_runs s))" using universe_sub(1) [OF U runs_okD(2) [OF ok]] .
  have keys: "run_key (the (ims_function_runs s k)) = k" if "k \<in> dom (ims_function_runs s)" for k
    using ok that by (auto simp: runs_ok_def)
  then have "map run_key ?runs = prefix_scan (ims_function_runs s) ?p"
    using set_prefix_scan [OF fin, of ?p] by (auto simp: comp_def intro!: map_idI)
  moreover have "\<forall>run \<in> set ?runs. ims_function_runs s (run_key run) = Some run"
    using keys set_prefix_scan [OF fin, of ?p] by auto
  moreover have "runs_ok U F ?s" using ok runs_ok_view [OF runs_view_ops(4)] by simp
  ultimately have "runs_ok U F (fold delete_function_run ?runs ?s)"
    using U distinct_prefix_scan [OF fin, of ?p] by (intro runs_ok_fold_delete) simp_all
  then show ?thesis
    using runs_ok_view [OF runs_view_ops(1)] by (simp add: delete_request_def delete_function_runs_def Let_def)
qed

section \<open>Scheduler updates keep the counts\<close>

text \<open>The runs of an update are known: their functions are the ones their keys were counted with.\<close>

definition runs_known ::
  "function_run_key set \<Rightarrow> (function_run_key \<Rightarrow> app_function option) \<Rightarrow> in_memory_state \<Rightarrow> scheduler_update_request \<Rightarrow> bool" where
  "runs_known U F s update \<longleftrightarrow>
     (\<forall>key ctx cid run. su_updated_request_states update key = Some ctx \<longrightarrow> req_function_runs ctx cid = Some run \<longrightarrow>
        run_key run \<in> U \<and> get_function s run = F (run_key run))"

text \<open>Sandboxes are not touched by the loops over runs, requests and allocations.\<close>

definition sandbox_view where
  "sandbox_view s = (ims_sandboxes s, ims_pending_sandbox_profile s)"

lemma sandbox_view_ops [simp]:
  "sandbox_view (count_run run s) = sandbox_view s"
  "sandbox_view (uncount_run run s) = sandbox_view s"
  "sandbox_view (insert_allocation a s) = sandbox_view s"
  "sandbox_view (drop_allocations runs s) = sandbox_view s"
  "sandbox_view (s\<lparr>ims_request_ctx := c\<rparr>) = sandbox_view s"
  by (simp_all add: sandbox_view_def count_run_def uncount_run_def insert_allocation_def drop_allocations_def Let_def
      split: option.split)

lemma sandbox_view_delete_request [simp]:
  "sandbox_view (delete_request namespace application request_id s) = sandbox_view s"
proof -
  have "sandbox_view (delete_function_run run s) = sandbox_view s" for run s
    by (simp add: delete_function_run_def Let_def) (simp add: sandbox_view_def)
  then have "sandbox_view (fold delete_function_run runs s) = sandbox_view s" for runs s
    by (induction runs arbitrary: s) simp_all
  then show ?thesis by (simp add: delete_request_def delete_function_runs_def Let_def)
qed

text \<open>What the loops keep: both invariants, the application versions and the sandboxes.\<close>

definition counts_ok ::
  "function_run_key set \<Rightarrow> sandbox_key set \<Rightarrow> (function_run_key \<Rightarrow> app_function option) \<Rightarrow>
   in_memory_state \<Rightarrow> in_memory_state \<Rightarrow> bool" where
  "counts_ok U V F s0 s \<longleftrightarrow> runs_ok U F s \<and> pending_ok V s \<and>
     ims_application_versions s = ims_application_versions s0 \<and> sandbox_view s = sandbox_view s0"

lemma fold_counts_ok:
  assumes "\<And>x s. x \<in> set xs \<Longrightarrow> P s \<Longrightarrow> P (f x s)" "P s"
  shows "P (fold f xs s)"
  using assms by (induction xs arbitrary: s) auto

lemma counts_ok_views:
  assumes "runs_view s' = runs_view s" "pending_view s' = pending_view s" "ims_sandboxes s' = ims_sandboxes s"
  shows "counts_ok U V F s0 s' = counts_ok U V F s0 s"
  using runs_ok_view [OF assms(1)] pending_ok_view [OF assms(2)] assms
  by (simp add: counts_ok_def runs_view_def pending_view_def sandbox_view_def)

lemma counts_ok_updated_function_run:
  assumes ok: "counts_ok U V F s0 s" and U: "universe U" and known: "runs_known U F s0 update"
  shows "counts_ok U V F s0 (updated_function_run update key cid s)"
proof (cases "\<exists>ctx run. su_updated_request_states update key = Some ctx \<and> req_function_runs ctx cid = Some run")
  case False
  then show ?thesis using ok by (auto simp: updated_function_run_def split: option.split)
next
  case True
  then obtain ctx run where r: "su_updated_request_states update key = Some ctx" "req_function_runs ctx cid = Some run"
    by blast
  have k: "run_key run \<in> U" "get_function s0 run = F (run_key run)" using known r unfolding runs_known_def by blast+
  have F: "get_function s run = F (run_key run)"
    using ok k(2) by (simp add: get_function_def counts_ok_def)
  have R: "runs_ok U F s" using ok by (simp add: counts_ok_def)
  have P: "pending_view (apply_function_run run s) = pending_view s" "sandbox_view (apply_function_run run s) = sandbox_view s"
    by (simp_all add: apply_function_run_def Let_def pending_view_def sandbox_view_def count_run_def uncount_run_def
        split: option.split)
  have "ims_application_versions (apply_function_run run s) = ims_application_versions s"
    using apply_function_run_view [OF R U F] by (simp add: runs_view_def Let_def)
  with ok have "counts_ok U V F s0 (apply_function_run run s)"
    using runs_ok_apply_function_run [OF R U k(1) F] pending_ok_view [OF P(1)] P(2) by (simp add: counts_ok_def)
  then show ?thesis by (simp add: updated_function_run_def r)
qed

lemma delete_request_versions [simp]:
  "ims_application_versions (delete_request namespace application request_id s) = ims_application_versions s"
proof -
  have "ims_application_versions (fold delete_function_run runs s) = ims_application_versions s" for runs s
    by (induction runs arbitrary: s)
      (simp_all add: delete_function_run_def uncount_run_def Let_def split: option.split)
  then show ?thesis by (simp add: delete_request_def delete_function_runs_def drop_allocations_def Let_def)
qed

lemma counts_ok_request_state:
  assumes "counts_ok U V F s0 s" "universe U"
  shows "counts_ok U V F s0 (apply_request_state key ctx s)"
proof -
  have "counts_ok U V F s0 (delete_request a b c s)" for a b c
    using assms runs_ok_delete_request pending_ok_view [OF pending_view_delete(2)] by (simp add: counts_ok_def)
  moreover have "counts_ok U V F s0 (s\<lparr>ims_request_ctx := x\<rparr>)" for x
    using assms(1) counts_ok_views [of "s\<lparr>ims_request_ctx := x\<rparr>" s] by (simp add: runs_view_def pending_view_def)
  ultimately show ?thesis by (simp add: apply_request_state_def)
qed

text \<open>The part of an update that changes runs and requests, and what the rest of it leaves alone.\<close>

definition update_runs :: "state_orders \<Rightarrow> scheduler_update_request \<Rightarrow> in_memory_state \<Rightarrow> in_memory_state" where
  "update_runs ord update s =
     fold (\<lambda>key. apply_request_state key (the (su_updated_request_states update key)))
       (so_requests ord (dom (su_updated_request_states update)))
       (fold (\<lambda>key. fold (updated_function_run update key) (so_runs ord (the (su_updated_function_runs update key))))
         (so_requests ord (dom (su_updated_function_runs update))) s)"

lemma counts_ok_update_runs:
  assumes "counts_ok U V F s0 s" "universe U" "runs_known U F s0 update"
  shows "counts_ok U V F s0 (update_runs ord update s)"
  unfolding update_runs_def
  by (rule fold_counts_ok [where P = "counts_ok U V F s0"], use counts_ok_request_state assms(2) in blast,
      rule fold_counts_ok [where P = "counts_ok U V F s0"], rule fold_counts_ok [where P = "counts_ok U V F s0"])
    (use counts_ok_updated_function_run [OF _ assms(2,3)] assms(1) in blast)+

lemma new_allocations_views:
  fixes allocations :: "allocation list"
  defines "next \<equiv> \<lambda>st. snd (fold apply_new_allocation allocations st)"
  shows "runs_view (next st) = runs_view (snd st)" "pending_view (next st) = pending_view (snd st)"
    "ims_sandboxes (next st) = ims_sandboxes (snd st)"
proof -
  have "runs_view (snd (apply_new_allocation a st)) = runs_view (snd st) \<and>
      pending_view (snd (apply_new_allocation a st)) = pending_view (snd st) \<and>
      ims_sandboxes (snd (apply_new_allocation a st)) = ims_sandboxes (snd st)" for a st
    by (cases st) (simp add: apply_new_allocation_def, simp add: insert_allocation_def Let_def)
  then have "runs_view (next st) = runs_view (snd st) \<and> pending_view (next st) = pending_view (snd st) \<and>
      ims_sandboxes (next st) = ims_sandboxes (snd st)"
    unfolding next_def by (induction allocations arbitrary: st) simp_all
  then show "runs_view (next st) = runs_view (snd st)" "pending_view (next st) = pending_view (snd st)"
    "ims_sandboxes (next st) = ims_sandboxes (snd st)" by blast+
qed

lemma runs_view_apply_sandbox: "runs_view (apply_sandbox key sandbox s) = runs_view s"
  by (simp add: apply_sandbox_def Let_def split: sandbox_status.split)

definition update_sandboxes :: "state_orders \<Rightarrow> scheduler_update_request \<Rightarrow> in_memory_state \<Rightarrow> in_memory_state" where
  "update_sandboxes ord update s =
     fold (\<lambda>key. apply_sandbox key (the (su_updated_sandboxes update key)))
       (so_sandboxes ord (dom (su_updated_sandboxes update))) s"

lemma runs_view_update_sandboxes: "runs_view (update_sandboxes ord update s) = runs_view s"
proof -
  have "runs_view (fold (\<lambda>key. apply_sandbox key (sandboxes key)) keys s) = runs_view s" for sandboxes keys s
    by (induction keys arbitrary: s) (simp_all add: runs_view_apply_sandbox)
  then show ?thesis by (simp add: update_sandboxes_def)
qed

lemma apply_scheduler_update_views:
  obtains s4 where "runs_view s4 = runs_view (update_runs ord update (s\<lparr>ims_clock := clock\<rparr>))"
    "pending_view s4 = pending_view (update_runs ord update (s\<lparr>ims_clock := clock\<rparr>))"
    "ims_sandboxes s4 = ims_sandboxes (update_runs ord update (s\<lparr>ims_clock := clock\<rparr>))"
    "runs_view (snd (apply_scheduler_update ord clock update s)) = runs_view (update_sandboxes ord update s4)"
    "pending_view (snd (apply_scheduler_update ord clock update s)) = pending_view (update_sandboxes ord update s4)"
    "ims_sandboxes (snd (apply_scheduler_update ord clock update s)) = ims_sandboxes (update_sandboxes ord update s4)"
proof -
  let ?s2 = "update_runs ord update (s\<lparr>ims_clock := clock\<rparr>)"
  let ?changed = "(\<lambda>a. target_executor_id (al_target a)) ` set (su_updated_allocations update)"
  obtain changed s3 where 3: "fold apply_new_allocation (su_new_allocations update) (?changed, ?s2) = (changed, s3)"
    by fastforce
  define s4 where "s4 = s3\<lparr>ims_allocations_by_executor := ims_allocations_by_executor s3 |` (- set (su_remove_executors update))\<rparr>"
  have V3: "runs_view s3 = runs_view ?s2" "pending_view s3 = pending_view ?s2" "ims_sandboxes s3 = ims_sandboxes ?s2"
    using new_allocations_views [of "su_new_allocations update" "(?changed, ?s2)"] 3 by simp_all
  have V4: "runs_view s4 = runs_view s3" "pending_view s4 = pending_view s3" "ims_sandboxes s4 = ims_sandboxes s3"
    by (simp_all add: s4_def runs_view_def pending_view_def)
  show thesis
  proof (rule that [of s4])
    let ?s5 = "update_sandboxes ord update s4"
    let ?s6 = "?s5\<lparr>ims_snapshots := ims_snapshots ?s5 ++ su_updated_snapshots update\<rparr>"
    have "snd (apply_scheduler_update ord clock update s) =
        ?s6\<lparr>ims_pending_resources := set_deficits update (ims_pending_resources ?s6)\<rparr>"
      using 3 by (simp add: s4_def apply_scheduler_update_def apply_scheduler_update_inner_def update_runs_def
          update_sandboxes_def Let_def)
    then show "runs_view (snd (apply_scheduler_update ord clock update s)) = runs_view ?s5"
      "pending_view (snd (apply_scheduler_update ord clock update s)) = pending_view ?s5"
      "ims_sandboxes (snd (apply_scheduler_update ord clock update s)) = ims_sandboxes ?s5"
      by (simp_all add: runs_view_def pending_view_def set_deficits_def Let_def split: option.split)
  qed (simp_all add: V3 V4)
qed

section \<open>Upgrading requests\<close>

text \<open>An upgrade changes neither the set of unallocated runs nor the pending resources.\<close>

definition upgrade_view where
  "upgrade_view s = (ims_unallocated_function_runs s, ims_application_versions s, ims_pending_resources s)"

lemma upgrade_run_effect:
  "upgrade_view (snd (upgrade_run version run st)) = upgrade_view (snd st)"
  "ims_function_runs (snd (upgrade_run version run st)) =
     (if ims_function_runs (snd st) (run_key run) = None then ims_function_runs (snd st)
      else (ims_function_runs (snd st))(run_key run \<mapsto> run\<lparr>run_version := version\<rparr>))"
  by (auto simp: upgrade_run_def upgrade_view_def run_key_def Let_def split: prod.split)

lemma upgrade_request_snd:
  "snd (upgrade_request ord version ctx st) =
     snd (fold (\<lambda>cid. upgrade_run version (the (req_function_runs ctx cid)))
       (so_runs ord (dom (req_function_runs ctx))) (ctx, snd st))"
  by (simp add: upgrade_request_def Let_def split: prod.split)

lemma upgrade_request_view: "upgrade_view (snd (upgrade_request ord version ctx st)) = upgrade_view (snd st)"
  unfolding upgrade_request_snd
  using fold_counts_ok [where P = "\<lambda>st'. upgrade_view (snd st') = upgrade_view (snd st)"
      and f = "\<lambda>cid. upgrade_run version (the (req_function_runs ctx cid))" and s = "(ctx, snd st)"]
  by (simp add: upgrade_run_effect)

lemma store_contexts:
  "upgrade_view (fold (\<lambda>ctx self. self\<lparr>ims_request_ctx := (ims_request_ctx self)(req_key ctx \<mapsto> ctx)\<rparr>) ctxs s) = upgrade_view s"
  "ims_function_runs (fold (\<lambda>ctx self. self\<lparr>ims_request_ctx := (ims_request_ctx self)(req_key ctx \<mapsto> ctx)\<rparr>) ctxs s) =
     ims_function_runs s"
  by (induction ctxs arbitrary: s) (simp_all add: upgrade_view_def)

lemma upgrade_requests_view: "upgrade_view (upgrade_requests ord namespace application version s) = upgrade_view s"
proof -
  have "upgrade_view (snd (fold (upgrade_request ord version) ctxs (upgraded, s))) = upgrade_view s" for ctxs upgraded
    using fold_counts_ok [where P = "\<lambda>st. upgrade_view (snd st) = upgrade_view s" and f = "upgrade_request ord version"
        and s = "(upgraded, s)"] by (simp add: upgrade_request_view)
  then show ?thesis by (simp add: upgrade_requests_def Let_def split_beta store_contexts)
qed

lemma create_or_update_application_view:
  fixes req :: create_or_update_application_request
  defines "app \<equiv> cua_application req"
  shows "upgrade_view (create_or_update_application ord req s) =
    (ims_unallocated_function_runs s,
     (ims_application_versions s)(version_key_from (app_namespace app) (app_name app) (app_version app) \<mapsto> to_version app),
     ims_pending_resources s)"
  by (simp add: create_or_update_application_def Let_def upgrade_requests_view app_def)
    (simp add: upgrade_view_def to_version_def)

text \<open>A step of a fold that establishes a fact the others keep.\<close>

lemma fold_reaches:
  assumes "x \<in> set xs" "I s" "\<And>y s. y \<in> set xs \<Longrightarrow> I s \<Longrightarrow> I (f y s)" "\<And>s. I s \<Longrightarrow> Q (f x s)"
    and "\<And>y s. y \<in> set xs \<Longrightarrow> Q s \<Longrightarrow> Q (f y s)"
  shows "Q (fold f xs s)"
  using assms
proof (induction xs arbitrary: s)
  case (Cons y xs)
  show ?case
  proof (cases "y = x")
    case True
    then have "Q (f y s)" using Cons.prems(2,4) by simp
    then show ?thesis using Cons.prems(5) fold_counts_ok [of xs Q f "f y s"] by simp
  next
    case False
    then show ?thesis using Cons.IH [of "f y s"] Cons.prems by simp
  qed
qed simp

text \<open>The runs of the requests are those of the table of runs.\<close>

definition requests_agree :: "in_memory_state \<Rightarrow> bool" where
  "requests_agree s \<longleftrightarrow> finite (dom (ims_request_ctx s)) \<and>
     (\<forall>rk ctx. ims_request_ctx s rk = Some ctx \<longrightarrow> finite (dom (req_function_runs ctx)) \<and>
        (\<forall>run \<in> ran (req_function_runs ctx). ims_function_runs s (run_key run) = Some run))"

lemma upgrade_request_reaches:
  fixes run :: function_run and version :: string
  defines "I \<equiv> \<lambda>s. ims_function_runs s (run_key run) \<noteq> None"
    and "Q \<equiv> \<lambda>s. ims_function_runs s (run_key run) = Some (run\<lparr>run_version := version\<rparr>)"
  assumes ctx: "finite (dom (req_function_runs ctx))" "\<forall>r \<in> ran (req_function_runs ctx). run_key r = run_key run \<longrightarrow> r = run"
    and ord: "enumerates (so_runs ord)"
  shows "I (snd st) \<Longrightarrow> I (snd (upgrade_request ord version ctx st))"
    "Q (snd st) \<Longrightarrow> Q (snd (upgrade_request ord version ctx st))"
    "req_function_runs ctx cid = Some run \<Longrightarrow> I (snd st) \<Longrightarrow> Q (snd (upgrade_request ord version ctx st))"
proof -
  let ?f = "\<lambda>cid. upgrade_run version (the (req_function_runs ctx cid))"
  let ?cids = "so_runs ord (dom (req_function_runs ctx))"
  have cids: "set ?cids = dom (req_function_runs ctx)" using enumeratesD(1) [OF ord ctx(1)] .
  have keepI: "I (snd (?f c st))" if "I (snd st)" for c st
    using that by (auto simp: I_def upgrade_run_effect)
  have keepQ: "Q (snd (?f c st))" if "c \<in> set ?cids" "Q (snd st)" for c st
  proof -
    from that(1) cids obtain r where "req_function_runs ctx c = Some r" by auto
    with that(2) ctx(2) show ?thesis by (auto simp: Q_def upgrade_run_effect ranI)
  qed
  show "I (snd st) \<Longrightarrow> I (snd (upgrade_request ord version ctx st))"
    unfolding upgrade_request_snd by (rule fold_counts_ok [where P = "\<lambda>st. I (snd st)"]) (auto intro: keepI)
  show "Q (snd st) \<Longrightarrow> Q (snd (upgrade_request ord version ctx st))"
    unfolding upgrade_request_snd by (rule fold_counts_ok [where P = "\<lambda>st. Q (snd st)"]) (auto intro: keepQ)
  show "Q (snd (upgrade_request ord version ctx st))" if "req_function_runs ctx cid = Some run" "I (snd st)"
    unfolding upgrade_request_snd
  proof (rule fold_reaches [where x = cid and I = "\<lambda>st. I (snd st)" and Q = "\<lambda>st. Q (snd st)"])
    show "cid \<in> set ?cids" using that(1) cids by auto
    show "Q (snd (?f cid st))" if "I (snd st)" for st
      using that \<open>req_function_runs ctx cid = Some run\<close> by (auto simp: I_def Q_def upgrade_run_effect)
  qed (use that keepI keepQ in auto)
qed

lemma upgrade_reaches_run:
  assumes agree: "requests_agree s" and ord: "enumerates (so_runs ord)"
    and req: "cua_upgrade_requests_to_current_version req"
    and ctx: "ims_request_ctx s rk = Some ctx" "req_function_runs ctx cid = Some run"
      "starts_with (app_key_prefix (cua_namespace req) (app_name (cua_application req))) rk"
  shows "ims_function_runs (create_or_update_application ord req s) (run_key run) =
    Some (run\<lparr>run_version := app_version (cua_application req)\<rparr>)"
proof -
  let ?app = "cua_application req" and ?v = "app_version (cua_application req)"
  let ?keys = "prefix_scan (ims_request_ctx s) (app_key_prefix (cua_namespace req) (app_name ?app))"
  let ?upgraded = "\<lambda>k. (the (ims_request_ctx s k))\<lparr>req_application_version := ?v\<rparr>"
  define s0 where "s0 = s\<lparr>ims_applications := (ims_applications s)(app_key_from (app_namespace ?app) (app_name ?app) \<mapsto> ?app),
    ims_application_versions := (ims_application_versions s)
      (version_key_from (app_namespace ?app) (app_name ?app) ?v \<mapsto> to_version ?app)\<rparr>"
  have fin: "finite (dom (ims_request_ctx s))" using agree by (simp add: requests_agree_def)
  have "ims_function_runs s (run_key run) = Some run" using agree ctx(1,2) unfolding requests_agree_def by (metis ranI)
  have same: "finite (dom (req_function_runs c))" "\<forall>r \<in> ran (req_function_runs c). run_key r = run_key run \<longrightarrow> r = run"
    if "c \<in> set (map ?upgraded ?keys)" for c
  proof -
    from that obtain k' c' where c': "ims_request_ctx s k' = Some c'" "req_function_runs c = req_function_runs c'"
      using set_prefix_scan [OF fin] by auto
    show "finite (dom (req_function_runs c))" using agree c' unfolding requests_agree_def by metis
    show "\<forall>r \<in> ran (req_function_runs c). run_key r = run_key run \<longrightarrow> r = run"
      using agree c' \<open>ims_function_runs s (run_key run) = Some run\<close> unfolding requests_agree_def by (metis option.inject)
  qed
  have "rk \<in> set ?keys" using ctx(1,3) set_prefix_scan [OF fin] by auto
  then have mem: "?upgraded rk \<in> set (map ?upgraded ?keys)" by simp
  have "ims_function_runs (snd (fold (upgrade_request ord ?v) (map ?upgraded ?keys) ([], s0))) (run_key run) =
      Some (run\<lparr>run_version := ?v\<rparr>)"
  proof (rule fold_reaches [where x = "?upgraded rk" and I = "\<lambda>st. ims_function_runs (snd st) (run_key run) \<noteq> None"
        and Q = "\<lambda>st. ims_function_runs (snd st) (run_key run) = Some (run\<lparr>run_version := ?v\<rparr>)", OF mem])
    show "ims_function_runs (snd ([], s0)) (run_key run) \<noteq> None"
      using \<open>ims_function_runs s (run_key run) = Some run\<close> by (simp add: s0_def)
    show "ims_function_runs (snd (upgrade_request ord ?v (?upgraded rk) st)) (run_key run) = Some (run\<lparr>run_version := ?v\<rparr>)"
      if "ims_function_runs (snd st) (run_key run) \<noteq> None" for st
      using upgrade_request_reaches(3) [OF same [OF mem] ord, of cid] that ctx(1,2) by simp
    fix c :: request_ctx and st assume c: "c \<in> set (map ?upgraded ?keys)"
    note keeps = upgrade_request_reaches(1,2) [OF same [OF c] ord, where version = ?v and st = st]
    show "ims_function_runs (snd (upgrade_request ord ?v c st)) (run_key run) \<noteq> None"
      if "ims_function_runs (snd st) (run_key run) \<noteq> None" using keeps(1) that .
    show "ims_function_runs (snd (upgrade_request ord ?v c st)) (run_key run) = Some (run\<lparr>run_version := ?v\<rparr>)"
      if "ims_function_runs (snd st) (run_key run) = Some (run\<lparr>run_version := ?v\<rparr>)" using keeps(2) that .
  qed
  then show ?thesis
    using req by (simp add: create_or_update_application_def upgrade_requests_def Let_def split_beta store_contexts s0_def to_version_def)
qed

text \<open>An update that does nothing to the requests but end one run.\<close>

definition ends_run :: "scheduler_update_request \<Rightarrow> request_ctx_key \<Rightarrow> function_call_id \<Rightarrow> function_run \<Rightarrow> bool" where
  "ends_run update rk cid run \<longleftrightarrow>
     su_updated_function_runs update = [rk \<mapsto> {cid}] \<and>
     (\<exists>ctx. su_updated_request_states update = [rk \<mapsto> ctx] \<and> req_outcome ctx = None \<and> req_function_runs ctx cid = Some run)"

lemma enumerates_singleton:
  assumes "enumerates ord"
  shows "ord {x} = [x]"
proof -
  have "set (ord {x}) = {x}" "distinct (ord {x})" using enumeratesD [OF assms, of "{x}"] by simp_all
  then show ?thesis by (cases "ord {x}"; cases "tl (ord {x})") auto
qed

lemma runs_view_ends_run:
  assumes "ends_run update rk cid run" "enumerates (so_requests ord)" "enumerates (so_runs ord)"
  shows "runs_view (snd (apply_scheduler_update ord clock update s)) =
    runs_view (apply_function_run run (s\<lparr>ims_clock := clock\<rparr>))"
proof -
  have "runs_view (snd (apply_scheduler_update ord clock update s)) = runs_view (update_runs ord update (s\<lparr>ims_clock := clock\<rparr>))"
    by (rule apply_scheduler_update_views [of ord update clock s]) (simp add: runs_view_update_sandboxes)
  also have "\<dots> = runs_view (apply_function_run run (s\<lparr>ims_clock := clock\<rparr>))"
    using assms by (auto simp: ends_run_def update_runs_def enumerates_singleton updated_function_run_def apply_request_state_def)
  finally show ?thesis .
qed

lemma uncount_run_other:
  assumes "get_function s run = Some f" "profile_from_function f \<noteq> p"
  shows "pend_function_runs (ims_pending_resources (uncount_run run s)) p = pend_function_runs (ims_pending_resources s) p"
    "ims_unallocated_function_runs (uncount_run run s) = ims_unallocated_function_runs s"
  using assms by (auto simp: uncount_run_def hist_decrement_def Let_def split: option.split)

lemma hist_counted_member:
  assumes "universe U" "S \<subseteq> U" "k \<in> S" "F k = Some f"
  shows "\<exists>n. hist_of (counted_runs F S) (profile_from_function f) = Some n \<and>
    unat n = Suc (card {k' \<in> S - {k}. map_option profile_from_function (F k') = Some (profile_from_function f)})"
proof -
  let ?T = "{k' \<in> S. map_option profile_from_function (F k') = Some (profile_from_function f)}"
  have T: "{k'. counted_runs F S k' = Some (profile_from_function f)} = ?T" by (auto simp: counted_runs_def)
  have fin: "finite ?T" using assms(1,2) finite_subset [of ?T U] by (auto simp: universe_def)
  have k: "k \<in> ?T" using assms(3,4) by simp
  have rest: "{k' \<in> S - {k}. map_option profile_from_function (F k') = Some (profile_from_function f)} = ?T - {k}" by blast
  have card: "card ?T = Suc (card {k' \<in> S - {k}. map_option profile_from_function (F k') = Some (profile_from_function f)})"
    unfolding rest using card_Suc_Diff1 [OF fin k] by (rule sym)
  have "card ?T \<le> card U" using assms(1,2) by (intro card_mono) (auto simp: universe_def)
  then have "card ?T < 2 ^ 64" using assms(1) by (simp add: universe_def)
  then have "unat (of_nat (card ?T) :: u64) = card ?T" by (rule unat_of_nat_u64)
  then show ?thesis unfolding hist_of_def T Let_def card by simp
qed

section \<open>Properties\<close>

text \<open>
  C7: the pending resources reported for capacity planning are exact.  After a scheduler update the
  set of unallocated runs has exactly the runs that are pending, and the histogram of pending
  function runs counts, for every resource profile, how many of them need it.  A sandbox is recorded
  as pending exactly if it is stored with a pending status whose reason is not the wait for its
  container, under the profile of its resources; and the set of pending sandboxes, the index by
  profile and the histogram of pending sandboxes are those of the recorded profiles.  The update may
  complete, create and delete runs, requests and sandboxes in any combination; it must not move a
  run to a different function, nor change the resources of a sandbox that waits or mark it as
  being snapshotted.
\<close>

theorem pending_resources_exact:
  assumes U: "universe U" "universe V" and ok: "runs_ok U F s" "pending_ok V s" "waiting_ok s"
    and known: "runs_known U F s update" "dom (su_updated_sandboxes update) \<subseteq> V"
      "\<forall>key sandbox. su_updated_sandboxes update key = Some sandbox \<longrightarrow> sandbox_known s key sandbox"
    and ord: "enumerates (so_sandboxes ord)"
    and s': "s' = snd (apply_scheduler_update ord clock update s)"
  shows "ims_unallocated_function_runs s' =
      {k. \<exists>run. ims_function_runs s' k = Some run \<and> run_status run = Pending} \<and>
    pend_function_runs (ims_pending_resources s') = hist_of (counted_runs F (ims_unallocated_function_runs s')) \<and>
    (\<forall>k p. ims_pending_sandbox_profile s' k = Some p \<longleftrightarrow>
      (\<exists>sandbox reason. ims_sandboxes s' k = Some sandbox \<and> sbx_status sandbox = SB_Pending reason \<and>
         reason \<noteq> SB_WaitingForContainer \<and> p = profile_from_container_resources (sbx_resources sandbox))) \<and>
    pend_sandboxes (ims_pending_resources s') = hist_of (ims_pending_sandbox_profile s') \<and>
    ims_pending_sandboxes s' = dom (ims_pending_sandbox_profile s') \<and>
    (\<forall>k p. k \<in> idx_get (ims_pending_sandboxes_by_profile s') p \<longleftrightarrow> ims_pending_sandbox_profile s' k = Some p)"
proof -
  let ?s0 = "s\<lparr>ims_clock := clock\<rparr>" and ?P = "counts_ok U V F s"
  let ?keys = "so_sandboxes ord (dom (su_updated_sandboxes update))"
  let ?sandboxes = "\<lambda>key. the (su_updated_sandboxes update key)"
  have "?P s" using ok by (simp add: counts_ok_def)
  then have "?P ?s0" using counts_ok_views [of ?s0 s] by (simp add: runs_view_def pending_view_def)
  then have P2: "?P (update_runs ord update ?s0)" using U(1) known(1) by (rule counts_ok_update_runs)
  obtain s4 where V4: "runs_view s4 = runs_view (update_runs ord update ?s0)"
    "pending_view s4 = pending_view (update_runs ord update ?s0)"
    "ims_sandboxes s4 = ims_sandboxes (update_runs ord update ?s0)"
    and last: "runs_view s' = runs_view (update_sandboxes ord update s4)"
      "pending_view s' = pending_view (update_sandboxes ord update s4)"
      "ims_sandboxes s' = ims_sandboxes (update_sandboxes ord update s4)"
    unfolding s' by (rule apply_scheduler_update_views [of ord update clock s])
  have P4: "?P s4" using P2 counts_ok_views [OF V4] by blast
  then have 4: "runs_ok U F s4" "pending_ok V s4" "sandbox_view s4 = sandbox_view s" by (simp_all add: counts_ok_def)
  have "finite (dom (su_updated_sandboxes update))" using known(2) U(2) finite_subset by (auto simp: universe_def)
  note keys = enumeratesD [OF ord this]
  have "waiting_ok s4" "\<forall>key \<in> set ?keys. sandbox_known s4 key (?sandboxes key)"
    using ok(3) known(3) 4(3) by (auto simp: waiting_ok_def sandbox_known_def sandbox_view_def keys)
  then have "pending_ok V (update_sandboxes ord update s4) \<and> waiting_ok (update_sandboxes ord update s4)"
    unfolding update_sandboxes_def using 4(2) U(2) known(2) keys by (intro waiting_ok_apply_sandboxes) simp_all
  then have "pending_ok V s'" "waiting_ok s'"
    using pending_ok_view [OF last(2)] last(2,3) by (simp_all add: waiting_ok_def pending_view_def)
  moreover have "runs_ok U F s'" using 4(1) runs_ok_view [of s' s4] last(1) by (simp add: runs_view_update_sandboxes)
  ultimately show ?thesis by (simp add: runs_ok_def pending_ok_def waiting_ok_def)
qed

text \<open>A request with one pending run, created by \<open>InvokeApplication\<close>.\<close>

definition example_state_orders :: state_orders where
  "example_state_orders = \<lparr>so_requests = sorted_list_of_set, so_runs = sorted_list_of_set, so_sandboxes = sorted_list_of_set\<rparr>"

definition example_ctx :: "function_run \<Rightarrow> request_ctx" where
  "example_ctx run =
     \<lparr>req_namespace = ''ns'', req_application_name = ''app'', req_application_version = ''1'', req_request_id = ''r1'',
      req_outcome = None, req_created_at = 0, req_request_error = None, req_created_at_clock = None,
      req_updated_at_clock = None, req_function_runs = [''call'' \<mapsto> run], req_function_calls = Map.empty\<rparr>"

definition example_base :: in_memory_state where
  "example_base = ims_new example_state_orders 0
     \<lparr>rows_namespaces = [], rows_applications = [], rows_application_versions = [(''ns|app|1'', example_version)],
      rows_allocations = [], rows_request_ctx = [], rows_function_runs = [], rows_function_calls = [],
      rows_sandboxes = [], rows_snapshots = []\<rparr> []"

definition example_invoked :: in_memory_state where
  "example_invoked = snd (update_state example_state_orders 0 1
     (RP_InvokeApplication \<lparr>ia_namespace = ''ns'', ia_application_name = ''app'', ia_ctx = example_ctx example_run\<rparr>)
     example_base)"

definition example_completion :: "function_run \<Rightarrow> scheduler_update_request" where
  "example_completion run = default_update
     \<lparr>su_updated_function_runs := [''ns|app|r1'' \<mapsto> {''call''}],
      su_updated_request_states := [''ns|app|r1'' \<mapsto> example_ctx (run\<lparr>run_status := Completed\<rparr>)]\<rparr>"

lemma example_base_fields:
  "ims_unallocated_function_runs example_base = {}" "ims_function_runs example_base = Map.empty"
  "ims_application_versions example_base = [''ns|app|1'' \<mapsto> example_version]"
  "ims_pending_resources example_base = default_pending_resources" "ims_request_ctx example_base = Map.empty"
  "ims_pending_sandboxes example_base = {}" "ims_pending_sandbox_profile example_base = Map.empty"
  "ims_pending_sandboxes_by_profile example_base = Map.empty" "ims_sandboxes example_base = Map.empty"
  by (simp_all add: example_base_def ims_new_def restore_requests_def)

lemma example_run_fields:
  "run_key example_run = ''ns|app|r1|call''" "run_id example_run = ''call''" "run_status example_run = Pending"
  "run_version example_run = ''1''" "run_namespace example_run = ''ns''" "run_application example_run = ''app''"
  "run_name example_run = ''f''" "run_request_id example_run = ''r1''"
  by (simp_all add: example_run_defs run_key_def)

lemma example_invoked_fields:
  "ims_unallocated_function_runs example_invoked = {''ns|app|r1|call''}"
  "ims_function_runs example_invoked = [''ns|app|r1|call'' \<mapsto> example_run]"
  "ims_application_versions example_invoked = [''ns|app|1'' \<mapsto> example_version]"
  "pend_function_runs (ims_pending_resources example_invoked) = [profile_from_function example_retry_function \<mapsto> 1]"
  "ims_request_ctx example_invoked = [''ns|app|r1'' \<mapsto> example_ctx example_run]"
  "pending_view example_invoked = ({}, Map.empty, Map.empty, Map.empty)" "ims_sandboxes example_invoked = Map.empty"
  by (simp_all add: example_invoked_def update_state_def example_ctx_def example_state_orders_def invoke_run_def
      count_run_def get_function_def get_function_static_def key_application_version_def example_run_fields
      example_base_fields example_version_def hist_increment_def unwrap_or_def default_pending_resources_def
      req_key_def pending_view_def)

lemma example_completion_runs:
  "ims_function_runs (snd (apply_scheduler_update example_state_orders clock (example_completion run) s)) =
     ims_function_runs (apply_function_run (run\<lparr>run_status := Completed\<rparr>) s)"
  "pend_function_runs (ims_pending_resources
       (snd (apply_scheduler_update example_state_orders clock (example_completion run) s))) =
     pend_function_runs (ims_pending_resources (apply_function_run (run\<lparr>run_status := Completed\<rparr>) s))"
  "ims_unallocated_function_runs
       (snd (apply_scheduler_update example_state_orders clock (example_completion run) s)) =
     ims_unallocated_function_runs (apply_function_run (run\<lparr>run_status := Completed\<rparr>) s)"
  by (simp_all add: apply_scheduler_update_def apply_scheduler_update_inner_def example_completion_def
      example_state_orders_def default_update_def updated_function_run_def example_ctx_def apply_request_state_def
      set_deficits_def apply_function_run_def uncount_run_def get_function_def Let_def split: option.split)

lemma hist_of_empty_counted [simp]: "counted_runs F {} = Map.empty"
  by (simp add: counted_runs_def)

lemma example_counts_exact:
  "universe {''ns|app|r1|call''}" "runs_ok {''ns|app|r1|call''} (\<lambda>_. Some example_retry_function) example_invoked"
proof -
  let ?k = "''ns|app|r1|call''" and ?F = "\<lambda>_. Some example_retry_function"
  show U: "universe {?k}" by (simp add: universe_def)
  have "hist_of (counted_runs ?F {?k}) = [profile_from_function example_retry_function \<mapsto> 1]"
    using hist_counted_insert [OF U, of "{}" ?k ?F] by (simp add: hist_increment_def unwrap_or_def)
  moreover have "get_function example_invoked example_run = Some example_retry_function"
    by (simp add: get_function_def get_function_static_def example_invoked_fields key_application_version_def
        example_run_fields example_version_def)
  ultimately show "runs_ok {?k} ?F example_invoked"
    by (auto simp: runs_ok_def example_invoked_fields(1-4) example_run_fields split: if_splits)
qed

theorem pending_resources_exact_witness:
  "let s' = snd (apply_scheduler_update example_state_orders 2 (example_completion example_run) example_invoked)
   in ims_unallocated_function_runs s' = {} \<and> pend_function_runs (ims_pending_resources s') = Map.empty"
proof -
  let ?k = "''ns|app|r1|call''" and ?F = "\<lambda>_. Some example_retry_function"
  let ?u = "example_completion example_run"
  define s' where "s' = snd (apply_scheduler_update example_state_orders 2 ?u example_invoked)"
  have F: "get_function example_invoked (example_run\<lparr>run_status := st\<rparr>) = Some example_retry_function" for st
    by (simp add: get_function_def get_function_static_def example_invoked_fields key_application_version_def
        example_run_fields example_version_def)
  have U: "universe {?k}" "universe {}" by (simp_all add: universe_def)
  note ok = example_counts_exact(2)
  have pend: "pending_ok {} example_invoked" "waiting_ok example_invoked"
    using example_invoked_fields(6,7) by (simp_all add: pending_ok_def waiting_ok_def pending_view_def)
  have "runs_known {?k} ?F example_invoked ?u"
    using F by (auto simp: runs_known_def example_completion_def default_update_def example_ctx_def run_key_def
        example_run_fields split: if_splits)
  moreover have "dom (su_updated_sandboxes ?u) \<subseteq> {}"
    "\<forall>key sandbox. su_updated_sandboxes ?u key = Some sandbox \<longrightarrow> sandbox_known example_invoked key sandbox"
    by (simp_all add: example_completion_def default_update_def)
  moreover have "enumerates (so_sandboxes example_state_orders)"
    by (simp add: example_state_orders_def enumerates_sorted_list_of_set)
  ultimately have exact: "ims_unallocated_function_runs s' =
      {k. \<exists>run. ims_function_runs s' k = Some run \<and> run_status run = Pending}"
    "pend_function_runs (ims_pending_resources s') = hist_of (counted_runs ?F (ims_unallocated_function_runs s'))"
    using pending_resources_exact [OF U ok pend _ _ _ _ s'_def] by blast+
  have "ims_function_runs s' = [?k \<mapsto> example_run\<lparr>run_status := Completed\<rparr>]"
    using apply_function_run_view [OF ok U(1), of "example_run\<lparr>run_status := Completed\<rparr>"] F
    by (simp add: s'_def example_completion_runs runs_view_def Let_def example_invoked_fields run_key_def example_run_fields)
  then have "ims_unallocated_function_runs s' = {}" unfolding exact(1) by (auto split: if_splits)
  with exact(2) show ?thesis unfolding Let_def s'_def [symmetric] by simp
qed

definition example_larger_function :: app_function where
  "example_larger_function = example_retry_function
     \<lparr>fn_resources := default_function_resources\<lparr>fres_memory_mb := 4096\<rparr>\<rparr>"

definition example_upgrade :: create_or_update_application_request where
  "example_upgrade = \<lparr>cua_namespace = ''ns'',
     cua_application = (example_application example_larger_function)\<lparr>app_version := ''2''\<rparr>,
     cua_upgrade_requests_to_current_version = True, cua_container_pools = []\<rparr>"

text \<open>
  C34: upgrading the requests of an application to a version whose function asks for other resources
  leaves a count behind.  Take a state with exact counts, where the run tables of the requests agree
  with the table of runs, and a pending run counted under a profile.  The upgrade sets the
  version of the run; when an update then ends the run, under a function of the new version with another
  profile, the run leaves the unallocated ones, but the histogram still has the old profile with its
  count from before, which is one more than the runs left that were counted under it.
\<close>

theorem upgrade_leaves_stale_profile:
  assumes U: "universe U" "runs_ok U F s" and agree: "requests_agree s"
    and ord: "enumerates (so_requests ord)" "enumerates (so_runs ord)"
    and run: "ims_function_runs s k = Some run" "run_status run = Pending" "F k = Some f"
    and app: "app = cua_application req" "cua_upgrade_requests_to_current_version req"
    and ctx: "ims_request_ctx s rk = Some ctx" "req_function_runs ctx cid = Some run"
      "starts_with (app_key_prefix (cua_namespace req) (app_name app)) rk"
    and ended: "run_key ended = k" "run_namespace ended = app_namespace app" "run_application ended = app_name app"
      "run_version ended = app_version app" "run_status ended \<noteq> Pending"
    and profile: "app_functions app (run_name ended) = Some f'" "profile_from_function f' \<noteq> profile_from_function f"
    and update: "ends_run update rk cid ended"
    and s1: "s1 = create_or_update_application ord req s"
    and s2: "s2 = snd (apply_scheduler_update ord clock update s1)"
  shows "ims_function_runs s1 k = Some (run\<lparr>run_version := app_version app\<rparr>) \<and>
    ims_unallocated_function_runs s2 = ims_unallocated_function_runs s - {k} \<and>
    (\<exists>n. pend_function_runs (ims_pending_resources s2) (profile_from_function f) = Some n \<and>
       pend_function_runs (ims_pending_resources s) (profile_from_function f) = Some n \<and>
       unat n = Suc (card {k' \<in> ims_unallocated_function_runs s2.
         map_option profile_from_function (F k') = Some (profile_from_function f)}))"
proof -
  let ?p = "profile_from_function f" and ?S = "ims_unallocated_function_runs s"
  have stored: "ims_function_runs s1 k = Some (run\<lparr>run_version := app_version app\<rparr>)"
    using upgrade_reaches_run [OF agree ord(2) app(2) ctx(1,2) ctx(3) [unfolded app(1)]] U(2) run(1)
    by (auto simp: s1 app(1) runs_ok_def)
  note kept = create_or_update_application_view [of ord req s, folded s1 app(1), unfolded upgrade_view_def]
  have F': "get_function s1 ended = Some f'"
    using kept ended profile(1)
    by (simp add: get_function_def get_function_static_def key_application_version_def version_key_from_def to_version_def)
  have k: "k \<in> ?S" using U(2) run(1,2) by (auto simp: runs_ok_def)
  have "runs_view s2 = runs_view (apply_function_run ended (s1\<lparr>ims_clock := clock\<rparr>))"
    unfolding s2 using update ord by (rule runs_view_ends_run)
  then have s2': "ims_unallocated_function_runs s2 = ?S - {k}"
    "pend_function_runs (ims_pending_resources s2) ?p = pend_function_runs (ims_pending_resources s) ?p"
    using kept k ended(1,5) uncount_run_other [of _ ended f' ?p] F' profile(2)
    by (simp_all add: runs_view_def apply_function_run_def Let_def get_function_def)
  have "pend_function_runs (ims_pending_resources s) = hist_of (counted_runs F ?S)" using U(2) by (simp add: runs_ok_def)
  with s2' stored show ?thesis
    using hist_counted_member [where F = F, OF U(1) runs_okD(1) [OF U(2)] k run(3)] by auto
qed

theorem upgrade_leaves_stale_profile_witness:
  "let s2 = snd (apply_scheduler_update example_state_orders 3
       (example_completion (example_run\<lparr>run_version := ''2''\<rparr>))
       (create_or_update_application example_state_orders example_upgrade example_invoked))
   in ims_unallocated_function_runs s2 = {} \<and>
      (\<exists>n. pend_function_runs (ims_pending_resources s2) (profile_from_function example_retry_function) = Some n \<and> unat n = 1)"
proof -
  let ?k = "''ns|app|r1|call''" and ?app = "cua_application example_upgrade"
  let ?u = "example_completion (example_run\<lparr>run_version := ''2''\<rparr>)"
  let ?ended = "example_run\<lparr>run_version := ''2'', run_status := Completed\<rparr>"
  have agree: "requests_agree example_invoked"
    by (simp add: requests_agree_def example_invoked_fields example_ctx_def example_run_fields)
  have ord: "enumerates (so_requests example_state_orders)" "enumerates (so_runs example_state_orders)"
    by (simp_all add: example_state_orders_def enumerates_sorted_list_of_set)
  have run: "ims_function_runs example_invoked ?k = Some example_run" "run_status example_run = Pending"
    "ims_request_ctx example_invoked ''ns|app|r1'' = Some (example_ctx example_run)"
    "req_function_runs (example_ctx example_run) ''call'' = Some example_run"
    by (simp_all add: example_invoked_fields example_run_fields) (simp add: example_ctx_def)
  have req: "cua_upgrade_requests_to_current_version example_upgrade"
    "starts_with (app_key_prefix (cua_namespace example_upgrade) (app_name ?app)) ''ns|app|r1''"
    by (simp_all add: example_upgrade_def example_application_def app_key_prefix_def starts_with_def)
  have ended: "run_key ?ended = ?k" "run_namespace ?ended = app_namespace ?app" "run_application ?ended = app_name ?app"
    "run_version ?ended = app_version ?app" "run_status ?ended \<noteq> Pending"
    by (simp_all add: example_upgrade_def example_application_def example_run_fields run_key_def)
  have profile: "app_functions ?app (run_name ?ended) = Some example_larger_function"
    "profile_from_function example_larger_function \<noteq> profile_from_function example_retry_function"
    by (simp_all add: example_upgrade_def example_application_def example_run_fields profile_from_function_def
        example_larger_function_def example_retry_function_def default_function_resources_def Let_def)
  have update: "ends_run ?u ''ns|app|r1'' ''call'' ?ended"
    unfolding ends_run_def
    by (intro conjI exI [of _ "example_ctx ?ended"])
      (simp_all add: example_completion_def default_update_def example_ctx_def)
  note stale = upgrade_leaves_stale_profile [OF example_counts_exact agree ord run(1,2) refl refl req(1) run(3,4) req(2)
      ended profile update refl refl]
  have "ims_unallocated_function_runs example_invoked - {?k} = {}" by (simp add: example_invoked_fields)
  with stale [of 3] show ?thesis unfolding Let_def by auto
qed

end
