(* ===== verification/CallGraph.thy ===== *)
theory CallGraph
  imports InMemoryState SchedulerState
begin

text \<open>
  \<open>FunctionRunCreator\<close> of \<open>crates/server/src/processor/function_run_creator.rs\<close>: how a request's graph
  of function calls grows, when a call becomes a function run, how an output reaches the runs that
  wait for it, and what a finished allocation does to its request.

  SHA-256 and the read of an allocation from the store are arguments.  The walk that hands an output
  to the waiting parents is a loop over a map and may not end; it is a \<open>partial_function\<close> whose value
  is \<open>None\<close> when it does not.
\<close>

section \<open>Choices\<close>

record graph_choices =
  gc_now :: instant
  gc_now_ns :: "function_call_id \<Rightarrow> u128"
  gc_order :: "function_call_id set \<Rightarrow> function_call_id list"
  gc_containers :: "container_id set \<Rightarrow> container_id list"
  gc_executors :: "executor_id set \<Rightarrow> executor_id list"

section \<open>New function calls\<close>

text \<open>\<open>position.to_string()\<close>\<close>

fun decimal :: "nat \<Rightarrow> string" where
  "decimal n = (if n < 10 then [char_of (48 + n)] else decimal (n div 10) @ [char_of (48 + n mod 10)])"

definition reduce_call_id :: "(string \<Rightarrow> string) \<Rightarrow> reduce_operation \<Rightarrow> nat \<Rightarrow> function_call_id" where
  "reduce_call_id sha256 reduce_op position =
     sha256 (red_function_call_id reduce_op @ '':reduce:'' @ decimal position)"

definition create_function_call_from_reduce_op ::
  "(string \<Rightarrow> string) \<Rightarrow> reduce_operation \<Rightarrow> function_args \<Rightarrow> function_args \<Rightarrow> function_call_id option \<Rightarrow> nat \<Rightarrow>
   function_call" where
  "create_function_call_from_reduce_op sha256 reduce_op first_arg second_arg parent position =
     \<lparr>call_function_call_id = reduce_call_id sha256 reduce_op position,
      call_inputs = [first_arg, second_arg],
      call_fn_name = red_fn_name reduce_op,
      call_call_metadata = red_call_metadata reduce_op,
      call_parent_function_call_id = parent\<rparr>"

text \<open>The loop over the rest of the collection; it returns the last call created.\<close>

fun reduce_loop ::
  "(string \<Rightarrow> string) \<Rightarrow> reduce_operation \<Rightarrow> function_args list \<Rightarrow> nat \<Rightarrow> function_call \<Rightarrow>
   scheduler_update_request \<times> request_ctx \<Rightarrow> function_call \<times> scheduler_update_request \<times> request_ctx" where
  "reduce_loop sha256 reduce_op [] position last_call st = (last_call, st)"
| "reduce_loop sha256 reduce_op (arg # args) position last_call (update, ctx) =
     (let call = create_function_call_from_reduce_op sha256 reduce_op
            (FunctionRunOutput (call_function_call_id last_call)) arg None position
      in reduce_loop sha256 reduce_op args (position + 1) call (add_function_call update call ctx))"

definition create_reduce ::
  "(string \<Rightarrow> string) \<Rightarrow> reduce_operation \<Rightarrow> function_args \<Rightarrow> function_args \<Rightarrow> function_args list \<Rightarrow>
   scheduler_update_request \<times> request_ctx \<Rightarrow> scheduler_update_request \<times> request_ctx" where
  "create_reduce sha256 reduce_op first_arg second_arg args st =
     (let (update, ctx) = st;
          last_call = create_function_call_from_reduce_op sha256 reduce_op first_arg second_arg None 0;
          (last_call, update, ctx) =
            reduce_loop sha256 reduce_op args 1 last_call (add_function_call update last_call ctx);
          ctx = ctx\<lparr>req_function_calls := (req_function_calls ctx)(call_function_call_id last_call := None)\<rparr>
      in add_function_call update (last_call\<lparr>call_function_call_id := red_function_call_id reduce_op\<rparr>) ctx)"

text \<open>The first pass adds the plain calls, the second one expands the reduce operations.\<close>

fun add_plain_calls :: "compute_op list \<Rightarrow> scheduler_update_request \<times> request_ctx \<Rightarrow>
    scheduler_update_request \<times> request_ctx" where
  "add_plain_calls [] st = st"
| "add_plain_calls (FunctionCallOp call # ops) (update, ctx) = add_plain_calls ops (add_function_call update call ctx)"
| "add_plain_calls (Reduce _ # ops) st = add_plain_calls ops st"

fun add_reduces :: "(string \<Rightarrow> string) \<Rightarrow> compute_op list \<Rightarrow> scheduler_update_request \<times> request_ctx \<Rightarrow>
    scheduler_update_request \<times> request_ctx" where
  "add_reduces sha256 [] st = st"
| "add_reduces sha256 (FunctionCallOp _ # ops) st = add_reduces sha256 ops st"
| "add_reduces sha256 (Reduce reduce_op # ops) (update, ctx) =
     (case red_collection reduce_op of
        first_arg # second_arg # args \<Rightarrow>
          add_reduces sha256 ops (create_reduce sha256 reduce_op first_arg second_arg args (update, ctx))
      | _ \<Rightarrow> (update, ctx\<lparr>req_outcome := Some (RequestFailure RF_FunctionError)\<rparr>))"

definition create_function_calls ::
  "(string \<Rightarrow> string) \<Rightarrow> request_ctx \<Rightarrow> graph_updates \<Rightarrow> scheduler_update_request \<times> request_ctx" where
  "create_function_calls sha256 ctx update =
     add_reduces sha256 (gu_graph_updates update)
       (add_plain_calls (gu_graph_updates update) (default_update, ctx))"

section \<open>New function runs\<close>

fun collect_inputs :: "request_ctx \<Rightarrow> function_args list \<Rightarrow> input_args list option" where
  "collect_inputs ctx [] = Some []"
| "collect_inputs ctx (DataPayloadArg payload # args) =
     map_option (Cons \<lparr>ia_function_call_id = None, ia_data_payload = payload\<rparr>) (collect_inputs ctx args)"
| "collect_inputs ctx (FunctionRunOutput dep # args) =
     (case req_function_runs ctx dep of
        None \<Rightarrow> None
      | Some run \<Rightarrow>
          (case run_output run of
             Some out \<Rightarrow>
               map_option (Cons \<lparr>ia_function_call_id = Some dep, ia_data_payload = out\<rparr>) (collect_inputs ctx args)
           | None \<Rightarrow> None))"

definition create_run_for_call ::
  "graph_choices \<Rightarrow> application_version \<Rightarrow> function_call_id \<Rightarrow> scheduler_update_request \<times> request_ctx \<Rightarrow>
   scheduler_update_request \<times> request_ctx" where
  "create_run_for_call ch ver cid st =
     (let (update, ctx) = st;
          call = the (req_function_calls ctx cid)
      in case collect_inputs ctx (call_inputs call) of
           None \<Rightarrow> st
         | Some input_args \<Rightarrow>
             add_function_run update (create_function_run ver (gc_now_ns ch cid) call input_args (req_request_id ctx)) ctx)"

definition create_function_runs ::
  "graph_choices \<Rightarrow> request_ctx \<Rightarrow> function_call_id set \<Rightarrow> application_version \<Rightarrow>
   scheduler_update_request \<times> request_ctx" where
  "create_function_runs ch ctx pending ver =
     fold (create_run_for_call ch ver) (gc_order ch pending) (default_update, ctx)"

section \<open>Outputs\<close>

text \<open>The reverse index from a call to the run that waits for it; a later run replaces an earlier one.\<close>

definition link_child ::
  "function_run \<Rightarrow> (function_call_id \<rightharpoonup> function_call_id) \<Rightarrow> function_call_id \<rightharpoonup> function_call_id" where
  "link_child run m =
     (case run_child_function_call run of
        Some child \<Rightarrow> m(child \<mapsto> run_id run)
      | None \<Rightarrow> m)"

definition child_to_parent :: "graph_choices \<Rightarrow> request_ctx \<Rightarrow> function_call_id \<rightharpoonup> function_call_id" where
  "child_to_parent ch ctx =
     fold (\<lambda>cid. link_child (the (req_function_runs ctx cid))) (gc_order ch (dom (req_function_runs ctx))) Map.empty"

partial_function (option) propagate_walk ::
  "(function_call_id \<rightharpoonup> function_call_id) \<Rightarrow> request_ctx_key \<Rightarrow> function_call_id \<Rightarrow> data_payload option \<Rightarrow>
   scheduler_update_request \<times> request_ctx \<Rightarrow> (scheduler_update_request \<times> request_ctx) option" where
  "propagate_walk c2p key current_id current_output st =
     (case c2p current_id of
        None \<Rightarrow> Some st
      | Some parent_id \<Rightarrow>
          (case req_function_runs (snd st) parent_id of
             None \<Rightarrow> Some st
           | Some parent_run \<Rightarrow>
               (let parent_run = parent_run\<lparr>run_output := current_output,
                      run_outcome := Some FunctionRunSuccess, run_status := Completed\<rparr>;
                    update = (fst st)\<lparr>su_updated_function_runs :=
                      idx_insert key (run_id parent_run) (su_updated_function_runs (fst st))\<rparr>;
                    ctx = (snd st)\<lparr>req_function_runs := (req_function_runs (snd st))(parent_id \<mapsto> parent_run)\<rparr>
                in propagate_walk c2p key (run_id parent_run) (run_output parent_run) (update, ctx))))"

definition propagate_output_to_consumers ::
  "graph_choices \<Rightarrow> request_ctx \<Rightarrow> function_run \<Rightarrow> (scheduler_update_request \<times> request_ctx) option" where
  "propagate_output_to_consumers ch ctx run =
     (if run_output run = None then Some (default_update, ctx)
      else propagate_walk (child_to_parent ch ctx) (req_key ctx) (run_id run) (run_output run) (default_update, ctx))"

section \<open>Blocking function calls\<close>

definition handle_blocking_function_call ::
  "(string \<Rightarrow> string) \<Rightarrow> graph_choices \<Rightarrow> in_memory_state \<Rightarrow> function_call_event \<Rightarrow> scheduler_update_request" where
  "handle_blocking_function_call sha256 ch state event =
     (case ims_request_ctx state
         (request_ctx_key_new (fce_namespace event) (fce_application event) (fce_request_id event)) of
        None \<Rightarrow> default_update
      | Some ctx \<Rightarrow>
          if req_outcome ctx \<noteq> None then default_update
          else if req_function_calls ctx (fce_source_function_call_id event) = None then default_update
          else
            (case ims_application_version state (req_namespace ctx) (req_application_name ctx)
                (req_application_version ctx) of
               None \<Rightarrow> default_update
             | Some ver \<Rightarrow>
                 (let (calls, ctx) = create_function_calls sha256 ctx (fce_graph_updates event);
                      update = extend_update default_update calls;
                      (runs, ctx) = create_function_runs ch ctx (pending_function_calls ctx) ver;
                      update = extend_update update runs
                  in add_request_state update ctx)))"

section \<open>Finished allocations\<close>

text \<open>The container gives up the allocation, in place, before the indexes are updated.\<close>

definition finish_on_container ::
  "graph_choices \<Rightarrow> allocation_output_ingested_event \<Rightarrow> container_scheduler \<Rightarrow>
   scheduler_update_request \<times> container_scheduler" where
  "finish_on_container ch event scheduler =
     (let cid = target_container_id (aoe_allocation_target event);
          (update, scheduler) =
            (case cs_function_containers scheduler cid of
               Some fc \<Rightarrow>
                 (let fc = fc\<lparr>csm_allocations := csm_allocations fc - {aoe_allocation_id event}\<rparr>;
                      fc = (if csm_allocations fc = {} then fc\<lparr>csm_idle_since := Some (gc_now ch)\<rparr> else fc)
                  in (default_update\<lparr>su_containers := [cid \<mapsto> fc]\<rparr>,
                      scheduler\<lparr>cs_function_containers := (cs_function_containers scheduler)(cid \<mapsto> fc)\<rparr>))
             | None \<Rightarrow> (default_update, scheduler))
      in (update, apply_container_update (gc_containers ch) (gc_executors ch) update scheduler))"

definition cancel_run ::
  "function_run \<Rightarrow> scheduler_update_request \<times> request_ctx \<Rightarrow> scheduler_update_request \<times> request_ctx" where
  "cancel_run run st =
     (if run_status run \<noteq> Completed
      then add_function_run (fst st) (run\<lparr>run_status := Completed,
             run_outcome := Some (FunctionRunFailure FR_FunctionRunCancelled)\<rparr>) (snd st)
      else st)"

text \<open>The failure of an allocation that is not retried fails the request and cancels its other runs.\<close>

definition fail_request ::
  "graph_choices \<Rightarrow> allocation_output_ingested_event \<Rightarrow> function_run \<Rightarrow> function_run_failure_reason \<Rightarrow>
   function_run_outcome \<Rightarrow> scheduler_update_request \<times> request_ctx \<Rightarrow> scheduler_update_request" where
  "fail_request ch event run reason outcome st =
     (let (update, ctx) = st;
          run = run\<lparr>run_status := Completed, run_outcome := Some outcome\<rparr>;
          (run, ctx) = (case aoe_request_exception event of
             Some payload \<Rightarrow>
               (run\<lparr>run_request_error := Some payload\<rparr>,
                ctx\<lparr>req_request_error := Some \<lparr>rerr_function_name = run_name run, rerr_payload = payload\<rparr>\<rparr>)
           | None \<Rightarrow> (run, ctx));
          ctx = ctx\<lparr>req_outcome := Some (RequestFailure (request_failure_reason_from reason))\<rparr>;
          (update, ctx) = add_function_run update run ctx;
          (update, ctx) = fold (\<lambda>cid. cancel_run (the (req_function_runs ctx cid)))
             (gc_order ch (dom (req_function_runs ctx))) (update, ctx)
      in add_request_state update ctx)"

definition continue_request ::
  "(string \<Rightarrow> string) \<Rightarrow> graph_choices \<Rightarrow> application_version \<Rightarrow> graph_updates option \<Rightarrow>
   scheduler_update_request \<times> request_ctx \<Rightarrow> scheduler_update_request" where
  "continue_request sha256 ch ver graph_updates st =
     (let (update, ctx) = st;
          (update, ctx) = (case graph_updates of
             Some gu \<Rightarrow> (let (calls, ctx) = create_function_calls sha256 ctx gu in (extend_update update calls, ctx))
           | None \<Rightarrow> (update, ctx))
      in if is_request_completed ctx
         then add_request_state update (ctx\<lparr>req_outcome := Some RequestSuccess\<rparr>)
         else
           (let (runs, ctx) = create_function_runs ch ctx (pending_function_calls ctx) ver
            in add_request_state (extend_update update runs) ctx))"

text \<open>The part of the handler after the allocation is known to be the one the run is executing.\<close>

definition ingest_allocation ::
  "(string \<Rightarrow> string) \<Rightarrow> graph_choices \<Rightarrow> in_memory_state \<Rightarrow> allocation_output_ingested_event \<Rightarrow> allocation \<Rightarrow>
   function_run \<Rightarrow> scheduler_update_request \<times> request_ctx \<Rightarrow> scheduler_update_request option" where
  "ingest_allocation sha256 ch state event allocation run st =
     (let (update, ctx) = st;
          update = update\<lparr>su_updated_allocations := su_updated_allocations update @ [allocation]\<rparr>;
          run = run\<lparr>run_output := aoe_data_payload event\<rparr>;
          run = (case aoe_graph_updates event of
             Some gu \<Rightarrow> run\<lparr>run_child_function_call := Some (gu_output_function_call_id gu)\<rparr> | None \<Rightarrow> run);
          (update, ctx) = add_function_run update run ctx
      in case propagate_output_to_consumers ch ctx run of
           None \<Rightarrow> None
         | Some (propagated, ctx) \<Rightarrow>
             (let update = extend_update update propagated in
              case get_existing_application_version state run of
                None \<Rightarrow> Some (add_request_state update ctx)
              | Some ver \<Rightarrow>
                  (let run = handle_allocation_outcome run allocation ver;
                       run = (if run_child_function_call run \<noteq> None \<and> run_output run = None
                              then run\<lparr>run_outcome := None\<rparr> else run);
                       (update, ctx) = add_function_run update run ctx;
                       update = add_request_state update ctx
                   in if run_status run = Pending then Some update
                      else case al_outcome allocation of
                             FunctionRunFailure reason \<Rightarrow>
                               Some (fail_request ch event run reason (al_outcome allocation) (update, ctx))
                           | _ \<Rightarrow> Some (continue_request sha256 ch ver (aoe_graph_updates event) (update, ctx)))))"

definition handle_allocation_ingestion ::
  "(string \<Rightarrow> string) \<Rightarrow> (string \<Rightarrow> string + allocation option) \<Rightarrow> graph_choices \<Rightarrow> in_memory_state \<Rightarrow>
   allocation_output_ingested_event \<Rightarrow> container_scheduler \<Rightarrow>
   ((string + scheduler_update_request) \<times> container_scheduler) option" where
  "handle_allocation_ingestion sha256 get_allocation ch state event scheduler =
     (let (update, scheduler) = finish_on_container ch event scheduler;
          unchanged = Some (Ok update, scheduler)
      in case ims_request_ctx state
             (request_ctx_key_new (aoe_namespace event) (aoe_application event) (aoe_request_id event)) of
           None \<Rightarrow> unchanged
         | Some ctx \<Rightarrow>
             if req_outcome ctx \<noteq> None then unchanged
             else case req_function_runs ctx (aoe_function_call_id event) of
                    None \<Rightarrow> unchanged
                  | Some run \<Rightarrow>
                      (case get_allocation (aoe_namespace event @ ''|'' @ aoe_application event @ ''|'' @
                              aoe_request_id event @ ''|'' @ aoe_allocation_id event) of
                         Inl e \<Rightarrow> Some (Err e, scheduler)
                       | Inr None \<Rightarrow> unchanged
                       | Inr (Some allocation) \<Rightarrow>
                           if allocation_is_terminal allocation then unchanged
                           else
                             (let allocation = allocation\<lparr>al_outcome := aoe_allocation_outcome event,
                                    al_execution_duration_ms := aoe_execution_duration_ms event\<rparr>
                              in if run_status run \<noteq> Running (al_id allocation) then unchanged
                                 else map_option (\<lambda>update. (Ok update, scheduler))
                                        (ingest_allocation sha256 ch state event allocation run (update, ctx)))))"

section \<open>Reduce operations\<close>

text \<open>
  What a call graph computes: an argument is a payload or the output of a call, and the output of a
  call is its function applied to the values of its inputs.
\<close>

inductive computes ::
  "(function_call_id \<rightharpoonup> function_call) \<Rightarrow> (string \<Rightarrow> data_payload list \<Rightarrow> data_payload) \<Rightarrow>
   function_args \<Rightarrow> data_payload \<Rightarrow> bool" for calls f where
  payload: "computes calls f (DataPayloadArg d) d"
| call: "calls cid = Some call \<Longrightarrow> list_all2 (computes calls f) (call_inputs call) vs \<Longrightarrow>
    computes calls f (FunctionRunOutput cid) (f (call_fn_name call) vs)"

inductive_cases computes_payloadE: "computes calls f (DataPayloadArg d) v"
inductive_cases computes_callE: "computes calls f (FunctionRunOutput cid) v"

text \<open>The \<open>i\<close>th call of the chain for the collection \<open>a # args\<close>.\<close>

definition chain_call ::
  "(string \<Rightarrow> string) \<Rightarrow> reduce_operation \<Rightarrow> function_args \<Rightarrow> function_args list \<Rightarrow> nat \<Rightarrow> function_call" where
  "chain_call sha256 op a args i =
     create_function_call_from_reduce_op sha256 op
       (if i = 0 then a else FunctionRunOutput (reduce_call_id sha256 op (i - 1))) (args ! i) None i"

lemma chain_call_fields [simp]:
  "call_function_call_id (chain_call sha256 op a args i) = reduce_call_id sha256 op i"
  "call_fn_name (chain_call sha256 op a args i) = red_fn_name op"
  "call_inputs (chain_call sha256 op a args i) =
     [if i = 0 then a else FunctionRunOutput (reduce_call_id sha256 op (i - 1)), args ! i]"
  by (simp_all add: chain_call_def create_function_call_from_reduce_op_def)

definition chain_calls where
  "chain_calls sha256 op a args p n calls =
     fold (\<lambda>i m. m(reduce_call_id sha256 op i \<mapsto> chain_call sha256 op a args i)) [p..<n] calls"

lemma chain_calls_step:
  "p < n \<Longrightarrow> chain_calls sha256 op a args p n calls =
     chain_calls sha256 op a args (Suc p) n (calls(reduce_call_id sha256 op p \<mapsto> chain_call sha256 op a args p))"
  by (simp add: chain_calls_def upt_conv_Cons del: upt_Suc)

lemma add_function_call_calls [simp]:
  "req_function_calls (snd (add_function_call update call ctx)) =
     (req_function_calls ctx)(call_function_call_id call \<mapsto> call)"
  "req_function_runs (snd (add_function_call update call ctx)) = req_function_runs ctx"
  "req_outcome (snd (add_function_call update call ctx)) = req_outcome ctx"
  "req_key (snd (add_function_call update call ctx)) = req_key ctx"
  by (simp_all add: add_function_call_def Let_def req_key_def)

lemma reduce_loop_chain:
  assumes "p + length rest = length args" "drop p args = rest" "0 < p"
    and "last_call = chain_call sha256 op a args (p - 1)"
    and "reduce_loop sha256 op rest p last_call st = (last', st')"
  shows "last' = chain_call sha256 op a args (length args - 1) \<and>
    req_function_calls (snd st') = chain_calls sha256 op a args p (length args) (req_function_calls (snd st)) \<and>
    req_function_runs (snd st') = req_function_runs (snd st) \<and> req_outcome (snd st') = req_outcome (snd st)"
  using assms
proof (induction rest arbitrary: p last_call st)
  case Nil
  then have "p = length args" by simp
  with Nil show ?case by (simp add: chain_calls_def)
next
  case (Cons arg rest)
  obtain update ctx where st: "st = (update, ctx)" by fastforce
  let ?call = "chain_call sha256 op a args p"
  have p: "p < length args" "args ! p = arg" using Cons.prems(1,2) by (auto simp: nth_via_drop)
  have "call_function_call_id last_call = reduce_call_id sha256 op (p - 1)" using Cons.prems(4) by simp
  then have call: "create_function_call_from_reduce_op sha256 op
      (FunctionRunOutput (call_function_call_id last_call)) arg None p = ?call"
    unfolding chain_call_def using Cons.prems(3) p(2) by simp
  have rest: "drop (p + 1) args = rest" using Cons.prems(2) by (metis Suc_eq_plus1 drop_Suc tl_drop list.sel(3))
  have "reduce_loop sha256 op rest (p + 1) ?call (add_function_call update ?call ctx) = (last', st')"
    using Cons.prems(5) by (simp add: st call Let_def)
  from Cons.IH [OF _ rest _ _ this] Cons.prems(1) show ?case
    using p(1) by (simp add: st chain_calls_step [OF p(1)] fun_upd_def)
qed

lemma chain_calls_apply:
  assumes "inj_on (reduce_call_id sha256 op) {..<n}"
  shows "(\<forall>i < n. chain_calls sha256 op a args 0 n calls (reduce_call_id sha256 op i) = Some (chain_call sha256 op a args i)) \<and>
    (\<forall>k. k \<notin> reduce_call_id sha256 op ` {..<n} \<longrightarrow> chain_calls sha256 op a args 0 n calls k = calls k)"
  using assms
proof (induction n)
  case (Suc n)
  have "inj_on (reduce_call_id sha256 op) {..<n}" using inj_on_subset [OF Suc.prems, of "{..<n}"] by auto
  note IH = Suc.IH [OF this]
  have "reduce_call_id sha256 op i = reduce_call_id sha256 op n \<longleftrightarrow> i = n" if "i \<le> n" for i
    using inj_onD [OF Suc.prems, of i n] that by auto
  with IH show ?case by (auto simp: chain_calls_def lessThan_Suc less_Suc_eq)
qed (simp add: chain_calls_def)

text \<open>The calls of a request after one reduce operation over \<open>a # args\<close>.\<close>

lemma create_reduce_calls:
  fixes sha256 :: "string \<Rightarrow> string" and op :: reduce_operation and args :: "function_args list"
  defines "h \<equiv> reduce_call_id sha256 op" and "n \<equiv> length args"
  assumes inj: "inj_on h {..<n}" and op: "red_function_call_id op \<notin> h ` {..<n}" and args: "args = b # rest"
  shows "req_function_calls (snd (create_reduce sha256 op a b rest (update, ctx))) =
    (\<lambda>k. if k = red_function_call_id op
         then Some ((chain_call sha256 op a args (n - 1))\<lparr>call_function_call_id := red_function_call_id op\<rparr>)
         else if k = h (n - 1) then None
         else chain_calls sha256 op a args 0 n (req_function_calls ctx) k)" (is "?A = ?B")
    and "req_function_runs (snd (create_reduce sha256 op a b rest (update, ctx))) = req_function_runs ctx"
    and "req_outcome (snd (create_reduce sha256 op a b rest (update, ctx))) = req_outcome ctx"
proof -
  let ?first = "create_function_call_from_reduce_op sha256 op a b None 0"
  have first: "?first = chain_call sha256 op a args 0" by (simp add: chain_call_def args)
  obtain last' update' ctx' where loop: "reduce_loop sha256 op rest 1 ?first (add_function_call update ?first ctx) =
      (last', update', ctx')" by (metis prod_cases3)
  have L: "last' = chain_call sha256 op a args (n - 1)" "req_function_runs ctx' = req_function_runs ctx"
    "req_outcome ctx' = req_outcome ctx"
    "req_function_calls ctx' = chain_calls sha256 op a args 1 n ((req_function_calls ctx)(h 0 \<mapsto> ?first))"
    using reduce_loop_chain [of 1 rest args ?first sha256 op a, OF _ _ _ _ loop] first
    by (simp_all add: args n_def h_def)
  have "chain_calls sha256 op a args 0 n calls = chain_calls sha256 op a args 1 n (calls(h 0 \<mapsto> ?first))" for calls
    using chain_calls_step [of 0 n] by (simp add: n_def args h_def first)
  with L(4) have C: "req_function_calls ctx' = chain_calls sha256 op a args 0 n (req_function_calls ctx)" by simp
  have create: "create_reduce sha256 op a b rest (update, ctx) = add_function_call update'
      (last'\<lparr>call_function_call_id := red_function_call_id op\<rparr>)
      (ctx'\<lparr>req_function_calls := (req_function_calls ctx')(call_function_call_id last' := None)\<rparr>)"
    using loop by (simp add: create_reduce_def Let_def)
  show "?A = ?B" unfolding create by (auto simp: C L(1) h_def fun_eq_iff)
  show "req_function_runs (snd (create_reduce sha256 op a b rest (update, ctx))) = req_function_runs ctx"
    "req_outcome (snd (create_reduce sha256 op a b rest (update, ctx))) = req_outcome ctx"
    unfolding create by (simp_all add: L(2,3))
qed

text \<open>The decimal numerals of the positions are distinct, so the hashed strings are.\<close>

fun from_decimal :: "string \<Rightarrow> nat" where
  "from_decimal s = foldl (\<lambda>n c. 10 * n + (of_char c - 48)) 0 s"

lemma from_decimal: "from_decimal (decimal n) = n"
proof (induction n rule: decimal.induct)
  case (1 n)
  then show ?case by (subst decimal.simps) (auto simp: of_char_of)
qed

lemma decimal_inject: "decimal m = decimal n \<longleftrightarrow> m = n"
  using from_decimal by metis

lemma reduce_call_id_inj:
  assumes "inj_on sha256 {red_function_call_id op @ '':reduce:'' @ decimal i |i. i < n}"
  shows "inj_on (reduce_call_id sha256 op) {..<n}"
  by (rule inj_onI) (use inj_onD [OF assms] in \<open>fastforce simp: reduce_call_id_def decimal_inject simp del: decimal.simps\<close>)

text \<open>Each call of the chain computes the fold of what comes before it.\<close>

lemma chain_computes:
  assumes calls: "\<forall>j \<le> i. calls (h j) = Some (chain_call sha256 op a args j)" and h: "h = reduce_call_id sha256 op"
    and a: "computes calls f a x" and args: "list_all2 (computes calls f) args ys" and i: "i < length args"
  shows "computes calls f (FunctionRunOutput (h i)) (foldl (\<lambda>acc v. f (red_fn_name op) [acc, v]) x (take (Suc i) ys))"
  using calls i
proof (induction i)
  case 0
  have "length ys = length args" using args by (simp add: list_all2_lengthD)
  moreover have "computes calls f (args ! 0) (ys ! 0)" using list_all2_nthD [OF args] 0 by blast
  ultimately show ?case
    using computes.call [of calls "h 0" "chain_call sha256 op a args 0" f "[x, ys ! 0]"] a 0
    by (cases ys) simp_all
next
  case (Suc i)
  have len: "length ys = length args" using args by (simp add: list_all2_lengthD)
  have "computes calls f (args ! Suc i) (ys ! Suc i)" using list_all2_nthD [OF args Suc.prems(2)] .
  with computes.call [of calls "h (Suc i)" "chain_call sha256 op a args (Suc i)" f
      "[foldl (\<lambda>acc v. f (red_fn_name op) [acc, v]) x (take (Suc i) ys), ys ! Suc i]"] Suc
  have "computes calls f (FunctionRunOutput (h (Suc i)))
      (f (red_fn_name op) [foldl (\<lambda>acc v. f (red_fn_name op) [acc, v]) x (take (Suc i) ys), ys ! Suc i])"
    by (simp add: h)
  moreover have "take (Suc (Suc i)) ys = take (Suc i) ys @ [ys ! Suc i]"
    using Suc.prems(2) len by (simp add: take_Suc_conv_app_nth)
  ultimately show ?case by simp
qed

section \<open>Properties\<close>

text \<open>
  C11: a reduce operation computes the left fold of its collection.  The calls created for
  \<open>a, b, c, ..\<close> form a chain of binary calls ending in the call with the id of the operation, whose
  output is \<open>f (.. (f (f a b) c) ..)\<close>, whatever the arguments are, payloads or outputs of other calls.
  The ids of the chain are SHA-256 hashes, assumed not to collide on the few strings hashed.
\<close>

theorem reduce_is_left_fold:
  assumes inj: "inj_on sha256 {red_function_call_id op @ '':reduce:'' @ decimal i |i. i < Suc (length rest)}"
    and fresh: "\<forall>i < Suc (length rest). red_function_call_id op \<noteq> reduce_call_id sha256 op i"
    and calls: "calls = req_function_calls (snd (create_reduce sha256 op a b rest (update, ctx)))"
    and vals: "computes calls f a x" "computes calls f b y" "list_all2 (computes calls f) rest ys"
  shows "computes calls f (FunctionRunOutput (red_function_call_id op))
    (foldl (\<lambda>acc v. f (red_fn_name op) [acc, v]) (f (red_fn_name op) [x, y]) ys)"
proof -
  let ?args = "b # rest" and ?h = "reduce_call_id sha256 op"
  let ?n = "length ?args"
  have inj': "inj_on ?h {..<?n}" using reduce_call_id_inj [OF inj] by simp
  have op: "red_function_call_id op \<notin> ?h ` {..<?n}" using fresh by auto
  note C = create_reduce_calls(1) [OF inj' op refl, of a update ctx, folded calls]
  note chain = chain_calls_apply [OF inj', of a ?args "req_function_calls ctx"]
  have below: "calls (?h j) = Some (chain_call sha256 op a ?args j)" if "j < ?n - 1" for j
  proof -
    have "?h j \<noteq> ?h (?n - 1)" using inj_onD [OF inj', of j "?n - 1"] that by auto
    moreover have "?h j \<noteq> red_function_call_id op" using fresh [rule_format, of j] that by simp
    ultimately show ?thesis using chain that by (simp add: C)
  qed
  let ?last = "(chain_call sha256 op a ?args (?n - 1))\<lparr>call_function_call_id := red_function_call_id op\<rparr>"
  have last: "calls (red_function_call_id op) = Some ?last" by (simp add: C)
  have args: "list_all2 (computes calls f) ?args (y # ys)" using vals(2,3) by simp
  have len: "length ys = length rest" using list_all2_lengthD [OF vals(3)] by simp
  show ?thesis
  proof (cases rest rule: rev_cases)
    case Nil
    with last len vals show ?thesis using computes.call [of calls "red_function_call_id op" ?last f "[x, y]"] by simp
  next
    case (snoc rest' c)
    let ?i = "length rest'"
    have "computes calls f (FunctionRunOutput (?h ?i))
        (foldl (\<lambda>acc v. f (red_fn_name op) [acc, v]) x (take (Suc ?i) (y # ys)))"
      by (rule chain_computes [OF _ refl vals(1) args]) (use below snoc in auto)
    moreover obtain ys' z where ys: "ys = ys' @ [z]" "length ys' = ?i"
      using len snoc by (cases ys rule: rev_cases) auto
    moreover have "computes calls f c z" using vals(3) snoc ys by (simp add: list_all2_append)
    ultimately show ?thesis
      using computes.call [of calls "red_function_call_id op" ?last f
          "[foldl (\<lambda>acc v. f (red_fn_name op) [acc, v]) x (y # ys'), z]"] last snoc
      by (simp add: nth_append)
  qed
qed

definition example_payload :: "string \<Rightarrow> u64 \<Rightarrow> data_payload" where
  "example_payload name bytes =
     \<lparr>pay_id = name, pay_path = name, pay_metadata_size = 0, pay_offset = 0, pay_size = bytes,
      pay_sha256_hash = [], pay_encoding = []\<rparr>"

definition example_reduce :: reduce_operation where
  "example_reduce = \<lparr>red_function_call_id = ''op'', red_collection = map (DataPayloadArg \<circ> example_payload ''p'') [1, 2, 3],
     red_fn_name = ''add'', red_call_metadata = []\<rparr>"

definition example_add :: "string \<Rightarrow> data_payload list \<Rightarrow> data_payload" where
  "example_add name vs = example_payload ''p'' (sum_list (map pay_size vs))"

theorem reduce_is_left_fold_witness:
  "\<exists>calls. calls = req_function_calls (snd (create_reduce (Cons CHR ''#'') example_reduce
       (DataPayloadArg (example_payload ''p'' 1)) (DataPayloadArg (example_payload ''p'' 2))
       [DataPayloadArg (example_payload ''p'' 3)] (default_update, example_ctx example_run))) \<and>
     computes calls example_add (FunctionRunOutput ''op'') (example_payload ''p'' 6)"
proof -
  let ?P = "\<lambda>n. DataPayloadArg (example_payload ''p'' n)"
  let ?calls = "req_function_calls (snd (create_reduce (Cons CHR ''#'') example_reduce (?P 1) (?P 2) [?P 3]
      (default_update, example_ctx example_run)))"
  have "computes ?calls example_add (FunctionRunOutput (red_function_call_id example_reduce))
      (foldl (\<lambda>acc v. example_add (red_fn_name example_reduce) [acc, v])
        (example_add (red_fn_name example_reduce) [example_payload ''p'' 1, example_payload ''p'' 2])
        [example_payload ''p'' 3])"
    by (rule reduce_is_left_fold [OF _ _ refl]) (auto simp: example_reduce_def reduce_call_id_def intro: computes.payload)
  moreover have "foldl (\<lambda>acc v. example_add (red_fn_name example_reduce) [acc, v])
        (example_add (red_fn_name example_reduce) [example_payload ''p'' 1, example_payload ''p'' 2])
        [example_payload ''p'' 3] = example_payload ''p'' 6"
    by (simp add: example_add_def example_payload_def)
  moreover have "red_function_call_id example_reduce = ''op''" by (simp add: example_reduce_def)
  ultimately show ?thesis by auto
qed

section \<open>Creating runs\<close>

text \<open>A run without output adds nothing to what can be collected.\<close>

lemma collect_inputs_outputs:
  assumes "\<forall>cid. Option.bind (runs cid) run_output = Option.bind (req_function_runs ctx cid) run_output"
  shows "collect_inputs (ctx\<lparr>req_function_runs := runs\<rparr>) args = collect_inputs ctx args"
  using assms
proof (induction ctx args rule: collect_inputs.induct)
  case (3 ctx dep args)
  have "Option.bind (runs dep) run_output = Option.bind (req_function_runs ctx dep) run_output" using 3 by blast
  then show ?case using 3 by (cases "runs dep"; cases "req_function_runs ctx dep") (auto split: option.splits)
qed simp_all

text \<open>What the loop has done after the calls \<open>cids\<close>.\<close>

definition runs_created ::
  "graph_choices \<Rightarrow> application_version \<Rightarrow> request_ctx \<Rightarrow> function_call_id \<Rightarrow> function_run option" where
  "runs_created ch ver ctx cid =
     (let call = the (req_function_calls ctx cid)
      in map_option (\<lambda>args. create_function_run ver (gc_now_ns ch cid) call args (req_request_id ctx))
           (collect_inputs ctx (call_inputs call)))"

definition keyed_calls :: "request_ctx \<Rightarrow> bool" where
  "keyed_calls ctx \<longleftrightarrow> (\<forall>cid call. req_function_calls ctx cid = Some call \<longrightarrow> call_function_call_id call = cid)"

lemma create_function_run_fields:
  "run_id (create_function_run ver now call args rid) = call_function_call_id call"
  "run_output (create_function_run ver now call args rid) = None"
  "run_status (create_function_run ver now call args rid) = Pending"
  "run_child_function_call (create_function_run ver now call args rid) = None"
  by (simp_all add: create_function_run_def)

lemma fold_create_runs:
  assumes "distinct cids" "set cids \<subseteq> pending_function_calls ctx" "keyed_calls ctx"
  shows "snd (fold (create_run_for_call ch ver) cids (update, ctx)) =
    ctx\<lparr>req_function_runs := (\<lambda>cid. if cid \<in> set cids then runs_created ch ver ctx cid else req_function_runs ctx cid)\<rparr>"
  using assms
proof (induction cids rule: rev_induct)
  case (snoc cid cids)
  let ?R = "\<lambda>cids. \<lambda>cid. if cid \<in> set cids then runs_created ch ver ctx cid else req_function_runs ctx cid"
  obtain update' ctx' where 1: "fold (create_run_for_call ch ver) cids (update, ctx) = (update', ctx')" by fastforce
  then have ctx': "ctx' = ctx\<lparr>req_function_runs := ?R cids\<rparr>" using snoc by simp
  have cid: "cid \<notin> set cids" "req_function_runs ctx cid = None" "cid \<in> dom (req_function_calls ctx)"
    using snoc.prems by (auto simp: pending_function_calls_def)
  have "req_function_runs ctx c = None" if "c \<in> set cids" for c
    using snoc.prems(2) that by (auto simp: pending_function_calls_def)
  then have "\<forall>c. Option.bind (?R cids c) run_output = Option.bind (req_function_runs ctx c) run_output"
    by (auto simp: runs_created_def Let_def create_function_run_fields map_option_case split: option.splits)
  then have inputs: "collect_inputs ctx' args = collect_inputs ctx args" for args
    unfolding ctx' by (rule collect_inputs_outputs)
  have id: "call_function_call_id (the (req_function_calls ctx cid)) = cid"
    using cid(3) snoc.prems(3) by (auto simp: keyed_calls_def)
  have "snd (create_run_for_call ch ver cid (update', ctx')) = ctx\<lparr>req_function_runs := ?R (cids @ [cid])\<rparr>"
  proof (cases "collect_inputs ctx (call_inputs (the (req_function_calls ctx cid)))")
    case None
    then have "?R (cids @ [cid]) = ?R cids" using cid by (auto simp: fun_eq_iff runs_created_def)
    with None show ?thesis by (simp add: create_run_for_call_def inputs) (simp add: ctx')
  next
    case (Some args)
    then have "?R (cids @ [cid]) = (?R cids)(cid \<mapsto>
        create_function_run ver (gc_now_ns ch cid) (the (req_function_calls ctx cid)) args (req_request_id ctx))"
      using cid by (auto simp: fun_eq_iff runs_created_def)
    moreover have "snd (create_run_for_call ch ver cid (update', ctx')) = ctx'\<lparr>req_function_runs := (?R cids)(cid \<mapsto>
        create_function_run ver (gc_now_ns ch cid) (the (req_function_calls ctx cid)) args (req_request_id ctx))\<rparr>"
      using Some inputs
      by (simp add: create_run_for_call_def ctx' add_function_run_def Let_def create_function_run_fields id)
    ultimately show ?thesis by (simp add: ctx')
  qed
  then show ?case by (simp add: 1)
qed simp

definition output_available :: "request_ctx \<Rightarrow> function_args \<Rightarrow> bool" where
  "output_available ctx arg \<longleftrightarrow>
     (case arg of
        DataPayloadArg _ \<Rightarrow> True
      | FunctionRunOutput dep \<Rightarrow> \<exists>run out. req_function_runs ctx dep = Some run \<and> run_output run = Some out)"

lemma collect_inputs_iff: "collect_inputs ctx args \<noteq> None \<longleftrightarrow> (\<forall>arg \<in> set args. output_available ctx arg)"
proof (induction ctx args rule: collect_inputs.induct)
  case (3 ctx dep args)
  show ?case
  proof (cases "\<exists>run out. req_function_runs ctx dep = Some run \<and> run_output run = Some out")
    case True
    then obtain run out where "req_function_runs ctx dep = Some run" "run_output run = Some out" by blast
    with 3 show ?thesis by (simp add: output_available_def)
  next
    case False
    then have "\<not> output_available ctx (FunctionRunOutput dep)" by (simp add: output_available_def)
    moreover have "collect_inputs ctx (FunctionRunOutput dep # args) = None"
      using False by (cases "req_function_runs ctx dep") (auto split: option.split)
    ultimately show ?thesis by simp
  qed
qed (simp_all add: output_available_def)

text \<open>
  C12: a call becomes a run exactly when its inputs are there, whatever the order in which the pending
  calls are visited.  Among the calls that have no run yet, those whose inputs are all payloads or
  outputs of runs that have one get a new pending run, with those inputs; the others get none; every
  run there was is kept, and the calls do not change.
\<close>

theorem create_function_runs_exact:
  assumes "enumerates (gc_order ch)" "finite (dom (req_function_calls ctx))" "keyed_calls ctx"
    and ctx': "ctx' = snd (create_function_runs ch ctx (pending_function_calls ctx) ver)"
  shows "req_function_calls ctx' = req_function_calls ctx \<and>
    (\<forall>cid run. req_function_runs ctx cid = Some run \<longrightarrow> req_function_runs ctx' cid = Some run) \<and>
    (\<forall>cid call. req_function_calls ctx cid = Some call \<longrightarrow> req_function_runs ctx cid = None \<longrightarrow>
       (if \<forall>arg \<in> set (call_inputs call). output_available ctx arg
        then \<exists>args. collect_inputs ctx (call_inputs call) = Some args \<and> req_function_runs ctx' cid =
               Some (create_function_run ver (gc_now_ns ch cid) call args (req_request_id ctx))
        else req_function_runs ctx' cid = None)) \<and>
    (\<forall>cid. req_function_calls ctx cid = None \<longrightarrow> req_function_runs ctx' cid = req_function_runs ctx cid)"
proof -
  let ?pending = "pending_function_calls ctx"
  have "finite ?pending" using assms(2) by (simp add: pending_function_calls_def)
  then have ord: "distinct (gc_order ch ?pending)" "set (gc_order ch ?pending) = ?pending"
    using enumeratesD [OF assms(1)] by simp_all
  have eq: "ctx' = ctx\<lparr>req_function_runs := (\<lambda>cid. if cid \<in> ?pending then runs_created ch ver ctx cid
      else req_function_runs ctx cid)\<rparr>"
    unfolding ctx' create_function_runs_def using fold_create_runs [OF ord(1) _ assms(3)] ord(2) by simp
  have "if \<forall>arg \<in> set (call_inputs call). output_available ctx arg
      then \<exists>args. collect_inputs ctx (call_inputs call) = Some args \<and> req_function_runs ctx' cid =
             Some (create_function_run ver (gc_now_ns ch cid) call args (req_request_id ctx))
      else req_function_runs ctx' cid = None"
    if "req_function_calls ctx cid = Some call" "req_function_runs ctx cid = None" for cid call
    using that collect_inputs_iff [of ctx "call_inputs call"]
    by (auto simp: eq pending_function_calls_def runs_created_def domIff)
  moreover have "req_function_calls ctx' = req_function_calls ctx"
    "req_function_runs ctx cid = Some run \<Longrightarrow> req_function_runs ctx' cid = Some run"
    "req_function_calls ctx cid = None \<Longrightarrow> req_function_runs ctx' cid = req_function_runs ctx cid" for cid run
    by (auto simp: eq pending_function_calls_def)
  ultimately show ?thesis by blast
qed

text \<open>A request with three calls: one has its input, one waits for it, one waits for a finished run.\<close>

definition example_call :: "string \<Rightarrow> function_args list \<Rightarrow> function_call" where
  "example_call cid args = \<lparr>call_function_call_id = cid, call_inputs = args, call_fn_name = ''f'',
     call_call_metadata = [], call_parent_function_call_id = None\<rparr>"

definition example_graph :: request_ctx where
  "example_graph = (example_ctx (example_run\<lparr>run_output := Some (example_payload ''p'' 1)\<rparr>))
     \<lparr>req_function_calls := [''a'' \<mapsto> example_call ''a'' [FunctionRunOutput ''call''],
        ''b'' \<mapsto> example_call ''b'' [FunctionRunOutput ''a'']]\<rparr>"

definition example_graph_choices :: graph_choices where
  "example_graph_choices = \<lparr>gc_now = 7, gc_now_ns = (\<lambda>_. 7), gc_order = sorted_list_of_set,
     gc_containers = sorted_list_of_set, gc_executors = sorted_list_of_set\<rparr>"

theorem create_function_runs_exact_witness:
  "let ctx' = snd (create_function_runs example_graph_choices example_graph
        (pending_function_calls example_graph) example_version)
   in map_option run_status (req_function_runs ctx' ''a'') = Some Pending \<and> req_function_runs ctx' ''b'' = None"
proof -
  let ?ctx' = "snd (create_function_runs example_graph_choices example_graph
      (pending_function_calls example_graph) example_version)"
  have "enumerates (gc_order example_graph_choices)" "finite (dom (req_function_calls example_graph))"
    "keyed_calls example_graph"
    by (auto simp: example_graph_choices_def enumerates_sorted_list_of_set example_graph_def keyed_calls_def
        example_call_def split: if_splits)
  note new = create_function_runs_exact [OF this refl, of example_version,
      THEN conjunct2, THEN conjunct2, THEN conjunct1, rule_format]
  have calls: "req_function_calls example_graph ''a'' = Some (example_call ''a'' [FunctionRunOutput ''call''])"
    "req_function_calls example_graph ''b'' = Some (example_call ''b'' [FunctionRunOutput ''a''])"
    by (simp_all add: example_graph_def)
  have runs: "req_function_runs example_graph =
      [''call'' \<mapsto> example_run\<lparr>run_output := Some (example_payload ''p'' 1)\<rparr>]"
    by (simp add: example_graph_def example_ctx_def)
  have "\<exists>args. req_function_runs ?ctx' ''a'' = Some (create_function_run example_version
      (gc_now_ns example_graph_choices ''a'') (example_call ''a'' [FunctionRunOutput ''call'']) args
      (req_request_id example_graph))"
    using new [OF calls(1)] by (auto simp: runs example_call_def output_available_def)
  moreover have "req_function_runs ?ctx' ''b'' = None"
    using new [OF calls(2)] by (auto simp: runs example_call_def output_available_def)
  ultimately show ?thesis by (auto simp: Let_def create_function_run_fields)
qed

section \<open>Outputs travel up the chain of waiting runs\<close>

definition keyed_runs :: "request_ctx \<Rightarrow> bool" where
  "keyed_runs ctx \<longleftrightarrow> (\<forall>cid run. req_function_runs ctx cid = Some run \<longrightarrow> run_id run = cid)"

text \<open>\<open>(c, p)\<close>: the run \<open>p\<close> waits for the output of the call \<open>c\<close>.\<close>

definition waits :: "request_ctx \<Rightarrow> (function_call_id \<times> function_call_id) set" where
  "waits ctx = {(c, p). \<exists>run. req_function_runs ctx p = Some run \<and> run_child_function_call run = Some c}"

definition parent_rel :: "(function_call_id \<rightharpoonup> function_call_id) \<Rightarrow> (function_call_id \<times> function_call_id) set" where
  "parent_rel c2p = {(c, p). c2p c = Some p}"

lemma link_child_apply: "link_child run m c = (if run_child_function_call run = Some c then Some (run_id run) else m c)"
  by (auto simp: link_child_def split: option.split)

lemma fold_child_to_parent:
  assumes "\<forall>cid \<in> set cids. run_id (R cid) = cid"
  shows "(\<forall>c p. fold (\<lambda>cid. link_child (R cid)) cids m c = Some p \<longrightarrow>
      m c = Some p \<or> p \<in> set cids \<and> run_child_function_call (R p) = Some c) \<and>
    (\<forall>c. m c \<noteq> None \<or> (\<exists>p \<in> set cids. run_child_function_call (R p) = Some c) \<longrightarrow>
      fold (\<lambda>cid. link_child (R cid)) cids m c \<noteq> None)"
  using assms
proof (induction cids arbitrary: m)
  case (Cons cid cids)
  have id: "run_id (R cid) = cid" "\<forall>cid \<in> set cids. run_id (R cid) = cid" using Cons.prems by auto
  note IH = Cons.IH [OF id(2), of "link_child (R cid) m"]
  have "m c = Some p \<or> p \<in> set (cid # cids) \<and> run_child_function_call (R p) = Some c"
    if "fold (\<lambda>cid. link_child (R cid)) (cid # cids) m c = Some p" for c p
    using that IH [THEN conjunct1, rule_format, of c p] id(1) by (auto simp: link_child_apply split: if_splits)
  moreover have "fold (\<lambda>cid. link_child (R cid)) (cid # cids) m c \<noteq> None"
    if "m c \<noteq> None \<or> (\<exists>p \<in> set (cid # cids). run_child_function_call (R p) = Some c)" for c
    using that IH [THEN conjunct2, rule_format, of c] by (auto simp: link_child_apply)
  ultimately show ?case by blast
qed simp

lemma child_to_parent_waits:
  assumes "enumerates (gc_order ch)" "finite (dom (req_function_runs ctx))" "keyed_runs ctx"
  shows "child_to_parent ch ctx c = Some p \<Longrightarrow> (c, p) \<in> waits ctx"
    and "(c, p) \<in> waits ctx \<Longrightarrow> child_to_parent ch ctx c \<noteq> None"
proof -
  let ?R = "\<lambda>cid. the (req_function_runs ctx cid)" and ?cids = "gc_order ch (dom (req_function_runs ctx))"
  have ids: "set ?cids = dom (req_function_runs ctx)" using enumeratesD [OF assms(1,2)] by simp
  then have "\<forall>cid \<in> set ?cids. run_id (?R cid) = cid" using assms(3) by (auto simp: keyed_runs_def)
  note F = fold_child_to_parent [OF this, of Map.empty, folded child_to_parent_def, unfolded ids]
  show "(c, p) \<in> waits ctx" if "child_to_parent ch ctx c = Some p"
    using F [THEN conjunct1, rule_format, OF that] by (auto simp: waits_def)
  show "child_to_parent ch ctx c \<noteq> None" if "(c, p) \<in> waits ctx"
    using that by (intro F [THEN conjunct2, rule_format]) (auto simp: waits_def intro!: bexI [of _ p])
qed

definition completed_with :: "data_payload option \<Rightarrow> function_run \<Rightarrow> function_run" where
  "completed_with out run =
     run\<lparr>run_output := out, run_outcome := Some FunctionRunSuccess, run_status := Completed\<rparr>"

lemma completed_with_id [simp]: "run_id (completed_with out run) = run_id run" "run_output (completed_with out run) = out"
  by (simp_all add: completed_with_def)

lemma completed_with_eta:
  "completed_with out = (\<lambda>run. run\<lparr>run_output := out, run_outcome := Some FunctionRunSuccess, run_status := Completed\<rparr>)"
  by (simp add: fun_eq_iff completed_with_def)

lemma propagate_walk_step:
  assumes "c2p cur = Some p" "req_function_runs ctx p = Some run" "run_id run = p"
  shows "propagate_walk c2p key cur out (update, ctx) = propagate_walk c2p key p out
    (update\<lparr>su_updated_function_runs := idx_insert key p (su_updated_function_runs update)\<rparr>,
     ctx\<lparr>req_function_runs := (req_function_runs ctx)(p \<mapsto> completed_with out run)\<rparr>)"
  using assms by (subst propagate_walk.simps) (simp add: completed_with_def)

text \<open>
  The walk visits the ancestors of the run and ends, when there is no cycle among them.  \<open>S\<close> is a set
  of calls that the walk does not leave.
\<close>

lemma trancl_within:
  assumes "(a, b) \<in> R\<^sup>+" "a \<in> S" "R `` S \<subseteq> S"
  shows "(a, b) \<in> (R \<inter> S \<times> S)\<^sup>+ \<and> b \<in> S"
  using assms(1)
proof (induction rule: trancl_induct)
  case (base y)
  then show ?case using assms(2,3) by blast
next
  case (step y z)
  then have "(y, z) \<in> R \<inter> S \<times> S" using assms(3) by blast
  with step.IH show ?case by (meson IntD2 SigmaD2 trancl.trancl_into_trancl)
qed

lemma propagate_walk_total:
  assumes wf: "wf ((parent_rel c2p \<inter> S \<times> S)\<inverse>)" and closed: "parent_rel c2p `` S \<subseteq> S"
    and "keyed_runs ctx" "ran c2p \<subseteq> dom (req_function_runs ctx)" "cur \<in> S"
  shows "\<exists>update' ctx'. propagate_walk c2p key cur out (update, ctx) = Some (update', ctx') \<and>
    req_function_runs ctx' = (\<lambda>cid. if (cur, cid) \<in> (parent_rel c2p)\<^sup>+
      then map_option (completed_with out) (req_function_runs ctx cid) else req_function_runs ctx cid) \<and>
    req_function_calls ctx' = req_function_calls ctx \<and> req_outcome ctx' = req_outcome ctx"
  using wf assms(3-5)
proof (induction cur arbitrary: update ctx rule: wf_induct_rule)
  case (less cur)
  let ?R = "parent_rel c2p"
  show ?case
  proof (cases "c2p cur")
    case None
    then have "(cur, cid) \<notin> ?R\<^sup>+" for cid by (auto simp: parent_rel_def dest: tranclD)
    with None show ?thesis by (subst propagate_walk.simps) simp
  next
    case (Some p)
    then have "p \<in> dom (req_function_runs ctx)" using less.prems(2) by (auto simp: ran_def)
    then obtain run where run: "req_function_runs ctx p = Some run" by blast
    have id: "run_id run = p" using less.prems(1) run by (simp add: keyed_runs_def)
    let ?ctx = "ctx\<lparr>req_function_runs := (req_function_runs ctx)(p \<mapsto> completed_with out run)\<rparr>"
    let ?update = "update\<lparr>su_updated_function_runs := idx_insert key p (su_updated_function_runs update)\<rparr>"
    have 1: "keyed_runs ?ctx" using less.prems(1) id by (simp add: keyed_runs_def)
    have 2: "ran c2p \<subseteq> dom (req_function_runs ?ctx)" using less.prems(2) by auto
    have S: "p \<in> S" using Some less.prems(3) closed by (auto simp: parent_rel_def)
    have 3: "(p, cur) \<in> (?R \<inter> S \<times> S)\<inverse>" using Some S less.prems(3) by (simp add: parent_rel_def)
    obtain update' ctx' where IH: "propagate_walk c2p key p out
        (?update, ?ctx) = Some (update', ctx')"
      "req_function_runs ctx' = (\<lambda>cid. if (p, cid) \<in> ?R\<^sup>+
        then map_option (completed_with out) (req_function_runs ?ctx cid) else req_function_runs ?ctx cid)"
      "req_function_calls ctx' = req_function_calls ?ctx" "req_outcome ctx' = req_outcome ?ctx"
      using less.IH [OF 3 1 2 S, of ?update] by blast
    have "(p, p) \<notin> (?R \<inter> S \<times> S)\<^sup>+" using wf_acyclic [OF wf] by (simp add: acyclic_def trancl_converse)
    then have "(p, p) \<notin> ?R\<^sup>+" using trancl_within [OF _ S closed] by blast
    moreover have "(cur, cid) \<in> ?R\<^sup>+ \<longleftrightarrow> cid = p \<or> (p, cid) \<in> ?R\<^sup>+" for cid
      using Some by (auto simp: parent_rel_def intro: trancl_into_trancl2 dest: tranclD elim: converse_tranclE)
    ultimately show ?thesis
      using IH run propagate_walk_step [of c2p cur p ctx run key out update] Some id by (auto simp: fun_eq_iff)
  qed
qed

text \<open>
  A run waits for one call, so the chain above a run that waits for nothing cannot close: a cycle
  would lead back to that run.
\<close>

lemma chain_back_to_start:
  assumes "(x, a) \<in> R\<^sup>*" "(a, a) \<in> R\<^sup>+" and inj: "single_valued (R\<inverse>)"
  shows "(x, x) \<in> R\<^sup>+"
  using assms(1,2)
proof (induction rule: rtrancl_induct)
  case (step t u)
  obtain v where v: "(v, u) \<in> R" "(u, v) \<in> R\<^sup>*" using tranclD2 [OF step.prems] by blast
  have "v = t" using inj v(1) step.hyps(2) by (auto dest: single_valuedD)
  then have "(t, t) \<in> R\<^sup>+" using v(2) step.hyps(2) by (meson rtrancl_into_trancl2)
  then show ?case by (rule step.IH)
qed

lemma propagate_output_returns:
  assumes ord: "enumerates (gc_order ch)" and fin: "finite (dom (req_function_runs ctx))" and keyed: "keyed_runs ctx"
    and start: "\<forall>c. (c, run_id run) \<notin> waits ctx"
  shows "\<exists>update' ctx'. propagate_walk (child_to_parent ch ctx) key (run_id run) out (update, ctx) = Some (update', ctx') \<and>
    req_function_runs ctx' = (\<lambda>cid. if (run_id run, cid) \<in> (parent_rel (child_to_parent ch ctx))\<^sup>+
      then map_option (completed_with out) (req_function_runs ctx cid) else req_function_runs ctx cid) \<and>
    req_function_calls ctx' = req_function_calls ctx \<and> req_outcome ctx' = req_outcome ctx"
proof -
  let ?c2p = "child_to_parent ch ctx"
  let ?R = "parent_rel ?c2p" and ?x = "run_id run"
  let ?S = "?R\<^sup>* `` {?x}"
  note W = child_to_parent_waits [OF ord fin keyed]
  have sub: "?R \<subseteq> waits ctx" using W(1) by (auto simp: parent_rel_def)
  have "single_valued ((waits ctx)\<inverse>)" by (auto simp: single_valued_def waits_def)
  then have inj: "single_valued (?R\<inverse>)" by (rule single_valued_subset [rotated]) (use sub in blast)
  have "waits ctx \<subseteq> (\<lambda>p. (the (run_child_function_call (the (req_function_runs ctx p))), p)) ` dom (req_function_runs ctx)"
    by (force simp: waits_def)
  then have "finite (waits ctx)" using fin finite_surj by blast
  then have finR: "finite (?R \<inter> ?S \<times> ?S)" using sub finite_subset by blast
  have "(a, a) \<notin> (?R \<inter> ?S \<times> ?S)\<^sup>+" for a
  proof
    assume cycle: "(a, a) \<in> (?R \<inter> ?S \<times> ?S)\<^sup>+"
    then have "(?x, a) \<in> ?R\<^sup>*" by (auto dest: tranclD)
    moreover have "(a, a) \<in> ?R\<^sup>+" using cycle by (meson Int_lower1 trancl_mono)
    ultimately have "(?x, ?x) \<in> ?R\<^sup>+" using inj by (rule chain_back_to_start)
    then show False using sub start by (auto dest: tranclD2)
  qed
  then have wf: "wf ((?R \<inter> ?S \<times> ?S)\<inverse>)" using finR by (intro finite_acyclic_wf_converse) (auto simp: acyclic_def)
  have closed: "?R `` ?S \<subseteq> ?S" by (auto intro: rtrancl.rtrancl_into_rtrancl)
  have "ran ?c2p \<subseteq> dom (req_function_runs ctx)" using W(1) by (auto simp: ran_def waits_def)
  from propagate_walk_total [OF wf closed keyed this] show ?thesis by simp
qed

text \<open>
  C9: handing an output to the runs that wait for it ends, and reaches exactly those.  From a
  finished run that does not itself wait for a call, the walk up the chain of waiting runs terminates,
  also when runs elsewhere in the request wait for each other in a cycle.  When no two runs wait for
  the same call, the runs above the finished one get its output and are completed successfully, and
  no other run, no call and no request outcome changes.
\<close>

theorem propagate_output_total:
  assumes ord: "enumerates (gc_order ch)" and fin: "finite (dom (req_function_runs ctx))" and keyed: "keyed_runs ctx"
    and start: "\<forall>c. (c, run_id run) \<notin> waits ctx" and out: "run_output run \<noteq> None"
  shows "\<exists>update' ctx'. propagate_output_to_consumers ch ctx run = Some (update', ctx') \<and>
    req_function_calls ctx' = req_function_calls ctx \<and> req_outcome ctx' = req_outcome ctx \<and>
    (single_valued (waits ctx) \<longrightarrow> req_function_runs ctx' = (\<lambda>cid. if (run_id run, cid) \<in> (waits ctx)\<^sup>+
      then map_option (\<lambda>r. r\<lparr>run_output := run_output run, run_outcome := Some FunctionRunSuccess, run_status := Completed\<rparr>)
        (req_function_runs ctx cid)
      else req_function_runs ctx cid))"
proof -
  let ?c2p = "child_to_parent ch ctx"
  note W = child_to_parent_waits [OF ord fin keyed]
  have rel: "parent_rel ?c2p = waits ctx" if single: "single_valued (waits ctx)"
  proof -
    have "?c2p c = Some p \<longleftrightarrow> (c, p) \<in> waits ctx" for c p
      using W(1) [of c] W(2) [of c p] single by (auto dest: single_valuedD)
    then show ?thesis by (auto simp: parent_rel_def)
  qed
  have "propagate_output_to_consumers ch ctx run =
      propagate_walk ?c2p (req_key ctx) (run_id run) (run_output run) (default_update, ctx)"
    using out by (auto simp: propagate_output_to_consumers_def)
  with propagate_output_returns [OF ord fin keyed start, of "req_key ctx" "run_output run" default_update]
  show ?thesis using rel unfolding completed_with_eta by auto
qed

text \<open>A request in which \<open>p\<close> waits for \<open>call\<close>, \<open>q\<close> for \<open>p\<close>, and \<open>z\<close> for itself.\<close>

definition example_waiting :: "function_call_id \<Rightarrow> function_call_id \<Rightarrow> function_run" where
  "example_waiting cid child = example_run\<lparr>run_id := cid, run_status := Completed, run_child_function_call := Some child\<rparr>"

definition example_chain :: request_ctx where
  "example_chain = (example_ctx example_run)\<lparr>req_function_runs :=
     [''call'' \<mapsto> example_run\<lparr>run_output := Some (example_payload ''p'' 1)\<rparr>,
      ''p'' \<mapsto> example_waiting ''p'' ''call'', ''q'' \<mapsto> example_waiting ''q'' ''p'',
      ''z'' \<mapsto> example_waiting ''z'' ''z'']\<rparr>"

lemma example_chain_waits: "waits example_chain = {(''call'', ''p''), (''p'', ''q''), (''z'', ''z'')}"
proof -
  have "(c, p) \<in> waits example_chain \<longleftrightarrow> (c, p) \<in> {(''call'', ''p''), (''p'', ''q''), (''z'', ''z'')}" for c p
    by (auto simp: waits_def example_chain_def example_waiting_def example_run_def create_function_run_fields
        create_function_call_def split: if_splits)
  note eq = this
  show ?thesis by (intro equalityI subrelI) (simp_all only: eq)
qed

theorem propagate_output_total_witness:
  "\<exists>update' ctx' run. propagate_output_to_consumers example_graph_choices example_chain
       (example_run\<lparr>run_output := Some (example_payload ''p'' 1)\<rparr>) = Some (update', ctx') \<and>
     req_function_runs ctx' ''q'' = Some run \<and> run_output run = Some (example_payload ''p'' 1)"
proof -
  let ?run = "example_run\<lparr>run_output := Some (example_payload ''p'' 1)\<rparr>"
  have 1: "enumerates (gc_order example_graph_choices)" "finite (dom (req_function_runs example_chain))"
    by (simp_all add: example_graph_choices_def enumerates_sorted_list_of_set example_chain_def)
  have 2: "keyed_runs example_chain"
    by (auto simp: keyed_runs_def example_chain_def example_waiting_def example_run_def create_function_run_fields
        create_function_call_def split: if_splits)
  have 3: "run_id ?run = ''call''" by (simp add: example_run_def create_function_run_fields create_function_call_def)
  have 4: "\<forall>c. (c, run_id ?run) \<notin> waits example_chain" "run_output ?run \<noteq> None"
    unfolding 3 example_chain_waits by simp_all
  have 5: "single_valued (waits example_chain)" by (auto simp: example_chain_waits single_valued_def)
  have "(''call'', ''p'') \<in> waits example_chain" "(''p'', ''q'') \<in> waits example_chain"
    by (simp_all add: example_chain_waits)
  then have 6: "(run_id ?run, ''q'') \<in> (waits example_chain)\<^sup>+" unfolding 3 by (meson r_into_trancl trancl_trans)
  have "req_function_runs example_chain ''q'' = Some (example_waiting ''q'' ''p'')" by (simp add: example_chain_def)
  with propagate_output_total [OF 1 2 4] 5 6 show ?thesis by auto
qed

section \<open>Well-formed requests\<close>

text \<open>
  The tables of a request are finite and keyed by the identifiers of their entries, and a run that has
  made a tail call is completed: it is not executing any more.
\<close>

definition tail_calls_done :: "request_ctx \<Rightarrow> bool" where
  "tail_calls_done ctx \<longleftrightarrow>
     (\<forall>cid run. req_function_runs ctx cid = Some run \<longrightarrow> run_child_function_call run \<noteq> None \<longrightarrow> run_status run = Completed)"

definition request_ok :: "request_ctx \<Rightarrow> bool" where
  "request_ok ctx \<longleftrightarrow> finite (dom (req_function_runs ctx)) \<and> finite (dom (req_function_calls ctx)) \<and>
     keyed_runs ctx \<and> keyed_calls ctx \<and> tail_calls_done ctx"

definition states_ok :: "scheduler_update_request \<Rightarrow> bool" where
  "states_ok u \<longleftrightarrow> (\<forall>k ctx. su_updated_request_states u k = Some ctx \<longrightarrow> request_ok ctx)"

definition step_ok :: "scheduler_update_request \<times> request_ctx \<Rightarrow> bool" where
  "step_ok st \<longleftrightarrow> states_ok (fst st) \<and> request_ok (snd st)"

lemma request_ok_fields [simp]:
  "request_ok (ctx\<lparr>req_outcome := x\<rparr>) = request_ok ctx" "request_ok (ctx\<lparr>req_request_error := e\<rparr>) = request_ok ctx"
  by (simp_all add: request_ok_def keyed_runs_def keyed_calls_def tail_calls_done_def)

lemma request_ok_insert_run:
  assumes "request_ok ctx" "run_child_function_call run = None \<or> run_status run = Completed"
  shows "request_ok (ctx\<lparr>req_function_runs := (req_function_runs ctx)(run_id run \<mapsto> run)\<rparr>)"
  using assms by (auto simp: request_ok_def keyed_runs_def keyed_calls_def tail_calls_done_def)

lemma states_ok_default [simp]: "states_ok default_update"
  by (simp add: states_ok_def default_update_def)

lemma states_ok_extend: "states_ok u \<Longrightarrow> states_ok v \<Longrightarrow> states_ok (extend_update u v)"
  by (auto simp: states_ok_def extend_update_def extend_request_states_def split: option.splits if_splits)

lemma states_ok_add_request_state: "states_ok u \<Longrightarrow> request_ok ctx \<Longrightarrow> states_ok (add_request_state u ctx)"
  by (auto simp: states_ok_def add_request_state_def split: option.splits if_splits)

lemma step_ok_add_function_run:
  assumes "step_ok (u, ctx)" "run_child_function_call run = None \<or> run_status run = Completed"
  shows "step_ok (add_function_run u run ctx)"
  using assms request_ok_insert_run [of ctx run] by (simp add: step_ok_def add_function_run_def Let_def states_ok_def)

lemma step_ok_add_function_call: "step_ok (u, ctx) \<Longrightarrow> step_ok (add_function_call u call ctx)"
  by (auto simp: step_ok_def add_function_call_def Let_def states_ok_def request_ok_def keyed_runs_def keyed_calls_def
      tail_calls_done_def)

lemma step_ok_remove_call:
  "step_ok (u, ctx) \<Longrightarrow> step_ok (u, ctx\<lparr>req_function_calls := (req_function_calls ctx)(cid := None)\<rparr>)"
  by (auto simp: step_ok_def states_ok_def request_ok_def keyed_runs_def keyed_calls_def tail_calls_done_def)

text \<open>
  The creation of calls and runs writes to a request through four operations only.  Whatever these
  keep, the creation keeps.
\<close>

locale graph_writes =
  fixes P :: "scheduler_update_request \<times> request_ctx \<Rightarrow> bool"
  assumes add_call: "P (u, ctx) \<Longrightarrow> P (add_function_call u call ctx)"
    and remove_call: "P (u, ctx) \<Longrightarrow> P (u, ctx\<lparr>req_function_calls := (req_function_calls ctx)(cid := None)\<rparr>)"
    and fail: "P (u, ctx) \<Longrightarrow> P (u, ctx\<lparr>req_outcome := Some outcome\<rparr>)"
    and add_run: "P (u, ctx) \<Longrightarrow> run_child_function_call run = None \<Longrightarrow> P (add_function_run u run ctx)"
begin

lemma reduce_loop_keeps: "P st \<Longrightarrow> P (snd (reduce_loop sha256 reduce_op args position last_call st))"
proof (induction args arbitrary: position last_call st)
  case (Cons arg args)
  obtain u ctx where st: "st = (u, ctx)" by fastforce
  show ?case using Cons.IH add_call Cons.prems by (simp add: st Let_def)
qed simp

lemma create_reduce_keeps: "P st \<Longrightarrow> P (create_reduce sha256 reduce_op a b args st)"
proof -
  assume ok: "P st"
  obtain u ctx where st: "st = (u, ctx)" by fastforce
  let ?first = "create_function_call_from_reduce_op sha256 reduce_op a b None 0"
  obtain last_call u' ctx' where loop: "reduce_loop sha256 reduce_op args 1 ?first (add_function_call u ?first ctx) =
      (last_call, u', ctx')" by (metis prod_cases3)
  have "P (u', ctx')"
    using reduce_loop_keeps [of "add_function_call u ?first ctx" sha256 reduce_op args 1 ?first]
      add_call ok unfolding loop st by simp
  then show ?thesis using add_call remove_call by (simp add: create_reduce_def st Let_def loop [unfolded One_nat_def])
qed

lemma create_function_calls_keeps:
  assumes "P (default_update, ctx)"
  shows "P (create_function_calls sha256 ctx gu)"
proof -
  have plain: "P (add_plain_calls ops st)" if "P st" for ops st
    using that by (induction ops st rule: add_plain_calls.induct) (simp_all add: add_call)
  have "P (add_reduces sha256 ops st)" if "P st" for ops st
    using that
    by (induction sha256 ops st rule: add_reduces.induct) (auto simp: create_reduce_keeps fail split: list.split)
  then show ?thesis using plain assms by (simp add: create_function_calls_def)
qed

lemma create_function_runs_keeps:
  assumes "P (default_update, ctx)"
  shows "P (create_function_runs ch ctx pending ver)"
proof -
  have step: "P (create_run_for_call ch ver cid st)" if "P st" for cid st
    using that add_run
    by (auto simp: create_run_for_call_def Let_def create_function_run_fields split: prod.split option.split)
  have "P (fold (create_run_for_call ch ver) cids st)" if "P st" for cids st
    using that by (induction cids arbitrary: st) (simp_all add: step)
  then show ?thesis using assms by (simp add: create_function_runs_def)
qed

end

interpretation well_formed: graph_writes step_ok
  by unfold_locales (simp_all add: step_ok_add_function_call step_ok_remove_call step_ok_add_function_run, simp add: step_ok_def)

text \<open>The new calls and runs are of the same request, and no request state is written yet.\<close>

definition writes_frame :: "request_ctx_key \<Rightarrow> scheduler_update_request \<times> request_ctx \<Rightarrow> bool" where
  "writes_frame k st \<longleftrightarrow> su_updated_request_states (fst st) = Map.empty \<and> req_key (snd st) = k"

interpretation frame: graph_writes "writes_frame k" for k
  by unfold_locales (simp_all add: writes_frame_def add_function_call_def add_function_run_def Let_def req_key_def)

lemma step_ok_create_function_calls: "request_ok ctx \<Longrightarrow> step_ok (create_function_calls sha256 ctx gu)"
  by (rule well_formed.create_function_calls_keeps) (simp add: step_ok_def)

lemma step_ok_create_function_runs: "request_ok ctx \<Longrightarrow> step_ok (create_function_runs ch ctx pending ver)"
  by (rule well_formed.create_function_runs_keeps) (simp add: step_ok_def)

lemma step_ok_cancel_run: "step_ok st \<Longrightarrow> step_ok (cancel_run run st)"
  by (cases st) (simp add: cancel_run_def step_ok_add_function_run)

lemma states_ok_fail_request:
  assumes "step_ok (u, ctx)"
  shows "states_ok (fail_request ch event run reason outcome (u, ctx))"
proof -
  have cancel: "step_ok (fold (\<lambda>cid. cancel_run (r cid)) cids st)" if "step_ok st" for r cids st
    using that by (induction cids arbitrary: st) (simp_all add: step_ok_cancel_run)
  define run' where "run' = (case aoe_request_exception event of
      Some payload \<Rightarrow> run\<lparr>run_status := Completed, run_outcome := Some outcome, run_request_error := Some payload\<rparr>
    | None \<Rightarrow> run\<lparr>run_status := Completed, run_outcome := Some outcome\<rparr>)"
  define ctx1 where "ctx1 = (case aoe_request_exception event of
      Some payload \<Rightarrow> ctx\<lparr>req_request_error := Some \<lparr>rerr_function_name = run_name run, rerr_payload = payload\<rparr>\<rparr>
    | None \<Rightarrow> ctx)\<lparr>req_outcome := Some (RequestFailure (request_failure_reason_from reason))\<rparr>"
  have "run_status run' = Completed" by (simp add: run'_def split: option.split)
  moreover have "step_ok (u, ctx1)" using assms by (simp add: step_ok_def ctx1_def split: option.split)
  ultimately have 1: "step_ok (add_function_run u run' ctx1)" by (simp add: step_ok_add_function_run)
  obtain u2 ctx2 where 2: "add_function_run u run' ctx1 = (u2, ctx2)" by fastforce
  obtain u3 ctx3 where 3: "fold (\<lambda>cid. cancel_run (the (req_function_runs ctx2 cid)))
      (gc_order ch (dom (req_function_runs ctx2))) (u2, ctx2) = (u3, ctx3)" by fastforce
  have "step_ok (u3, ctx3)" using cancel [OF 1 [unfolded 2]] unfolding 3 [symmetric] .
  moreover have "fail_request ch event run reason outcome (u, ctx) = add_request_state u3 ctx3"
    using 2 3 by (cases "aoe_request_exception event") (simp_all add: fail_request_def Let_def run'_def ctx1_def)
  ultimately show ?thesis by (simp add: states_ok_add_request_state step_ok_def)
qed

lemma states_ok_continue_request:
  assumes "step_ok (u, ctx)"
  shows "states_ok (continue_request sha256 ch ver gu (u, ctx))"
proof -
  have runs: "states_ok (let (runs, ctx) = create_function_runs ch ctx (pending_function_calls ctx) ver
      in add_request_state (extend_update u runs) ctx)" if "step_ok (u, ctx)" for u ctx
    using that step_ok_create_function_runs [of ctx ch "pending_function_calls ctx" ver]
    by (auto simp: step_ok_def states_ok_add_request_state states_ok_extend split: prod.split)
  have calls: "step_ok (case gu of
      Some gu \<Rightarrow> (let (calls, ctx) = create_function_calls sha256 ctx gu in (extend_update u calls, ctx))
    | None \<Rightarrow> (u, ctx))"
    using assms step_ok_create_function_calls [of ctx sha256 "the gu"]
    by (auto simp: step_ok_def states_ok_extend split: option.split prod.split)
  obtain u' ctx' where 1: "(case gu of
      Some gu \<Rightarrow> (let (calls, ctx) = create_function_calls sha256 ctx gu in (extend_update u calls, ctx))
    | None \<Rightarrow> (u, ctx)) = (u', ctx')" by fastforce
  have "step_ok (u', ctx')" using calls unfolding 1 .
  with runs [OF this] show ?thesis
    by (simp add: continue_request_def 1 [simplified] Let_def step_ok_def states_ok_add_request_state split: prod.splits)
qed

lemma step_ok_propagate_walk:
  assumes "propagate_walk c2p key cur out st = Some st'"
  shows "step_ok st \<longrightarrow> step_ok st'"
proof (rule propagate_walk.raw_induct [where P = "\<lambda>c2p key cur out st st'. step_ok st \<longrightarrow> step_ok st'", OF _ assms])
  fix walk :: "(function_call_id \<rightharpoonup> function_call_id) \<Rightarrow> request_ctx_key \<Rightarrow> function_call_id \<Rightarrow>
    data_payload option \<Rightarrow> scheduler_update_request \<times> request_ctx \<Rightarrow> (scheduler_update_request \<times> request_ctx) option"
  fix c2p :: "function_call_id \<rightharpoonup> function_call_id" and key cur out
  fix st st' :: "scheduler_update_request \<times> request_ctx"
  assume IH: "\<And>c2p key cur out st st'. walk c2p key cur out st = Some st' \<Longrightarrow> step_ok st \<longrightarrow> step_ok st'"
  let ?done = "\<lambda>run. run\<lparr>run_output := out, run_outcome := Some FunctionRunSuccess, run_status := Completed\<rparr>"
  assume body: "(case c2p cur of None \<Rightarrow> Some st
     | Some p \<Rightarrow> (case req_function_runs (snd st) p of None \<Rightarrow> Some st
       | Some run \<Rightarrow>
          let run = ?done run;
              update = (fst st)\<lparr>su_updated_function_runs := idx_insert key (run_id run) (su_updated_function_runs (fst st))\<rparr>;
              ctx = (snd st)\<lparr>req_function_runs := (req_function_runs (snd st))(p \<mapsto> run)\<rparr>
          in walk c2p key (run_id run) (run_output run) (update, ctx))) = Some st'"
  have ok: "request_ok ((snd st)\<lparr>req_function_runs := (req_function_runs (snd st))(p \<mapsto> ?done run)\<rparr>)"
    if "request_ok (snd st)" "req_function_runs (snd st) p = Some run" for p run
  proof -
    have "run_id run = p" using that by (simp add: request_ok_def keyed_runs_def)
    then show ?thesis using request_ok_insert_run [OF that(1), of "?done run"] by simp
  qed
  show "step_ok st \<longrightarrow> step_ok st'"
    using body ok
    by (auto simp: Let_def step_ok_def states_ok_def dest!: IH split: option.splits)
qed

section \<open>The handler of finished allocations\<close>

lemma get_existing_application_version_fields [simp]:
  "get_existing_application_version state (run\<lparr>run_output := x\<rparr>) = get_existing_application_version state run"
  "get_existing_application_version state (run\<lparr>run_child_function_call := y\<rparr>) = get_existing_application_version state run"
  by (simp_all add: get_existing_application_version_def key_application_version_def)

lemma handle_allocation_outcome_child [simp]:
  "run_child_function_call (handle_allocation_outcome run allocation ver) = run_child_function_call run"
  by (simp add: handle_allocation_outcome_def handle_allocation_failure_def Let_def
      split: function_run_outcome.split option.split)

text \<open>The end of the handler, once the run has been inserted as what it becomes.\<close>

lemma states_ok_finish:
  assumes "step_ok (u, ctx)"
  shows "\<exists>u'. (let u = add_request_state u ctx in
      if run_status run = Pending then Some u
      else case outcome of
             FunctionRunFailure reason \<Rightarrow> Some (fail_request ch event run reason outcome (u, ctx))
           | _ \<Rightarrow> Some (continue_request sha256 ch ver gu (u, ctx))) = Some u' \<and> states_ok u'"
proof -
  have "step_ok (add_request_state u ctx, ctx)"
    using assms by (simp add: step_ok_def states_ok_add_request_state)
  then show ?thesis
    by (auto simp: Let_def step_ok_def states_ok_fail_request states_ok_continue_request split: function_run_outcome.split)
qed

text \<open>A run that returns a value, or fails.\<close>

lemma ingest_value:
  assumes ord: "enumerates (gc_order ch)" and ok: "step_ok (u, ctx)" and gu: "aoe_graph_updates event = None"
    and child: "run_child_function_call run = None"
  shows "\<exists>u'. ingest_allocation sha256 ch state event allocation run (u, ctx) = Some u' \<and> states_ok u'"
proof -
  let ?u = "u\<lparr>su_updated_allocations := su_updated_allocations u @ [allocation]\<rparr>"
  let ?run = "run\<lparr>run_output := aoe_data_payload event\<rparr>"
  have "step_ok (?u, ctx)" using ok by (simp add: step_ok_def states_ok_def)
  then have 1: "step_ok (add_function_run ?u ?run ctx)" using child by (simp add: step_ok_add_function_run)
  obtain u1 ctx1 where ins: "add_function_run ?u ?run ctx = (u1, ctx1)" by fastforce
  have ok1: "step_ok (u1, ctx1)" using 1 unfolding ins .
  have "req_function_runs ctx1 (run_id ?run) = Some ?run" using ins by (auto simp: add_function_run_def Let_def)
  then have "\<forall>c. (c, run_id ?run) \<notin> waits ctx1" using child by (simp add: waits_def)
  then obtain u2 ctx2 where handed: "propagate_output_to_consumers ch ctx1 ?run = Some (u2, ctx2)"
    using propagate_output_returns [OF ord, of ctx1 ?run "req_key ctx1" "run_output ?run" default_update] ok1
    by (cases "run_output ?run = None")
      (auto simp: propagate_output_to_consumers_def step_ok_def request_ok_def)
  then have "step_ok (u2, ctx2)"
    using step_ok_propagate_walk [of _ _ _ _ "(default_update, ctx1)" "(u2, ctx2)"] ok1
    by (auto simp: propagate_output_to_consumers_def step_ok_def split: if_splits)
  then have ok2: "step_ok (extend_update u1 u2, ctx2)" using ok1 by (simp add: step_ok_def states_ok_extend)
  show ?thesis
  proof (cases "get_existing_application_version state ?run")
    case None
    then show ?thesis using ok2 by (simp add: ingest_allocation_def gu ins handed step_ok_def states_ok_add_request_state)
  next
    case (Some ver)
    let ?run2 = "handle_allocation_outcome ?run allocation ver"
    obtain u3 ctx3 where ins2: "add_function_run (extend_update u1 u2) ?run2 ctx2 = (u3, ctx3)" by fastforce
    have "step_ok (u3, ctx3)"
      using step_ok_add_function_run [OF ok2, of ?run2] child unfolding ins2 by simp
    from states_ok_finish [OF this, where run = ?run2 and outcome = "al_outcome allocation" and ch = ch and event = event
        and ?sha256.0 = sha256 and ver = ver and gu = "aoe_graph_updates event"]
    show ?thesis using Some child by (simp add: ingest_allocation_def gu ins handed ins2 Let_def split: if_splits)
  qed
qed

text \<open>A run that ends in a tail call.\<close>

lemma ingest_tail_call:
  assumes ok: "step_ok (u, ctx)" and gu: "aoe_graph_updates event = Some gu" and no_value: "aoe_data_payload event = None"
    and success: "al_outcome allocation = FunctionRunSuccess"
  shows "\<exists>u'. ingest_allocation sha256 ch state event allocation run (u, ctx) = Some u' \<and>
    (get_existing_application_version state run \<noteq> None \<longrightarrow> states_ok u')"
proof -
  let ?u = "u\<lparr>su_updated_allocations := su_updated_allocations u @ [allocation]\<rparr>"
  let ?run = "run\<lparr>run_output := None, run_child_function_call := Some (gu_output_function_call_id gu)\<rparr>"
  obtain u1 ctx1 where ins: "add_function_run ?u ?run ctx = (u1, ctx1)" by fastforce
  have handed: "propagate_output_to_consumers ch ctx1 ?run = Some (default_update, ctx1)"
    by (simp add: propagate_output_to_consumers_def)
  show ?thesis
  proof (cases "get_existing_application_version state run")
    case None
    then show ?thesis by (simp add: ingest_allocation_def gu no_value ins handed)
  next
    case (Some ver)
    let ?run2 = "?run\<lparr>run_status := Completed, run_outcome := None\<rparr>"
    obtain u3 ctx3 where ins2: "add_function_run u1 ?run2 ctx1 = (u3, ctx3)" by fastforce
    have "ctx3 = snd (add_function_run ?u ?run2 ctx)" "su_updated_request_states u3 = su_updated_request_states u"
      using ins ins2 by (auto simp: add_function_run_def Let_def)
    moreover have "step_ok (?u, ctx)" using ok by (simp add: step_ok_def states_ok_def)
    then have "step_ok (add_function_run ?u ?run2 ctx)" by (rule step_ok_add_function_run) simp
    moreover have "states_ok u" using ok by (simp add: step_ok_def)
    ultimately have "step_ok (u3, ctx3)" unfolding step_ok_def fst_conv snd_conv by (metis states_ok_def)
    from states_ok_finish [OF this, where run = ?run2 and outcome = FunctionRunSuccess and ch = ch and event = event
        and ?sha256.0 = sha256 and ver = ver and gu = "aoe_graph_updates event"]
    show ?thesis using Some
      by (simp add: ingest_allocation_def gu no_value ins handed ins2 Let_def success handle_allocation_outcome_def)
  qed
qed

text \<open>What the handler does: nothing more, an error of the store, or the ingestion proper.\<close>

lemma handle_allocation_ingestion_cases:
  assumes fin: "finish_on_container ch event scheduler = (u, scheduler')"
    and h: "h = handle_allocation_ingestion sha256 get_allocation ch state event scheduler"
  shows "h = Some (Ok u, scheduler') \<or> (\<exists>e. h = Some (Err e, scheduler')) \<or>
    (\<exists>ctx run aid allocation. ims_request_ctx state (request_ctx_key_new (aoe_namespace event) (aoe_application event)
         (aoe_request_id event)) = Some ctx \<and> req_function_runs ctx (aoe_function_call_id event) = Some run \<and>
       req_outcome ctx = None \<and> run_status run = Running aid \<and> al_outcome allocation = aoe_allocation_outcome event \<and>
       h = map_option (\<lambda>u. (Ok u, scheduler')) (ingest_allocation sha256 ch state event allocation run (u, ctx)))"
proof (cases "ims_request_ctx state (request_ctx_key_new (aoe_namespace event) (aoe_application event) (aoe_request_id event))")
  case None
  then show ?thesis by (simp add: h handle_allocation_ingestion_def fin Let_def)
next
  case ctx: (Some ctx)
  show ?thesis
  proof (cases "req_function_runs ctx (aoe_function_call_id event)")
    case None
    then show ?thesis by (simp add: h handle_allocation_ingestion_def fin ctx Let_def)
  next
    case run: (Some run)
    consider e where "get_allocation (aoe_namespace event @ ''|'' @ aoe_application event @ ''|'' @
          aoe_request_id event @ ''|'' @ aoe_allocation_id event) = Inl e"
      | "get_allocation (aoe_namespace event @ ''|'' @ aoe_application event @ ''|'' @
          aoe_request_id event @ ''|'' @ aoe_allocation_id event) = Inr None"
      | allocation where "get_allocation (aoe_namespace event @ ''|'' @ aoe_application event @ ''|'' @
          aoe_request_id event @ ''|'' @ aoe_allocation_id event) = Inr (Some allocation)"
      by (metis obj_sumE option.exhaust)
    then show ?thesis
    proof cases
      case (3 allocation)
      let ?allocation = "allocation\<lparr>al_outcome := aoe_allocation_outcome event,
        al_execution_duration_ms := aoe_execution_duration_ms event\<rparr>"
      show ?thesis
      proof (cases "req_outcome ctx = None \<and> \<not> allocation_is_terminal allocation \<and> run_status run = Running (al_id allocation)")
        case True
        then have "h = map_option (\<lambda>u. (Ok u, scheduler')) (ingest_allocation sha256 ch state event ?allocation run (u, ctx))"
          using 3 run ctx by (simp add: h handle_allocation_ingestion_def fin Let_def)
        moreover have "al_outcome ?allocation = aoe_allocation_outcome event" by simp
        ultimately show ?thesis using True run ctx by blast
      qed (use 3 run ctx in \<open>auto simp: h handle_allocation_ingestion_def fin Let_def\<close>)
    qed (use run ctx in \<open>simp_all add: h handle_allocation_ingestion_def fin Let_def\<close>)
  qed
qed

text \<open>
  C8: the handler of a finished allocation always returns, and keeps requests well formed.  The
  reports give a value, or a tail call of a successful run, never both.  When the request of the
  event is well formed, the handler gives a result, and every request state in the update it gives is
  well formed again if the version of the application is there: its tables are finite and keyed by the
  identifiers of their entries, and every run that made a tail call is completed, which is what makes
  the next walk over the waiting runs end.
\<close>

theorem handle_allocation_ingestion_total:
  assumes "enumerates (gc_order ch)"
    and "\<forall>ctx. ims_request_ctx state (request_ctx_key_new (aoe_namespace event) (aoe_application event)
           (aoe_request_id event)) = Some ctx \<longrightarrow> request_ok ctx"
    and "aoe_graph_updates event \<noteq> None \<longrightarrow> aoe_data_payload event = None \<and> aoe_allocation_outcome event = FunctionRunSuccess"
  shows "\<exists>res scheduler'. handle_allocation_ingestion sha256 get_allocation ch state event scheduler = Some (res, scheduler') \<and>
    ((\<forall>ctx run. ims_request_ctx state (request_ctx_key_new (aoe_namespace event) (aoe_application event)
         (aoe_request_id event)) = Some ctx \<longrightarrow> req_function_runs ctx (aoe_function_call_id event) = Some run \<longrightarrow>
         get_existing_application_version state run \<noteq> None) \<longrightarrow>
     (\<forall>u. res = Ok u \<longrightarrow> states_ok u))"
proof -
  let ?key = "request_ctx_key_new (aoe_namespace event) (aoe_application event) (aoe_request_id event)"
  obtain u scheduler' where fin: "finish_on_container ch event scheduler = (u, scheduler')" by fastforce
  have u: "states_ok u"
    using fin by (auto simp: finish_on_container_def Let_def states_ok_def default_update_def split: option.splits)
  have "\<exists>u'. ingest_allocation sha256 ch state event allocation run (u, ctx) = Some u' \<and>
      (get_existing_application_version state run \<noteq> None \<longrightarrow> states_ok u')"
    if "ims_request_ctx state ?key = Some ctx" "req_function_runs ctx (aoe_function_call_id event) = Some run"
      "run_status run = Running aid" "al_outcome allocation = aoe_allocation_outcome event" for ctx run aid allocation
  proof -
    have ok: "step_ok (u, ctx)" using that(1) assms(2) u by (simp add: step_ok_def)
    then have child: "run_child_function_call run = None"
      using that(2,3) by (cases "run_child_function_call run") (auto simp: step_ok_def request_ok_def tail_calls_done_def)
    show ?thesis
    proof (cases "aoe_graph_updates event")
      case None
      then show ?thesis using ingest_value [OF assms(1) ok None child] by blast
    next
      case (Some gu)
      then show ?thesis using ingest_tail_call [OF ok Some] assms(3) that(4) by simp
    qed
  qed
  note ingest = this
  from handle_allocation_ingestion_cases [OF fin refl, of sha256 get_allocation state] show ?thesis
  proof (elim disjE exE conjE)
    fix ctx run aid allocation
    assume ctx: "ims_request_ctx state ?key = Some ctx" and run: "req_function_runs ctx (aoe_function_call_id event) = Some run"
      and "run_status run = Running aid" "al_outcome allocation = aoe_allocation_outcome event"
      and h: "handle_allocation_ingestion sha256 get_allocation ch state event scheduler =
        map_option (\<lambda>u. (Ok u, scheduler')) (ingest_allocation sha256 ch state event allocation run (u, ctx))"
    then obtain u' where "ingest_allocation sha256 ch state event allocation run (u, ctx) = Some u'"
      "get_existing_application_version state run \<noteq> None \<longrightarrow> states_ok u'" using ingest [OF ctx run] by blast
    then show ?thesis unfolding h using ctx run by auto
  qed (use u in auto)
qed

text \<open>A run that is executing the allocation \<open>alloc\<close> returns a value.\<close>

definition example_running :: in_memory_state where
  "example_running = example_base\<lparr>ims_request_ctx :=
     [''ns|app|r1'' \<mapsto> example_ctx (example_run\<lparr>run_status := Running ''alloc''\<rparr>)]\<rparr>"

definition example_returned :: allocation_output_ingested_event where
  "example_returned =
     \<lparr>aoe_namespace = ''ns'', aoe_application = ''app'', aoe_function = ''f'', aoe_request_id = ''r1'',
      aoe_function_call_id = ''call'', aoe_data_payload = Some (example_payload ''p'' 1), aoe_graph_updates = None,
      aoe_request_exception = None, aoe_allocation_id = ''alloc'',
      aoe_allocation_target = \<lparr>target_executor_id = ''e1'', target_container_id = ''c1''\<rparr>,
      aoe_allocation_outcome = FunctionRunSuccess, aoe_execution_duration_ms = None\<rparr>"

definition example_allocation :: allocation where
  "example_allocation =
     \<lparr>al_id = ''alloc'', al_target = aoe_allocation_target example_returned, al_function_call_id = ''call'',
      al_namespace = ''ns'', al_application = ''app'', al_application_version = ''1'', al_function = ''f'',
      al_request_id = ''r1'', al_created_at = 0, al_outcome = FunctionRunUnknown, al_attempt_number = 0,
      al_execution_duration_ms = None, al_input_args = [], al_vector_clock = 0, al_call_metadata = []\<rparr>"

lemma example_running_ok: "request_ok (example_ctx (example_run\<lparr>run_status := Running ''alloc''\<rparr>))"
  by (simp add: request_ok_def example_ctx_def keyed_runs_def keyed_calls_def tail_calls_done_def example_run_def
      create_function_run_fields create_function_call_def)

theorem handle_allocation_ingestion_total_witness:
  "\<exists>res scheduler'. handle_allocation_ingestion (Cons CHR ''#'') (\<lambda>_. Ok (Some example_allocation)) example_graph_choices example_running
      example_returned example_scheduler = Some (res, scheduler') \<and> (\<forall>u. res = Ok u \<longrightarrow> states_ok u)"
proof -
  have key: "request_ctx_key_new (aoe_namespace example_returned) (aoe_application example_returned)
      (aoe_request_id example_returned) = ''ns|app|r1''"
    by (simp add: example_returned_def request_ctx_key_new_def)
  have ctx: "ims_request_ctx example_running ''ns|app|r1'' = Some (example_ctx (example_run\<lparr>run_status := Running ''alloc''\<rparr>))"
    by (simp add: example_running_def)
  have ver: "get_existing_application_version example_running (example_run\<lparr>run_status := Running ''alloc''\<rparr>) \<noteq> None"
    by (simp add: get_existing_application_version_def example_running_def example_base_fields key_application_version_def
        example_run_defs)
  have "enumerates (gc_order example_graph_choices)"
    by (simp add: example_graph_choices_def enumerates_sorted_list_of_set)
  from handle_allocation_ingestion_total [OF this, of example_running example_returned "Cons CHR ''#''" "\<lambda>_. Ok (Some example_allocation)"
      example_scheduler] ctx ver example_running_ok
  show ?thesis unfolding key by (auto simp: example_returned_def example_ctx_def)
qed

section \<open>The outcome of a request\<close>

text \<open>The request after the tail call of the run, if there is one.\<close>

definition after_tail_call :: "(string \<Rightarrow> string) \<Rightarrow> graph_updates option \<Rightarrow> request_ctx \<Rightarrow> request_ctx" where
  "after_tail_call sha256 graph_updates ctx =
     (case graph_updates of None \<Rightarrow> ctx | Some gu \<Rightarrow> snd (create_function_calls sha256 ctx gu))"

lemma create_function_runs_outcome [simp]: "req_outcome (snd (create_function_runs ch ctx pending ver)) = req_outcome ctx"
proof -
  have step: "req_outcome (snd (create_run_for_call ch ver cid st)) = req_outcome (snd st)" for cid st
    by (cases st) (auto simp: create_run_for_call_def Let_def add_function_run_def split: option.split)
  have "req_outcome (snd (fold (create_run_for_call ch ver) cids st)) = req_outcome (snd st)" for cids st
    by (induction cids arbitrary: st) (simp_all add: step)
  then show ?thesis by (simp add: create_function_runs_def)
qed

lemma writes_frame_states:
  assumes "writes_frame k st"
  shows "su_updated_request_states (extend_update u (fst st)) = su_updated_request_states u" "req_key (snd st) = k"
  using assms by (simp_all add: writes_frame_def extend_update_def extend_request_states_def fun_eq_iff)

text \<open>The state that the handler writes for the request it continues.\<close>

lemma continue_request_state:
  assumes "\<forall>c. su_updated_request_states u (req_key ctx) = Some c \<longrightarrow> req_outcome c = None"
  shows "\<exists>ctx'. su_updated_request_states (continue_request sha256 ch ver gu (u, ctx)) (req_key ctx) = Some ctx' \<and>
    req_outcome ctx' = (if is_request_completed (after_tail_call sha256 gu ctx) then Some RequestSuccess
      else req_outcome (after_tail_call sha256 gu ctx))"
proof -
  define st where "st = (case gu of None \<Rightarrow> (u, ctx)
    | Some gu \<Rightarrow> (let (calls, ctx) = create_function_calls sha256 ctx gu in (extend_update u calls, ctx)))"
  have 1: "snd st = after_tail_call sha256 gu ctx"
    by (simp add: st_def after_tail_call_def split: option.split prod.split)
  have "writes_frame (req_key ctx) (create_function_calls sha256 ctx g)" for g
    by (rule frame.create_function_calls_keeps) (simp add: writes_frame_def default_update_def)
  note calls = writes_frame_states [OF this]
  have 2: "su_updated_request_states (fst st) = su_updated_request_states u" "req_key (snd st) = req_key ctx"
    by (simp_all add: st_def split_def Let_def calls split: option.split)
  let ?runs = "create_function_runs ch (snd st) (pending_function_calls (snd st)) ver"
  have "writes_frame (req_key (snd st)) ?runs"
    by (rule frame.create_function_runs_keeps) (simp add: writes_frame_def default_update_def)
  note runs = writes_frame_states [OF this]
  have "continue_request sha256 ch ver gu (u, ctx) =
      (if is_request_completed (snd st) then add_request_state (fst st) ((snd st)\<lparr>req_outcome := Some RequestSuccess\<rparr>)
       else add_request_state (extend_update (fst st) (fst ?runs)) (snd ?runs))"
    unfolding continue_request_def st_def by (cases gu) (simp_all add: Let_def split_def)
  moreover have "req_key ((snd st)\<lparr>req_outcome := x\<rparr>) = req_key (snd st)" for x by (simp add: req_key_def)
  ultimately show ?thesis
    using assms runs 2 by (auto simp: 1 [symmetric] add_request_state_def split: option.split)
qed

text \<open>A reduce operation over fewer than two items among the updates of a tail call.\<close>

definition short_reduce :: "graph_updates option \<Rightarrow> bool" where
  "short_reduce graph_updates \<longleftrightarrow>
     (\<exists>gu op. graph_updates = Some gu \<and> Reduce op \<in> set (gu_graph_updates gu) \<and> length (red_collection op) < 2)"

lemma add_function_call_outcome [simp]: "req_outcome (snd (add_function_call update call ctx)) = req_outcome ctx"
  by (simp add: add_function_call_def Let_def)

lemma add_plain_calls_outcome: "req_outcome (snd (add_plain_calls ops st)) = req_outcome (snd st)"
  by (induction ops st rule: add_plain_calls.induct) simp_all

lemma reduce_loop_outcome:
  "req_outcome (snd (snd (reduce_loop sha256 op args p last_call st))) = req_outcome (snd st)"
  by (induction sha256 op args p last_call st rule: reduce_loop.induct) (simp_all add: Let_def)

lemma create_reduce_outcome: "req_outcome (snd (create_reduce sha256 op a b args st)) = req_outcome (snd st)"
proof (cases st)
  case (Pair update ctx)
  show ?thesis
    using reduce_loop_outcome [of sha256 op args 1] by (simp add: Pair create_reduce_def Let_def split_def)
qed

lemma add_reduces_outcome:
  "req_outcome (snd (add_reduces sha256 ops st)) =
     (if \<exists>op. Reduce op \<in> set ops \<and> length (red_collection op) < 2
      then Some (RequestFailure RF_FunctionError) else req_outcome (snd st))"
proof (induction sha256 ops st rule: add_reduces.induct)
  case (3 sha256 op ops update ctx)
  show ?case
  proof (cases "\<exists>a b args. red_collection op = a # b # args")
    case True
    then obtain a b args where eq: "red_collection op = a # b # args" by blast
    then have "(\<exists>op'. Reduce op' \<in> set (Reduce op # ops) \<and> length (red_collection op') < 2) \<longleftrightarrow>
        (\<exists>op'. Reduce op' \<in> set ops \<and> length (red_collection op') < 2)" by auto
    then show ?thesis using "3.IH" [OF eq refl] eq by (auto simp: create_reduce_outcome)
  next
    case False
    then have "length (red_collection op) < 2" by (cases "red_collection op"; cases "tl (red_collection op)") auto
    then have "\<exists>op'. Reduce op' \<in> set (Reduce op # ops) \<and> length (red_collection op') < 2" by auto
    then show ?thesis using False by (auto split: list.split)
  qed
qed auto

lemma after_tail_call_outcome:
  "req_outcome (after_tail_call sha256 gu ctx) =
     (if short_reduce gu then Some (RequestFailure RF_FunctionError) else req_outcome ctx)"
  by (cases gu) (auto simp: after_tail_call_def short_reduce_def create_function_calls_def add_reduces_outcome add_plain_calls_outcome)

text \<open>
  C10: when an undecided request is reported successful.  When a run of it ends, its tail call adds calls;
  the request gets the outcome success if then every call has a completed run, and stays
  undecided otherwise.  There is one exception: a tail call with a reduce over fewer than two items
  makes the request succeed whatever is left to do.
\<close>

theorem request_success_exact:
  assumes "ctx1 = after_tail_call sha256 gu ctx" "req_outcome ctx = None" "finite (dom (req_function_calls ctx1))"
    and "dom (req_function_runs ctx1) \<subseteq> dom (req_function_calls ctx1)"
    and "\<forall>c. su_updated_request_states u (req_key ctx) = Some c \<longrightarrow> req_outcome c = None"
  shows "\<exists>ctx'. su_updated_request_states (continue_request sha256 ch ver gu (u, ctx)) (req_key ctx) = Some ctx' \<and>
    req_outcome ctx' =
      (if short_reduce gu \<or>
          (\<forall>cid \<in> dom (req_function_calls ctx1). \<exists>run. req_function_runs ctx1 cid = Some run \<and> run_status run = Completed)
       then Some RequestSuccess else None)"
proof -
  have out: "req_outcome ctx1 = (if short_reduce gu then Some (RequestFailure RF_FunctionError) else None)"
    unfolding assms(1) after_tail_call_outcome assms(2) ..
  have "card (dom (req_function_calls ctx1)) = card (dom (req_function_runs ctx1)) \<longleftrightarrow>
      dom (req_function_calls ctx1) = dom (req_function_runs ctx1)"
    using card_subset_eq [OF assms(3,4)] by metis
  then have "is_request_completed ctx1 \<longleftrightarrow> short_reduce gu \<or>
      dom (req_function_calls ctx1) = dom (req_function_runs ctx1) \<and> (\<forall>run \<in> ran (req_function_runs ctx1). run_status run = Completed)"
    using out by (simp add: is_request_completed_def)
  also have "\<dots> \<longleftrightarrow> short_reduce gu \<or>
      (\<forall>cid \<in> dom (req_function_calls ctx1). \<exists>run. req_function_runs ctx1 cid = Some run \<and> run_status run = Completed)"
    (is "?S \<or> ?L \<longleftrightarrow> ?S \<or> ?R")
  proof -
    have "?L" if ?R
    proof -
      from that assms(4) have "dom (req_function_calls ctx1) = dom (req_function_runs ctx1)" by blast
      with that show ?L by (auto simp: ran_def) (metis domI option.inject)
    qed
    moreover have "?R" if ?L using that by (metis domD ranI)
    ultimately show ?thesis by blast
  qed
  finally have eq: "is_request_completed ctx1 \<longleftrightarrow> ?S \<or> ?R" .
  have if_or: "(if S \<or> R then x else if S then y else z) = (if S \<or> R then x else z)" for S R and x y z :: "request_outcome option"
    by simp
  show ?thesis using continue_request_state [OF assms(5), of sha256 ch ver gu, folded assms(1)]
    unfolding eq out if_or .
qed

definition example_done :: request_ctx where
  "example_done = (example_ctx (example_run\<lparr>run_status := Completed\<rparr>))
     \<lparr>req_function_calls := [''call'' \<mapsto> example_call ''call'' []]\<rparr>"

theorem request_success_exact_witness:
  "\<exists>ctx'. su_updated_request_states (continue_request (Cons CHR ''#'') example_graph_choices example_version None
       (default_update, example_done)) (req_key example_done) = Some ctx' \<and> req_outcome ctx' = Some RequestSuccess"
proof -
  have 1: "example_done = after_tail_call (Cons CHR ''#'') None example_done" by (simp add: after_tail_call_def)
  have 2: "req_outcome example_done = None" "finite (dom (req_function_calls example_done))"
    "dom (req_function_runs example_done) \<subseteq> dom (req_function_calls example_done)"
    "\<forall>c. su_updated_request_states default_update (req_key example_done) = Some c \<longrightarrow> req_outcome c = None"
    by (simp_all add: example_done_def example_ctx_def default_update_def)
  have "\<forall>cid \<in> dom (req_function_calls example_done).
      \<exists>run. req_function_runs example_done cid = Some run \<and> run_status run = Completed"
    by (simp add: example_done_def example_ctx_def)
  moreover have "\<not> short_reduce None" by (simp add: short_reduce_def)
  ultimately show ?thesis using request_success_exact [OF 1 2, of example_graph_choices example_version] by simp
qed

text \<open>
  C35: a reduce operation with fewer than two items does not fail the request, it makes the request
  succeed.  Creating the calls of such an operation sets the outcome of the request to a function
  error, but the handler of the finished run then takes the request for completed, because it has an
  outcome, and replaces this outcome by success.
\<close>

theorem short_reduce_reports_success:
  assumes "Reduce reduce_op \<in> set (gu_graph_updates gu)" "length (red_collection reduce_op) < 2"
    and "\<forall>c. su_updated_request_states u (req_key ctx) = Some c \<longrightarrow> req_outcome c = None"
  shows "req_outcome (snd (create_function_calls sha256 ctx gu)) = Some (RequestFailure RF_FunctionError) \<and>
    (\<exists>ctx'. su_updated_request_states (continue_request sha256 ch ver (Some gu) (u, ctx)) (req_key ctx) = Some ctx' \<and>
      req_outcome ctx' = Some RequestSuccess)"
proof -
  have "short_reduce (Some gu)" using assms(1,2) by (auto simp: short_reduce_def)
  then have out: "req_outcome (snd (create_function_calls sha256 ctx gu)) = Some (RequestFailure RF_FunctionError)"
    using after_tail_call_outcome [of sha256 "Some gu" ctx] by (simp add: after_tail_call_def)
  then have "is_request_completed (after_tail_call sha256 (Some gu) ctx)"
    by (simp add: after_tail_call_def is_request_completed_def)
  with out show ?thesis using continue_request_state [OF assms(3), of sha256 ch ver "Some gu"] by simp
qed

theorem short_reduce_reports_success_witness:
  "\<exists>ctx'. su_updated_request_states (continue_request (Cons CHR ''#'') example_graph_choices example_version
       (Some \<lparr>gu_graph_updates = [Reduce (example_reduce\<lparr>red_collection := []\<rparr>)], gu_output_function_call_id = ''op''\<rparr>)
       (default_update, example_done)) (req_key example_done) = Some ctx' \<and> req_outcome ctx' = Some RequestSuccess"
  using short_reduce_reports_success [of "example_reduce\<lparr>red_collection := []\<rparr>"
      "\<lparr>gu_graph_updates = [Reduce (example_reduce\<lparr>red_collection := []\<rparr>)], gu_output_function_call_id = ''op''\<rparr>"
      default_update example_done "Cons CHR ''#''" example_graph_choices example_version]
  by (simp add: default_update_def)

end
