(* ===== verification/Allocator.thy ===== *)
theory Allocator
  imports Creation CallGraph
begin

text \<open>
  Allocating function runs (\<open>processor/function_run_processor.rs\<close>): a pending run is put on a
  container of its function that has room, or on a new container; a run for which there is neither
  is recorded as blocked.  A batch is grouped by resource profile and worked off smallest first.

  The processor mutates the scheduler, the feasibility cache and four collections of its own; they are
  the record \<open>batch\<close>.  Fresh ids and clock readings are drawn from a sequence of choices, one for each run the
  batch looks at.
\<close>

declare split_paired_All [simp del] split_paired_Ex [simp del]

section \<open>An order on resource profiles\<close>

definition profile_key ::
  "'a resource_profile_scheme \<Rightarrow> u32 \<times> u64 \<times> u64 \<times> u32 \<times> string option \<times> string list \<times> 'a" where
  "profile_key p =
     (prof_cpu_ms_per_sec p, prof_memory_mb p, prof_disk_mb p, prof_gpu_count p, prof_gpu_model p,
      prof_placement_constraints p, resource_profile.more p)"

lemma profile_key_inj: "profile_key p = profile_key q \<Longrightarrow> p = q"
  by (simp add: profile_key_def)

instantiation resource_profile_ext :: (linorder) linorder
begin

definition less_eq_resource_profile_ext :: "'a resource_profile_ext \<Rightarrow> 'a resource_profile_ext \<Rightarrow> bool" where
  "less_eq_resource_profile_ext p q \<longleftrightarrow> profile_key p \<le> profile_key q"

definition less_resource_profile_ext :: "'a resource_profile_ext \<Rightarrow> 'a resource_profile_ext \<Rightarrow> bool" where
  "less_resource_profile_ext p q \<longleftrightarrow> profile_key p < profile_key q"

instance
  by standard (auto simp: less_eq_resource_profile_ext_def less_resource_profile_ext_def dest: profile_key_inj)

end

section \<open>Choices\<close>

record alloc_choices =
  ac_create :: choices
  ac_containers :: "container_id set \<Rightarrow> container_id list"
  ac_executors :: "executor_id set \<Rightarrow> executor_id list"
  ac_fresh_id :: allocation_id
  ac_now_ms :: u128

section \<open>Finding a container\<close>

text \<open>\<open>min_by_key\<close>: the first of the least elements.\<close>

fun min_by_key :: "('a \<Rightarrow> nat) \<Rightarrow> 'a list \<Rightarrow> 'a option" where
  "min_by_key key [] = None"
| "min_by_key key (x # xs) =
     (case min_by_key key xs of
        None \<Rightarrow> Some x
      | Some y \<Rightarrow> Some (if key x \<le> key y then x else y))"

text \<open>The closure \<open>find_available_container\<close> and its filter.\<close>

definition has_room :: "u32 \<Rightarrow> container_scheduler \<Rightarrow> container_server_metadata \<Rightarrow> bool" where
  "has_room queue_size scheduler c =
     (case cs_executors scheduler (csm_executor_id c) of
        None \<Rightarrow> False
      | Some executor \<Rightarrow>
          if em_tombstoned executor then False
          else if desired_terminated c then False
          else
            (let capacity = queue_size * ct_max_concurrency (csm_function_container c)
             in card (csm_allocations c) < unat capacity))"

definition target_of :: "container_server_metadata \<Rightarrow> allocation_target" where
  "target_of c = \<lparr>target_executor_id = csm_executor_id c, target_container_id = ct_id (csm_function_container c)\<rparr>"

definition find_available_container ::
  "(container_id set \<Rightarrow> container_id list) \<Rightarrow> u32 \<Rightarrow> container_scheduler \<Rightarrow> function_uri \<Rightarrow>
   allocation_target option" where
  "find_available_container ord queue_size scheduler uri =
     (case cs_containers_by_function_uri scheduler uri of
        None \<Rightarrow> None
      | Some ids \<Rightarrow>
          map_option target_of
            (min_by_key (\<lambda>c. card (csm_allocations c))
               (filter (has_room queue_size scheduler)
                  (List.map_filter (cs_function_containers scheduler) (ord ids)))))"

text \<open>The closure \<open>try_create_container\<close>.\<close>

definition at_max_containers :: "container_scheduler \<Rightarrow> function_run \<Rightarrow> bool" where
  "at_max_containers scheduler run =
     (let pool_id = pool_id_for_function (run_application run) (run_name run) (run_version run);
          pool_key = container_pool_key_new (run_namespace run) pool_id
      in case get_pool scheduler pool_key of
           None \<Rightarrow> False
         | Some pool \<Rightarrow>
             (case pool_max_containers pool of
                None \<Rightarrow> False
              | Some max_containers \<Rightarrow>
                  (let uri = \<lparr>uri_namespace = run_namespace run, uri_application = run_application run,
                              uri_function = run_name run, uri_version = run_version run\<rparr>
                   in max_containers \<le> total_containers_for_function scheduler uri)))"

definition try_create_container ::
  "alloc_choices \<Rightarrow> in_memory_state \<Rightarrow> function_run \<Rightarrow> feasibility_cache \<Rightarrow> container_scheduler \<Rightarrow>
   (scheduler_error + scheduler_update_request option) \<times> feasibility_cache \<times> container_scheduler" where
  "try_create_container ch state run cache scheduler =
     (case get_existing_application_version state run of
        None \<Rightarrow> (Ok None, cache, scheduler)
      | Some ver \<Rightarrow>
          (case ver_functions ver (run_name run) of
             None \<Rightarrow> (Ok None, cache, scheduler)
           | Some f \<Rightarrow>
               if at_max_containers scheduler run then (Ok None, cache, scheduler)
               else create_container_for_function (ac_create ch) (run_namespace run) (run_application run)
                      (run_version run) f (ver_state ver) cache scheduler))"

section \<open>Creating an allocation\<close>

definition new_allocation :: "alloc_choices \<Rightarrow> request_ctx \<Rightarrow> function_run \<Rightarrow> allocation_target \<Rightarrow> allocation" where
  "new_allocation ch ctx run target =
     \<lparr>al_id = ac_fresh_id ch, al_target = target, al_function_call_id = run_id run,
      al_namespace = run_namespace run, al_application = run_application run,
      al_application_version = req_application_version ctx, al_function = run_name run,
      al_request_id = run_request_id run, al_created_at = ac_now_ms ch, al_outcome = FunctionRunUnknown,
      al_attempt_number = run_attempt_number run, al_execution_duration_ms = None,
      al_input_args = run_input_args run, al_vector_clock = 0, al_call_metadata = run_call_metadata run\<rparr>"

text \<open>Steps 2 and 3: an existing container, or a new one, whose update is applied at once.\<close>

definition select_target ::
  "u32 \<Rightarrow> alloc_choices \<Rightarrow> in_memory_state \<Rightarrow> function_run \<Rightarrow> feasibility_cache \<Rightarrow> container_scheduler \<Rightarrow>
   (scheduler_error + allocation_target option \<times> scheduler_update_request) \<times> feasibility_cache \<times> container_scheduler" where
  "select_target queue_size ch state run cache scheduler =
     (case find_available_container (ac_containers ch) queue_size scheduler (uri_from_run run) of
        Some target \<Rightarrow> (Ok (Some target, default_update), cache, scheduler)
      | None \<Rightarrow>
          (case try_create_container ch state run cache scheduler of
             (Inl e, cache, scheduler) \<Rightarrow> (Err e, cache, scheduler)
           | (Inr None, cache, scheduler) \<Rightarrow> (Ok (None, default_update), cache, scheduler)
           | (Inr (Some create_update), cache, scheduler) \<Rightarrow>
               (let target = map_option target_of (List.find (\<lambda>c. \<not> desired_terminated c)
                      (map (\<lambda>cid. the (su_containers create_update cid))
                         (ac_containers ch (dom (su_containers create_update)))));
                    scheduler = apply_container_update (ac_containers ch) (ac_executors ch) create_update scheduler
                in (Ok (target, extend_update default_update create_update), cache, scheduler))))"

text \<open>The container takes the allocation, in place; its indexes are not updated.\<close>

definition take_allocation ::
  "allocation \<Rightarrow> scheduler_update_request \<Rightarrow> container_scheduler \<Rightarrow> scheduler_update_request \<times> container_scheduler" where
  "take_allocation allocation update scheduler =
     (let cid = target_container_id (al_target allocation)
      in case cs_function_containers scheduler cid of
           None \<Rightarrow> (update, scheduler)
         | Some fc \<Rightarrow>
             (let fc = fc\<lparr>csm_allocations := insert (al_id allocation) (csm_allocations fc), csm_idle_since := None\<rparr>
              in (update\<lparr>su_containers := (su_containers update)(ct_id (csm_function_container fc) \<mapsto> fc)\<rparr>,
                  scheduler\<lparr>cs_function_containers := (cs_function_containers scheduler)(cid \<mapsto> fc)\<rparr>)))"

definition place_allocation ::
  "alloc_choices \<Rightarrow> function_run \<Rightarrow> allocation_target \<Rightarrow> request_ctx \<Rightarrow> scheduler_update_request \<Rightarrow>
   container_scheduler \<Rightarrow> scheduler_update_request \<times> request_ctx \<times> container_scheduler" where
  "place_allocation ch run target ctx update scheduler =
     (let allocation = new_allocation ch ctx run target;
          updated_run = run\<lparr>run_status := Running (al_id allocation)\<rparr>;
          (update, ctx) = add_function_run update updated_run ctx;
          update = add_request_state update ctx;
          update = update\<lparr>su_new_allocations := su_new_allocations update @ [allocation]\<rparr>;
          (update, scheduler) = take_allocation allocation update scheduler;
          scheduler = scheduler\<lparr>cs_blocked_work := remove_function_run (run_key run) (cs_blocked_work scheduler)\<rparr>
      in (update, ctx, scheduler))"

definition create_allocation ::
  "u32 \<Rightarrow> alloc_choices \<Rightarrow> in_memory_state \<Rightarrow> function_run \<Rightarrow> request_ctx \<Rightarrow> feasibility_cache \<Rightarrow>
   container_scheduler \<Rightarrow>
   (scheduler_error + scheduler_update_request) \<times> request_ctx \<times> feasibility_cache \<times> container_scheduler" where
  "create_allocation queue_size ch state run ctx cache scheduler =
     (case select_target queue_size ch state run cache scheduler of
        (Inl e, cache, scheduler) \<Rightarrow> (Err e, ctx, cache, scheduler)
      | (Inr (None, update), cache, scheduler) \<Rightarrow> (Ok update, ctx, cache, scheduler)
      | (Inr (Some target, update), cache, scheduler) \<Rightarrow>
          (let (update, ctx, scheduler) = place_allocation ch run target ctx update scheduler
           in (Ok update, ctx, cache, scheduler)))"

section \<open>Blocked runs\<close>

definition take_last_placement :: "container_scheduler \<Rightarrow> placement_result option \<times> container_scheduler" where
  "take_last_placement scheduler = (cs_last_placement scheduler, scheduler\<lparr>cs_last_placement := None\<rparr>)"

definition run_workload :: "function_run \<Rightarrow> workload_key" where
  "run_workload run = FunctionWorkload (run_namespace run) (run_application run) (run_name run)"

definition run_function :: "in_memory_state \<Rightarrow> function_run \<Rightarrow> app_function option" where
  "run_function state run =
     (case get_existing_application_version state run of
        None \<Rightarrow> None
      | Some ver \<Rightarrow> ver_functions ver (run_name run))"

definition block_run ::
  "function_run_key \<Rightarrow> executor_class set \<Rightarrow> bool \<Rightarrow> u64 \<Rightarrow> container_scheduler \<Rightarrow> container_scheduler" where
  "block_run key eligible escaped memory_mb scheduler =
     scheduler\<lparr>cs_blocked_work := block_function_run key
       \<lparr>bi_eligible_classes = eligible, bi_escaped = escaped, bi_memory_mb = memory_mb\<rparr> (cs_blocked_work scheduler)\<rparr>"

definition record_blocked_function_run ::
  "choices \<Rightarrow> in_memory_state \<Rightarrow> function_run \<Rightarrow> u64 \<Rightarrow> feasibility_cache \<Rightarrow> container_scheduler \<Rightarrow>
   feasibility_cache \<times> container_scheduler" where
  "record_blocked_function_run ch state run memory_mb cache scheduler =
     (let (last_placement, scheduler) = take_last_placement scheduler;
          (eligible, cache) =
            (case last_placement of
               Some placement \<Rightarrow> (pr_eligible_classes placement, cache)
             | None \<Rightarrow>
                 compute_eligible_classes (ch_class_order ch) (ch_executor_order ch) scheduler cache
                   (run_workload run) (run_namespace run) (run_application run) (run_function state run));
          escaped = (eligible = {})
      in (cache, block_run (run_key run) eligible escaped memory_mb scheduler))"

section \<open>One run\<close>

record batch =
  ba_update :: scheduler_update_request
  ba_scheduler :: container_scheduler
  ba_cache :: feasibility_cache
  ba_no_resources :: "function_uri set"
  ba_ctx_cache :: "string \<rightharpoonup> request_ctx"
  ba_terminal :: "string set"

definition request_key_of_run :: "function_run \<Rightarrow> request_ctx_key" where
  "request_key_of_run run = run_namespace run @ ''|'' @ run_application run @ ''|'' @ run_request_id run"

definition record_blocked :: "choices \<Rightarrow> in_memory_state \<Rightarrow> function_run \<Rightarrow> u64 \<Rightarrow> batch \<Rightarrow> batch" where
  "record_blocked ch state run memory_mb b =
     (let (cache, scheduler) = record_blocked_function_run ch state run memory_mb (ba_cache b) (ba_scheduler b)
      in b\<lparr>ba_cache := cache, ba_scheduler := scheduler\<rparr>)"

text \<open>The request of a run whose constraints cannot be satisfied fails.\<close>

definition fail_unsatisfiable :: "function_run \<Rightarrow> string \<Rightarrow> request_ctx \<Rightarrow> batch \<Rightarrow> batch" where
  "fail_unsatisfiable run cache_key ctx b =
     (let failed_run = run\<lparr>run_status := Completed,
            run_outcome := Some (FunctionRunFailure FR_ConstraintUnsatisfiable)\<rparr>;
          ctx = ctx\<lparr>req_outcome := Some (RequestFailure RF_ConstraintUnsatisfiable)\<rparr>;
          (update, ctx) = add_function_run (ba_update b) failed_run ctx;
          update = add_request_state update ctx
      in b\<lparr>ba_update := update, ba_ctx_cache := (ba_ctx_cache b)(cache_key \<mapsto> ctx),
           ba_no_resources := insert (uri_from_run run) (ba_no_resources b),
           ba_terminal := insert cache_key (ba_terminal b)\<rparr>)"

text \<open>The part after the context is known to be in the cache.\<close>

definition allocate_with_ctx ::
  "u32 \<Rightarrow> alloc_choices \<Rightarrow> in_memory_state \<Rightarrow> function_run \<Rightarrow> u64 \<Rightarrow> string \<Rightarrow> request_ctx \<Rightarrow> batch \<Rightarrow>
   (scheduler_error + unit) \<times> batch" where
  "allocate_with_ctx queue_size ch state run memory_mb cache_key ctx b =
     (let (_, scheduler) = take_last_placement (ba_scheduler b);
          (result, ctx, cache, scheduler) =
            create_allocation queue_size ch state run ctx (ba_cache b) scheduler;
          b = b\<lparr>ba_ctx_cache := (ba_ctx_cache b)(cache_key \<mapsto> ctx), ba_cache := cache, ba_scheduler := scheduler\<rparr>
      in case result of
           Inr allocation_update \<Rightarrow>
             (let b = (if su_new_allocations allocation_update = []
                       then record_blocked (ac_create ch) state run memory_mb
                              (b\<lparr>ba_no_resources := insert (uri_from_run run) (ba_no_resources b)\<rparr>)
                       else b)
              in (Ok (), b\<lparr>ba_update := extend_update (ba_update b) allocation_update\<rparr>))
         | Inl (ConstraintUnsatisfiable _ _ _) \<Rightarrow> (Ok (), fail_unsatisfiable run cache_key ctx b)
         | Inl e \<Rightarrow> (Err e, b))"

definition try_allocate_single_run ::
  "u32 \<Rightarrow> alloc_choices \<Rightarrow> in_memory_state \<Rightarrow> function_run \<Rightarrow> u64 \<Rightarrow> batch \<Rightarrow> (scheduler_error + unit) \<times> batch" where
  "try_allocate_single_run queue_size ch state run memory_mb b =
     (if uri_from_run run \<in> ba_no_resources b
      then
        (let (_, scheduler) = take_last_placement (ba_scheduler b)
         in (Ok (), record_blocked (ac_create ch) state run memory_mb (b\<lparr>ba_scheduler := scheduler\<rparr>)))
      else
        (let cache_key = request_key_of_run run
         in if cache_key \<in> ba_terminal b then (Ok (), b)
            else case ba_ctx_cache b cache_key of
                   Some ctx \<Rightarrow> allocate_with_ctx queue_size ch state run memory_mb cache_key ctx b
                 | None \<Rightarrow>
                     (case ims_request_ctx state cache_key of
                        None \<Rightarrow> (Ok (), b)
                      | Some ctx \<Rightarrow>
                          allocate_with_ctx queue_size ch state run memory_mb cache_key ctx
                            (b\<lparr>ba_ctx_cache := (ba_ctx_cache b)(cache_key \<mapsto> ctx)\<rparr>))))"

section \<open>A batch of runs\<close>

definition max_batch :: nat where
  "max_batch = 10000"

text \<open>The map from functions to profiles, and the groups.\<close>

definition add_profile ::
  "in_memory_state \<Rightarrow> function_run \<Rightarrow> (function_uri \<rightharpoonup> resource_profile option) \<Rightarrow>
   function_uri \<rightharpoonup> resource_profile option" where
  "add_profile state run m =
     (if m (uri_from_run run) \<noteq> None then m
      else m(uri_from_run run \<mapsto> map_option profile_from_function (run_function state run)))"

definition group_runs ::
  "(function_uri \<rightharpoonup> resource_profile option) \<Rightarrow> function_run \<Rightarrow>
   (resource_profile \<rightharpoonup> function_run list) \<times> function_run list \<Rightarrow>
   (resource_profile \<rightharpoonup> function_run list) \<times> function_run list" where
  "group_runs profiles run st =
     (case profiles (uri_from_run run) of
        Some (Some profile) \<Rightarrow> ((fst st)(profile \<mapsto> unwrap_or (fst st profile) [] @ [run]), snd st)
      | _ \<Rightarrow> (fst st, snd st @ [run]))"

definition profile_sort_key :: "resource_profile \<Rightarrow> u64 \<times> u32 \<times> u64 \<times> u32" where
  "profile_sort_key p = (prof_memory_mb p, prof_cpu_ms_per_sec p, prof_disk_mb p, prof_gpu_count p)"

text \<open>
  The loops over the runs of a group and over the groups.  Each run draws the next choice; an error
  ends the batch.
\<close>

fun allocate_runs ::
  "u32 \<Rightarrow> (nat \<Rightarrow> alloc_choices) \<Rightarrow> in_memory_state \<Rightarrow> u64 \<Rightarrow> function_run list \<Rightarrow> nat \<times> batch \<Rightarrow>
   (scheduler_error + unit) \<times> nat \<times> batch" where
  "allocate_runs queue_size chs state memory_mb [] (n, b) = (Ok (), n, b)"
| "allocate_runs queue_size chs state memory_mb (run # runs) (n, b) =
     (case try_allocate_single_run queue_size (chs n) state run memory_mb b of
        (Inl e, b) \<Rightarrow> (Err e, Suc n, b)
      | (Inr _, b) \<Rightarrow> allocate_runs queue_size chs state memory_mb runs (Suc n, b))"

text \<open>The result of the loop over the groups carries the groups that were skipped.\<close>

fun allocate_groups ::
  "u32 \<Rightarrow> (nat \<Rightarrow> alloc_choices) \<Rightarrow> in_memory_state \<Rightarrow> (resource_profile \<times> function_run list) list \<Rightarrow> nat \<times> batch \<Rightarrow>
   (scheduler_error + (resource_profile \<times> function_run list) list) \<times> nat \<times> batch" where
  "allocate_groups queue_size chs state [] st = (Ok [], st)"
| "allocate_groups queue_size chs state ((profile, runs) # groups) (n, b) =
     (let failures_before = card (ba_no_resources b)
      in case allocate_runs queue_size chs state (prof_memory_mb profile) runs (n, b) of
           (Inl e, st) \<Rightarrow> (Err e, st)
         | (Inr _, n, b) \<Rightarrow>
             (let new_failures = card (ba_no_resources b) - failures_before
              in if 3 \<le> new_failures then (Ok groups, n, b)
                 else allocate_groups queue_size chs state groups (n, b)))"

text \<open>The runs of skipped groups are recorded as blocked; the eligible classes are computed once per function.\<close>

definition block_skipped_run ::
  "choices \<Rightarrow> in_memory_state \<Rightarrow> u64 \<Rightarrow> function_run \<Rightarrow> (function_uri \<rightharpoonup> executor_class set) \<times> batch \<Rightarrow>
   (function_uri \<rightharpoonup> executor_class set) \<times> batch" where
  "block_skipped_run ch state memory_mb run st =
     (let (known, b) = st;
          (eligible, known, cache) =
            (case known (uri_from_run run) of
               Some eligible \<Rightarrow> (eligible, known, ba_cache b)
             | None \<Rightarrow>
                 (let (eligible, cache) =
                    compute_eligible_classes (ch_class_order ch) (ch_executor_order ch) (ba_scheduler b) (ba_cache b)
                      (run_workload run) (run_namespace run) (run_application run) (run_function state run)
                  in (eligible, known(uri_from_run run \<mapsto> eligible), cache)));
          escaped = (eligible = {})
      in (known, b\<lparr>ba_cache := cache,
           ba_scheduler := block_run (run_key run) eligible escaped memory_mb (ba_scheduler b)\<rparr>))"

definition block_skipped_groups ::
  "choices \<Rightarrow> in_memory_state \<Rightarrow> (resource_profile \<times> function_run list) list \<Rightarrow> batch \<Rightarrow> batch" where
  "block_skipped_groups ch state groups b =
     snd (fold (\<lambda>(profile, runs). fold (block_skipped_run ch state (prof_memory_mb profile)) runs) groups
       (Map.empty, b))"

text \<open>Without executors every run escapes.\<close>

definition block_escaped :: "in_memory_state \<Rightarrow> function_run \<Rightarrow> container_scheduler \<Rightarrow> container_scheduler" where
  "block_escaped state run scheduler =
     block_run (run_key run) {} True
       (case get_function state run of Some f \<Rightarrow> fres_memory_mb (fn_resources f) | None \<Rightarrow> 0) scheduler"

definition allocate_function_runs ::
  "u32 \<Rightarrow> (nat \<Rightarrow> alloc_choices) \<Rightarrow> (resource_profile set \<Rightarrow> resource_profile list) \<Rightarrow> in_memory_state \<Rightarrow>
   function_run list \<Rightarrow> feasibility_cache \<Rightarrow> container_scheduler \<Rightarrow>
   (scheduler_error + scheduler_update_request) \<times> feasibility_cache \<times> container_scheduler" where
  "allocate_function_runs queue_size chs ordP state runs cache scheduler =
     (if dom (cs_executors scheduler) = {} then (Ok default_update, cache, fold (block_escaped state) runs scheduler)
      else
        (let capped_runs = take max_batch runs;
             profiles = fold (add_profile state) capped_runs Map.empty;
             (groups, fallback_runs) = fold (group_runs profiles) capped_runs (Map.empty, []);
             sorted_groups = sort_key (profile_sort_key \<circ> fst)
               (map (\<lambda>p. (p, the (groups p))) (ordP (dom groups)));
             b = \<lparr>ba_update = default_update, ba_scheduler = scheduler, ba_cache = cache,
                  ba_no_resources = {}, ba_ctx_cache = Map.empty, ba_terminal = {}\<rparr>
         in case allocate_groups queue_size chs state sorted_groups (0, b) of
              (Inl e, n, b) \<Rightarrow> (Err e, ba_cache b, ba_scheduler b)
            | (Inr skipped, n, b) \<Rightarrow>
                (let b = block_skipped_groups (ac_create (chs n)) state skipped b
                 in case allocate_runs queue_size chs state 0 fallback_runs (n, b) of
                      (Inl e, n, b) \<Rightarrow> (Err e, ba_cache b, ba_scheduler b)
                    | (Inr _, n, b) \<Rightarrow> (Ok (ba_update b), ba_cache b, ba_scheduler b))))"

definition allocate_request ::
  "u32 \<Rightarrow> (nat \<Rightarrow> alloc_choices) \<Rightarrow> (resource_profile set \<Rightarrow> resource_profile list) \<Rightarrow>
   (function_call_id set \<Rightarrow> function_call_id list) \<Rightarrow> in_memory_state \<Rightarrow> string \<Rightarrow> string \<Rightarrow> string \<Rightarrow>
   feasibility_cache \<Rightarrow> container_scheduler \<Rightarrow>
   (scheduler_error + scheduler_update_request) \<times> feasibility_cache \<times> container_scheduler" where
  "allocate_request queue_size chs ordP ordF state namespace application request_id cache scheduler =
     (case ims_request_ctx state (request_ctx_key_new namespace application request_id) of
        None \<Rightarrow> (Ok default_update, cache, scheduler)
      | Some ctx \<Rightarrow>
          allocate_function_runs queue_size chs ordP state
            (filter (\<lambda>run. run_status run = Pending)
               (map (\<lambda>cid. the (req_function_runs ctx cid)) (ordF (dom (req_function_runs ctx)))))
            cache scheduler)"

section \<open>What the allocator leaves alone\<close>

text \<open>Creating a container does not touch the blocked work.\<close>

lemma index_ops_blocked [simp]:
  "cs_blocked_work (insert_resource_index eid r s) = cs_blocked_work s"
  "cs_blocked_work (remove_resource_index eid r s) = cs_blocked_work s"
  "cs_blocked_work (set_executor_state eid st s) = cs_blocked_work s"
  "cs_blocked_work (remove_executor_state eid s) = cs_blocked_work s"
  "cs_blocked_work (mark_pool_dirty k s) = cs_blocked_work s"
  "cs_blocked_work (remove_idle cid t s) = cs_blocked_work s"
  "cs_blocked_work (remove_from_uri_index u cid s) = cs_blocked_work s"
  "cs_blocked_work (remove_from_pool_index k cid s) = cs_blocked_work s"
  "cs_blocked_work (remove_from_warm_index k cid s) = cs_blocked_work s"
  by (simp_all add: insert_resource_index_def remove_resource_index_def set_executor_state_def remove_executor_state_def
      mark_pool_dirty_def remove_idle_def remove_from_uri_index_def remove_from_pool_index_def
      remove_from_warm_index_def Let_def split: option.split)

lemma update_container_indices_blocked [simp]: "cs_blocked_work (update_container_indices cid meta s) = cs_blocked_work s"
  by (simp add: update_container_indices_def Let_def split: option.split)

lemma apply_container_update_blocked [simp]: "cs_blocked_work (apply_container_update ordC ordE u s) = cs_blocked_work s"
proof -
  have "cs_blocked_work (fold (\<lambda>cid. update_container_indices cid (f cid)) cids s) = cs_blocked_work s" for f cids s
    by (induction cids arbitrary: s) simp_all
  moreover have "cs_blocked_work (fold (\<lambda>eid. set_executor_state eid (g eid)) eids s) = cs_blocked_work s" for g eids s
    by (induction eids arbitrary: s) simp_all
  moreover have "cs_blocked_work (fold remove_executor_state eids s) = cs_blocked_work s" for eids s
    by (induction eids arbitrary: s) simp_all
  ultimately show ?thesis by (simp add: apply_container_update_def Let_def)
qed

lemma register_container_blocked [simp]: "cs_blocked_work (snd (register_container now eid c ctype s)) = cs_blocked_work s"
  by (simp add: register_container_def Let_def split: option.split sum.split prod.split)

lemma create_container_blocked [simp]:
  "cs_blocked_work (snd (snd (create_container ch ns app f resources c ctype cache s))) = cs_blocked_work s"
proof -
  have "cs_blocked_work s' = cs_blocked_work s0" if "register_container now eid c ctype s0 = (r, s')" for now eid s0 r s'
    using that register_container_blocked [of now eid c ctype s0] by simp
  then show ?thesis by (auto simp: create_container_def Let_def split: prod.split option.split sum.split)
qed

lemma restore_container_blocked [simp]: "cs_blocked_work (snd (restore_container now cid fc st s)) = cs_blocked_work s"
  by (simp add: restore_container_def Let_def split: prod.split sum.split option.split)

lemma restore_reaped_container_blocked [simp]:
  "cs_blocked_work (snd (restore_reaped_container now uri s)) = cs_blocked_work s"
  by (simp add: restore_reaped_container_def Let_def split: list.split option.split)

lemma create_container_for_function_blocked [simp]:
  "cs_blocked_work (snd (snd (create_container_for_function ch ns app ver f st cache s))) = cs_blocked_work s"
proof -
  obtain r s1 where "restore_reaped_container (ch_now ch) \<lparr>uri_namespace = ns, uri_application = app,
      uri_function = fn_name f, uri_version = ver\<rparr> s = (r, s1)" by fastforce
  moreover from this have "cs_blocked_work s1 = cs_blocked_work s"
    using restore_reaped_container_blocked [of "ch_now ch" "\<lparr>uri_namespace = ns, uri_application = app,
      uri_function = fn_name f, uri_version = ver\<rparr>" s] by simp
  ultimately show ?thesis
    by (simp add: create_container_for_function_def split: application_state.split option.split)
qed

lemma try_create_container_blocked [simp]:
  "cs_blocked_work (snd (snd (try_create_container ch state run cache s))) = cs_blocked_work s"
  by (simp add: try_create_container_def split: option.split)

lemma select_target_blocked [simp]:
  "cs_blocked_work (snd (snd (select_target q ch state run cache s))) = cs_blocked_work s"
proof -
  have "cs_blocked_work s' = cs_blocked_work s" if "try_create_container ch state run cache s = (r, cache', s')" for r cache' s'
    using that try_create_container_blocked [of ch state run cache s] by simp
  then show ?thesis
    by (auto simp: select_target_def Let_def split: option.split prod.split sum.split)
qed

text \<open>An update that creates a container has no allocation and no request state.\<close>

definition creation_only :: "scheduler_update_request \<Rightarrow> bool" where
  "creation_only u \<longleftrightarrow> su_new_allocations u = [] \<and> su_updated_request_states u = Map.empty"

lemma creation_only_default [simp]: "creation_only default_update"
  by (simp add: creation_only_def default_update_def)

lemma creation_only_register: "register_container now eid c ctype s = (Inr u, s') \<Longrightarrow> creation_only u"
  by (auto simp: register_container_def Let_def creation_only_def default_update_def
      split: option.splits sum.splits prod.splits)

lemma creation_only_create:
  "create_container ch ns app f resources c ctype cache s = (Inr (Some u), cache', s') \<Longrightarrow> creation_only u"
  by (auto simp: create_container_def Let_def dest: creation_only_register
      split: option.splits sum.splits prod.splits if_splits)

lemma creation_only_restore: "restore_reaped_container now uri s = (Some u, s') \<Longrightarrow> creation_only u"
  by (auto simp: restore_reaped_container_def restore_container_def Let_def creation_only_def default_update_def
      split: option.splits sum.splits prod.splits if_splits)

lemma creation_only_for_function:
  "create_container_for_function ch ns app ver f st cache s = (Inr (Some u), cache', s') \<Longrightarrow> creation_only u"
  by (auto simp: create_container_for_function_def dest: creation_only_create creation_only_restore
      split: application_state.splits option.splits prod.splits)

lemma creation_only_select_target:
  assumes "select_target q ch state run cache s = (Inr (target, u), cache', s')"
  shows "creation_only u"
  using assms
  by (auto simp: select_target_def try_create_container_def Let_def dest: creation_only_for_function
      split: option.splits sum.splits prod.splits if_splits)

section \<open>Tracked runs\<close>

definition tracked :: "container_scheduler \<Rightarrow> function_run_key set" where
  "tracked s = dom (bx_blocked (bt_function_runs (cs_blocked_work s)))"

lemma tracked_cong: "cs_blocked_work s = cs_blocked_work s' \<Longrightarrow> tracked s = tracked s'"
  by (simp add: tracked_def)

lemma tracked_block_run [simp]: "tracked (block_run key eligible escaped memory_mb s) = insert key (tracked s)"
  by (simp add: tracked_def block_run_def block_function_run_def block_work_def remove_blocked_def
      remove_from_indexes_def Let_def split: option.split)

lemma tracked_remove: "cs_blocked_work s' = remove_function_run key (cs_blocked_work s) \<Longrightarrow> tracked s' = tracked s - {key}"
  by (auto simp: tracked_def remove_function_run_def remove_blocked_def remove_from_indexes_def Let_def
      split: option.split if_splits)

lemma tracked_last_placement [simp]: "tracked (s\<lparr>cs_last_placement := x\<rparr>) = tracked s"
  by (simp add: tracked_def)

lemma place_allocation_effect:
  assumes "place_allocation ch run target ctx u s = (u', ctx', s')"
  shows "su_new_allocations u' = su_new_allocations u @ [new_allocation ch ctx run target]"
    and "req_key ctx' = req_key ctx" "cs_blocked_work s' = remove_function_run (run_key run) (cs_blocked_work s)"
  using assms
  by (auto simp: place_allocation_def take_allocation_def add_function_run_def add_request_state_def
      merge_request_state_def req_key_def Let_def split: option.splits if_splits)

lemma new_allocation_key [simp]: "function_run_key_of_allocation (new_allocation ch ctx run target) = run_key run"
  by (simp add: function_run_key_of_allocation_def run_key_def new_allocation_def)

text \<open>A run that is allocated leaves the tracker, a run that is not stays as it was.\<close>

lemma create_allocation_effect:
  assumes "create_allocation q ch state run ctx cache s = (r, ctx', cache', s')"
  shows "req_key ctx' = req_key ctx"
    and "r = Inl e \<Longrightarrow> tracked s' = tracked s"
    and "r = Inr u \<Longrightarrow> (su_new_allocations u = [] \<and> tracked s' = tracked s) \<or>
      (\<exists>al. su_new_allocations u = [al] \<and> function_run_key_of_allocation al = run_key run \<and> tracked s' = tracked s - {run_key run})"
proof -
  obtain sel cache1 s1 where sel: "select_target q ch state run cache s = (sel, cache1, s1)" by (metis prod_cases3)
  have s1: "tracked s1 = tracked s" using select_target_blocked [of q ch state run cache s] sel by (simp add: tracked_def)
  consider e where "sel = Inl e" | u where "sel = Inr (None, u)" | target u where "sel = Inr (Some target, u)"
    by (metis old.sum.exhaust option.exhaust surj_pair)
  then have "req_key ctx' = req_key ctx \<and> (\<forall>e. r = Inl e \<longrightarrow> tracked s' = tracked s) \<and>
    (\<forall>u. r = Inr u \<longrightarrow> (su_new_allocations u = [] \<and> tracked s' = tracked s) \<or>
      (\<exists>al. su_new_allocations u = [al] \<and> function_run_key_of_allocation al = run_key run \<and> tracked s' = tracked s - {run_key run}))"
  proof cases
    case 1
    then show ?thesis using assms s1 by (auto simp: create_allocation_def sel)
  next
    case (2 u)
    then show ?thesis
      using assms s1 creation_only_select_target [OF sel [unfolded 2]] by (auto simp: create_allocation_def sel creation_only_def)
  next
    case (3 target u)
    obtain u2 ctx2 s2 where place: "place_allocation ch run target ctx u s1 = (u2, ctx2, s2)" by (metis prod_cases3)
    note effect = place_allocation_effect [OF place]
    have "su_new_allocations u = []" using creation_only_select_target [OF sel [unfolded 3]] by (simp add: creation_only_def)
    moreover have "tracked s2 = tracked s - {run_key run}" using tracked_remove [OF effect(3)] s1 by simp
    ultimately show ?thesis using assms effect(1,2) by (auto simp: create_allocation_def sel 3 place)
  qed
  then show "req_key ctx' = req_key ctx" "r = Inl e \<Longrightarrow> tracked s' = tracked s"
    "r = Inr u \<Longrightarrow> (su_new_allocations u = [] \<and> tracked s' = tracked s) \<or>
      (\<exists>al. su_new_allocations u = [al] \<and> function_run_key_of_allocation al = run_key run \<and> tracked s' = tracked s - {run_key run})"
    by blast+
qed

section \<open>No run is forgotten\<close>

definition allocated_keys :: "scheduler_update_request \<Rightarrow> function_run_key set" where
  "allocated_keys u = function_run_key_of_allocation ` set (su_new_allocations u)"

lemma allocated_keys_extend [simp]: "allocated_keys (extend_update a b) = allocated_keys a \<union> allocated_keys b"
  by (auto simp: allocated_keys_def extend_update_def)

text \<open>What may have become of a run that the batch has looked at.\<close>

definition accounted :: "in_memory_state \<Rightarrow> batch \<Rightarrow> function_run \<Rightarrow> bool" where
  "accounted state b run \<longleftrightarrow>
     run_key run \<in> tracked (ba_scheduler b) \<union> allocated_keys (ba_update b) \<or>
     request_key_of_run run \<in> ba_terminal b \<or> ims_request_ctx state (request_key_of_run run) = None"

definition batch_ok :: "batch \<Rightarrow> bool" where
  "batch_ok b \<longleftrightarrow> (\<forall>k ctx. ba_ctx_cache b k = Some ctx \<longrightarrow> req_key ctx = k) \<and>
     (\<forall>k \<in> ba_terminal b. finished_in (ba_update b) k)"

definition covers :: "batch \<Rightarrow> batch \<Rightarrow> bool" where
  "covers b b' \<longleftrightarrow> tracked (ba_scheduler b) \<subseteq> tracked (ba_scheduler b') \<union> allocated_keys (ba_update b') \<and>
     allocated_keys (ba_update b) \<subseteq> allocated_keys (ba_update b') \<and> ba_terminal b \<subseteq> ba_terminal b'"

lemma covers_refl [simp]: "covers b b"
  by (simp add: covers_def)

lemma covers_trans: "covers a b \<Longrightarrow> covers b c \<Longrightarrow> covers a c"
  by (auto simp: covers_def)

lemma accounted_covers: "covers b b' \<Longrightarrow> accounted state b run \<Longrightarrow> accounted state b' run"
  by (auto simp: covers_def accounted_def)

definition keyed_requests :: "in_memory_state \<Rightarrow> bool" where
  "keyed_requests state \<longleftrightarrow> (\<forall>k ctx. ims_request_ctx state k = Some ctx \<longrightarrow> req_key ctx = k)"

lemma tracked_record_blocked [simp]:
  "tracked (snd (record_blocked_function_run ch state run memory_mb cache s)) = insert (run_key run) (tracked s)"
  by (simp add: record_blocked_function_run_def take_last_placement_def Let_def split: prod.split)

lemma record_blocked_effect [simp]:
  "tracked (ba_scheduler (record_blocked ch state run memory_mb b)) = insert (run_key run) (tracked (ba_scheduler b))"
  "ba_update (record_blocked ch state run memory_mb b) = ba_update b"
  "ba_terminal (record_blocked ch state run memory_mb b) = ba_terminal b"
  "ba_ctx_cache (record_blocked ch state run memory_mb b) = ba_ctx_cache b"
proof -
  obtain cache s where r: "record_blocked_function_run ch state run memory_mb (ba_cache b) (ba_scheduler b) = (cache, s)"
    by fastforce
  then have "tracked s = insert (run_key run) (tracked (ba_scheduler b))"
    using tracked_record_blocked [of ch state run memory_mb "ba_cache b" "ba_scheduler b"] by simp
  then show "tracked (ba_scheduler (record_blocked ch state run memory_mb b)) = insert (run_key run) (tracked (ba_scheduler b))"
    by (simp add: record_blocked_def r)
qed (simp_all add: record_blocked_def split: prod.split)

lemma fail_unsatisfiable_effect:
  assumes "req_key ctx = key"
  shows "tracked (ba_scheduler (fail_unsatisfiable run key ctx b)) = tracked (ba_scheduler b)"
    and "allocated_keys (ba_update (fail_unsatisfiable run key ctx b)) = allocated_keys (ba_update b)"
    and "ba_terminal (fail_unsatisfiable run key ctx b) = insert key (ba_terminal b)"
    and "finished_in (ba_update (fail_unsatisfiable run key ctx b)) k \<longleftrightarrow> finished_in (ba_update b) k \<or> k = key"
    and "ba_ctx_cache (fail_unsatisfiable run key ctx b) k =
      (if k = key then Some (ctx\<lparr>req_outcome := Some (RequestFailure RF_ConstraintUnsatisfiable),
         req_function_runs := (req_function_runs ctx)(run_id run \<mapsto> run\<lparr>run_status := Completed,
            run_outcome := Some (FunctionRunFailure FR_ConstraintUnsatisfiable)\<rparr>)\<rparr>) else ba_ctx_cache b k)"
  using assms
  by (simp_all add: fail_unsatisfiable_def Let_def add_function_run_def add_request_state_def allocated_keys_def
      finished_in_merge req_key_def merge_request_state_def split: option.split)
    (auto simp: finished_in_def split: option.splits)

lemma allocate_with_ctx_effect:
  assumes "allocate_with_ctx q ch state run memory_mb key ctx b = (r, b')"
    and ok: "batch_ok b" and key: "req_key ctx = key" "key = request_key_of_run run"
  shows "batch_ok b' \<and> covers b b' \<and> (r = Ok () \<longrightarrow> accounted state b' run)"
proof -
  let ?s = "(ba_scheduler b)\<lparr>cs_last_placement := None\<rparr>"
  obtain res ctx1 cache1 s1 where create: "create_allocation q ch state run ctx (ba_cache b) ?s = (res, ctx1, cache1, s1)"
    by (metis prod_cases4)
  note effect = create_allocation_effect [OF create]
  let ?b = "b\<lparr>ba_ctx_cache := (ba_ctx_cache b)(key \<mapsto> ctx1), ba_cache := cache1, ba_scheduler := s1\<rparr>"
  have okb: "batch_ok ?b" using ok effect(1) key by (simp add: batch_ok_def)
  show ?thesis
  proof (cases res)
    case (Inl e)
    have t: "tracked s1 = tracked (ba_scheduler b)" using effect(2) [OF Inl] by simp
    show ?thesis
    proof (cases "\<exists>x y z. e = ConstraintUnsatisfiable x y z")
      case True
      then have b': "r = Ok ()" "b' = fail_unsatisfiable run key ctx1 ?b"
        using assms(1) Inl create by (auto simp: allocate_with_ctx_def take_last_placement_def)
      have rk: "req_key ctx1 = key" using effect(1) key(1) by simp
      note f = fail_unsatisfiable_effect [OF rk, of run]
      have "batch_ok b'" using okb rk unfolding b' batch_ok_def by (auto simp: f req_key_def split: if_splits)
      moreover have "covers b b'" by (auto simp: covers_def b' f t)
      moreover have "accounted state b' run" by (simp add: accounted_def b' f key(2) [symmetric])
      ultimately show ?thesis by blast
    next
      case False
      then have "r = Err e \<and> b' = ?b"
        using assms(1) Inl create by (cases e) (auto simp: allocate_with_ctx_def take_last_placement_def)
      then show ?thesis using okb t by (simp add: covers_def)
    qed
  next
    case (Inr u)
    let ?b1 = "if su_new_allocations u = [] then record_blocked (ac_create ch) state run memory_mb
        (?b\<lparr>ba_no_resources := insert (uri_from_run run) (ba_no_resources ?b)\<rparr>) else ?b"
    have b': "r = Ok ()" "b' = ?b1\<lparr>ba_update := extend_update (ba_update ?b1) u\<rparr>"
      using assms(1) Inr create by (auto simp: allocate_with_ctx_def take_last_placement_def Let_def)
    have upd: "ba_update b' = extend_update (ba_update b) u" "ba_terminal b' = ba_terminal b"
      "ba_ctx_cache b' = ba_ctx_cache ?b"
      by (simp_all add: b')
    have "batch_ok b'" using okb unfolding batch_ok_def upd by (simp add: finished_in_extend)
    moreover have "tracked (ba_scheduler b') \<union> allocated_keys u \<supseteq> tracked (ba_scheduler b) \<union> {run_key run}"
    proof (cases "su_new_allocations u = []")
      case True
      then show ?thesis using effect(3) [OF Inr] by (auto simp: b')
    next
      case False
      then show ?thesis using effect(3) [OF Inr] by (auto simp: b' allocated_keys_def)
    qed
    ultimately show ?thesis by (auto simp: covers_def accounted_def upd)
  qed
qed

lemma try_allocate_effect:
  assumes "try_allocate_single_run q ch state run memory_mb b = (r, b')" "batch_ok b" "keyed_requests state"
  shows "batch_ok b' \<and> covers b b' \<and> (r = Ok () \<longrightarrow> accounted state b' run)"
proof (cases "uri_from_run run \<in> ba_no_resources b")
  case True
  then have "r = Ok () \<and> b' = record_blocked (ac_create ch) state run memory_mb
      (b\<lparr>ba_scheduler := (ba_scheduler b)\<lparr>cs_last_placement := None\<rparr>\<rparr>)"
    using assms(1) by (auto simp: try_allocate_single_run_def take_last_placement_def)
  then show ?thesis using assms(2) by (auto simp: batch_ok_def covers_def accounted_def)
next
  case False
  let ?key = "request_key_of_run run"
  note def = assms(1) [unfolded try_allocate_single_run_def]
  show ?thesis
  proof (cases "?key \<in> ba_terminal b \<or> ba_ctx_cache b ?key = None \<and> ims_request_ctx state ?key = None")
    case True
    then have "b' = b" using def False by (auto simp: Let_def split: if_splits)
    then show ?thesis using True assms(2) by (auto simp: accounted_def)
  next
    case 2: False
    show ?thesis
    proof (cases "ba_ctx_cache b ?key")
      case (Some ctx)
      then have "req_key ctx = ?key" using assms(2) by (simp add: batch_ok_def)
      moreover have "allocate_with_ctx q ch state run memory_mb ?key ctx b = (r, b')"
        using def False 2 Some by (simp add: Let_def)
      ultimately show ?thesis using allocate_with_ctx_effect [OF _ assms(2)] by blast
    next
      case None
      then obtain ctx where ctx: "ims_request_ctx state ?key = Some ctx" using 2 by auto
      let ?b = "b\<lparr>ba_ctx_cache := (ba_ctx_cache b)(?key \<mapsto> ctx)\<rparr>"
      have "req_key ctx = ?key" using ctx assms(3) by (simp add: keyed_requests_def)
      moreover from this have "batch_ok ?b" using assms(2) by (simp add: batch_ok_def)
      moreover have "allocate_with_ctx q ch state run memory_mb ?key ctx ?b = (r, b')"
        using def False 2 None ctx by (simp add: Let_def)
      ultimately have "batch_ok b' \<and> covers ?b b' \<and> (r = Ok () \<longrightarrow> accounted state b' run)"
        using allocate_with_ctx_effect by blast
      then show ?thesis by (simp add: covers_def)
    qed
  qed
qed

lemma allocate_runs_effect:
  assumes "allocate_runs q chs state memory_mb runs (n, b) = (r, n', b')" "batch_ok b" "keyed_requests state"
  shows "batch_ok b' \<and> covers b b' \<and> (r = Ok () \<longrightarrow> (\<forall>run \<in> set runs. accounted state b' run))"
  using assms
proof (induction runs arbitrary: n b)
  case (Cons run runs)
  obtain r1 b1 where one: "try_allocate_single_run q (chs n) state run memory_mb b = (r1, b1)" by fastforce
  note effect = try_allocate_effect [OF one Cons.prems(2,3)]
  show ?case
  proof (cases r1)
    case (Inl e)
    then show ?thesis using Cons.prems(1) one effect by auto
  next
    case (Inr x)
    then have "allocate_runs q chs state memory_mb runs (Suc n, b1) = (r, n', b')" using Cons.prems(1) one by simp
    note rest = Cons.IH [OF this _ Cons.prems(3)]
    have 1: "batch_ok b1" "covers b b1" "accounted state b1 run" using effect Inr by auto
    then show ?thesis using rest [OF 1(1)] covers_trans [OF 1(2), of b'] accounted_covers [of b1 b' state run] by simp
  qed
qed simp

lemma allocate_groups_effect:
  assumes "allocate_groups q chs state groups (n, b) = (r, n', b')" "batch_ok b" "keyed_requests state"
  shows "batch_ok b' \<and> covers b b' \<and>
    (\<forall>skipped. r = Ok skipped \<longrightarrow> (\<exists>d. groups = d @ skipped \<and> (\<forall>(p, runs) \<in> set d. \<forall>run \<in> set runs. accounted state b' run)))"
  using assms
proof (induction groups arbitrary: n b)
  case (Cons g groups)
  obtain p runs where g: "g = (p, runs)" by fastforce
  obtain r1 n1 b1 where one: "allocate_runs q chs state (prof_memory_mb p) runs (n, b) = (r1, n1, b1)" by (metis prod_cases3)
  note effect = allocate_runs_effect [OF one Cons.prems(2,3)]
  consider e where "r1 = Inl e" | "r1 = Ok ()" "3 \<le> card (ba_no_resources b1) - card (ba_no_resources b)"
    | "r1 = Ok ()" "\<not> 3 \<le> card (ba_no_resources b1) - card (ba_no_resources b)"
    by (cases r1) auto
  then show ?case
  proof cases
    case 1
    then show ?thesis using Cons.prems(1) one effect by (auto simp: g)
  next
    case 2
    then have "r = Ok groups" "b' = b1" using Cons.prems(1) one by (auto simp: g)
    then show ?thesis using effect 2(1) by (auto simp: g intro!: exI [of _ "[(p, runs)]"])
  next
    case 3
    then have "allocate_groups q chs state groups (n1, b1) = (r, n', b')" using Cons.prems(1) one by (simp add: g Let_def)
    note rest = Cons.IH [OF this _ Cons.prems(3)]
    have ok: "batch_ok b1" "covers b b1" "\<forall>run \<in> set runs. accounted state b1 run" using effect 3(1) by auto
    have "\<exists>d. g # groups = d @ skipped \<and> (\<forall>(p, runs) \<in> set d. \<forall>run \<in> set runs. accounted state b' run)"
      if finished: "r = Ok skipped" for skipped
    proof -
      obtain d where d: "groups = d @ skipped" "\<forall>(p, runs) \<in> set d. \<forall>run \<in> set runs. accounted state b' run"
        using rest [OF ok(1), THEN conjunct2, THEN conjunct2, rule_format, OF finished] by blast
      have "\<forall>run \<in> set runs. accounted state b' run" using ok(3) rest [OF ok(1)] accounted_covers by blast
      then show ?thesis using d by (intro exI [of _ "g # d"]) (simp add: g)
    qed
    then show ?thesis using rest [OF ok(1)] covers_trans [OF ok(2)] by blast
  qed
qed auto

lemma block_skipped_run_effect:
  assumes "block_skipped_run ch state memory_mb run st = st'"
  shows "tracked (ba_scheduler (snd st')) = insert (run_key run) (tracked (ba_scheduler (snd st)))"
    "ba_update (snd st') = ba_update (snd st)" "ba_terminal (snd st') = ba_terminal (snd st)"
    "ba_ctx_cache (snd st') = ba_ctx_cache (snd st)"
  unfolding assms [symmetric] by (simp_all add: block_skipped_run_def Let_def split: prod.split option.split)

lemma block_skipped_groups_effect:
  "tracked (ba_scheduler (block_skipped_groups ch state groups b)) =
     tracked (ba_scheduler b) \<union> run_key ` (\<Union>(p, runs) \<in> set groups. set runs)"
  "ba_update (block_skipped_groups ch state groups b) = ba_update b"
  "ba_terminal (block_skipped_groups ch state groups b) = ba_terminal b"
  "ba_ctx_cache (block_skipped_groups ch state groups b) = ba_ctx_cache b"
proof -
  let ?f = "\<lambda>(profile, runs). fold (block_skipped_run ch state (prof_memory_mb profile)) runs"
  have runs: "tracked (ba_scheduler (snd (fold (block_skipped_run ch state m) runs st))) =
      tracked (ba_scheduler (snd st)) \<union> run_key ` set runs \<and>
      ba_update (snd (fold (block_skipped_run ch state m) runs st)) = ba_update (snd st) \<and>
      ba_terminal (snd (fold (block_skipped_run ch state m) runs st)) = ba_terminal (snd st) \<and>
      ba_ctx_cache (snd (fold (block_skipped_run ch state m) runs st)) = ba_ctx_cache (snd st)" for m runs st
    by (induction runs arbitrary: st) (auto simp: block_skipped_run_effect)
  have "tracked (ba_scheduler (snd (fold ?f groups st))) =
      tracked (ba_scheduler (snd st)) \<union> run_key ` (\<Union>(p, runs) \<in> set groups. set runs) \<and>
      ba_update (snd (fold ?f groups st)) = ba_update (snd st) \<and>
      ba_terminal (snd (fold ?f groups st)) = ba_terminal (snd st) \<and>
      ba_ctx_cache (snd (fold ?f groups st)) = ba_ctx_cache (snd st)" for st
    by (induction groups arbitrary: st) (auto simp: runs)
  from this [of "(Map.empty, b)"] show
    "tracked (ba_scheduler (block_skipped_groups ch state groups b)) =
       tracked (ba_scheduler b) \<union> run_key ` (\<Union>(p, runs) \<in> set groups. set runs)"
    "ba_update (block_skipped_groups ch state groups b) = ba_update b"
    "ba_terminal (block_skipped_groups ch state groups b) = ba_terminal b"
    "ba_ctx_cache (block_skipped_groups ch state groups b) = ba_ctx_cache b"
    by (simp_all add: block_skipped_groups_def)
qed

text \<open>Grouping loses no run.\<close>

definition grouped :: "(resource_profile \<rightharpoonup> function_run list) \<times> function_run list \<Rightarrow> function_run set" where
  "grouped st = {run. (\<exists>p rs. fst st p = Some rs \<and> run \<in> set rs) \<or> run \<in> set (snd st)}"

lemma grouped_fold: "grouped (fold (group_runs profiles) runs st) = grouped st \<union> set runs"
proof (induction runs arbitrary: st)
  case (Cons run runs)
  have "x \<in> grouped (group_runs profiles run st) \<longleftrightarrow> x = run \<or> x \<in> grouped st" for x
  proof (cases "\<exists>p. profiles (uri_from_run run) = Some (Some p)")
    case True
    then obtain p where p: "profiles (uri_from_run run) = Some (Some p)" by blast
    have "x \<in> grouped (group_runs profiles run st) \<longleftrightarrow> (\<exists>q qs. q \<noteq> p \<and> fst st q = Some qs \<and> x \<in> set qs) \<or>
        x \<in> set (unwrap_or (fst st p) []) \<or> x = run \<or> x \<in> set (snd st)"
      using p by (auto simp: grouped_def group_runs_def)
    moreover have "(\<exists>q qs. fst st q = Some qs \<and> x \<in> set qs) \<longleftrightarrow>
        (\<exists>q qs. q \<noteq> p \<and> fst st q = Some qs \<and> x \<in> set qs) \<or> x \<in> set (unwrap_or (fst st p) [])"
      by (cases "fst st p") (simp, metis option.distinct(1), simp, metis option.inject)
    ultimately show ?thesis by (auto simp: grouped_def)
  next
    case False
    then have "group_runs profiles run st = (fst st, snd st @ [run])"
      by (auto simp: group_runs_def split: option.split)
    then show ?thesis by (auto simp: grouped_def)
  qed
  then have "grouped (group_runs profiles run st) = insert run (grouped st)" by blast
  then show ?case by (simp add: Cons.IH)
qed simp

lemma finite_groups:
  "finite (dom (fst st)) \<Longrightarrow> finite (dom (fst (fold (group_runs profiles) runs st)))"
proof (induction runs arbitrary: st)
  case (Cons run runs)
  have "finite (dom (fst (group_runs profiles run st)))"
    using Cons.prems by (auto simp: group_runs_def split: option.split)
  then show ?case by (simp add: Cons.IH)
qed simp

section \<open>Properties\<close>

text \<open>Every run escapes when there is no executor.\<close>

lemma tracked_fold_escaped: "tracked (fold (block_escaped state) runs s) = tracked s \<union> run_key ` set runs"
  by (induction runs arbitrary: s) (auto simp: block_escaped_def)

lemma allocate_function_runs_accounted:
  assumes ordP: "enumerates ordP" and keyed: "keyed_requests state"
    and ok: "allocate_function_runs q chs ordP state runs cache s = (Ok u, cache', s')"
    and run: "run \<in> set (if cs_executors s = Map.empty then runs else take max_batch runs)"
  shows "run_key run \<in> tracked s' \<union> allocated_keys u \<or> finished_in u (request_key_of_run run) \<or>
    ims_request_ctx state (request_key_of_run run) = None"
proof (cases "dom (cs_executors s) = {}")
  case True
  then have "s' = fold (block_escaped state) runs s" using ok by (simp add: allocate_function_runs_def)
  then show ?thesis using run True by (auto simp: tracked_fold_escaped)
next
  case False
  let ?capped = "take max_batch runs"
  have run: "run \<in> set ?capped" using run False by simp
  let ?profiles = "fold (add_profile state) ?capped Map.empty"
  obtain groups fallback where grp: "fold (group_runs ?profiles) ?capped (Map.empty, []) = (groups, fallback)" by fastforce
  define sorted where "sorted = sort_key (profile_sort_key \<circ> fst) (map (\<lambda>p. (p, the (groups p))) (ordP (dom groups)))"
  define b where "b = \<lparr>ba_update = default_update, ba_scheduler = s, ba_cache = cache, ba_no_resources = {},
    ba_ctx_cache = Map.empty, ba_terminal = {}\<rparr>"
  have b: "batch_ok b" by (simp add: batch_ok_def b_def)
  obtain r1 n1 b1 where g: "allocate_groups q chs state sorted (0, b) = (r1, n1, b1)" by (rule prod_cases3)
  note G = allocate_groups_effect [OF g b keyed]
  obtain skipped where r1: "r1 = Ok skipped"
    using ok False by (cases r1) (simp_all add: allocate_function_runs_def grp Let_def g [unfolded sorted_def b_def])
  let ?b2 = "block_skipped_groups (ac_create (chs n1)) state skipped b1"
  note B = block_skipped_groups_effect [of "ac_create (chs n1)" state skipped b1]
  obtain r3 n3 b3 where f: "allocate_runs q chs state 0 fallback (n1, ?b2) = (r3, n3, b3)" by (rule prod_cases3)
  have b2: "batch_ok ?b2" using G by (simp add: batch_ok_def B)
  note F = allocate_runs_effect [OF f b2 keyed]
  have fin: "r3 = Ok () \<and> u = ba_update b3 \<and> s' = ba_scheduler b3"
    using ok False by (cases r3) (simp_all add: allocate_function_runs_def grp Let_def g [unfolded sorted_def b_def] r1 f)
  obtain d where d: "sorted = d @ skipped" "\<forall>(p, runs) \<in> set d. \<forall>run \<in> set runs. accounted state b1 run"
    using G [THEN conjunct2, THEN conjunct2, rule_format, OF r1] by blast
  have "finite (dom groups)" using finite_groups [of "(Map.empty, [])" ?profiles ?capped] by (simp add: grp)
  then have ord: "set (ordP (dom groups)) = dom groups" using enumeratesD [OF ordP] by simp
  have "run \<in> grouped (groups, fallback)" using grouped_fold [of ?profiles ?capped "(Map.empty, [])"] run grp
    by (simp add: grouped_def)
  then consider p where "p \<in> dom groups" "run \<in> set (the (groups p))" | "run \<in> set fallback"
    by (fastforce simp: grouped_def)
  then have "accounted state b3 run"
  proof cases
    case 1
    then have "(p, the (groups p)) \<in> set sorted" using ord by (simp add: sorted_def)
    then consider "(p, the (groups p)) \<in> set d" | "(p, the (groups p)) \<in> set skipped" unfolding d(1) by auto
    then have "accounted state ?b2 run"
    proof cases
      case a: 1
      then have "accounted state b1 run" using d(2) 1(2) by blast
      then show ?thesis by (auto simp: accounted_def B)
    next
      case 2
      then show ?thesis using 1(2) by (auto simp: accounted_def B)
    qed
    then show ?thesis using F accounted_covers by blast
  next
    case 2
    then show ?thesis using F fin by blast
  qed
  then show ?thesis using F fin by (auto simp: accounted_def batch_ok_def)
qed

text \<open>
  C13: no run of a batch is forgotten.  When the allocation of a batch returns an update, every one of
  its runs up to the cap of 10,000 is accounted for: it has a new allocation, or it waits in the
  tracker of blocked work, or the outcome of its request is decided in the update, or its request
  does not exist.  While the scheduler has no executor the cap does not apply, and the runs past it
  are accounted for as well.  With an executor they play no part: the result is that of the batch
  cut at the cap.
\<close>

theorem no_run_forgotten:
  assumes "enumerates ordP" "keyed_requests state"
    and "allocate_function_runs q chs ordP state runs cache s = (Ok u, cache', s')"
  shows "(\<forall>run \<in> set (if cs_executors s = Map.empty then runs else take max_batch runs).
      run_key run \<in> dom (bx_blocked (bt_function_runs (cs_blocked_work s'))) \<or>
      (\<exists>al \<in> set (su_new_allocations u). function_run_key_of_allocation al = run_key run) \<or>
      (\<exists>ctx. su_updated_request_states u (request_key_of_run run) = Some ctx \<and> req_outcome ctx \<noteq> None) \<or>
      ims_request_ctx state (request_key_of_run run) = None) \<and>
    (cs_executors s \<noteq> Map.empty \<longrightarrow>
      allocate_function_runs q chs ordP state (take max_batch runs) cache s = (Ok u, cache', s'))"
proof (intro conjI ballI impI)
  fix run assume "run \<in> set (if cs_executors s = Map.empty then runs else take max_batch runs)"
  from allocate_function_runs_accounted [OF assms this]
  show "run_key run \<in> dom (bx_blocked (bt_function_runs (cs_blocked_work s'))) \<or>
      (\<exists>al \<in> set (su_new_allocations u). function_run_key_of_allocation al = run_key run) \<or>
      (\<exists>ctx. su_updated_request_states u (request_key_of_run run) = Some ctx \<and> req_outcome ctx \<noteq> None) \<or>
      ims_request_ctx state (request_key_of_run run) = None"
    by (auto simp: tracked_def allocated_keys_def finished_in_def split: option.splits)
next
  assume "cs_executors s \<noteq> Map.empty"
  then have "dom (cs_executors s) \<noteq> {}" by simp
  with assms(3) show "allocate_function_runs q chs ordP state (take max_batch runs) cache s = (Ok u, cache', s')"
    by (simp add: allocate_function_runs_def)
qed

text \<open>The least loaded of the containers with room.\<close>

lemma min_by_key_None: "min_by_key key xs = None \<longleftrightarrow> xs = []"
  by (cases xs) (auto split: option.split)

lemma min_by_key_Some: "min_by_key key xs = Some x \<Longrightarrow> x \<in> set xs \<and> (\<forall>y \<in> set xs. key x \<le> key y)"
  by (induction xs arbitrary: x) (auto split: option.splits if_splits simp: min_by_key_None)

lemma set_map_filter: "set (List.map_filter f xs) = {y. \<exists>x \<in> set xs. f x = Some y}"
  by (force simp: List.map_filter_def)

lemma find_available_container_correct:
  assumes "enumerates ord" "finite (idx_get (cs_containers_by_function_uri s) uri)"
  shows "case find_available_container ord q s uri of
      Some target \<Rightarrow> (\<exists>cid c. cid \<in> idx_get (cs_containers_by_function_uri s) uri \<and>
        cs_function_containers s cid = Some c \<and> has_room q s c \<and> target = target_of c \<and>
        (\<forall>cid' c'. cid' \<in> idx_get (cs_containers_by_function_uri s) uri \<longrightarrow>
           cs_function_containers s cid' = Some c' \<longrightarrow> has_room q s c' \<longrightarrow> card (csm_allocations c) \<le> card (csm_allocations c')))
    | None \<Rightarrow> (\<forall>cid' c'. cid' \<in> idx_get (cs_containers_by_function_uri s) uri \<longrightarrow>
           cs_function_containers s cid' = Some c' \<longrightarrow> \<not> has_room q s c')"
proof (cases "cs_containers_by_function_uri s uri")
  case None
  then show ?thesis by (simp add: find_available_container_def idx_get_def)
next
  case (Some ids)
  let ?xs = "filter (has_room q s) (List.map_filter (cs_function_containers s) (ord ids))"
  have "set (ord ids) = ids" using enumeratesD [OF assms(1)] assms(2) Some by (simp add: idx_get_def)
  then have xs: "set ?xs = {c. has_room q s c \<and> (\<exists>cid \<in> idx_get (cs_containers_by_function_uri s) uri. cs_function_containers s cid = Some c)}"
    using Some by (auto simp: set_map_filter idx_get_def)
  have found: "find_available_container ord q s uri = map_option target_of (min_by_key (\<lambda>c. card (csm_allocations c)) ?xs)"
    by (simp add: find_available_container_def Some)
  show ?thesis
  proof (cases "min_by_key (\<lambda>c. card (csm_allocations c)) ?xs")
    case None
    then have "set ?xs = {}" by (simp add: min_by_key_None)
    then show ?thesis using xs None by (auto simp: found)
  next
    case 2: (Some c)
    from min_by_key_Some [OF 2] show ?thesis unfolding xs by (auto simp: found 2)
  qed
qed

text \<open>
  C14: an allocation goes to the least loaded container of its function that has room, and does not
  fill it beyond its capacity.  When a container of the function has room, no container is created
  and no executor changes: the run gets one allocation on a live container of a live executor that
  has no more allocations than any other with room; that container alone changes, its allocations
  stay within the queue size times its concurrency, and the run is running in its request.
\<close>

theorem create_allocation_least_loaded:
  assumes ord: "enumerates (ac_containers ch)"
    and fin: "finite (idx_get (cs_containers_by_function_uri s) (uri_from_run run))"
    and ids: "\<forall>cid c. cs_function_containers s cid = Some c \<longrightarrow> ct_id (csm_function_container c) = cid"
    and room: "\<exists>cid c. cid \<in> idx_get (cs_containers_by_function_uri s) (uri_from_run run) \<and>
      cs_function_containers s cid = Some c \<and> has_room q s c"
  shows "\<exists>cid c c' u ctx' s'. create_allocation q ch state run ctx cache s = (Ok u, ctx', cache, s') \<and>
    cid \<in> idx_get (cs_containers_by_function_uri s) (uri_from_run run) \<and>
    cs_function_containers s cid = Some c \<and> has_room q s c \<and>
    (\<forall>cid1 c1. cid1 \<in> idx_get (cs_containers_by_function_uri s) (uri_from_run run) \<longrightarrow>
       cs_function_containers s cid1 = Some c1 \<longrightarrow> has_room q s c1 \<longrightarrow> card (csm_allocations c) \<le> card (csm_allocations c1)) \<and>
    su_new_allocations u = [new_allocation ch ctx run (target_of c)] \<and>
    c' = c\<lparr>csm_allocations := insert (ac_fresh_id ch) (csm_allocations c), csm_idle_since := None\<rparr> \<and>
    card (csm_allocations c') \<le> unat (q * ct_max_concurrency (csm_function_container c')) \<and>
    cs_function_containers s' = (cs_function_containers s)(cid \<mapsto> c') \<and>
    cs_executor_states s' = cs_executor_states s \<and>
    req_function_runs ctx' (run_id run) = Some (run\<lparr>run_status := Running (ac_fresh_id ch)\<rparr>)"
proof -
  let ?ids = "idx_get (cs_containers_by_function_uri s) (uri_from_run run)"
  note found = find_available_container_correct [OF ord fin, of q]
  obtain target where t: "find_available_container (ac_containers ch) q s (uri_from_run run) = Some target"
    using found room by (cases "find_available_container (ac_containers ch) q s (uri_from_run run)") auto
  then obtain cid c where c: "cid \<in> ?ids" "cs_function_containers s cid = Some c" "has_room q s c" "target = target_of c"
    and least: "\<forall>cid1 c1. cid1 \<in> ?ids \<longrightarrow> cs_function_containers s cid1 = Some c1 \<longrightarrow> has_room q s c1 \<longrightarrow>
      card (csm_allocations c) \<le> card (csm_allocations c1)"
    using found by auto
  let ?c' = "c\<lparr>csm_allocations := insert (ac_fresh_id ch) (csm_allocations c), csm_idle_since := None\<rparr>"
  have sel: "select_target q ch state run cache s = (Ok (Some target, default_update), cache, s)"
    by (simp add: select_target_def t)
  obtain u ctx' s' where place: "place_allocation ch run target ctx default_update s = (u, ctx', s')" by (rule prod_cases3)
  have id: "target_container_id target = cid" using ids c(2,4) by (simp add: target_of_def)
  have "cs_function_containers s' = (cs_function_containers s)(cid \<mapsto> ?c')" "cs_executor_states s' = cs_executor_states s"
    "req_function_runs ctx' (run_id run) = Some (run\<lparr>run_status := Running (ac_fresh_id ch)\<rparr>)"
    using place c(2) id
    by (auto simp: place_allocation_def take_allocation_def new_allocation_def add_function_run_def add_request_state_def Let_def)
  moreover have "su_new_allocations u = [new_allocation ch ctx run (target_of c)]"
    using place_allocation_effect(1) [OF place] c(4) by (simp add: default_update_def)
  moreover have "card (csm_allocations ?c') \<le> unat (q * ct_max_concurrency (csm_function_container ?c'))"
  proof -
    have "card (csm_allocations c) < unat (q * ct_max_concurrency (csm_function_container c))"
      using c(3) by (auto simp: has_room_def Let_def split: option.splits if_splits)
    moreover have "card (insert (ac_fresh_id ch) (csm_allocations c)) \<le> Suc (card (csm_allocations c))"
      by (rule card_insert_le_m1) simp_all
    ultimately show ?thesis by simp
  qed
  moreover have "create_allocation q ch state run ctx cache s = (Ok u, ctx', cache, s')"
    by (simp add: create_allocation_def sel place)
  ultimately show ?thesis using c least by blast
qed

section \<open>The idle index and allocations\<close>

text \<open>
  C36: a reused container stays in the idle index.  An allocation on an idle container clears the
  time since which it is idle in the container itself and leaves the index of idle containers as it
  is; the index is then wrong, and updating the indexes of the container later, also when it ends,
  does not remove the entry.
\<close>

theorem reused_container_stays_idle:
  assumes ok: "containers_ok s" and c: "live s cid = Some c" "csm_container_type c = FunctionContainer"
    "csm_idle_since c = Some t" and target: "target_container_id target = cid"
    and place: "place_allocation ch run target ctx u s = (u', ctx', s')"
  shows "(t, cid) \<in> cs_idle_containers s' \<and> \<not> containers_ok s' \<and>
    (\<forall>meta. (t, cid) \<in> cs_idle_containers (update_container_indices cid meta s'))"
proof -
  have fc: "cs_function_containers s cid = Some c" "\<not> desired_terminated c"
    using c(1) by (auto simp: live_def split: option.splits if_splits)
  have "(t, cid) \<in> cs_idle_containers s"
    using ok c by (auto simp: containers_ok_def indexed_ok_def reapable_since_def)
  moreover have s': "cs_idle_containers s' = cs_idle_containers s"
    "cs_function_containers s' = (cs_function_containers s)(cid \<mapsto>
       c\<lparr>csm_allocations := insert (ac_fresh_id ch) (csm_allocations c), csm_idle_since := None\<rparr>)"
    using place fc(1) target by (auto simp: place_allocation_def take_allocation_def new_allocation_def Let_def split: prod.splits)
  ultimately have idle: "(t, cid) \<in> cs_idle_containers s'" by simp
  have "\<not> indexed_ok s' cid"
    using idle fc(2) by (auto simp: indexed_ok_def live_def s' reapable_since_def desired_terminated_def)
  then have "\<not> containers_ok s'" by (auto simp: containers_ok_def)
  moreover have "(t, cid) \<in> cs_idle_containers (update_container_indices cid meta s')" for meta
    using idle
    by (simp add: update_container_indices_def s' remove_idle_def Let_def mark_pool_dirty_def remove_from_uri_index_def
        remove_from_pool_index_def remove_from_warm_index_def split: option.split)
  ultimately show ?thesis using idle by blast
qed

section \<open>Examples\<close>

text \<open>One idle container of the function on an executor, and a request with a pending run of it.\<close>

definition example_warm :: container_server_metadata where
  "example_warm = csm_new 5 ''e1'' (function_container ''c1'' ''ns'' ''app'' ''1'' example_retry_function) CS_Running"

definition example_pooled :: container_scheduler where
  "example_pooled = (update_container_indices ''c1'' example_warm (cs_new [] []))
     \<lparr>cs_executors := [''e1'' \<mapsto> example_executor ''e1'' None]\<rparr>"

definition example_pending :: in_memory_state where
  "example_pending = example_base\<lparr>ims_request_ctx := [''ns|app|r1'' \<mapsto> example_ctx example_run]\<rparr>"

definition example_alloc_choices :: alloc_choices where
  "example_alloc_choices = \<lparr>ac_create = example_choices, ac_containers = sorted_list_of_set,
     ac_executors = sorted_list_of_set, ac_fresh_id = ''alloc'', ac_now_ms = 7\<rparr>"

lemma example_queued_run_fields:
  "uri_from_run example_run = \<lparr>uri_namespace = ''ns'', uri_application = ''app'', uri_function = ''f'', uri_version = ''1''\<rparr>"
  "run_key example_run = ''ns|app|r1|call''" "request_key_of_run example_run = ''ns|app|r1''" "run_id example_run = ''call''"
  by (simp_all add: example_run_defs uri_from_run_def run_key_def request_key_of_run_def)

lemma example_warm_fields:
  "csm_uri example_warm = uri_from_run example_run" "\<not> desired_terminated example_warm"
  "csm_executor_id example_warm = ''e1''" "csm_allocations example_warm = {}" "csm_idle_since example_warm = Some 5"
  "csm_container_type example_warm = FunctionContainer" "ct_id (csm_function_container example_warm) = ''c1''"
  "ct_max_concurrency (csm_function_container example_warm) = 1"
  by (simp_all add: example_warm_def csm_new_def function_container_def container_builder_def csm_uri_def
      uri_from_container_def example_queued_run_fields desired_terminated_def example_retry_function_def)

lemma example_pooled_fields:
  "cs_function_containers example_pooled = [''c1'' \<mapsto> example_warm]"
  "cs_containers_by_function_uri example_pooled = [uri_from_run example_run \<mapsto> {''c1''}]"
  "cs_executors example_pooled = [''e1'' \<mapsto> example_executor ''e1'' None]"
  "cs_executor_states example_pooled = Map.empty"
  by (simp_all add: example_pooled_def update_container_indices_fields example_warm_fields idx_insert_def)
    (simp_all add: cs_new_def update_container_indices_def Let_def remove_idle_def mark_pool_dirty_def
      example_warm_fields split: option.split)

lemma example_has_room: "has_room 2 example_pooled example_warm"
  by (simp add: has_room_def example_pooled_fields example_warm_fields example_executor_def)

theorem create_allocation_least_loaded_witness:
  "\<exists>u ctx' s'. create_allocation 2 example_alloc_choices example_pending example_run (example_ctx example_run) Map.empty
      example_pooled = (Ok u, ctx', Map.empty, s') \<and>
     map (target_container_id \<circ> al_target) (su_new_allocations u) = [''c1'']"
proof -
  have 1: "enumerates (ac_containers example_alloc_choices)"
    by (simp add: example_alloc_choices_def enumerates_sorted_list_of_set)
  have 2: "finite (idx_get (cs_containers_by_function_uri example_pooled) (uri_from_run example_run))"
    by (simp add: example_pooled_fields idx_get_def)
  have 3: "\<forall>cid c. cs_function_containers example_pooled cid = Some c \<longrightarrow> ct_id (csm_function_container c) = cid"
    by (simp add: example_pooled_fields example_warm_fields)
  have 4: "\<exists>cid c. cid \<in> idx_get (cs_containers_by_function_uri example_pooled) (uri_from_run example_run) \<and>
      cs_function_containers example_pooled cid = Some c \<and> has_room 2 example_pooled c"
    by (simp add: example_pooled_fields idx_get_def example_has_room)
  obtain cid c u ctx' s' where r: "create_allocation 2 example_alloc_choices example_pending example_run
        (example_ctx example_run) Map.empty example_pooled = (Ok u, ctx', Map.empty, s')"
      "cs_function_containers example_pooled cid = Some c"
      "su_new_allocations u = [new_allocation example_alloc_choices (example_ctx example_run) example_run (target_of c)]"
    using create_allocation_least_loaded [OF 1 2 3 4, of example_pending "example_ctx example_run" Map.empty] by blast
  then have "c = example_warm" by (simp add: example_pooled_fields split: if_splits)
  then show ?thesis using r(1,3) by (simp add: new_allocation_def target_of_def example_warm_fields)
qed

theorem reused_container_stays_idle_witness:
  "\<exists>u' ctx' s'. place_allocation example_alloc_choices example_run (target_of example_warm) (example_ctx example_run)
      default_update example_pooled = (u', ctx', s') \<and> (5, ''c1'') \<in> cs_idle_containers s' \<and> \<not> containers_ok s'"
proof -
  obtain u' ctx' s' where place: "place_allocation example_alloc_choices example_run (target_of example_warm)
      (example_ctx example_run) default_update example_pooled = (u', ctx', s')" by (rule prod_cases3)
  have "containers_ok (update_container_indices ''c1'' example_warm (cs_new [] []))"
    by (rule containers_ok_update_container_indices [OF containers_ok_new]) (simp add: same_identity_def cs_new_def)
  then have "containers_ok example_pooled"
    using containers_ok_view [of example_pooled "update_container_indices ''c1'' example_warm (cs_new [] [])"]
    by (simp add: container_view_def example_pooled_def)
  moreover have "live example_pooled ''c1'' = Some example_warm"
    by (simp add: live_def example_pooled_fields example_warm_fields)
  moreover have "target_container_id (target_of example_warm) = ''c1''" by (simp add: target_of_def example_warm_fields)
  ultimately show ?thesis
    using reused_container_stays_idle [OF _ _ _ _ _ place, of "''c1''" example_warm 5] place
    by (simp add: example_warm_fields)
qed

lemma example_pending_function: "run_function example_pending example_run = Some example_retry_function"
  by (simp add: run_function_def get_existing_application_version_def example_pending_def example_base_fields
      key_application_version_def example_run_defs)

theorem no_run_forgotten_witness:
  "\<exists>u cache' s'. allocate_function_runs 2 (\<lambda>_. example_alloc_choices) sorted_list_of_set example_pending [example_run]
      Map.empty example_pooled = (Ok u, cache', s') \<and>
     (run_key example_run \<in> dom (bx_blocked (bt_function_runs (cs_blocked_work s'))) \<or>
      (\<exists>al \<in> set (su_new_allocations u). function_run_key_of_allocation al = run_key example_run) \<or>
      (\<exists>ctx. su_updated_request_states u ''ns|app|r1'' = Some ctx \<and> req_outcome ctx \<noteq> None))"
proof -
  let ?p = "profile_from_function example_retry_function"
  let ?s = "example_pooled\<lparr>cs_last_placement := None\<rparr>"
  obtain u ctx' s' where place: "place_allocation example_alloc_choices example_run (target_of example_warm)
      (example_ctx example_run) default_update ?s = (u, ctx', s')" by (rule prod_cases3)
  have find: "find_available_container sorted_list_of_set 2 ?s (uri_from_run example_run) = Some (target_of example_warm)"
    using example_has_room by (simp add: find_available_container_def example_pooled_fields List.map_filter_def has_room_def)
  have create: "create_allocation 2 example_alloc_choices example_pending example_run (example_ctx example_run) Map.empty ?s =
      (Ok u, ctx', Map.empty, s')"
    by (simp add: create_allocation_def select_target_def find example_alloc_choices_def place [unfolded example_alloc_choices_def])
  have ctx: "ims_request_ctx example_pending ''ns|app|r1'' = Some (example_ctx example_run)" by (simp add: example_pending_def)
  have "su_new_allocations u \<noteq> []" using place_allocation_effect(1) [OF place] by simp
  then have "\<exists>u cache' s'. allocate_function_runs 2 (\<lambda>_. example_alloc_choices) sorted_list_of_set example_pending [example_run]
      Map.empty example_pooled = (Ok u, cache', s')"
    by (simp add: allocate_function_runs_def example_pooled_fields max_batch_def add_profile_def example_pending_function
        group_runs_def try_allocate_single_run_def allocate_with_ctx_def take_last_placement_def create
        example_queued_run_fields(3) ctx Let_def block_skipped_groups_def)
  then obtain u cache' s' where r: "allocate_function_runs 2 (\<lambda>_. example_alloc_choices) sorted_list_of_set example_pending
      [example_run] Map.empty example_pooled = (Ok u, cache', s')" by blast
  have 1: "keyed_requests example_pending"
    by (simp add: keyed_requests_def example_pending_def req_key_def example_ctx_def)
  have 2: "ims_request_ctx example_pending ''ns|app|r1'' \<noteq> None"
    "example_run \<in> set (if cs_executors example_pooled = Map.empty then [example_run] else take max_batch [example_run])"
    by (simp_all add: example_pending_def max_batch_def)
  from no_run_forgotten [OF enumerates_sorted_list_of_set 1 r, THEN conjunct1, rule_format, OF 2(2)] 2(1) r show ?thesis
    by (auto simp: example_queued_run_fields(3))
qed

end
