(* ===== verification/Buffers.thy ===== *)
theory Buffers
  imports Allocator SchedulerRuns
begin

text \<open>
  Reconciling the pools (\<open>processor/buffer_reconciler.rs\<close>): every dirty pool is brought to its minimum,
  the buffers are filled round-robin, excess idle containers are trimmed, blocked pools are probed, and
  what is still missing is reported as a deficit.

  The two loops that fill buffers run until nothing can be placed; they are partial functions whose value
  is \<open>None\<close> when they do not end.
\<close>

declare split_paired_All [simp del] split_paired_Ex [simp del]

section \<open>Pool identities\<close>

text \<open>\<open>s.split_once(c)\<close> and \<open>s.splitn(n, c)\<close>\<close>

fun split_once :: "char \<Rightarrow> string \<Rightarrow> (string \<times> string) option" where
  "split_once c [] = None"
| "split_once c (x # xs) =
     (if x = c then Some ([], xs) else map_option (\<lambda>(a, b). (x # a, b)) (split_once c xs))"

fun splitn :: "nat \<Rightarrow> char \<Rightarrow> string \<Rightarrow> string list" where
  "splitn 0 c s = []"
| "splitn (Suc 0) c s = [s]"
| "splitn (Suc (Suc n)) c s =
     (case split_once c s of
        None \<Rightarrow> [s]
      | Some (a, rest) \<Rightarrow> a # splitn (Suc n) c rest)"

definition parse_function_pool_uri :: "container_pool \<Rightarrow> function_uri option" where
  "parse_function_pool_uri pool =
     (case splitn 3 CHR ''|'' (pool_id pool) of
        [application, function_name, version] \<Rightarrow>
          Some \<lparr>uri_namespace = pool_namespace pool, uri_application = application,
                uri_function = function_name, uri_version = version\<rparr>
      | _ \<Rightarrow> None)"

section \<open>Choices and state\<close>

text \<open>
  One choice for each attempt to create a container, and the iteration orders of the hash containers.
\<close>

record pool_choices =
  pc_create :: "nat \<Rightarrow> choices"
  pc_containers :: "container_id set \<Rightarrow> container_id list"
  pc_executors :: "executor_id set \<Rightarrow> executor_id list"
  pc_pools :: "container_pool_key set \<Rightarrow> container_pool_key list"

record recon =
  rc_update :: scheduler_update_request
  rc_scheduler :: container_scheduler
  rc_cache :: feasibility_cache
  rc_attempts :: nat

section \<open>Counting and creating\<close>

definition pool_counts :: "pool_choices \<Rightarrow> container_pool \<Rightarrow> container_scheduler \<Rightarrow> u32 \<times> u32" where
  "pool_counts pc pool scheduler =
     (if is_function_pool pool
      then (case parse_function_pool_uri pool of
              Some uri \<Rightarrow> count_active_idle_containers (pc_containers pc) scheduler uri
            | None \<Rightarrow> (0, 0))
      else count_pool_containers scheduler (pool_key pool))"

definition create_for_pool ::
  "choices \<Rightarrow> in_memory_state \<Rightarrow> container_pool \<Rightarrow> feasibility_cache \<Rightarrow> container_scheduler \<Rightarrow>
   (scheduler_error + scheduler_update_request option) \<times> feasibility_cache \<times> container_scheduler" where
  "create_for_pool ch state pool cache scheduler =
     (if is_function_pool pool
      then
        (case parse_function_pool_uri pool of
           None \<Rightarrow> (Ok None, cache, scheduler)
         | Some uri \<Rightarrow>
             (case ims_applications state (uri_namespace uri @ ''|'' @ uri_application uri) of
                None \<Rightarrow> (Ok None, cache, scheduler)
              | Some app \<Rightarrow>
                  if as_disabled (app_state app) \<noteq> None then (Ok None, cache, scheduler)
                  else
                    (case app_functions app (uri_function uri) of
                       None \<Rightarrow> (Ok None, cache, scheduler)
                     | Some f \<Rightarrow>
                         create_container_for_function ch (uri_namespace uri) (uri_application uri) (uri_version uri)
                           f (app_state app) cache scheduler)))
      else create_container_for_pool ch pool cache scheduler)"

definition try_place_container ::
  "pool_choices \<Rightarrow> in_memory_state \<Rightarrow> container_pool \<Rightarrow> recon \<Rightarrow> (scheduler_error + bool) \<times> recon" where
  "try_place_container pc state pool r =
     (let (result, cache, scheduler) =
            create_for_pool (pc_create pc (rc_attempts r)) state pool (rc_cache r) (rc_scheduler r);
          r = r\<lparr>rc_cache := cache, rc_scheduler := scheduler, rc_attempts := rc_attempts r + 1\<rparr>
      in case result of
           Inr (Some u) \<Rightarrow>
             (let placed = (\<exists>c \<in> ran (su_containers u). \<not> desired_terminated c);
                  scheduler = apply_container_update (pc_containers pc) (pc_executors pc) u (rc_scheduler r)
              in (Ok placed, r\<lparr>rc_scheduler := scheduler, rc_update := extend_update (rc_update r) u\<rparr>))
         | Inr None \<Rightarrow> (Ok False, r)
         | Inl e \<Rightarrow> (Err e, r))"

section \<open>Minimum\<close>

definition pool_max :: "container_pool \<Rightarrow> u32" where
  "pool_max pool = unwrap_or (pool_max_containers pool) u32_max"

fun place_needed ::
  "pool_choices \<Rightarrow> in_memory_state \<Rightarrow> container_pool \<Rightarrow> nat \<Rightarrow> recon \<Rightarrow> bool \<times> recon" where
  "place_needed pc state pool 0 r = (True, r)"
| "place_needed pc state pool (Suc needed) r =
     (case try_place_container pc state pool r of
        (Inr True, r) \<Rightarrow> place_needed pc state pool needed r
      | (Inr False, r) \<Rightarrow> (False, r)
      | (Inl e, r) \<Rightarrow> (False, r))"

definition ensure_pool_min ::
  "pool_choices \<Rightarrow> in_memory_state \<Rightarrow> container_pool \<Rightarrow> recon \<Rightarrow> bool \<times> recon" where
  "ensure_pool_min pc state pool r =
     (let min_containers = unwrap_or (pool_min_containers pool) 0;
          effective_min = min min_containers (pool_max pool);
          (active, idle) = pool_counts pc pool (rc_scheduler r);
          current = active + idle
      in if effective_min \<le> current then (True, r)
         else place_needed pc state pool (unat (effective_min - current)) r)"

section \<open>Buffers\<close>

definition pool_needs_buffer :: "pool_choices \<Rightarrow> container_pool \<Rightarrow> container_scheduler \<Rightarrow> bool" where
  "pool_needs_buffer pc pool scheduler =
     (let buffer = unwrap_or (pool_buffer_containers pool) 0;
          (active, idle) = pool_counts pc pool scheduler
      in idle < buffer \<and> active + idle < pool_max pool)"

text \<open>One round of phase 2: at most one container for every pool that is not blocked.\<close>

definition fill_pool ::
  "pool_choices \<Rightarrow> in_memory_state \<Rightarrow> container_pool \<Rightarrow> bool \<times> container_pool_key set \<times> recon \<Rightarrow>
   bool \<times> container_pool_key set \<times> recon" where
  "fill_pool pc state pool st =
     (let (any_created, blocked, r) = st
      in if pool_key pool \<in> blocked then st
         else if \<not> pool_needs_buffer pc pool (rc_scheduler r) then st
         else case try_place_container pc state pool r of
                (Inr True, r) \<Rightarrow> (True, blocked, r)
              | (Inr False, r) \<Rightarrow> (any_created, insert (pool_key pool) blocked, r)
              | (Inl e, r) \<Rightarrow> (any_created, blocked, r))"

partial_function (option) fill_buffers ::
  "pool_choices \<Rightarrow> in_memory_state \<Rightarrow> container_pool list \<Rightarrow> container_pool_key set \<times> recon \<Rightarrow>
   (container_pool_key set \<times> recon) option" where
  "fill_buffers pc state pools st =
     (let (any_created, st) = fold (fill_pool pc state) pools (False, st)
      in if \<not> any_created then Some st else fill_buffers pc state pools st)"

text \<open>The loop of phase 4 for one pool.\<close>

partial_function (option) fill_one ::
  "pool_choices \<Rightarrow> in_memory_state \<Rightarrow> container_pool \<Rightarrow> recon \<Rightarrow> recon option" where
  "fill_one pc state pool r =
     (if \<not> pool_needs_buffer pc pool (rc_scheduler r) then Some r
      else
        (let (result, r) = try_place_container pc state pool r
         in if result = Ok True then fill_one pc state pool r else Some r))"

section \<open>Trimming\<close>

definition trim_idle_containers ::
  "pool_choices \<Rightarrow> container_pool \<Rightarrow> u32 \<Rightarrow> container_scheduler \<Rightarrow> scheduler_update_request \<times> container_scheduler" where
  "trim_idle_containers pc pool count scheduler =
     (let containers =
        (if is_function_pool pool
         then (case parse_function_pool_uri pool of
                 Some uri \<Rightarrow> select_idle_containers (pc_containers pc) scheduler uri count
               | None \<Rightarrow> [])
         else select_warm_pool_containers (pc_containers pc) scheduler (pool_key pool) count)
      in fold (\<lambda>cid (update, scheduler).
             case terminate_container cid scheduler of
               (Some u, scheduler) \<Rightarrow> (extend_update update u, scheduler)
             | (None, scheduler) \<Rightarrow> (update, scheduler))
           containers (default_update, scheduler))"

definition trim_pool_excess :: "pool_choices \<Rightarrow> container_pool \<Rightarrow> recon \<Rightarrow> recon" where
  "trim_pool_excess pc pool r =
     (let min_containers = unwrap_or (pool_min_containers pool) 0;
          (active, idle) = pool_counts pc pool (rc_scheduler r);
          current_total = active + idle;
          target_total = (case pool_buffer_containers pool of
             Some buffer \<Rightarrow> max (active + buffer) min_containers
           | None \<Rightarrow> max current_total min_containers);
          effective_limit = min target_total (pool_max pool)
      in if effective_limit < current_total \<and> 0 < idle
         then
           (let excess = min (current_total - effective_limit) idle;
                (trim_update, scheduler) = trim_idle_containers pc pool excess (rc_scheduler r)
            in r\<lparr>rc_scheduler := scheduler, rc_update := extend_update (rc_update r) trim_update\<rparr>)
         else r)"

section \<open>Deficits\<close>

definition pool_deficit :: "pool_choices \<Rightarrow> container_scheduler \<Rightarrow> container_pool \<Rightarrow> u32" where
  "pool_deficit pc scheduler pool =
     (let min_containers = unwrap_or (pool_min_containers pool) 0;
          (active, idle) = pool_counts pc pool scheduler;
          current_total = active + idle;
          buffer = unwrap_or (pool_buffer_containers pool) 0;
          deficit_target = min (max (active + buffer) min_containers) (pool_max pool)
      in if current_total < deficit_target then deficit_target - current_total else 0)"

definition accumulate_pool_deficit ::
  "pool_choices \<Rightarrow> container_scheduler \<Rightarrow> container_pool \<Rightarrow> histogram \<times> histogram \<Rightarrow> histogram \<times> histogram" where
  "accumulate_pool_deficit pc scheduler pool st =
     (let deficit = pool_deficit pc scheduler pool
      in if 0 < deficit
         then (let profile = profile_from_container_resources (pool_resources pool)
               in if is_function_pool pool then (hist_increment_by profile (ucast deficit) (fst st), snd st)
                  else (fst st, hist_increment_by profile (ucast deficit) (snd st)))
         else st)"

definition accumulate_pool_deficits ::
  "pool_choices \<Rightarrow> container_scheduler \<Rightarrow> container_pool list \<Rightarrow> histogram \<times> histogram \<Rightarrow> histogram \<times> histogram" where
  "accumulate_pool_deficits pc scheduler pools st = fold (accumulate_pool_deficit pc scheduler) pools st"

section \<open>Blocked pools\<close>

text \<open>Phase 4 for one blocked pool.\<close>

definition probe_pool ::
  "pool_choices \<Rightarrow> in_memory_state \<Rightarrow> container_pool_key \<Rightarrow> recon \<Rightarrow> recon option" where
  "probe_pool pc state key r =
     (if key \<notin> cs_blocked_pools (rc_scheduler r) then Some r
      else case get_pool (rc_scheduler r) key of
             None \<Rightarrow>
               Some (r\<lparr>rc_scheduler := (rc_scheduler r)\<lparr>cs_blocked_pools := cs_blocked_pools (rc_scheduler r) - {key}\<rparr>\<rparr>)
           | Some pool \<Rightarrow>
               (case try_place_container pc state pool r of
                  (Inr True, r) \<Rightarrow>
                    (let r = r\<lparr>rc_scheduler := (rc_scheduler r)\<lparr>cs_blocked_pools := cs_blocked_pools (rc_scheduler r) - {key}\<rparr>\<rparr>;
                         (_, r) = ensure_pool_min pc state pool r
                     in fill_one pc state pool r)
                | (_, r) \<Rightarrow> Some r))"

fun probe_pools ::
  "pool_choices \<Rightarrow> in_memory_state \<Rightarrow> container_pool_key list \<Rightarrow> recon \<Rightarrow> recon option" where
  "probe_pools pc state [] r = Some r"
| "probe_pools pc state (key # keys) r =
     (case probe_pool pc state key r of
        None \<Rightarrow> None
      | Some r \<Rightarrow> probe_pools pc state keys r)"

section \<open>Reconciliation\<close>

text \<open>Phase 1.\<close>

definition meet_minimum ::
  "pool_choices \<Rightarrow> in_memory_state \<Rightarrow> container_pool \<Rightarrow> container_pool_key set \<times> recon \<Rightarrow> container_pool_key set \<times> recon" where
  "meet_minimum pc state pool st =
     (let (blocked, r) = st;
          (satisfied, r) = ensure_pool_min pc state pool r
      in (if satisfied then blocked else insert (pool_key pool) blocked, r))"

definition trim_unblocked :: "pool_choices \<Rightarrow> container_pool_key set \<Rightarrow> container_pool \<Rightarrow> recon \<Rightarrow> recon" where
  "trim_unblocked pc blocked pool r = (if pool_key pool \<notin> blocked then trim_pool_excess pc pool r else r)"

text \<open>The end: the deficits of the pools looked at and of the other pools that are still blocked.\<close>

definition report_deficits ::
  "pool_choices \<Rightarrow> container_pool list \<Rightarrow> container_pool_key set \<Rightarrow> recon \<Rightarrow> scheduler_update_request" where
  "report_deficits pc pools newly_blocked r =
     (let scheduler = rc_scheduler r;
          dirty_keys = set (map pool_key pools);
          deficits = accumulate_pool_deficits pc scheduler pools (Map.empty, Map.empty);
          still_blocked = filter (\<lambda>k. k \<notin> dirty_keys) (pc_pools pc (cs_blocked_pools scheduler));
          (fn_deficits, sb_deficits) =
            accumulate_pool_deficits pc scheduler (List.map_filter (get_pool scheduler) still_blocked) deficits
      in (rc_update r)\<lparr>su_function_pool_deficits := Some fn_deficits, su_sandbox_pool_deficits := Some sb_deficits,
           su_newly_blocked_pools := newly_blocked\<rparr>)"

definition reconcile ::
  "pool_choices \<Rightarrow> in_memory_state \<Rightarrow> feasibility_cache \<Rightarrow> container_scheduler \<Rightarrow>
   (scheduler_update_request \<times> feasibility_cache \<times> container_scheduler) option" where
  "reconcile pc state cache scheduler =
     (let (dirty, scheduler) = take_dirty_pools scheduler
      in if dirty = {} \<and> cs_blocked_pools scheduler = {} then Some (default_update, cache, scheduler)
         else
           (let pools = List.map_filter (get_pool scheduler)
                  (filter (\<lambda>key. key \<notin> cs_blocked_pools scheduler) (pc_pools pc dirty));
                r = \<lparr>rc_update = default_update, rc_scheduler = scheduler, rc_cache = cache, rc_attempts = 0\<rparr>;
                (blocked, r) = fold (meet_minimum pc state) pools ({}, r)
            in case fill_buffers pc state pools (blocked, r) of
                 None \<Rightarrow> None
               | Some (blocked, r) \<Rightarrow>
                   (let r = fold (trim_unblocked pc blocked) pools r;
                        r = r\<lparr>rc_scheduler := (rc_scheduler r)
                              \<lparr>cs_blocked_pools := cs_blocked_pools (rc_scheduler r) \<union> blocked\<rparr>\<rparr>
                    in case (if cs_blocked_pools (rc_scheduler r) \<noteq> {} \<and> has_available_capacity (rc_scheduler r)
                             then probe_pools pc state (pc_pools pc (cs_blocked_pools (rc_scheduler r))) r
                             else Some r) of
                         None \<Rightarrow> None
                       | Some r \<Rightarrow> Some (report_deficits pc pools blocked r, rc_cache r, rc_scheduler r))))"

section \<open>Demand held back by pool limits\<close>

definition function_pool_at_max :: "container_scheduler \<Rightarrow> container_pool \<Rightarrow> bool" where
  "function_pool_at_max scheduler pool =
     (if pool_max pool = u32_max then False
      else case parse_function_pool_uri pool of
             None \<Rightarrow> False
           | Some uri \<Rightarrow> pool_max pool \<le> total_containers_for_function scheduler uri)"

definition sandbox_pool_at_max :: "container_scheduler \<Rightarrow> container_pool_key \<Rightarrow> container_pool \<Rightarrow> bool" where
  "sandbox_pool_at_max scheduler key pool =
     (if pool_max pool = u32_max then False else pool_max pool \<le> pool_container_count scheduler key)"

definition blocked_run :: "in_memory_state \<Rightarrow> container_pool_key set \<Rightarrow> function_run_key \<Rightarrow> histogram \<Rightarrow> histogram" where
  "blocked_run indexes at_max key h =
     (case ims_function_runs indexes key of
        None \<Rightarrow> h
      | Some run \<Rightarrow>
          (let pool_key = container_pool_key_new (run_namespace run)
                 (pool_id_for_function (run_application run) (run_name run) (run_version run))
           in if pool_key \<in> at_max
              then (case get_function indexes run of
                      Some f \<Rightarrow> hist_increment (profile_from_function f) h
                    | None \<Rightarrow> h)
              else h))"

definition blocked_sandbox :: "in_memory_state \<Rightarrow> container_pool_key set \<Rightarrow> sandbox_key \<Rightarrow> histogram \<Rightarrow> histogram" where
  "blocked_sandbox indexes at_max key h =
     (case ims_sandboxes indexes key of
        None \<Rightarrow> h
      | Some sandbox \<Rightarrow>
          (case sbx_pool_id sandbox of
             None \<Rightarrow> h
           | Some pid \<Rightarrow>
               if container_pool_key_new (sbx_namespace sandbox) pid \<in> at_max
               then hist_increment (profile_from_container_resources (sbx_resources sandbox)) h
               else h))"

definition compute_blocked_by_pool_max :: "in_memory_state \<Rightarrow> container_scheduler \<Rightarrow> histogram \<times> histogram" where
  "compute_blocked_by_pool_max indexes scheduler =
     (let fn_pools_at_max = {key. \<exists>pool. cs_function_pools scheduler key = Some pool \<and> function_pool_at_max scheduler pool};
          fn_blocked = (if fn_pools_at_max = {} then Map.empty
             else fold (blocked_run indexes fn_pools_at_max)
                    (sorted_list_of_set (ims_unallocated_function_runs indexes)) Map.empty);
          sb_pools_at_max = {key. \<exists>pool. cs_sandbox_pools scheduler key = Some pool \<and> sandbox_pool_at_max scheduler key pool};
          sb_blocked = (if sb_pools_at_max = {} then Map.empty
             else fold (blocked_sandbox indexes sb_pools_at_max)
                    (sorted_list_of_set (ims_pending_sandboxes indexes)) Map.empty)
      in (fn_blocked, sb_blocked))"

section \<open>Pool names\<close>

lemma split_once_None: "split_once c s = None \<longleftrightarrow> c \<notin> set s"
  by (induction s) auto

lemma split_once_Some: "split_once c s = Some (a, b) \<longleftrightarrow> s = a @ c # b \<and> c \<notin> set a"
proof (induction s arbitrary: a)
  case (Cons x s)
  note IH = Cons.IH
  have M: "map_option (\<lambda>(a, b). (x # a, b)) r = Some (y # as, b) \<longleftrightarrow> x = y \<and> r = Some (as, b)"
    "map_option (\<lambda>(a, b). (x # a, b)) r \<noteq> Some ([], b)" for y as r
    by (auto simp: map_option_case split: option.split)
  show ?case
  proof (cases a)
    case Nil
    show ?thesis unfolding Nil split_once.simps using M(2) [of "split_once c s"] by auto
  next
    case (Cons y as)
    show ?thesis unfolding Cons split_once.simps using IH [of as] M(1) [of "split_once c s" y as] by auto
  qed
qed simp

lemma splitn_3:
  "splitn 3 c s = [x, y, z] \<longleftrightarrow> s = x @ c # y @ c # z \<and> c \<notin> set x \<and> c \<notin> set y"
proof -
  have "splitn 3 c s = [x, y, z] \<longleftrightarrow> (\<exists>r. split_once c s = Some (x, r) \<and> split_once c r = Some (y, z))"
    by (auto simp: numeral_3_eq_3 split: option.splits)
  then show ?thesis by (auto simp: split_once_Some)
qed

definition uri_pool_key :: "function_uri \<Rightarrow> container_pool_key" where
  "uri_pool_key u =
     container_pool_key_new (uri_namespace u) (pool_id_for_function (uri_application u) (uri_function u) (uri_version u))"

lemma parse_function_pool_uri_iff:
  "parse_function_pool_uri pool = Some u \<longleftrightarrow>
     pool_key pool = uri_pool_key u \<and> CHR ''|'' \<notin> set (uri_application u) \<and> CHR ''|'' \<notin> set (uri_function u)"
proof -
  have "parse_function_pool_uri pool = Some u \<longleftrightarrow>
      splitn 3 CHR ''|'' (pool_id pool) = [uri_application u, uri_function u, uri_version u] \<and>
      pool_namespace pool = uri_namespace u"
    by (cases u) (auto simp: parse_function_pool_uri_def split: list.splits)
  then show ?thesis
    by (auto simp: splitn_3 pool_key_def uri_pool_key_def container_pool_key_new_def pool_id_for_function_def)
qed

section \<open>What creating a container changes\<close>

text \<open>The containers and their indexes by function and by pool, and the pools.\<close>

definition count_view where
  "count_view s = (cs_function_containers s, cs_containers_by_function_uri s, cs_containers_by_pool s,
     cs_warm_containers_by_pool s)"

definition pools_view where
  "pools_view s = (cs_function_pools s, cs_sandbox_pools s)"

definition reaped_list :: "container_scheduler \<Rightarrow> function_uri \<Rightarrow> container_id list" where
  "reaped_list s u = unwrap_or (cs_reaped_containers s u) []"

text \<open>The container is stored and indexed as a warm container of its function and its pool.\<close>

definition stored ::
  "container_id \<Rightarrow> container_server_metadata \<Rightarrow> container_scheduler \<Rightarrow> container_scheduler \<Rightarrow> bool" where
  "stored cid meta s s' \<longleftrightarrow>
     cs_function_containers s' = (cs_function_containers s)(cid \<mapsto> meta) \<and>
     cs_containers_by_function_uri s' = idx_insert (csm_uri meta) cid (cs_containers_by_function_uri s) \<and>
     (\<forall>k. csm_pool_key meta = Some k \<longrightarrow>
        cs_containers_by_pool s' = idx_insert k cid (cs_containers_by_pool s) \<and>
        cs_warm_containers_by_pool s' = idx_insert k cid (cs_warm_containers_by_pool s))"

lemma count_view_executor_ops [simp]:
  "count_view (set_executor_state eid st s) = count_view s"
  "count_view (remove_executor_state eid s) = count_view s"
  "count_view (insert_resource_index eid res s) = count_view s"
  "count_view (remove_resource_index eid res s) = count_view s"
  "pools_view (set_executor_state eid st s) = pools_view s"
  "pools_view (remove_executor_state eid s) = pools_view s"
  "pools_view (insert_resource_index eid res s) = pools_view s"
  "pools_view (remove_resource_index eid res s) = pools_view s"
  "cs_reaped_containers (remove_executor_state eid s) = cs_reaped_containers s"
  "cs_reaped_containers (insert_resource_index eid res s) = cs_reaped_containers s"
  "cs_reaped_containers (remove_resource_index eid res s) = cs_reaped_containers s"
  by (simp_all add: count_view_def pools_view_def set_executor_state_def remove_executor_state_def
      insert_resource_index_def remove_resource_index_def Let_def split: option.split)

lemma update_container_indices_frame [simp]:
  "pools_view (s\<lparr>cs_function_containers := fcs\<rparr>) = pools_view s"
  "pools_view (update_container_indices cid meta s) = pools_view s"
  "cs_reaped_containers (update_container_indices cid meta s) = cs_reaped_containers s"
  by (simp_all add: pools_view_def update_container_indices_def Let_def remove_from_uri_index_def
      remove_from_pool_index_def remove_from_warm_index_def mark_pool_dirty_def remove_idle_def split: option.split)

lemma stored_update:
  assumes "\<not> desired_terminated meta" "is_warm meta"
  shows "stored cid meta s (update_container_indices cid meta s)"
  using assms by (simp add: stored_def update_container_indices_fields)

lemma stored_view: "count_view s' = count_view t \<Longrightarrow> stored cid meta s t \<Longrightarrow> stored cid meta s s'"
  by (simp add: stored_def count_view_def)

lemma stored_view_left: "count_view s' = count_view s \<Longrightarrow> stored cid meta s t = stored cid meta s' t"
  by (simp add: stored_def count_view_def)

lemma apply_single:
  assumes ord: "enumerates ordC" and u: "su_containers u = [cid \<mapsto> meta]" "su_remove_executors u = []"
  shows "count_view (apply_container_update ordC ordE u s) = count_view (update_container_indices cid meta s)"
    "pools_view (apply_container_update ordC ordE u s) = pools_view s"
    "cs_reaped_containers (apply_container_update ordC ordE u s) = cs_reaped_containers s"
proof -
  have "set (ordC {cid}) = {cid}" "distinct (ordC {cid})" using enumeratesD [OF ord] by simp_all
  then have 1: "ordC {cid} = [cid]"
    by (metis distinct.simps(2) empty_set insert_not_empty list.exhaust list.set_intros(1) list.set_intros(2) set_ConsD
        singletonD)
  have F: "count_view (fold (\<lambda>eid. set_executor_state eid (g eid)) eids s) = count_view s"
    "pools_view (fold (\<lambda>eid. set_executor_state eid (g eid)) eids s) = pools_view s"
    "cs_reaped_containers (fold (\<lambda>eid. set_executor_state eid (g eid)) eids s) = cs_reaped_containers s" for g eids s
    by (induction eids arbitrary: s) simp_all
  show "count_view (apply_container_update ordC ordE u s) = count_view (update_container_indices cid meta s)"
    "pools_view (apply_container_update ordC ordE u s) = pools_view s"
    "cs_reaped_containers (apply_container_update ordC ordE u s) = cs_reaped_containers s"
    using u by (simp_all add: apply_container_update_def 1 F)
qed

definition one_container :: "container_id \<Rightarrow> container_server_metadata \<Rightarrow> scheduler_update_request \<Rightarrow> bool" where
  "one_container cid meta u \<longleftrightarrow> su_containers u = [cid \<mapsto> meta] \<and> su_remove_executors u = []"

definition same_counts :: "container_scheduler \<Rightarrow> container_scheduler \<Rightarrow> bool" where
  "same_counts s s' \<longleftrightarrow>
     count_view s' = count_view s \<and> pools_view s' = pools_view s \<and> cs_reaped_containers s' = cs_reaped_containers s"

lemma same_counts_refl [simp]: "same_counts s s"
  by (simp add: same_counts_def)

lemma register_container_cases:
  assumes "register_container now eid c ctype s = (result, s')"
  shows "same_counts s s' \<and> (\<forall>u. result = Inr u \<longrightarrow> (\<exists>meta. one_container (ct_id c) meta u \<and>
    csm_function_container meta = c \<and> csm_allocations meta = {} \<and> csm_desired_state meta = CS_Running))"
  using assms
  by (auto simp: register_container_eq same_counts_def one_container_def default_update_def count_view_def pools_view_def
      remove_resource_index_def set_executor_state_def insert_resource_index_def Let_def
      split: option.splits sum.splits prod.splits)

lemma create_container_cases:
  assumes "create_container ch ns app f resources c ctype cache s = (result, cache', s')"
  shows "same_counts s s' \<and> (\<forall>u. result = Inr (Some u) \<longrightarrow> (\<exists>meta. one_container (ct_id c) meta u \<and>
    csm_function_container meta = c \<and> csm_allocations meta = {} \<and> csm_desired_state meta = CS_Running))"
proof -
  have P: "same_counts (t\<lparr>cs_last_placement := p\<rparr>) t' = same_counts t t'"
    "same_counts t (t\<lparr>cs_last_placement := p\<rparr>)" for t t' p
    by (simp_all add: same_counts_def count_view_def pools_view_def)
  show ?thesis
    using assms
    by (auto simp: create_container_def Let_def P dest: register_container_cases
        split: prod.splits option.splits if_splits sum.splits)
qed

lemma restore_container_cases:
  assumes "restore_container now cid fc st s = (result, s')" "is_warm fc"
  shows "pools_view s' = pools_view s \<and> cs_reaped_containers s' = cs_reaped_containers s \<and>
    (case result of
       None \<Rightarrow> count_view s' = count_view s
     | Some u \<Rightarrow> (let meta = fc\<lparr>csm_desired_state := CS_Running, csm_idle_since := Some now\<rparr>
                 in one_container cid meta u \<and> stored cid meta s s'))"
proof -
  let ?meta = "fc\<lparr>csm_desired_state := CS_Running, csm_idle_since := Some now\<rparr>"
  obtain res st' where add: "add_container st (csm_function_container fc) = (res, st')" by fastforce
  show ?thesis
  proof (cases res)
    case (Inl e)
    then show ?thesis
      using assms add
      by (auto simp: restore_container_def Let_def count_view_def pools_view_def remove_resource_index_def)
  next
    case (Inr x)
    define t where "t = insert_resource_index (csm_executor_id fc) (esm_free_resources st')
      ((remove_resource_index (csm_executor_id fc) (esm_free_resources st) s)
        \<lparr>cs_executor_states := (cs_executor_states s)(csm_executor_id fc \<mapsto> st')\<rparr>)"
    have t: "count_view t = count_view s" "pools_view t = pools_view s" "cs_reaped_containers t = cs_reaped_containers s"
      by (simp_all add: t_def count_view_def pools_view_def insert_resource_index_def remove_resource_index_def)
    let ?t = "t\<lparr>cs_function_containers := (cs_function_containers t)(cid \<mapsto> ?meta)\<rparr>"
    have s': "s' = update_container_indices cid ?meta ?t"
      using assms add Inr by (auto simp: restore_container_def Let_def t_def)
    obtain u where u: "result = Some u" "one_container cid ?meta u"
      using assms add Inr by (auto simp: restore_container_def Let_def one_container_def default_update_def)
    have "\<not> desired_terminated ?meta" "is_warm ?meta"
      using assms(2) by (simp_all add: desired_terminated_def is_warm_def)
    from stored_update [OF this, of cid ?t] have "stored cid ?meta t s'"
      unfolding s' stored_def by simp
    then have "stored cid ?meta s s'" using stored_view_left [OF t(1)] by simp
    moreover have "pools_view s' = pools_view s" "cs_reaped_containers s' = cs_reaped_containers s"
      using t(2,3) unfolding s' by simp_all
    ultimately show ?thesis using u by (simp add: Let_def)
  qed
qed

text \<open>What is known of the containers that may be restored.\<close>

definition reaped_keyed :: "container_scheduler \<Rightarrow> bool" where
  "reaped_keyed s \<longleftrightarrow>
     (\<forall>u cid fc. cid \<in> set (reaped_list s u) \<longrightarrow> cs_function_containers s cid = Some fc \<longrightarrow>
        csm_uri fc = u \<and> csm_pool_key fc = Some (uri_pool_key u) \<and> is_warm fc \<and> csm_allocations fc = {})"

definition shrunk :: "container_scheduler \<Rightarrow> container_scheduler \<Rightarrow> bool" where
  "shrunk s s' \<longleftrightarrow>
     (\<forall>u. set (reaped_list s' u) \<subseteq> set (reaped_list s u) \<and> length (reaped_list s' u) \<le> length (reaped_list s u))"

lemma shrunk_refl [simp]: "shrunk s s"
  by (simp add: shrunk_def)

lemma shrunk_trans: "shrunk s t \<Longrightarrow> shrunk t s' \<Longrightarrow> shrunk s s'"
  unfolding shrunk_def by (meson le_trans subset_trans)

lemma same_counts_shrunk: "same_counts s s' \<Longrightarrow> shrunk s s'"
  by (simp add: same_counts_def shrunk_def reaped_list_def)

lemma restore_reaped_cases:
  assumes "restore_reaped_container now u s = (result, s')" "reaped_keyed s"
  shows "pools_view s' = pools_view s \<and> shrunk s s' \<and>
    (case result of
       None \<Rightarrow> count_view s' = count_view s
     | Some upd \<Rightarrow> \<exists>cid old meta. one_container cid meta upd \<and> stored cid meta s s' \<and>
         cs_function_containers s cid = Some old \<and> csm_uri meta = u \<and> csm_uri old = u \<and> csm_allocations old = {} \<and>
         csm_pool_key meta = Some (uri_pool_key u) \<and>
         is_warm meta \<and> csm_allocations meta = {} \<and> csm_desired_state meta = CS_Running \<and>
         length (reaped_list s' u) < length (reaped_list s u))"
proof (cases "reaped_list s u = []")
  case True
  then show ?thesis
    using assms by (auto simp: restore_reaped_container_def reaped_list_def split: option.splits)
next
  case False
  define cid where "cid = last (reaped_list s u)"
  define t where "t = s\<lparr>cs_reaped_containers := (cs_reaped_containers s)
    (u := (if butlast (reaped_list s u) = [] then None else Some (butlast (reaped_list s u))))\<rparr>"
  have t: "count_view t = count_view s" "pools_view t = pools_view s"
    "reaped_list t = (reaped_list s)(u := butlast (reaped_list s u))"
    by (auto simp: t_def count_view_def pools_view_def reaped_list_def)
  have "shrunk s t" by (auto simp: shrunk_def t(3) dest: in_set_butlastD)
  have less: "length (reaped_list t u) < length (reaped_list s u)" using False t(3) by simp
  have eq: "restore_reaped_container now u s =
      (case cs_function_containers s cid of
         None \<Rightarrow> (None, t)
       | Some fc \<Rightarrow> (case cs_executor_states s (csm_executor_id fc) of
           None \<Rightarrow> (None, t) | Some st \<Rightarrow> restore_container now cid fc st t))"
    using False
    by (cases "cs_reaped_containers s u") 
      (simp_all add: restore_reaped_container_def t_def cid_def reaped_list_def Let_def split: option.split)
  show ?thesis
  proof (cases "\<exists>fc st. cs_function_containers s cid = Some fc \<and> cs_executor_states s (csm_executor_id fc) = Some st")
    case False
    then have "result = None \<and> s' = t" using assms(1) eq by (auto split: option.splits)
    with t \<open>shrunk s t\<close> show ?thesis by simp
  next
    case True
    then obtain fc st where fc: "cs_function_containers s cid = Some fc"
      "cs_executor_states s (csm_executor_id fc) = Some st" by blast
    have "cid \<in> set (reaped_list s u)" unfolding cid_def using False by simp
    then have k: "csm_uri fc = u" "csm_pool_key fc = Some (uri_pool_key u)" "is_warm fc" "csm_allocations fc = {}"
      using assms(2) fc(1) unfolding reaped_keyed_def by blast+
    have "restore_container now cid fc st t = (result, s')" using assms(1) eq fc by simp
    note R = restore_container_cases [OF this k(3)]
    then have "reaped_list s' = reaped_list t" by (auto simp: reaped_list_def fun_eq_iff)
    then have 1: "shrunk s s'" "length (reaped_list s' u) < length (reaped_list s u)" "pools_view s' = pools_view s"
      using \<open>shrunk s t\<close> less R t(2) by (simp_all add: shrunk_def)
    show ?thesis
    proof (cases result)
      case None
      then show ?thesis using R t(1) 1 by simp
    next
      case (Some upd)
      define meta where "meta = fc\<lparr>csm_desired_state := CS_Running, csm_idle_since := Some now\<rparr>"
      have "one_container cid meta upd" "stored cid meta s s'"
        using R Some stored_view_left [OF t(1)] by (simp_all add: Let_def meta_def)
      moreover have "csm_uri meta = u" "csm_pool_key meta = Some (uri_pool_key u)" "is_warm meta"
        "csm_allocations meta = {}" "csm_desired_state meta = CS_Running"
        using k by (simp_all add: csm_uri_def csm_pool_key_def is_warm_def meta_def)
      ultimately have "\<exists>cid old meta. one_container cid meta upd \<and> stored cid meta s s' \<and>
         cs_function_containers s cid = Some old \<and> csm_uri meta = u \<and> csm_uri old = u \<and> csm_allocations old = {} \<and>
         csm_pool_key meta = Some (uri_pool_key u) \<and>
         is_warm meta \<and> csm_allocations meta = {} \<and> csm_desired_state meta = CS_Running \<and>
         length (reaped_list s' u) < length (reaped_list s u)"
        using 1(2) fc(1) k(1,4) by blast
      with Some 1 show ?thesis by simp
    qed
  qed
qed

section \<open>One placement\<close>

text \<open>The container a placement stores: a warm idle container of the pool.\<close>

definition for_pool :: "container_pool \<Rightarrow> container_server_metadata \<Rightarrow> bool" where
  "for_pool pool meta \<longleftrightarrow>
     is_warm meta \<and> csm_allocations meta = {} \<and> \<not> desired_terminated meta \<and> csm_pool_key meta = Some (pool_key pool) \<and>
     (if is_function_pool pool then parse_function_pool_uri pool = Some (csm_uri meta)
      else uri_application (csm_uri meta) = [])"

text \<open>
  A placement creates a container with the fresh id or restores one that was reaped, which shortens the
  list of the reaped containers of the function.
\<close>

inductive placement ::
  "container_id \<Rightarrow> container_pool \<Rightarrow> container_scheduler \<Rightarrow> container_scheduler \<Rightarrow> bool" for fresh pool s s' where
  created: "stored fresh meta s s' \<Longrightarrow> for_pool pool meta \<Longrightarrow> shrunk s s' \<Longrightarrow> pools_view s' = pools_view s \<Longrightarrow>
    placement fresh pool s s'"
| restored: "stored cid meta s s' \<Longrightarrow> for_pool pool meta \<Longrightarrow> shrunk s s' \<Longrightarrow> pools_view s' = pools_view s \<Longrightarrow>
    is_function_pool pool \<Longrightarrow> cs_function_containers s cid = Some old \<Longrightarrow> csm_uri old = csm_uri meta \<Longrightarrow>
    csm_allocations old = {} \<Longrightarrow>
    length (reaped_list s' (csm_uri meta)) < length (reaped_list s (csm_uri meta)) \<Longrightarrow>
    placement fresh pool s s'"

definition functions_keyed :: "in_memory_state \<Rightarrow> bool" where
  "functions_keyed state \<longleftrightarrow>
     (\<forall>k app name f. ims_applications state k = Some app \<longrightarrow> app_functions app name = Some f \<longrightarrow> fn_name f = name)"

definition unchanged :: "container_scheduler \<Rightarrow> container_scheduler \<Rightarrow> bool" where
  "unchanged s s' \<longleftrightarrow> count_view s' = count_view s \<and> pools_view s' = pools_view s \<and> shrunk s s'"

lemma unchanged_refl [simp]: "unchanged s s"
  by (simp add: unchanged_def)

lemma unchanged_same_counts: "same_counts s s' \<Longrightarrow> unchanged s s'"
  by (simp add: unchanged_def same_counts_shrunk) (simp add: same_counts_def)

lemma idx_insert_idem: "idx_insert k v (idx_insert k v m) = idx_insert k v m"
  by (simp add: idx_insert_def fun_eq_iff idx_get_def)

lemma stored_again: "stored cid meta s t \<Longrightarrow> stored cid meta t s' \<Longrightarrow> stored cid meta s s'"
  by (auto simp: stored_def idx_insert_idem)

lemma placement_unchanged:
  assumes "unchanged s t" "placement fresh pool t s'"
  shows "placement fresh pool s s'"
  using assms(2)
proof cases
  case (created meta)
  then show ?thesis
    using assms(1) stored_view_left [of t s fresh meta s'] shrunk_trans [of s t s']
    by (intro placement.created [where meta = meta]) (simp_all add: unchanged_def)
next
  case (restored cid meta old)
  have "length (reaped_list t (csm_uri meta)) \<le> length (reaped_list s (csm_uri meta))"
    using assms(1) by (simp add: unchanged_def shrunk_def)
  with restored show ?thesis
    using assms(1) stored_view_left [of t s cid meta s'] shrunk_trans [of s t s']
    by (intro placement.restored [where cid = cid and meta = meta and old = old]) (simp_all add: unchanged_def count_view_def)
qed

text \<open>What an attempt to create a container returns, before the update is applied.\<close>

lemma created_for_pool:
  assumes "one_container (ct_id c) meta u" "csm_function_container meta = c" "csm_allocations meta = {}"
    "csm_desired_state meta = CS_Running"
    and "ct_sandbox_id c = None" "ct_pool_key c = Some (pool_key pool)"
    and "if is_function_pool pool then parse_function_pool_uri pool = Some (uri_from_container c)
         else uri_application (uri_from_container c) = []"
  shows "for_pool pool meta"
  using assms by (simp add: for_pool_def is_warm_def desired_terminated_def csm_pool_key_def csm_uri_def)

lemma function_container_fields:
  "ct_id (function_container cid ns app ver f) = cid"
  "ct_sandbox_id (function_container cid ns app ver f) = None"
  "uri_from_container (function_container cid ns app ver f) =
     \<lparr>uri_namespace = ns, uri_application = app, uri_function = fn_name f, uri_version = ver\<rparr>"
  "ct_pool_key (function_container cid ns app ver f) = Some (uri_pool_key
     \<lparr>uri_namespace = ns, uri_application = app, uri_function = fn_name f, uri_version = ver\<rparr>)"
  by (simp_all add: function_container_def container_builder_def uri_from_container_def ct_pool_key_def uri_pool_key_def)

lemma pool_container_fields:
  "ct_id (pool_container cid pool) = cid"
  "ct_sandbox_id (pool_container cid pool) = None"
  "uri_application (uri_from_container (pool_container cid pool)) = []"
  "ct_pool_key (pool_container cid pool) = Some (pool_key pool)"
  by (simp_all add: pool_container_def container_builder_def uri_from_container_def ct_pool_key_def pool_key_def)

text \<open>The update of a creation, or of a restoration that is already in the state.\<close>

definition pending_placement ::
  "container_id \<Rightarrow> container_pool \<Rightarrow> container_scheduler \<Rightarrow> container_scheduler \<Rightarrow> scheduler_update_request \<Rightarrow> bool" where
  "pending_placement fresh pool s s' u \<longleftrightarrow>
     (\<exists>meta. one_container fresh meta u \<and> for_pool pool meta \<and> unchanged s s') \<or>
     (\<exists>cid meta old. one_container cid meta u \<and> for_pool pool meta \<and> stored cid meta s s' \<and> shrunk s s' \<and>
        pools_view s' = pools_view s \<and> is_function_pool pool \<and> cs_function_containers s cid = Some old \<and>
        csm_uri old = csm_uri meta \<and> csm_allocations old = {} \<and>
        length (reaped_list s' (csm_uri meta)) < length (reaped_list s (csm_uri meta)))"

lemma pending_placement_apply:
  assumes "pending_placement fresh pool s t u" "enumerates ordC"
  shows "placement fresh pool s (apply_container_update ordC ordE u t)" (is "placement _ _ _ ?s'")
    and "\<exists>c \<in> ran (su_containers u). \<not> desired_terminated c"
proof -
  have *: "placement fresh pool s ?s' \<and> (\<exists>c \<in> ran (su_containers u). \<not> desired_terminated c)"
    using assms(1) unfolding pending_placement_def
  proof (elim disjE exE conjE)
    fix meta assume m: "one_container fresh meta u" "for_pool pool meta" "unchanged s t"
    note A = apply_single [OF assms(2), of u fresh meta ordE t]
    have "stored fresh meta t ?s'"
      using stored_update [of meta fresh t] stored_view [OF A(1)] m by (simp add: one_container_def for_pool_def)
    moreover have "shrunk t ?s'" "pools_view ?s' = pools_view t"
      using A m(1) by (simp_all add: one_container_def shrunk_def reaped_list_def)
    ultimately have "placement fresh pool t ?s'" using m(2) by (intro placement.created [where meta = meta])
    with placement_unchanged [OF m(3)] m show ?thesis by (simp add: one_container_def for_pool_def)
  next
    fix cid meta old
    assume m: "one_container cid meta u" "for_pool pool meta" "stored cid meta s t" "shrunk s t"
      "pools_view t = pools_view s" "is_function_pool pool" "cs_function_containers s cid = Some old"
      "csm_uri old = csm_uri meta" "csm_allocations old = {}" "length (reaped_list t (csm_uri meta)) < length (reaped_list s (csm_uri meta))"
    note A = apply_single [OF assms(2), of u cid meta ordE t]
    have "stored cid meta t ?s'"
      using stored_update [of meta cid t] stored_view [OF A(1)] m by (simp add: one_container_def for_pool_def)
    from stored_again [OF m(3) this] have "stored cid meta s ?s'" .
    moreover have "reaped_list ?s' = reaped_list t" "pools_view ?s' = pools_view s"
      using A m(1,5) by (simp_all add: one_container_def reaped_list_def fun_eq_iff)
    ultimately have "placement fresh pool s ?s'"
      using m by (intro placement.restored [where cid = cid and meta = meta and old = old]) (simp_all add: shrunk_def)
    with m show ?thesis by (simp add: one_container_def for_pool_def)
  qed
  then show "placement fresh pool s ?s'" "\<exists>c \<in> ran (su_containers u). \<not> desired_terminated c" by simp_all
qed

lemma create_container_pending:
  assumes "create_container ch ns app f resources c ctype cache s = (result, cache', s')"
    and "ct_sandbox_id c = None" "ct_pool_key c = Some (pool_key pool)"
    and "if is_function_pool pool then parse_function_pool_uri pool = Some (uri_from_container c)
         else uri_application (uri_from_container c) = []"
  shows "case result of Inr (Some u) \<Rightarrow> pending_placement (ct_id c) pool s s' u | _ \<Rightarrow> unchanged s s'"
proof -
  note C = create_container_cases [OF assms(1)]
  then have "unchanged s s'" using unchanged_same_counts by blast
  moreover have "\<exists>meta. one_container (ct_id c) meta u \<and> for_pool pool meta" if "result = Inr (Some u)" for u
    using C that created_for_pool [OF _ _ _ _ assms(2-4)] by blast
  ultimately show ?thesis by (auto simp: pending_placement_def split: sum.split option.split)
qed

lemma create_for_function_pending:
  assumes u: "u = \<lparr>uri_namespace = ns, uri_application = app, uri_function = fn_name f, uri_version = ver\<rparr>"
    and "create_container_for_function ch ns app ver f AppActive cache s = (result, cache', s')"
    and "reaped_keyed s" "is_function_pool pool" "parse_function_pool_uri pool = Some u"
  shows "case result of Inr (Some upd) \<Rightarrow> pending_placement (ch_container_id ch) pool s s' upd | _ \<Rightarrow> unchanged s s'"
proof -
  have key: "pool_key pool = uri_pool_key u" using assms(5) by (simp add: parse_function_pool_uri_iff)
  obtain res t where R: "restore_reaped_container (ch_now ch) u s = (res, t)" by fastforce
  note C = restore_reaped_cases [OF R assms(3)]
  show ?thesis
  proof (cases res)
    case None
    define c where "c = function_container (ch_container_id ch) ns app ver f"
    have "create_container ch ns app (Some f) (fn_resources f) c FunctionContainer cache t = (result, cache', s')"
      using assms(2) R None by (simp add: create_container_for_function_def u c_def)
    note P = create_container_cases [OF this]
    have "unchanged s t" using C None by (simp add: unchanged_def)
    moreover have "unchanged t s'" using P unchanged_same_counts by blast
    ultimately have "unchanged s s'" using shrunk_trans [of s t s'] by (simp add: unchanged_def)
    moreover have "\<exists>meta. one_container (ch_container_id ch) meta upd \<and> for_pool pool meta" if "result = Inr (Some upd)" for upd
    proof -
      from P that obtain meta where m: "one_container (ct_id c) meta upd" "csm_function_container meta = c"
        "csm_allocations meta = {}" "csm_desired_state meta = CS_Running" by blast
      from created_for_pool [OF this, of pool] assms(4,5) key u have "for_pool pool meta"
        by (simp add: c_def function_container_fields)
      with m(1) show ?thesis by (auto simp: c_def function_container_fields)
    qed
    ultimately show ?thesis by (auto simp: pending_placement_def split: sum.split option.split)
  next
    case (Some upd)
    with C obtain cid old meta where m: "one_container cid meta upd" "stored cid meta s t"
         "cs_function_containers s cid = Some old" "csm_uri meta = u" "csm_uri old = u" "csm_allocations old = {}"
         "csm_pool_key meta = Some (uri_pool_key u)"
         "is_warm meta" "csm_allocations meta = {}" "csm_desired_state meta = CS_Running"
         "length (reaped_list t u) < length (reaped_list s u)" by auto
    have "for_pool pool meta" using m assms(4,5) key by (simp add: for_pool_def desired_terminated_def)
    moreover have "shrunk s t" "pools_view t = pools_view s" using C by simp_all
    ultimately have "pending_placement (ch_container_id ch) pool s t upd"
      using m assms(4) unfolding pending_placement_def by blast
    moreover have "result = Inr (Some upd)" "s' = t"
      using assms(2) R Some by (simp_all add: create_container_for_function_def u)
    ultimately show ?thesis by simp
  qed
qed

lemma create_for_pool_pending:
  assumes "create_for_pool ch state pool cache s = (result, cache', s')" "reaped_keyed s" "functions_keyed state"
  shows "case result of Inr (Some u) \<Rightarrow> pending_placement (ch_container_id ch) pool s s' u | _ \<Rightarrow> unchanged s s'"
proof (cases "is_function_pool pool")
  case False
  then have "create_container ch (pool_namespace pool) [] None (request_resources (pool_resources pool))
       (pool_container (ch_container_id ch) pool) SandboxContainer cache s = (result, cache', s')"
    using assms(1) by (simp add: create_for_pool_def create_container_for_pool_def)
  from create_container_pending [OF this, of pool, unfolded pool_container_fields] False show ?thesis by simp
next
  case True
  show ?thesis
  proof (cases "\<exists>u app f. parse_function_pool_uri pool = Some u \<and>
      ims_applications state (uri_namespace u @ ''|'' @ uri_application u) = Some app \<and> app_state app = AppActive \<and>
      app_functions app (uri_function u) = Some f")
    case False
    then have "result = Inr None \<and> s' = s"
      using assms(1) True by (auto simp: create_for_pool_def as_disabled_def split: option.splits if_splits application_state.splits)
    then show ?thesis by simp
  next
    case 2: True
    then obtain u app f where f: "parse_function_pool_uri pool = Some u"
      "ims_applications state (uri_namespace u @ ''|'' @ uri_application u) = Some app" "app_state app = AppActive"
      "app_functions app (uri_function u) = Some f" by blast
    have "fn_name f = uri_function u" using assms(3) f by (auto simp: functions_keyed_def)
    then have "u = \<lparr>uri_namespace = uri_namespace u, uri_application = uri_application u, uri_function = fn_name f,
        uri_version = uri_version u\<rparr>" by simp
    moreover have "create_container_for_function ch (uri_namespace u) (uri_application u) (uri_version u) f AppActive
        cache s = (result, cache', s')"
      using assms(1) True f by (simp add: create_for_pool_def as_disabled_def)
    ultimately show ?thesis using create_for_function_pending assms(2) True f(1) by blast
  qed
qed

lemma try_place_effect:
  assumes "try_place_container pc state pool r = (result, r')"
    and "enumerates (pc_containers pc)" "reaped_keyed (rc_scheduler r)" "functions_keyed state"
  shows "rc_attempts r' = Suc (rc_attempts r) \<and>
    (if result = Ok True
     then placement (ch_container_id (pc_create pc (rc_attempts r))) pool (rc_scheduler r) (rc_scheduler r')
     else unchanged (rc_scheduler r) (rc_scheduler r'))"
proof -
  obtain res cache t where C: "create_for_pool (pc_create pc (rc_attempts r)) state pool (rc_cache r) (rc_scheduler r) =
    (res, cache, t)" by (rule prod_cases3)
  note P = create_for_pool_pending [OF C assms(3,4)]
  show ?thesis
  proof (cases "\<exists>u. res = Inr (Some u)")
    case True
    then obtain u where u: "res = Inr (Some u)" by blast
    with P have "pending_placement (ch_container_id (pc_create pc (rc_attempts r))) pool (rc_scheduler r) t u" by simp
    note A = pending_placement_apply [OF this assms(2)]
    have "rc_attempts r' = Suc (rc_attempts r)" "result = Ok True"
      "rc_scheduler r' = apply_container_update (pc_containers pc) (pc_executors pc) u t"
      using assms(1) A(2) by (auto simp: try_place_container_def C u Let_def)
    with A(1) show ?thesis by simp
  next
    case False
    then have "rc_attempts r' = Suc (rc_attempts r)" "result \<noteq> Ok True" "rc_scheduler r' = t"
      using assms(1) by (auto simp: try_place_container_def C Let_def split: sum.splits option.splits)
    moreover have "unchanged (rc_scheduler r) t" using P False by (auto split: sum.splits option.splits)
    ultimately show ?thesis by simp
  qed
qed

end
