(* ===== verification/BufferFilling.thy ===== *)
theory BufferFilling
  imports Buffers
begin

text \<open>
  Correctness of the reconciliation of the pools: what a placement does to the counts of every pool, that
  the loops that fill buffers end, what they leave, and which containers trimming takes.
\<close>

declare split_paired_All [simp del] split_paired_Ex [simp del]

section \<open>Counting\<close>

text \<open>The containers of a pool and the idle ones among them.\<close>

definition members :: "container_pool \<Rightarrow> container_scheduler \<Rightarrow> container_id set" where
  "members pool s =
     (if is_function_pool pool
      then (case parse_function_pool_uri pool of
              Some u \<Rightarrow> idx_get (cs_containers_by_function_uri s) u
            | None \<Rightarrow> {})
      else idx_get (cs_containers_by_pool s) (pool_key pool))"

definition is_idle :: "container_scheduler \<Rightarrow> container_id \<Rightarrow> bool" where
  "is_idle s cid \<longleftrightarrow> (\<exists>m. cs_function_containers s cid = Some m \<and> csm_allocations m = {})"

definition idle_members :: "container_pool \<Rightarrow> container_scheduler \<Rightarrow> container_id set" where
  "idle_members pool s =
     (if is_function_pool pool then {cid \<in> members pool s. is_idle s cid}
      else idx_get (cs_warm_containers_by_pool s) (pool_key pool))"

text \<open>The part of the consistency of the indexes that the counts rely on.\<close>

definition known :: "container_scheduler \<Rightarrow> bool" where
  "known s \<longleftrightarrow>
     finite (dom (cs_function_containers s)) \<and>
     (\<forall>u. \<forall>cid \<in> idx_get (cs_containers_by_function_uri s) u.
        \<exists>m. cs_function_containers s cid = Some m \<and> csm_uri m = u) \<and>
     (\<forall>k. idx_get (cs_containers_by_pool s) k \<subseteq> dom (cs_function_containers s)) \<and>
     (\<forall>k. idx_get (cs_warm_containers_by_pool s) k \<subseteq> idx_get (cs_containers_by_pool s) k)"

lemma knownI:
  assumes "finite (dom (cs_function_containers s))"
    and "\<And>c u. c \<in> idx_get (cs_containers_by_function_uri s) u \<Longrightarrow> \<exists>m. cs_function_containers s c = Some m \<and> csm_uri m = u"
    and "\<And>c k. c \<in> idx_get (cs_containers_by_pool s) k \<Longrightarrow> c \<in> dom (cs_function_containers s)"
    and "\<And>c k. c \<in> idx_get (cs_warm_containers_by_pool s) k \<Longrightarrow> c \<in> idx_get (cs_containers_by_pool s) k"
  shows "known s"
  unfolding known_def by (intro conjI allI ballI subsetI) (rule assms(1), erule assms(2), erule assms(3), erule assms(4))

lemma known_scheduler_inv: "scheduler_inv s \<Longrightarrow> known s"
proof -
  assume inv: "scheduler_inv s"
  then have ok: "containers_ok s" "finite (dom (cs_function_containers s))"
    by (simp_all add: scheduler_inv_def scheduler_ok_def)
  have I: "indexed_ok s cid" for cid using ok(1) by (simp add: containers_ok_def)
  have pool: "cid \<in> idx_get (cs_containers_by_pool s) k \<longleftrightarrow> (\<exists>fc. live s cid = Some fc \<and> csm_pool_key fc = Some k)" for cid k
    using I [of cid] by (cases "live s cid") (simp_all add: indexed_ok_def)
  have dom: "\<exists>m. cs_function_containers s cid = Some m \<and> m = fc" if "live s cid = Some fc" for cid fc
    using that by (simp add: live_Some)
  have 1: "\<exists>m. cs_function_containers s cid = Some m \<and> csm_uri m = u"
    if "cid \<in> idx_get (cs_containers_by_function_uri s) u" for cid u
    using that index_uri_iff [OF ok(1), of cid u] dom by blast
  have 2: "cid \<in> dom (cs_function_containers s)" if "cid \<in> idx_get (cs_containers_by_pool s) k" for cid k
    using that pool [of cid k] dom by blast
  have 3: "cid \<in> idx_get (cs_containers_by_pool s) k" if "cid \<in> idx_get (cs_warm_containers_by_pool s) k" for cid k
    using that pool [of cid k] index_warm_iff [OF ok(1), of cid k] by blast
  from ok(2) 1 2 3 show "known s" by (rule knownI)
qed

lemma members_dom: "known s \<Longrightarrow> members pool s \<subseteq> dom (cs_function_containers s)"
  unfolding known_def members_def by (auto split: option.split) blast

lemma finite_members [simp]: "known s \<Longrightarrow> finite (members pool s)"
  by (rule finite_subset [OF members_dom]) (simp_all add: known_def)

lemma idle_members_subset: "known s \<Longrightarrow> idle_members pool s \<subseteq> members pool s"
  by (auto simp: known_def idle_members_def members_def)

lemma finite_idle_members [simp]: "known s \<Longrightarrow> finite (idle_members pool s)"
  by (rule finite_subset [OF idle_members_subset]) simp_all

lemma count_active_idle_card:
  assumes "enumerates ord" "finite I" and I: "idx_get (cs_containers_by_function_uri s) u = I"
    "I \<subseteq> dom (cs_function_containers s)"
  shows "count_active_idle_containers ord s u =
    (of_nat (card {cid \<in> I. \<not> is_idle s cid}), of_nat (card {cid \<in> I. is_idle s cid}))"
proof -
  define step where "step = (\<lambda>cid (active :: u32, idle :: u32).
         case cs_function_containers s cid of
           Some meta \<Rightarrow> if csm_allocations meta = {} then (active, idle + 1) else (active + 1, idle)
         | None \<Rightarrow> (active, idle))"
  have "fold step cids (a, b) = (a + of_nat (length (filter (\<lambda>cid. \<not> is_idle s cid) cids)),
      b + of_nat (length (filter (is_idle s) cids)))"
    if "set cids \<subseteq> dom (cs_function_containers s)" for cids a b
    using that by (induction cids arbitrary: a b) (auto simp: step_def is_idle_def)
  moreover have "length (filter P (ord I)) = card {cid \<in> I. P cid}" for P
    using enumeratesD [OF assms(1,2)] by (metis distinct_card distinct_filter set_filter)
  moreover have "set (ord I) = I" using enumeratesD [OF assms(1,2)] by simp
  ultimately show ?thesis
    using assms(4) unfolding count_active_idle_containers_def I by (simp add: step_def [symmetric])
qed

lemma ids_len_card: "ids_len_u32 m k = of_nat (card (idx_get m k))"
  by (simp add: ids_len_u32_def idx_get_def split: option.split)

lemma known_uri:
  assumes "known s"
  shows "idx_get (cs_containers_by_function_uri s) u \<subseteq> dom (cs_function_containers s)"
    and "finite (idx_get (cs_containers_by_function_uri s) u)"
proof -
  show "idx_get (cs_containers_by_function_uri s) u \<subseteq> dom (cs_function_containers s)"
    using assms unfolding known_def by blast
  then show "finite (idx_get (cs_containers_by_function_uri s) u)"
    by (rule finite_subset) (use assms in \<open>simp add: known_def\<close>)
qed

lemma pool_counts_idle:
  assumes "enumerates (pc_containers pc)" "known s"
  shows "snd (pool_counts pc pool s) = of_nat (card (idle_members pool s))"
  using count_active_idle_card [OF assms(1) known_uri(2) [OF assms(2)] refl known_uri(1) [OF assms(2)]]
  by (simp add: pool_counts_def idle_members_def members_def count_pool_containers_def Let_def ids_len_card
      split: option.split)

text \<open>A placement adds one idle container to its pool and none to another.\<close>

definition named :: "container_pool \<Rightarrow> bool" where
  "named pool \<longleftrightarrow>
     (\<forall>u. is_function_pool pool \<longrightarrow> parse_function_pool_uri pool = Some u \<longrightarrow> uri_application u \<noteq> [])"

lemma stored_members:
  assumes "stored cid meta s s'" "for_pool pool meta"
  shows "members pool s' = insert cid (members pool s)" "idle_members pool s' = insert cid (idle_members pool s)"
proof -
  have s': "cs_function_containers s' = (cs_function_containers s)(cid \<mapsto> meta)"
    "cs_containers_by_function_uri s' = idx_insert (csm_uri meta) cid (cs_containers_by_function_uri s)"
    "cs_containers_by_pool s' = idx_insert (pool_key pool) cid (cs_containers_by_pool s)"
    "cs_warm_containers_by_pool s' = idx_insert (pool_key pool) cid (cs_warm_containers_by_pool s)"
    using assms by (simp_all add: stored_def for_pool_def)
  show 1: "members pool s' = insert cid (members pool s)"
    using assms(2) by (simp add: members_def s' for_pool_def split: if_splits)
  have "is_idle s' c \<longleftrightarrow> c = cid \<or> is_idle s c" for c
    using assms(2) by (simp add: is_idle_def s' for_pool_def)
  then show "idle_members pool s' = insert cid (idle_members pool s)"
    unfolding idle_members_def 1 by (auto simp: s')
qed

lemma placement_other:
  assumes "placement fresh pool s s'" "known s" "fresh \<notin> dom (cs_function_containers s)"
    and "pool_key q \<noteq> pool_key pool" "named q"
  shows "members q s' = members q s \<and> idle_members q s' = idle_members q s"
proof -
  obtain cid meta where st: "stored cid meta s s'" "for_pool pool meta"
    and cid: "cid \<notin> dom (cs_function_containers s) \<or>
      (\<exists>old. cs_function_containers s cid = Some old \<and> csm_uri old = csm_uri meta)"
    using assms(1,3) by cases auto
  have s': "cs_function_containers s' = (cs_function_containers s)(cid \<mapsto> meta)"
    "cs_containers_by_function_uri s' = idx_insert (csm_uri meta) cid (cs_containers_by_function_uri s)"
    "cs_containers_by_pool s' = idx_insert (pool_key pool) cid (cs_containers_by_pool s)"
    "cs_warm_containers_by_pool s' = idx_insert (pool_key pool) cid (cs_warm_containers_by_pool s)"
    using st by (simp_all add: stored_def for_pool_def)
  show ?thesis
  proof (cases "is_function_pool q")
    case False
    with assms(4) show ?thesis by (simp add: members_def idle_members_def s')
  next
    case True
    show ?thesis
    proof (cases "parse_function_pool_uri q")
      case None
      with True show ?thesis by (simp add: members_def idle_members_def)
    next
      case (Some u)
      have "u \<noteq> csm_uri meta"
        using st(2) assms(4,5) True Some
        by (auto simp: for_pool_def named_def parse_function_pool_uri_iff split: if_splits)
      moreover from this have "cid \<notin> idx_get (cs_containers_by_function_uri s) u"
        using cid assms(2) unfolding known_def by force
      ultimately show ?thesis
        using True Some by (auto simp: members_def idle_members_def is_idle_def s')
    qed
  qed
qed

section \<open>The state between placements\<close>

definition fresh_id :: "pool_choices \<Rightarrow> nat \<Rightarrow> container_id" where
  "fresh_id pc n = ch_container_id (pc_create pc n)"

text \<open>The ids still to be drawn are unused, in the containers and in the lists of reaped ones.\<close>

definition ready :: "pool_choices \<Rightarrow> nat \<Rightarrow> container_scheduler \<Rightarrow> bool" where
  "ready pc n s \<longleftrightarrow>
     known s \<and> reaped_keyed s \<and>
     (\<forall>i \<ge> n. fresh_id pc i \<notin> dom (cs_function_containers s) \<and> (\<forall>u. fresh_id pc i \<notin> set (reaped_list s u)))"

text \<open>What the pools rely on from their surroundings.\<close>

definition surroundings :: "pool_choices \<Rightarrow> in_memory_state \<Rightarrow> bool" where
  "surroundings pc state \<longleftrightarrow>
     enumerates (pc_containers pc) \<and> inj (fresh_id pc) \<and> functions_keyed state"

lemma known_stored:
  assumes "known s" "stored cid meta s s'" "csm_pool_key meta = Some k"
    and "cid \<notin> dom (cs_function_containers s) \<or>
      (\<exists>old. cs_function_containers s cid = Some old \<and> csm_uri old = csm_uri meta)"
  shows "known s'"
proof -
  have s': "cs_function_containers s' = (cs_function_containers s)(cid \<mapsto> meta)"
    "cs_containers_by_function_uri s' = idx_insert (csm_uri meta) cid (cs_containers_by_function_uri s)"
    "cs_containers_by_pool s' = idx_insert k cid (cs_containers_by_pool s)"
    "cs_warm_containers_by_pool s' = idx_insert k cid (cs_warm_containers_by_pool s)"
    using assms by (simp_all add: stored_def)
  have K: "finite (dom (cs_function_containers s))"
    "c \<in> idx_get (cs_containers_by_function_uri s) u \<Longrightarrow> \<exists>m. cs_function_containers s c = Some m \<and> csm_uri m = u"
    "c \<in> idx_get (cs_containers_by_pool s) j \<Longrightarrow> c \<in> dom (cs_function_containers s)"
    "c \<in> idx_get (cs_warm_containers_by_pool s) j \<Longrightarrow> c \<in> idx_get (cs_containers_by_pool s) j" for c u j
    using assms(1) unfolding known_def by blast+
  have 1: "finite (dom (cs_function_containers s'))" using K(1) by (simp add: s')
  have 2: "\<exists>m. cs_function_containers s' c = Some m \<and> csm_uri m = u"
    if "c \<in> idx_get (cs_containers_by_function_uri s') u" for c u
    using that assms(4) K(2) [of c u] by (auto simp: s' split: if_splits)
  have 3: "c \<in> dom (cs_function_containers s')" if "c \<in> idx_get (cs_containers_by_pool s') j" for c j
    using that K(3) [of c j] by (auto simp: s' split: if_splits)
  have 4: "c \<in> idx_get (cs_containers_by_pool s') j" if "c \<in> idx_get (cs_warm_containers_by_pool s') j" for c j
    using that K(4) [of c j] by (auto simp: s' split: if_splits)
  from 1 2 3 4 show ?thesis by (rule knownI)
qed

lemma ready_unchanged:
  assumes "ready pc n s" "unchanged s s'"
  shows "ready pc (Suc n) s'"
proof -
  have s': "cs_function_containers s' = cs_function_containers s" "known s' = known s"
    "set (reaped_list s' u) \<subseteq> set (reaped_list s u)" for u
    using assms(2) by (simp_all add: unchanged_def count_view_def known_def shrunk_def)
  have "reaped_keyed s'" using assms(1) s'(3) unfolding ready_def reaped_keyed_def s'(1) by blast
  with assms(1) s'(3) show ?thesis unfolding ready_def s'(1,2) by (meson Suc_leD subsetD)
qed

lemma ready_stored:
  assumes "ready pc n s" "stored cid meta s s'" "for_pool pool meta" "shrunk s s'" "is_function_pool pool"
    and old: "cs_function_containers s cid = Some old" "csm_uri old = csm_uri meta"
  shows "ready pc (Suc n) s'"
proof -
  have C: "cs_function_containers s' = (cs_function_containers s)(cid \<mapsto> meta)" using assms(2) by (simp add: stored_def)
  have R: "set (reaped_list s' u) \<subseteq> set (reaped_list s u)" for u using assms(4) by (simp add: shrunk_def)
  have m: "csm_pool_key meta = Some (uri_pool_key (csm_uri meta))" "is_warm meta" "csm_allocations meta = {}"
    using assms(3,5) by (auto simp: for_pool_def parse_function_pool_uri_iff)
  have "known s'" using known_stored [OF _ assms(2) m(1)] old assms(1) by (auto simp: ready_def)
  moreover have "reaped_keyed s'"
    unfolding reaped_keyed_def
  proof (intro allI impI)
    fix u c fc assume c: "c \<in> set (reaped_list s' u)" "cs_function_containers s' c = Some fc"
    have "c \<in> set (reaped_list s u)" using c(1) R by blast
    then have "fc' = fc' \<and> csm_uri fc' = u \<and> csm_pool_key fc' = Some (uri_pool_key u) \<and> is_warm fc' \<and> csm_allocations fc' = {}"
      if "cs_function_containers s c = Some fc'" for fc'
      using that assms(1) unfolding ready_def reaped_keyed_def by blast
    with c(2) old m show "csm_uri fc = u \<and> csm_pool_key fc = Some (uri_pool_key u) \<and> is_warm fc \<and> csm_allocations fc = {}"
      by (auto simp: C split: if_splits)
  qed
  moreover have "fresh_id pc i \<notin> dom (cs_function_containers s') \<and> (\<forall>u. fresh_id pc i \<notin> set (reaped_list s' u))"
    if "Suc n \<le> i" for i
  proof -
    have "fresh_id pc i \<notin> dom (cs_function_containers s) \<and> (\<forall>u. fresh_id pc i \<notin> set (reaped_list s u))"
      using assms(1) that by (simp add: ready_def)
    with old R show ?thesis by (auto simp: C)
  qed
  ultimately show ?thesis unfolding ready_def by blast
qed

lemma ready_created:
  assumes "ready pc n s" "stored (fresh_id pc n) meta s s'" "for_pool pool meta" "shrunk s s'" "inj (fresh_id pc)"
  shows "ready pc (Suc n) s'"
proof -
  have C: "cs_function_containers s' = (cs_function_containers s)(fresh_id pc n \<mapsto> meta)"
    using assms(2) by (simp add: stored_def)
  have R: "set (reaped_list s' u) \<subseteq> set (reaped_list s u)" for u using assms(4) by (simp add: shrunk_def)
  have F: "fresh_id pc i \<notin> dom (cs_function_containers s)" "fresh_id pc i \<notin> set (reaped_list s u)" if "n \<le> i" for i u
    using assms(1) that by (simp_all add: ready_def)
  have "csm_pool_key meta = Some (pool_key pool)" using assms(3) by (simp add: for_pool_def)
  with known_stored [OF _ assms(2)] F [of n] assms(1) have "known s'" by (simp add: ready_def)
  moreover have "reaped_keyed s'"
    unfolding reaped_keyed_def
  proof (intro allI impI)
    fix u c fc assume c: "c \<in> set (reaped_list s' u)" "cs_function_containers s' c = Some fc"
    have "c \<in> set (reaped_list s u)" using c(1) R by blast
    moreover from this F(2) [of n] have "cs_function_containers s c = Some fc" using c(2) by (auto simp: C split: if_splits)
    ultimately show "csm_uri fc = u \<and> csm_pool_key fc = Some (uri_pool_key u) \<and> is_warm fc \<and> csm_allocations fc = {}"
      using assms(1) unfolding ready_def reaped_keyed_def by blast
  qed
  moreover have "fresh_id pc i \<notin> dom (cs_function_containers s') \<and> (\<forall>u. fresh_id pc i \<notin> set (reaped_list s' u))"
    if "Suc n \<le> i" for i
  proof -
    have "fresh_id pc i \<noteq> fresh_id pc n" using assms(5) that by (auto dest: injD)
    with F [of i] that R show ?thesis by (auto simp: C)
  qed
  ultimately show ?thesis unfolding ready_def by blast
qed

lemma ready_placement:
  assumes "ready pc n s" "placement (fresh_id pc n) pool s s'" "inj (fresh_id pc)"
  shows "ready pc (Suc n) s'"
  using assms(2) ready_created [OF assms(1) _ _ _ assms(3)] ready_stored [OF assms(1)] by cases blast+

section \<open>Filling the buffers\<close>

definition busy :: "container_pool \<Rightarrow> container_scheduler \<Rightarrow> nat" where
  "busy pool s = card (members pool s - idle_members pool s)"

definition idle :: "container_pool \<Rightarrow> container_scheduler \<Rightarrow> nat" where
  "idle pool s = card (idle_members pool s)"

abbreviation few :: "container_pool \<Rightarrow> container_scheduler \<Rightarrow> bool" where
  "few pool s \<equiv> card (members pool s) < 2 ^ 32"

lemma card_members: "known s \<Longrightarrow> card (members pool s) = busy pool s + idle pool s"
  unfolding busy_def idle_def
  by (metis Un_Diff_cancel2 add.commute card_Diff_subset card_mono finite_idle_members finite_members
      idle_members_subset le_add_diff_inverse2)

lemma unat_of_nat_u32: "n < 2 ^ 32 \<Longrightarrow> unat (of_nat n :: u32) = n"
  by (simp add: unat_of_nat take_bit_nat_eq_self)

lemma pool_counts_exact:
  assumes "enumerates (pc_containers pc)" "known s" "few pool s"
  shows "pool_counts pc pool s = (of_nat (busy pool s), of_nat (idle pool s))"
    "unat (fst (pool_counts pc pool s)) = busy pool s" "unat (snd (pool_counts pc pool s)) = idle pool s"
    "unat (fst (pool_counts pc pool s) + snd (pool_counts pc pool s)) = busy pool s + idle pool s"
proof -
  have sum: "busy pool s + idle pool s < 2 ^ 32" using card_members [OF assms(2)] assms(3) by simp
  show counts: "pool_counts pc pool s = (of_nat (busy pool s), of_nat (idle pool s))"
  proof (cases "is_function_pool pool")
    case True
    have "members pool s - idle_members pool s = {cid \<in> members pool s. \<not> is_idle s cid}"
      using True by (auto simp: idle_members_def)
    with True show ?thesis
      using count_active_idle_card [OF assms(1) known_uri(2) [OF assms(2)] refl known_uri(1) [OF assms(2)]]
      by (simp add: pool_counts_def busy_def idle_def idle_members_def members_def split: option.split)
  next
    case False
    have "(of_nat (busy pool s + idle pool s) :: u32) - of_nat (idle pool s) = of_nat (busy pool s)" by simp
    moreover have "(of_nat (idle pool s) :: u32) \<le> of_nat (busy pool s + idle pool s)"
      using sum unat_of_nat_u32 [of "idle pool s"] unat_of_nat_u32 [of "busy pool s + idle pool s"]
      by (simp only: word_le_nat_alt)
    moreover have "pool_counts pc pool s =
        (saturating_sub (of_nat (busy pool s + idle pool s)) (of_nat (idle pool s)), of_nat (idle pool s))"
      using False card_members [OF assms(2), of pool]
      by (simp add: pool_counts_def count_pool_containers_def pool_container_count_def Let_def ids_len_card
          idle_def idle_members_def members_def)
    ultimately show ?thesis by (auto simp: saturating_sub_def)
  qed
  show "unat (fst (pool_counts pc pool s)) = busy pool s" "unat (snd (pool_counts pc pool s)) = idle pool s"
    using sum by (simp_all add: counts unat_of_nat_u32)
  have "unat (of_nat (busy pool s + idle pool s) :: u32) = busy pool s + idle pool s" using sum by (rule unat_of_nat_u32)
  then show "unat (fst (pool_counts pc pool s) + snd (pool_counts pc pool s)) = busy pool s + idle pool s"
    by (simp add: counts)
qed

text \<open>How the counts of a pool may change while buffers are filled.\<close>

definition buffer_of :: "container_pool \<Rightarrow> nat" where
  "buffer_of pool = unat (unwrap_or (pool_buffer_containers pool) 0)"

definition grown :: "container_pool \<Rightarrow> container_scheduler \<Rightarrow> container_scheduler \<Rightarrow> bool" where
  "grown pool s s' \<longleftrightarrow>
     busy pool s' = busy pool s \<and> idle pool s \<le> idle pool s' \<and> idle pool s' \<le> max (idle pool s) (buffer_of pool) \<and>
     busy pool s' + idle pool s' \<le> max (busy pool s + idle pool s) (unat (pool_max pool))"

lemma grown_refl [simp]: "grown pool s s"
  by (simp add: grown_def)

lemma grown_trans: "grown pool s t \<Longrightarrow> grown pool t s' \<Longrightarrow> grown pool s s'"
  by (auto simp: grown_def max_def split: if_splits)

lemma grown_few: "grown pool s s' \<Longrightarrow> known s \<Longrightarrow> known s' \<Longrightarrow> few pool s \<Longrightarrow> few pool s'"
  using unsigned_less [of "pool_max pool", where 'a = nat] by (simp add: grown_def card_members max_def split: if_splits)

lemma needs_buffer_iff:
  assumes "enumerates (pc_containers pc)" "known s" "few pool s"
  shows "pool_needs_buffer pc pool s \<longleftrightarrow>
    idle pool s < buffer_of pool \<and> busy pool s + idle pool s < unat (pool_max pool)"
  using pool_counts_exact [OF assms]
  by (simp add: pool_needs_buffer_def Let_def split_def buffer_of_def word_less_nat_alt)

lemma unchanged_members:
  assumes "unchanged s s'"
  shows "members q s' = members q s" "idle_members q s' = idle_members q s"
  using assms by (simp_all add: unchanged_def count_view_def members_def idle_members_def is_idle_def split: option.split)

lemma unchanged_counts:
  assumes "unchanged s s'"
  shows "busy q s' = busy q s" "idle q s' = idle q s" "grown q s s'"
  using unchanged_members [OF assms] by (simp_all add: busy_def idle_def grown_def)

text \<open>The containers a function pool may still get back from the reaper.\<close>

definition restorable :: "container_pool \<Rightarrow> container_scheduler \<Rightarrow> nat" where
  "restorable pool s =
     (if is_function_pool pool
      then (case parse_function_pool_uri pool of Some u \<Rightarrow> length (reaped_list s u) | None \<Rightarrow> 0)
      else 0)"

definition gap :: "container_pool \<Rightarrow> container_scheduler \<Rightarrow> nat" where
  "gap pool s = (buffer_of pool - unat (of_nat (idle pool s) :: u32)) + restorable pool s"

lemma restorable_shrunk: "shrunk s s' \<Longrightarrow> restorable pool s' \<le> restorable pool s"
  by (simp add: restorable_def shrunk_def split: option.split)

lemma placement_frame: "placement fresh pool s s' \<Longrightarrow> shrunk s s' \<and> pools_view s' = pools_view s"
  by (auto elim: placement.cases)

text \<open>A placement adds an idle container, or puts back one that is still counted.\<close>

lemma placement_own:
  assumes "placement fresh pool s s'" "known s" "reaped_keyed s" "fresh \<notin> dom (cs_function_containers s)"
  shows "busy pool s' = busy pool s \<and>
    (idle pool s' = Suc (idle pool s) \<or> idle pool s' = idle pool s \<and> restorable pool s' < restorable pool s)"
  using assms(1)
proof cases
  case (created meta)
  note M = stored_members [OF created(1,2)]
  have new: "fresh \<notin> members pool s" using members_dom [OF assms(2)] assms(4) by blast
  then have "fresh \<notin> idle_members pool s" using idle_members_subset [OF assms(2)] by blast
  moreover have "insert fresh (members pool s) - insert fresh (idle_members pool s) =
      members pool s - idle_members pool s" using new by blast
  ultimately show ?thesis using assms(2) by (simp add: busy_def idle_def M)
next
  case (restored cid meta old)
  note M = stored_members [OF restored(1,2)]
  have u: "parse_function_pool_uri pool = Some (csm_uri meta)" using restored(2,5) by (simp add: for_pool_def)
  then have less: "restorable pool s' < restorable pool s" using restored(5,9) by (simp add: restorable_def)
  show ?thesis
  proof (cases "cid \<in> members pool s")
    case True
    then have "cid \<in> idle_members pool s" using restored(5,6,8) by (simp add: idle_members_def is_idle_def)
    with True have "insert cid (idle_members pool s) = idle_members pool s"
      "insert cid (members pool s) - insert cid (idle_members pool s) = members pool s - idle_members pool s"
      by blast+
    then show ?thesis using less by (simp add: busy_def idle_def M)
  next
    case False
    then have "cid \<notin> idle_members pool s" using idle_members_subset [OF assms(2)] by blast
    moreover from False have "insert cid (members pool s) - insert cid (idle_members pool s) =
        members pool s - idle_members pool s" by blast
    ultimately show ?thesis using assms(2) by (simp add: busy_def idle_def M)
  qed
qed

text \<open>The state and the count of attempts, seen as one.\<close>

abbreviation rc_ready :: "pool_choices \<Rightarrow> recon \<Rightarrow> bool" where
  "rc_ready pc r \<equiv> ready pc (rc_attempts r) (rc_scheduler r)"

text \<open>What does not change at other pools.\<close>

definition others_same :: "container_pool \<Rightarrow> container_scheduler \<Rightarrow> container_scheduler \<Rightarrow> bool" where
  "others_same pool s s' \<longleftrightarrow>
     shrunk s s' \<and> pools_view s' = pools_view s \<and>
     (\<forall>q. named q \<longrightarrow> pool_key q \<noteq> pool_key pool \<longrightarrow>
        members q s' = members q s \<and> idle_members q s' = idle_members q s)"

lemma others_same_unchanged: "unchanged s s' \<Longrightarrow> others_same pool s s'"
  using unchanged_members by (auto simp: others_same_def unchanged_def)

lemma others_same_trans: "others_same pool s t \<Longrightarrow> others_same pool t s' \<Longrightarrow> others_same pool s s'"
  using shrunk_trans by (auto simp: others_same_def)

lemma others_same_counts:
  assumes "others_same pool s s'" "named q" "pool_key q \<noteq> pool_key pool"
  shows "grown q s s'" "gap q s' \<le> gap q s" "members q s' = members q s"
proof -
  have "members q s' = members q s" "idle_members q s' = idle_members q s" using assms by (simp_all add: others_same_def)
  moreover have "restorable q s' \<le> restorable q s" using assms(1) restorable_shrunk by (simp add: others_same_def)
  ultimately show "grown q s s'" "gap q s' \<le> gap q s" "members q s' = members q s"
    by (simp_all add: grown_def gap_def busy_def idle_def)
qed

lemma try_place_step:
  assumes sur: "surroundings pc state" and ready: "rc_ready pc r" and place: "try_place_container pc state pool r = (result, r')"
  shows "rc_ready pc r'" "others_same pool (rc_scheduler r) (rc_scheduler r')"
    and "result \<noteq> Ok True \<Longrightarrow> unchanged (rc_scheduler r) (rc_scheduler r')"
    and "result = Ok True \<Longrightarrow> busy pool (rc_scheduler r') = busy pool (rc_scheduler r) \<and>
      (idle pool (rc_scheduler r') = Suc (idle pool (rc_scheduler r)) \<or>
       idle pool (rc_scheduler r') = idle pool (rc_scheduler r) \<and>
       restorable pool (rc_scheduler r') < restorable pool (rc_scheduler r))"
proof -
  let ?s = "rc_scheduler r" and ?s' = "rc_scheduler r'"
  have known: "known ?s" "reaped_keyed ?s" "fresh_id pc (rc_attempts r) \<notin> dom (cs_function_containers ?s)"
    using ready by (simp_all add: ready_def)
  have E: "rc_attempts r' = Suc (rc_attempts r)"
    "result = Ok True \<Longrightarrow> placement (fresh_id pc (rc_attempts r)) pool ?s ?s'"
    "result \<noteq> Ok True \<Longrightarrow> unchanged ?s ?s'"
    using try_place_effect [OF place _ known(2)] sur by (simp_all add: surroundings_def fresh_id_def)
  show "unchanged ?s ?s'" if "result \<noteq> Ok True" using E(3) that .
  show "rc_ready pc r'"
    using E ready_placement [OF ready] ready_unchanged [OF ready] sur by (cases "result = Ok True") (simp_all add: surroundings_def)
  show "others_same pool ?s ?s'"
  proof (cases "result = Ok True")
    case True
    note P = E(2) [OF True]
    from placement_frame [OF P] placement_other [OF P known(1,3)] show ?thesis by (simp add: others_same_def)
  next
    case False
    from others_same_unchanged [OF E(3) [OF False]] show ?thesis .
  qed
  show "busy pool ?s' = busy pool ?s \<and> (idle pool ?s' = Suc (idle pool ?s) \<or>
      idle pool ?s' = idle pool ?s \<and> restorable pool ?s' < restorable pool ?s)" if "result = Ok True"
    using placement_own [OF E(2) [OF that] known] .
qed

text \<open>A placement for a pool that needs one closes the gap and keeps it within its limits.\<close>

lemma try_place_gap:
  assumes sur: "surroundings pc state" and ready: "rc_ready pc r"
    and need: "pool_needs_buffer pc pool (rc_scheduler r)"
    and place: "try_place_container pc state pool r = (Ok True, r')"
  shows "gap pool (rc_scheduler r') < gap pool (rc_scheduler r)"
proof -
  let ?s = "rc_scheduler r" and ?s' = "rc_scheduler r'"
  let ?w = "\<lambda>n. unat (of_nat n :: u32)"
  note S = try_place_step [OF sur ready place]
  have "snd (pool_counts pc pool ?s) = of_nat (idle pool ?s)"
    using pool_counts_idle ready sur by (simp add: ready_def surroundings_def idle_def)
  then have less: "(of_nat (idle pool ?s) :: u32) < unwrap_or (pool_buffer_containers pool) 0"
    using need by (simp add: pool_needs_buffer_def Let_def split_def)
  then have "?w (Suc (idle pool ?s)) = Suc (?w (idle pool ?s))"
    by (metis add.commute of_nat_Suc unat_Suc_below)
  moreover have "?w (idle pool ?s) < buffer_of pool" using less by (simp add: buffer_of_def word_less_nat_alt)
  moreover have "restorable pool ?s' \<le> restorable pool ?s" using S(2) restorable_shrunk by (simp add: others_same_def)
  ultimately show ?thesis using S(4) by (auto simp: gap_def)
qed

lemma try_place_needed:
  assumes sur: "surroundings pc state" and ready: "rc_ready pc r" and few: "few pool (rc_scheduler r)"
    and need: "pool_needs_buffer pc pool (rc_scheduler r)"
    and place: "try_place_container pc state pool r = (Ok True, r')"
  shows "grown pool (rc_scheduler r) (rc_scheduler r')"
proof -
  have "known (rc_scheduler r)" "enumerates (pc_containers pc)" using ready sur by (simp_all add: ready_def surroundings_def)
  with needs_buffer_iff [of pc "rc_scheduler r" pool] few need
  have "idle pool (rc_scheduler r) < buffer_of pool"
    "busy pool (rc_scheduler r) + idle pool (rc_scheduler r) < unat (pool_max pool)" by simp_all
  with try_place_step(4) [OF sur ready place] show ?thesis by (auto simp: grown_def)
qed

lemma fill_pool_step:
  assumes sur: "surroundings pc state" and ready: "rc_ready pc r" and few: "few pool (rc_scheduler r)"
    and fill: "fill_pool pc state pool (any, blocked, r) = (any', blocked', r')"
  shows "rc_ready pc r'" "others_same pool (rc_scheduler r) (rc_scheduler r')"
    and "grown pool (rc_scheduler r) (rc_scheduler r')" "gap pool (rc_scheduler r') \<le> gap pool (rc_scheduler r)"
    and "any' \<Longrightarrow> any \<or> gap pool (rc_scheduler r') < gap pool (rc_scheduler r)" "any \<Longrightarrow> any'" "blocked \<subseteq> blocked'"
    and "\<not> any' \<Longrightarrow> unchanged (rc_scheduler r) (rc_scheduler r') \<and>
      (pool_key pool \<in> blocked' \<or> \<not> pool_needs_buffer pc pool (rc_scheduler r) \<or>
       (\<exists>e. try_place_container pc state pool r = (Err e, r')))"
proof -
  let ?s = "rc_scheduler r" and ?s' = "rc_scheduler r'"
  obtain result t where place: "try_place_container pc state pool r = (result, t)" by fastforce
  note S = try_place_step [OF sur ready place] and N = try_place_needed [OF sur ready few, of t] try_place_gap [OF sur ready, of pool t]
  consider (idle) "any' = any" "blocked' = blocked" "r' = r"
      "pool_key pool \<in> blocked \<or> \<not> pool_needs_buffer pc pool ?s"
    | (placed) "pool_needs_buffer pc pool ?s" "result = Ok True" "any'" "blocked' = blocked" "r' = t"
    | (full) "result = Ok False" "any' = any" "blocked' = insert (pool_key pool) blocked" "r' = t"
    | (failed) e where "result = Err e" "any' = any" "blocked' = blocked" "r' = t"
    using fill place by (auto simp: fill_pool_def split: if_splits sum.splits bool.splits)
  note C = this
  have G: "gap pool ?s' \<le> gap pool ?s \<and> grown pool ?s ?s'" if "unchanged ?s ?s'"
    using unchanged_counts [OF that] that restorable_shrunk by (simp add: gap_def unchanged_def)
  show "rc_ready pc r'" using C ready S(1) by cases simp_all
  show "others_same pool ?s ?s'" using C S(2) others_same_unchanged by cases simp_all
  show "grown pool ?s ?s'" using C N(1) place S(3) G by cases simp_all
  show "gap pool ?s' \<le> gap pool ?s" using C less_imp_le [OF N(2)] place S(3) G by cases simp_all
  show "any \<or> gap pool ?s' < gap pool ?s" if any' using C N(2) place that by cases simp_all
  show any' if any using C that by cases simp_all
  show "blocked \<subseteq> blocked'" using C by cases auto
  show "unchanged ?s ?s' \<and> (pool_key pool \<in> blocked' \<or> \<not> pool_needs_buffer pc pool ?s \<or>
       (\<exists>e. try_place_container pc state pool r = (Err e, r')))" if "\<not> any'"
    using C S(3) place that by cases auto
qed

subsection \<open>Rounds\<close>

definition apart :: "container_pool list \<Rightarrow> bool" where
  "apart pools \<longleftrightarrow> inj_on pool_key (set pools) \<and> (\<forall>q \<in> set pools. named q)"

definition total_gap :: "container_pool list \<Rightarrow> container_scheduler \<Rightarrow> nat" where
  "total_gap pools s = (\<Sum>q \<in> set pools. gap q s)"

text \<open>Nothing more can be done for the pool: it is blocked, it has what it needs, or creating fails.\<close>

definition settled_pool ::
  "pool_choices \<Rightarrow> in_memory_state \<Rightarrow> container_pool_key set \<Rightarrow> container_scheduler \<Rightarrow> container_pool \<Rightarrow> bool" where
  "settled_pool pc state blocked s pool \<longleftrightarrow>
     pool_key pool \<in> blocked \<or> \<not> pool_needs_buffer pc pool s \<or>
     (\<exists>r e r'. count_view (rc_scheduler r) = count_view s \<and> try_place_container pc state pool r = (Err e, r'))"

lemma pool_counts_view: "count_view s' = count_view s \<Longrightarrow> pool_counts pc q s' = pool_counts pc q s"
  by (simp add: count_view_def pool_counts_def count_active_idle_containers_def count_pool_containers_def
      pool_container_count_def Let_def split: option.split)

lemma settled_pool_mono:
  assumes "settled_pool pc state blocked s q" "blocked \<subseteq> blocked'" "count_view s' = count_view s"
  shows "settled_pool pc state blocked' s' q"
  using assms pool_counts_view [OF assms(3), of pc q]
  by (auto simp: settled_pool_def pool_needs_buffer_def)

lemma fill_pool_all:
  assumes sur: "surroundings pc state" and apart: "apart pools" and pool: "pool \<in> set pools"
    and ready: "rc_ready pc r" and few: "\<forall>q \<in> set pools. few q (rc_scheduler r)"
    and fill: "fill_pool pc state pool (any, blocked, r) = (any', blocked', r')"
  shows "\<forall>q \<in> set pools. grown q (rc_scheduler r) (rc_scheduler r')"
    and "\<forall>q \<in> set pools. few q (rc_scheduler r')"
    and "total_gap pools (rc_scheduler r') \<le> total_gap pools (rc_scheduler r)"
    and "any' \<Longrightarrow> any \<or> total_gap pools (rc_scheduler r') < total_gap pools (rc_scheduler r)"
proof -
  let ?s = "rc_scheduler r" and ?s' = "rc_scheduler r'"
  note S = fill_pool_step [OF sur ready _ fill]
  have few': "few pool ?s" using few pool by blast
  have each: "grown q ?s ?s' \<and> gap q ?s' \<le> gap q ?s" if "q \<in> set pools" for q
  proof (cases "q = pool")
    case True
    then show ?thesis using S(3,4) [OF few'] by simp
  next
    case False
    then have "pool_key q \<noteq> pool_key pool" "named q" using apart that pool by (auto simp: apart_def inj_on_def)
    then show ?thesis using others_same_counts [OF S(2) [OF few']] by simp
  qed
  then show "\<forall>q \<in> set pools. grown q ?s ?s'" by blast
  have "known ?s" "known ?s'" using ready S(1) [OF few'] by (simp_all add: ready_def)
  with each few grown_few show "\<forall>q \<in> set pools. few q ?s'" by blast
  show "total_gap pools ?s' \<le> total_gap pools ?s" unfolding total_gap_def using each by (simp add: sum_mono)
  show "any \<or> total_gap pools ?s' < total_gap pools ?s" if any'
  proof (rule disjCI)
    assume "\<not> total_gap pools ?s' < total_gap pools ?s"
    moreover have "total_gap pools ?s' < total_gap pools ?s" if "gap pool ?s' < gap pool ?s"
      unfolding total_gap_def by (rule sum_strict_mono_ex1) (use each that pool in auto)
    ultimately show any using S(5) [OF few' that] by blast
  qed
qed

lemma fill_round:
  assumes sur: "surroundings pc state" and apart: "apart pools" and sub: "set xs \<subseteq> set pools"
    and ready: "rc_ready pc r" and few: "\<forall>q \<in> set pools. few q (rc_scheduler r)"
    and fill: "fold (fill_pool pc state) xs (any, blocked, r) = (any', blocked', r')"
  shows "rc_ready pc r' \<and> pools_view (rc_scheduler r') = pools_view (rc_scheduler r) \<and> blocked \<subseteq> blocked' \<and>
    (\<forall>q \<in> set pools. few q (rc_scheduler r') \<and> grown q (rc_scheduler r) (rc_scheduler r')) \<and>
    total_gap pools (rc_scheduler r') \<le> total_gap pools (rc_scheduler r) \<and> (any \<longrightarrow> any') \<and>
    (any' \<longrightarrow> any \<or> total_gap pools (rc_scheduler r') < total_gap pools (rc_scheduler r)) \<and>
    (\<not> any' \<longrightarrow> count_view (rc_scheduler r') = count_view (rc_scheduler r) \<and>
       (\<forall>q \<in> set xs. settled_pool pc state blocked' (rc_scheduler r') q))"
  using sub ready few fill
proof (induction xs arbitrary: any blocked r)
  case Nil
  then show ?case by simp
next
  case (Cons pool xs)
  obtain any1 blocked1 r1 where one: "fill_pool pc state pool (any, blocked, r) = (any1, blocked1, r1)"
    by (rule prod_cases3)
  have pool: "pool \<in> set pools" using Cons.prems(1) by simp
  then have few: "few pool (rc_scheduler r)" using Cons.prems(3) by blast
  note S = fill_pool_step [OF sur Cons.prems(2) few one]
    and A = fill_pool_all [OF sur apart pool Cons.prems(2,3) one]
  have rest: "fold (fill_pool pc state) xs (any1, blocked1, r1) = (any', blocked', r')" using Cons.prems(4) one by simp
  note I = Cons.IH [OF _ S(1) A(2) rest]
  have sub: "set xs \<subseteq> set pools" using Cons.prems(1) by simp
  have settled: "settled_pool pc state blocked' (rc_scheduler r') pool \<and>
      count_view (rc_scheduler r') = count_view (rc_scheduler r)" if "\<not> any'"
  proof -
    have "\<not> any1" using I [OF sub] that by blast
    note U = S(8) [OF this]
    then have v: "count_view (rc_scheduler r1) = count_view (rc_scheduler r)" by (simp add: unchanged_def)
    moreover have v': "count_view (rc_scheduler r') = count_view (rc_scheduler r1)" using I [OF sub] that by blast
    moreover have "settled_pool pc state blocked1 (rc_scheduler r) pool"
      unfolding settled_pool_def using U by blast
    ultimately show ?thesis using settled_pool_mono [of pc state blocked1 "rc_scheduler r" pool blocked' "rc_scheduler r'"] I [OF sub] by simp
  qed
  have "grown q (rc_scheduler r) (rc_scheduler r')" if "q \<in> set pools" for q
    using A(1) I [OF sub] that grown_trans by blast
  moreover have "pools_view (rc_scheduler r') = pools_view (rc_scheduler r)"
    using I [OF sub] S(2) by (simp add: others_same_def)
  moreover have "blocked \<subseteq> blocked'" "any \<longrightarrow> any'" using I [OF sub] S(6,7) by blast+
  moreover have "total_gap pools (rc_scheduler r') \<le> total_gap pools (rc_scheduler r)" using I [OF sub] A(3) by linarith
  moreover have "any' \<longrightarrow> any \<or> total_gap pools (rc_scheduler r') < total_gap pools (rc_scheduler r)"
    using I [OF sub] A(3,4) by linarith
  ultimately show ?case using I [OF sub] settled by auto
qed

subsection \<open>The loops end\<close>

lemma fill_buffers_total:
  assumes sur: "surroundings pc state" and apart: "apart pools"
    and "rc_ready pc r" "\<forall>q \<in> set pools. few q (rc_scheduler r)"
  shows "\<exists>blocked' r'. fill_buffers pc state pools (blocked, r) = Some (blocked', r') \<and> rc_ready pc r' \<and>
    pools_view (rc_scheduler r') = pools_view (rc_scheduler r) \<and> blocked \<subseteq> blocked' \<and>
    (\<forall>q \<in> set pools. few q (rc_scheduler r') \<and> grown q (rc_scheduler r) (rc_scheduler r') \<and>
       settled_pool pc state blocked' (rc_scheduler r') q)"
  using assms(3,4)
proof (induction "total_gap pools (rc_scheduler r)" arbitrary: blocked r rule: less_induct)
  case less
  obtain any blocked1 r1 where one: "fold (fill_pool pc state) pools (False, blocked, r) = (any, blocked1, r1)"
    by (rule prod_cases3)
  note R = fill_round [OF sur apart subset_refl less.prems one]
  show ?case
  proof (cases any)
    case False
    then have "fill_buffers pc state pools (blocked, r) = Some (blocked1, r1)"
      using one by (subst fill_buffers.simps) simp
    with R False show ?thesis by simp
  next
    case True
    then have step: "fill_buffers pc state pools (blocked, r) = fill_buffers pc state pools (blocked1, r1)"
      using one by (subst fill_buffers.simps) simp
    have "total_gap pools (rc_scheduler r1) < total_gap pools (rc_scheduler r)" "rc_ready pc r1"
      "\<forall>q \<in> set pools. few q (rc_scheduler r1)" using R True by simp_all
    from less.hyps [OF this, of blocked1] obtain blocked' r' where
      "fill_buffers pc state pools (blocked1, r1) = Some (blocked', r')" "rc_ready pc r'"
      "pools_view (rc_scheduler r') = pools_view (rc_scheduler r1)" "blocked1 \<subseteq> blocked'"
      "\<forall>q \<in> set pools. few q (rc_scheduler r') \<and> grown q (rc_scheduler r1) (rc_scheduler r') \<and>
         settled_pool pc state blocked' (rc_scheduler r') q" by blast
    moreover from this R grown_trans have "\<forall>q \<in> set pools. grown q (rc_scheduler r) (rc_scheduler r')" by blast
    moreover have "blocked \<subseteq> blocked1" "pools_view (rc_scheduler r1) = pools_view (rc_scheduler r)" using R by simp_all
    ultimately show ?thesis unfolding step by (intro exI [of _ blocked'] exI [of _ r']) auto
  qed
qed

lemma fill_one_total:
  assumes sur: "surroundings pc state" and "rc_ready pc r"
  shows "\<exists>r'. fill_one pc state pool r = Some r' \<and> rc_ready pc r' \<and> pools_view (rc_scheduler r') = pools_view (rc_scheduler r)"
  using assms(2)
proof (induction "gap pool (rc_scheduler r)" arbitrary: r rule: less_induct)
  case less
  show ?case
  proof (cases "pool_needs_buffer pc pool (rc_scheduler r)")
    case False
    with less.prems show ?thesis by (subst fill_one.simps) simp
  next
    case True
    obtain result r1 where place: "try_place_container pc state pool r = (result, r1)" by fastforce
    note S = try_place_step [OF sur less.prems place]
    have v: "pools_view (rc_scheduler r1) = pools_view (rc_scheduler r)" using S(2) by (simp add: others_same_def)
    show ?thesis
    proof (cases "result = Ok True")
      case False
      with True place S(1) v show ?thesis by (subst fill_one.simps) simp
    next
      case 2: True
      from less.hyps [OF try_place_gap [OF sur less.prems True] S(1)] place 2 v True
      show ?thesis by (subst fill_one.simps) simp
    qed
  qed
qed

section \<open>Meeting the minimum\<close>

lemma place_needed_step:
  assumes sur: "surroundings pc state" and "rc_ready pc r" "place_needed pc state pool n r = (ok, r')"
  shows "rc_ready pc r' \<and> others_same pool (rc_scheduler r) (rc_scheduler r') \<and>
    busy pool (rc_scheduler r') = busy pool (rc_scheduler r) \<and>
    idle pool (rc_scheduler r) \<le> idle pool (rc_scheduler r') \<and>
    idle pool (rc_scheduler r') \<le> idle pool (rc_scheduler r) + n"
  using assms(2,3)
proof (induction n arbitrary: r)
  case 0
  then show ?case by (simp add: others_same_unchanged)
next
  case (Suc n)
  obtain result r1 where place: "try_place_container pc state pool r = (result, r1)" by fastforce
  note S = try_place_step [OF sur Suc.prems(1) place]
  show ?case
  proof (cases "result = Ok True")
    case False
    then have "r' = r1" using Suc.prems(2) place by (auto split: sum.splits bool.splits)
    with S(1,2) unchanged_counts [OF S(3) [OF False]] show ?thesis by simp
  next
    case True
    then have "place_needed pc state pool n r1 = (ok, r')" using Suc.prems(2) place by simp
    from Suc.IH [OF S(1) this] S(2) S(4) [OF True] others_same_trans show ?thesis by fastforce
  qed
qed

lemma ensure_pool_min_step:
  assumes sur: "surroundings pc state" and ready: "rc_ready pc r" and min: "ensure_pool_min pc state pool r = (ok, r')"
  shows "rc_ready pc r'" "others_same pool (rc_scheduler r) (rc_scheduler r')"
    and "few pool (rc_scheduler r) \<Longrightarrow> few pool (rc_scheduler r')"
proof -
  let ?s = "rc_scheduler r" and ?s' = "rc_scheduler r'"
  define m where "m = min (unwrap_or (pool_min_containers pool) 0) (pool_max pool)"
  define c where "c = fst (pool_counts pc pool ?s) + snd (pool_counts pc pool ?s)"
  have E: "(if m \<le> c then (True, r) else place_needed pc state pool (unat (m - c)) r) = (ok, r')"
    using min unfolding ensure_pool_min_def Let_def split_def m_def c_def .
  have *: "rc_ready pc r' \<and> others_same pool ?s ?s' \<and> (few pool ?s \<longrightarrow> few pool ?s')"
  proof (cases "m \<le> c")
    case True
    with E ready show ?thesis by (simp add: others_same_unchanged)
  next
    case False
    with E have "place_needed pc state pool (unat (m - c)) r = (ok, r')" by simp
    note P = place_needed_step [OF sur ready this]
    have "few pool ?s'" if "few pool ?s"
    proof -
      have K: "known ?s" "known ?s'" "enumerates (pc_containers pc)"
        using ready P sur by (simp_all add: ready_def surroundings_def)
      have "unat c = busy pool ?s + idle pool ?s" using pool_counts_exact(4) [OF K(3,1) that] by (simp add: c_def)
      moreover have "unat (m - c) = unat m - unat c" using False by (intro unat_sub_le) simp
      moreover have "unat c < unat m" using False by (simp add: word_less_nat_alt [symmetric])
      ultimately have "busy pool ?s' + idle pool ?s' \<le> unat m" using P by linarith
      moreover have "unat m < 2 ^ 32" using unsigned_less [of m, where 'a = nat] by simp
      ultimately show ?thesis using card_members [OF K(2)] by simp
    qed
    with P show ?thesis by simp
  qed
  then show "rc_ready pc r'" "others_same pool ?s ?s'" "few pool ?s \<Longrightarrow> few pool ?s'" by simp_all
qed

lemma meet_minimum_all:
  assumes sur: "surroundings pc state" and apart: "apart pools" and "set xs \<subseteq> set pools"
    and "rc_ready pc r" "\<forall>q \<in> set pools. few q (rc_scheduler r)"
    and "fold (meet_minimum pc state) xs (blocked, r) = (blocked', r')"
  shows "rc_ready pc r' \<and> pools_view (rc_scheduler r') = pools_view (rc_scheduler r) \<and>
    (\<forall>q \<in> set pools. few q (rc_scheduler r'))"
  using assms(3-6)
proof (induction xs arbitrary: blocked r)
  case Nil
  then show ?case by simp
next
  case (Cons pool xs)
  obtain ok r1 where min: "ensure_pool_min pc state pool r = (ok, r1)" by fastforce
  note S = ensure_pool_min_step [OF sur Cons.prems(2) min]
  have "few q (rc_scheduler r1)" if "q \<in> set pools" for q
  proof (cases "q = pool")
    case True
    then show ?thesis using S(3) Cons.prems(3) that by blast
  next
    case False
    then have "pool_key q \<noteq> pool_key pool" "named q"
      using apart that Cons.prems(1) by (auto simp: apart_def inj_on_def)
    then show ?thesis using others_same_counts(3) [OF S(2)] Cons.prems(3) that by simp
  qed
  moreover obtain b1 where "meet_minimum pc state pool (blocked, r) = (b1, r1)"
    using min by (simp add: meet_minimum_def)
  then have "fold (meet_minimum pc state) xs (b1, r1) = (blocked', r')" using Cons.prems(4) by simp
  moreover have "set xs \<subseteq> set pools" using Cons.prems(1) by simp
  ultimately have "rc_ready pc r' \<and> pools_view (rc_scheduler r') = pools_view (rc_scheduler r1) \<and>
      (\<forall>q \<in> set pools. few q (rc_scheduler r'))"
    using \<open>fold (meet_minimum pc state) xs (b1, r1) = (blocked', r')\<close> Cons.IH [of r1] S(1) by blast
  moreover have "pools_view (rc_scheduler r1) = pools_view (rc_scheduler r)" using S(2) by (simp add: others_same_def)
  ultimately show ?case by simp
qed

section \<open>Terminating containers\<close>

lemma ready_terminate:
  assumes "ready pc n s"
  shows "ready pc n (snd (terminate_container cid s))" "pools_view (snd (terminate_container cid s)) = pools_view s"
proof -
  let ?s' = "snd (terminate_container cid s)"
  have R: "cs_reaped_containers ?s' = cs_reaped_containers s" and P: "pools_view ?s' = pools_view s"
    by (simp_all add: terminate_container_def pools_view_def remove_idle_def remove_from_uri_index_def
        remove_from_pool_index_def remove_from_warm_index_def Let_def split: option.split)
  show "pools_view ?s' = pools_view s" by (rule P)
  show "ready pc n ?s'"
  proof (cases "cs_function_containers s cid")
    case None
    with assms show ?thesis by (simp add: terminate_container_def)
  next
    case (Some fc)
    have V: "cs_function_containers ?s' = (cs_function_containers s)(cid \<mapsto> mark_terminated fc)"
      "cs_containers_by_function_uri ?s' = idx_remove (csm_uri fc) cid (cs_containers_by_function_uri s)"
      "cs_containers_by_pool ?s' = (case csm_pool_key fc of Some k \<Rightarrow> idx_remove k cid (cs_containers_by_pool s)
         | None \<Rightarrow> cs_containers_by_pool s)"
      "cs_warm_containers_by_pool ?s' = (case csm_pool_key fc of Some k \<Rightarrow> idx_remove k cid (cs_warm_containers_by_pool s)
         | None \<Rightarrow> cs_warm_containers_by_pool s)"
      using view_terminate_container [OF Some] by (simp_all add: container_view_def unindex_def)
    have M: "csm_uri (mark_terminated fc) = csm_uri fc" "csm_pool_key (mark_terminated fc) = csm_pool_key fc"
      "is_warm (mark_terminated fc) = is_warm fc" "csm_allocations (mark_terminated fc) = csm_allocations fc"
      by (simp_all add: mark_terminated_def csm_uri_def csm_pool_key_def is_warm_def)
    have K: "finite (dom (cs_function_containers s))"
      "c \<in> idx_get (cs_containers_by_function_uri s) u \<Longrightarrow> \<exists>m. cs_function_containers s c = Some m \<and> csm_uri m = u"
      "c \<in> idx_get (cs_containers_by_pool s) j \<Longrightarrow> c \<in> dom (cs_function_containers s)"
      "c \<in> idx_get (cs_warm_containers_by_pool s) j \<Longrightarrow> c \<in> idx_get (cs_containers_by_pool s) j" for c u j
      using assms unfolding ready_def known_def by blast+
    have "known ?s'"
    proof (rule knownI)
      show "finite (dom (cs_function_containers ?s'))" using K(1) by (simp add: V)
      show "\<exists>m. cs_function_containers ?s' c = Some m \<and> csm_uri m = u"
        if "c \<in> idx_get (cs_containers_by_function_uri ?s') u" for c u
        using that K(2) [of c u] Some by (auto simp: V split: if_splits)
      show "c \<in> dom (cs_function_containers ?s')" if "c \<in> idx_get (cs_containers_by_pool ?s') k" for c k
        using that K(3) [of c k] by (auto simp: V split: option.splits if_splits)
      show "c \<in> idx_get (cs_containers_by_pool ?s') k" if "c \<in> idx_get (cs_warm_containers_by_pool ?s') k" for c k
        using that K(4) [of c k] by (auto simp: V split: option.splits if_splits)
    qed
    moreover have "reaped_keyed ?s'"
      unfolding reaped_keyed_def
    proof (intro allI impI)
      fix u c m assume c: "c \<in> set (reaped_list ?s' u)" "cs_function_containers ?s' c = Some m"
      have "c \<in> set (reaped_list s u)" using c(1) by (simp add: reaped_list_def R)
      then have "csm_uri m' = u \<and> csm_pool_key m' = Some (uri_pool_key u) \<and> is_warm m' \<and> csm_allocations m' = {}"
        if "cs_function_containers s c = Some m'" for m'
        using that assms unfolding ready_def reaped_keyed_def by blast
      with c(2) Some show "csm_uri m = u \<and> csm_pool_key m = Some (uri_pool_key u) \<and> is_warm m \<and> csm_allocations m = {}"
        by (auto simp: V M split: if_splits)
    qed
    moreover have "dom (cs_function_containers ?s') = dom (cs_function_containers s)" using Some by (auto simp: V)
    ultimately show ?thesis using assms by (simp add: ready_def reaped_list_def R)
  qed
qed

lemma trim_idle_containers_eq:
  "\<exists>cids. snd (trim_idle_containers pc pool count s) = fold (\<lambda>cid s. snd (terminate_container cid s)) cids s"
proof -
  have "snd (fold (\<lambda>cid (update, scheduler). case terminate_container cid scheduler of
        (Some u, scheduler) \<Rightarrow> (extend_update update u, scheduler) | (None, scheduler) \<Rightarrow> (update, scheduler)) cids (u, s)) =
      fold (\<lambda>cid s. snd (terminate_container cid s)) cids s" for cids u s
  proof (induction cids arbitrary: u s)
    case (Cons c cids)
    obtain x t where "terminate_container c s = (x, t)" by fastforce
    then show ?case using Cons.IH by (cases x) simp_all
  qed simp
  then show ?thesis unfolding trim_idle_containers_def Let_def by blast
qed

lemma ready_trim:
  assumes "rc_ready pc r"
  shows "rc_ready pc (trim_pool_excess pc pool r) \<and>
    pools_view (rc_scheduler (trim_pool_excess pc pool r)) = pools_view (rc_scheduler r)"
proof -
  have F: "ready pc n (fold (\<lambda>cid s. snd (terminate_container cid s)) cids s) \<and>
      pools_view (fold (\<lambda>cid s. snd (terminate_container cid s)) cids s) = pools_view s" if "ready pc n s" for n cids s
    using that by (induction cids arbitrary: s) (simp_all add: ready_terminate)
  have "ready pc (rc_attempts r) (snd (trim_idle_containers pc pool count (rc_scheduler r))) \<and>
      pools_view (snd (trim_idle_containers pc pool count (rc_scheduler r))) = pools_view (rc_scheduler r)" for count
    using trim_idle_containers_eq [of pc pool count "rc_scheduler r"] F [OF assms] by metis
  then show ?thesis using assms by (simp add: trim_pool_excess_def Let_def split_def)
qed

section \<open>The whole reconciliation\<close>

lemma ready_blocked_pools [simp]:
  "ready pc n (s\<lparr>cs_blocked_pools := b\<rparr>) = ready pc n s" "pools_view (s\<lparr>cs_blocked_pools := b\<rparr>) = pools_view s"
  "ready pc n (s\<lparr>cs_dirty_pools := d\<rparr>) = ready pc n s" "pools_view (s\<lparr>cs_dirty_pools := d\<rparr>) = pools_view s"
  by (simp_all add: ready_def known_def reaped_keyed_def reaped_list_def pools_view_def)

lemma probe_pool_total:
  assumes sur: "surroundings pc state" and ready: "rc_ready pc r"
  shows "\<exists>r'. probe_pool pc state key r = Some r' \<and> rc_ready pc r' \<and> pools_view (rc_scheduler r') = pools_view (rc_scheduler r)"
proof (cases "key \<in> cs_blocked_pools (rc_scheduler r) \<and> get_pool (rc_scheduler r) key \<noteq> None")
  case False
  then show ?thesis using ready by (auto simp: probe_pool_def)
next
  case True
  then obtain pool where pool: "key \<in> cs_blocked_pools (rc_scheduler r)" "get_pool (rc_scheduler r) key = Some pool" by auto
  obtain result r1 where place: "try_place_container pc state pool r = (result, r1)" by fastforce
  note S = try_place_step [OF sur ready place]
  have v: "pools_view (rc_scheduler r1) = pools_view (rc_scheduler r)" using S(2) by (simp add: others_same_def)
  show ?thesis
  proof (cases "result = Ok True")
    case False
    then show ?thesis using pool place S(1) v by (auto simp: probe_pool_def split: sum.splits bool.splits)
  next
    case True
    define r2 where "r2 = r1\<lparr>rc_scheduler := (rc_scheduler r1)\<lparr>cs_blocked_pools := cs_blocked_pools (rc_scheduler r1) - {key}\<rparr>\<rparr>"
    have r2: "rc_ready pc r2" "pools_view (rc_scheduler r2) = pools_view (rc_scheduler r)" using S(1) v by (simp_all add: r2_def)
    obtain ok r3 where min: "ensure_pool_min pc state pool r2 = (ok, r3)" by fastforce
    note M = ensure_pool_min_step [OF sur r2(1) min]
    from fill_one_total [OF sur M(1), of pool] M(2) r2(2) show ?thesis
      using pool place True min by (simp add: probe_pool_def r2_def [symmetric] others_same_def)
  qed
qed

lemma probe_pools_total:
  assumes "surroundings pc state" "rc_ready pc r"
  shows "\<exists>r'. probe_pools pc state keys r = Some r' \<and> rc_ready pc r' \<and> pools_view (rc_scheduler r') = pools_view (rc_scheduler r)"
  using assms(2)
proof (induction keys arbitrary: r)
  case (Cons key keys)
  from probe_pool_total [OF assms(1) Cons.prems, of key] obtain r1 where
    "probe_pool pc state key r = Some r1" "rc_ready pc r1" "pools_view (rc_scheduler r1) = pools_view (rc_scheduler r)"
    by blast
  with Cons.IH [of r1] show ?case by simp
qed simp

lemma ready_fold_trim:
  "rc_ready pc r \<Longrightarrow> rc_ready pc (fold (trim_unblocked pc blocked) pools r) \<and>
     pools_view (rc_scheduler (fold (trim_unblocked pc blocked) pools r)) = pools_view (rc_scheduler r)"
  by (induction pools arbitrary: r) (simp_all add: trim_unblocked_def ready_trim)

text \<open>Pools are stored under their own keys, and function pools name an application.\<close>

definition pools_keyed :: "container_scheduler \<Rightarrow> bool" where
  "pools_keyed s \<longleftrightarrow> (\<forall>k pool. get_pool s k = Some pool \<longrightarrow> pool_key pool = k \<and> named pool)"

lemma apart_lookup:
  assumes "pools_keyed s"
  shows "apart (List.map_filter (get_pool s) keys)"
  using assms unfolding apart_def inj_on_def by (fastforce simp: set_map_filter pools_keyed_def)

lemma reconcile_returns:
  assumes sur: "surroundings pc state" and ready: "ready pc 0 s" and keyed: "pools_keyed s"
    and few: "card (dom (cs_function_containers s)) < 2 ^ 32"
  shows "\<exists>u cache' s' n. reconcile pc state cache s = Some (u, cache', s') \<and> ready pc n s' \<and> pools_view s' = pools_view s"
proof -
  define t where "t = s\<lparr>cs_dirty_pools := {}\<rparr>"
  define pools where "pools = List.map_filter (get_pool t)
    (filter (\<lambda>key. key \<notin> cs_blocked_pools t) (pc_pools pc (cs_dirty_pools s)))"
  define r0 where "r0 = \<lparr>rc_update = default_update, rc_scheduler = t, rc_cache = cache, rc_attempts = 0\<rparr>"
  have t: "ready pc 0 t" "pools_view t = pools_view s" "known t" using ready by (simp_all add: t_def ready_def known_def reaped_keyed_def reaped_list_def pools_view_def)
  have "get_pool t = get_pool s" by (simp add: fun_eq_iff get_pool_def t_def split: option.split)
  then have "pools_keyed t" using keyed by (simp add: pools_keyed_def)
  then have apart: "apart pools" unfolding pools_def by (rule apart_lookup)
  have "few q t" for q
    using card_mono [OF _ members_dom [OF t(3), of q]] t(3) few by (simp add: known_def t_def)
  then have few0: "\<forall>q \<in> set pools. few q (rc_scheduler r0)" by (simp add: r0_def)
  have ready0: "rc_ready pc r0" using t(1) by (simp add: r0_def)
  obtain b1 r1 where one: "fold (meet_minimum pc state) pools ({}, r0) = (b1, r1)" by fastforce
  note M = meet_minimum_all [OF sur apart subset_refl ready0 few0 one]
  then obtain b2 r2 where two: "fill_buffers pc state pools (b1, r1) = Some (b2, r2)" "rc_ready pc r2"
    "pools_view (rc_scheduler r2) = pools_view (rc_scheduler r1)"
    using fill_buffers_total [OF sur apart, of r1 b1] by blast
  define r3 where "r3 = fold (trim_unblocked pc b2) pools r2"
  define r4 where "r4 = r3\<lparr>rc_scheduler := (rc_scheduler r3)\<lparr>cs_blocked_pools := cs_blocked_pools (rc_scheduler r3) \<union> b2\<rparr>\<rparr>"
  have r4: "rc_ready pc r4" "pools_view (rc_scheduler r4) = pools_view s"
    using ready_fold_trim [OF two(2), of b2 pools] two(3) M t(2) by (simp_all add: r4_def r3_def [symmetric] r0_def)
  define probed where "probed = (if cs_blocked_pools (rc_scheduler r4) \<noteq> {} \<and> has_available_capacity (rc_scheduler r4)
    then probe_pools pc state (pc_pools pc (cs_blocked_pools (rc_scheduler r4))) r4 else Some r4)"
  obtain r5 where r5: "probed = Some r5" "rc_ready pc r5" "pools_view (rc_scheduler r5) = pools_view s"
    using probe_pools_total [OF sur r4(1)] r4 unfolding probed_def by (metis (full_types))
  show ?thesis
  proof (cases "cs_dirty_pools s = {} \<and> cs_blocked_pools t = {}")
    case True
    then have "reconcile pc state cache s = Some (default_update, cache, t)"
      by (simp add: reconcile_def take_dirty_pools_def t_def)
    with t show ?thesis by blast
  next
    case False
    have "reconcile pc state cache s = (case probed of None \<Rightarrow> None
        | Some r \<Rightarrow> Some (report_deficits pc pools b2 r, rc_cache r, rc_scheduler r))"
      unfolding reconcile_def take_dirty_pools_def Let_def prod.case
      unfolding t_def [symmetric] if_not_P [OF False] pools_def [symmetric] r0_def [symmetric] one two(1) prod.case option.case
        r3_def [symmetric] r4_def [symmetric] probed_def [symmetric] ..
    with r5 show ?thesis by auto
  qed
qed

section \<open>Trimming\<close>

definition belongs :: "container_pool \<Rightarrow> container_server_metadata \<Rightarrow> bool" where
  "belongs pool fc \<longleftrightarrow>
     (if is_function_pool pool then parse_function_pool_uri pool = Some (csm_uri fc)
      else csm_pool_key fc = Some (pool_key pool))"

definition spare :: "container_pool \<Rightarrow> container_server_metadata \<Rightarrow> bool" where
  "spare pool fc \<longleftrightarrow> belongs pool fc \<and> (if is_function_pool pool then csm_allocations fc = {} else is_warm fc)"

lemma index_pool_iff:
  assumes "containers_ok s"
  shows "cid \<in> idx_get (cs_containers_by_pool s) k \<longleftrightarrow> (\<exists>fc. live s cid = Some fc \<and> csm_pool_key fc = Some k)"
  using assms by (cases "live s cid") (auto simp: containers_ok_def indexed_ok_def)

lemma members_live:
  assumes "containers_ok s"
  shows "cid \<in> members pool s \<longleftrightarrow> (\<exists>fc. live s cid = Some fc \<and> belongs pool fc)"
    and "cid \<in> idle_members pool s \<longleftrightarrow> (\<exists>fc. live s cid = Some fc \<and> spare pool fc)"
proof -
  show 1: "cid \<in> members pool s \<longleftrightarrow> (\<exists>fc. live s cid = Some fc \<and> belongs pool fc)" for cid
    by (auto simp: members_def belongs_def index_uri_iff [OF assms] index_pool_iff [OF assms] split: option.split)
  show "cid \<in> idle_members pool s \<longleftrightarrow> (\<exists>fc. live s cid = Some fc \<and> spare pool fc)"
    by (auto simp: idle_members_def 1 spare_def is_idle_def live_Some index_warm_iff [OF assms] belongs_def)
qed

definition terminate_one ::
  "container_id \<Rightarrow> scheduler_update_request \<times> container_scheduler \<Rightarrow> scheduler_update_request \<times> container_scheduler" where
  "terminate_one cid = (\<lambda>(update, scheduler).
     case terminate_container cid scheduler of
       (Some u, scheduler) \<Rightarrow> (extend_update update u, scheduler)
     | (None, scheduler) \<Rightarrow> (update, scheduler))"

definition terminated_in :: "container_id set \<Rightarrow> (container_id \<rightharpoonup> container_server_metadata) \<Rightarrow> container_id \<rightharpoonup> container_server_metadata" where
  "terminated_in T m = (\<lambda>cid. if cid \<in> T then map_option mark_terminated (m cid) else None)"

lemma terminate_one_effect:
  assumes "containers_ok s" "terminate_one cid (u, s) = (u', s')"
  shows "containers_ok s'" "cs_function_containers s' = cs_function_containers s ++ terminated_in {cid} (cs_function_containers s)"
    "su_containers u' = su_containers u ++ terminated_in {cid} (cs_function_containers s)"
proof -
  have s': "s' = snd (terminate_container cid s)"
    using assms(2) by (auto simp: terminate_one_def split: prod.splits option.splits)
  with containers_ok_terminate_container [OF assms(1)] show "containers_ok s'" by simp
  show "cs_function_containers s' = cs_function_containers s ++ terminated_in {cid} (cs_function_containers s)"
    unfolding s' by (auto simp: terminate_container_def terminated_in_def map_add_def fun_eq_iff Let_def remove_idle_def
        remove_from_uri_index_def remove_from_pool_index_def remove_from_warm_index_def split: option.split)
  show "su_containers u' = su_containers u ++ terminated_in {cid} (cs_function_containers s)"
    using assms(2)
    by (auto simp: terminate_one_def terminate_container_def terminated_in_def map_add_def fun_eq_iff Let_def
        extend_update_def default_update_def split: option.splits)
qed

lemma terminate_all_effect:
  assumes "containers_ok s" "distinct cids" "fold terminate_one cids (u, s) = (u', s')"
  shows "containers_ok s' \<and>
    cs_function_containers s' = cs_function_containers s ++ terminated_in (set cids) (cs_function_containers s) \<and>
    su_containers u' = su_containers u ++ terminated_in (set cids) (cs_function_containers s)"
  using assms
proof (induction cids arbitrary: u s)
  case Nil
  then show ?case by (auto simp: terminated_in_def map_add_def fun_eq_iff)
next
  case (Cons cid cids)
  obtain u1 s1 where one: "terminate_one cid (u, s) = (u1, s1)" by fastforce
  note E = terminate_one_effect [OF Cons.prems(1) one]
  have "fold terminate_one cids (u1, s1) = (u', s')" using Cons.prems(3) one by simp
  from Cons.IH [OF E(1) _ this] Cons.prems(2)
  show ?case by (auto simp: E(2,3) terminated_in_def map_add_def fun_eq_iff split: option.splits)
qed

lemma select_idle_loop_eq:
  assumes "length result \<le> n"
  shows "select_idle_loop s n cids result = result @ take (n - length result) (filter (is_idle s) cids)"
  using assms
proof (induction cids arbitrary: result)
  case (Cons cid cids)
  show ?case
  proof (cases "n \<le> length result")
    case True
    with Cons.prems show ?thesis by simp
  next
    case False
    then have "Suc (length result) \<le> n" "n - length result = Suc (n - Suc (length result))" by simp_all
    with Cons.IH [of result] Cons.IH [of "result @ [cid]"] False show ?thesis
      by (auto simp: is_idle_def split: option.split)
  qed
qed simp

text \<open>The containers picked for trimming: so many of the idle ones, each once.\<close>

lemma trim_idle_containers_picks:
  assumes ord: "enumerates (pc_containers pc)" and known: "known s"
  shows "\<exists>cids. trim_idle_containers pc pool count s = fold terminate_one cids (default_update, s) \<and> distinct cids \<and>
    set cids \<subseteq> idle_members pool s \<and> length cids = min (unat count) (idle pool s)"
proof -
  have *: "trim_idle_containers pc pool count s = fold terminate_one
      (if is_function_pool pool
       then (case parse_function_pool_uri pool of
               Some u \<Rightarrow> select_idle_containers (pc_containers pc) s u count | None \<Rightarrow> [])
       else select_warm_pool_containers (pc_containers pc) s (pool_key pool) count) (default_update, s)"
    unfolding trim_idle_containers_def Let_def terminate_one_def ..
  show ?thesis
  proof (cases "is_function_pool pool")
    case True
    show ?thesis
    proof (cases "parse_function_pool_uri pool")
      case None
      then show ?thesis using True unfolding * by (simp add: idle_def idle_members_def members_def)
    next
      case (Some u)
      let ?ids = "pc_containers pc (idx_get (cs_containers_by_function_uri s) u)"
      note D = enumeratesD [OF ord known_uri(2) [OF known, of u]]
      have I: "idle_members pool s = set (filter (is_idle s) ?ids)"
        using True Some D(1) by (auto simp: idle_members_def members_def)
      have "idle pool s = length (filter (is_idle s) ?ids)" unfolding idle_def I using D(2) distinct_card by (metis distinct_filter)
      moreover have "set (take (unat count) (filter (is_idle s) ?ids)) \<subseteq> idle_members pool s"
        unfolding I by (rule set_take_subset)
      moreover have "trim_idle_containers pc pool count s =
          fold terminate_one (take (unat count) (filter (is_idle s) ?ids)) (default_update, s)"
        using True Some unfolding * by (simp add: select_idle_containers_def select_idle_loop_eq)
      ultimately show ?thesis using D(2) by (intro exI [of _ "take (unat count) (filter (is_idle s) ?ids)"]) simp
    qed
  next
    case False
    let ?W = "idx_get (cs_warm_containers_by_pool s) (pool_key pool)"
    have I: "idle_members pool s = ?W" using False by (simp add: idle_members_def)
    then have fin: "finite ?W" using finite_idle_members [OF known, of pool] by simp
    note D = enumeratesD [OF ord fin]
    have "select_warm_pool_containers (pc_containers pc) s (pool_key pool) count = take (unat count) (pc_containers pc ?W)"
    proof (cases "cs_warm_containers_by_pool s (pool_key pool)")
      case None
      then have "pc_containers pc ?W = []" using D(1) by (simp add: idx_get_def)
      with None show ?thesis by (simp add: select_warm_pool_containers_def)
    next
      case (Some W)
      then show ?thesis by (simp add: select_warm_pool_containers_def idx_get_def)
    qed
    moreover have "idle pool s = length (pc_containers pc ?W)" using D by (metis I distinct_card idle_def)
    moreover have "set (take (unat count) (pc_containers pc ?W)) \<subseteq> ?W" using D(1) set_take_subset by metis
    ultimately show ?thesis
      using False D(2) I unfolding * by (intro exI [of _ "take (unat count) (pc_containers pc ?W)"]) simp
  qed
qed

lemma unat_max_min:
  "unat (max a b) = max (unat a) (unat b)" "unat (min a b) = min (unat a) (unat b)" for a b :: "'a :: len word"
  by (simp_all add: max_def min_def word_le_nat_alt)

text \<open>The size a pool is trimmed to.\<close>

definition trim_target :: "container_pool \<Rightarrow> container_scheduler \<Rightarrow> nat" where
  "trim_target pool s =
     min (max (case pool_buffer_containers pool of
                 Some buffer \<Rightarrow> busy pool s + unat buffer
               | None \<Rightarrow> busy pool s + idle pool s) (unat (unwrap_or (pool_min_containers pool) 0)))
         (unat (pool_max pool))"

lemma trim_pool_excess_eq:
  assumes "enumerates (pc_containers pc)" "known (rc_scheduler r)" "few pool (rc_scheduler r)"
    and "busy pool (rc_scheduler r) + buffer_of pool < 2 ^ 32"
  shows "\<exists>excess. unat excess = min (busy pool (rc_scheduler r) + idle pool (rc_scheduler r) - trim_target pool (rc_scheduler r))
       (idle pool (rc_scheduler r)) \<and>
    trim_pool_excess pc pool r =
      (if excess = 0 then r
       else (let (trim_update, scheduler) = trim_idle_containers pc pool excess (rc_scheduler r)
             in r\<lparr>rc_scheduler := scheduler, rc_update := extend_update (rc_update r) trim_update\<rparr>))"
proof -
  let ?s = "rc_scheduler r"
  define a where "a = fst (pool_counts pc pool ?s)"
  define i where "i = snd (pool_counts pc pool ?s)"
  define t where "t = (case pool_buffer_containers pool of
       Some buffer \<Rightarrow> max (a + buffer) (unwrap_or (pool_min_containers pool) 0)
     | None \<Rightarrow> max (a + i) (unwrap_or (pool_min_containers pool) 0))"
  define l where "l = min t (pool_max pool)"
  define excess where "excess = (if l < a + i then min (a + i - l) i else 0)"
  note C = pool_counts_exact [OF assms(1-3)]
  have ai: "unat a = busy pool ?s" "unat i = idle pool ?s" "unat (a + i) = busy pool ?s + idle pool ?s"
    using C(2-4) by (simp_all add: a_def i_def)
  have "unat (a + b) = busy pool ?s + unat b" if "pool_buffer_containers pool = Some b" for b
  proof -
    have "unat a + unat b < 2 ^ LENGTH(32)" using that assms(4) ai(1) by (simp add: buffer_of_def)
    then show ?thesis using ai(1) by (simp add: unat_word_ariths)
  qed
  then have l: "unat l = trim_target pool ?s"
    by (simp add: l_def t_def trim_target_def unat_max_min ai(3) split: option.split)
  have "unat excess = min (busy pool ?s + idle pool ?s - trim_target pool ?s) (idle pool ?s)"
  proof (cases "l < a + i")
    case True
    then have "unat (a + i - l) = unat (a + i) - unat l" by (intro unat_sub_le) simp
    with True show ?thesis by (simp add: excess_def unat_max_min ai l)
  next
    case False
    then have "busy pool ?s + idle pool ?s \<le> trim_target pool ?s" using ai(3) l by (simp add: word_less_nat_alt)
    with False show ?thesis by (simp add: excess_def)
  qed
  moreover have "excess = 0 \<longleftrightarrow> \<not> (l < a + i \<and> 0 < i)"
  proof -
    have "a + i - l \<noteq> 0" if "l < a + i" using that by auto
    then show ?thesis by (auto simp: excess_def min_def word_gt_0)
  qed
  moreover have "trim_pool_excess pc pool r =
      (if l < a + i \<and> 0 < i
       then (let (trim_update, scheduler) = trim_idle_containers pc pool (min (a + i - l) i) ?s
             in r\<lparr>rc_scheduler := scheduler, rc_update := extend_update (rc_update r) trim_update\<rparr>)
       else r)"
    unfolding trim_pool_excess_def Let_def split_def a_def [symmetric] i_def [symmetric] t_def [symmetric]
      l_def [symmetric] ..
  ultimately show ?thesis by (intro exI [of _ excess]) (auto simp: excess_def)
qed

section \<open>Properties\<close>

text \<open>
  C15: reconciling the pools always ends.  Whatever the pools ask for and whatever the executors have
  left, the rounds that fill buffers and the probing of blocked pools stop after finitely many
  placements, so a reconciliation returns an update; the pools are not changed by it and every index
  lists only containers the scheduler knows.  It relies on fresh container ids, on functions stored
  under their names, on pools stored under their keys, and on reaped containers listed under their
  function.
\<close>

theorem reconcile_total:
  assumes "surroundings pc state" "ready pc 0 s" "pools_keyed s" "card (dom (cs_function_containers s)) < 2 ^ 32"
  shows "\<exists>u cache' s'. reconcile pc state cache s = Some (u, cache', s') \<and>
    cs_function_pools s' = cs_function_pools s \<and> cs_sandbox_pools s' = cs_sandbox_pools s \<and> known s'"
  using reconcile_returns [OF assms, of cache] by (auto simp: pools_view_def ready_def)

text \<open>
  C16: filling is fair and stays within the limits.  The rounds of phase 2 end, and for every pool they
  consider, whatever the order: no container in use is touched, idle containers are only added, never
  beyond the buffer and never beyond the maximum; and at the end the pool has its buffer, or is at its
  maximum, or is blocked because a placement found no room, or the creation of its container can fail:
  there is a state with the same container counts in which placing a container of the pool is an error.
\<close>

theorem buffers_filled:
  assumes "surroundings pc state" "apart pools" "ready pc (rc_attempts r) (rc_scheduler r)"
    and "card (dom (cs_function_containers (rc_scheduler r))) < 2 ^ 32"
  shows "\<exists>blocked' r'. fill_buffers pc state pools (blocked, r) = Some (blocked', r') \<and>
    (\<forall>pool \<in> set pools.
      let (active, idle) = pool_counts pc pool (rc_scheduler r);
          (active', idle') = pool_counts pc pool (rc_scheduler r');
          buffer = unwrap_or (pool_buffer_containers pool) 0
      in active' = active \<and> idle \<le> idle' \<and> idle' \<le> max idle buffer \<and>
         active' + idle' \<le> max (active + idle) (pool_max pool) \<and>
         (buffer \<le> idle' \<or> pool_max pool \<le> active' + idle' \<or> pool_key pool \<in> blocked' \<or>
          (\<exists>r1 e r2. count_view (rc_scheduler r1) = count_view (rc_scheduler r') \<and>
             try_place_container pc state pool r1 = (Err e, r2))))"
proof -
  let ?s = "rc_scheduler r"
  have K: "known ?s" "enumerates (pc_containers pc)" using assms(1,3) by (simp_all add: ready_def surroundings_def)
  have few: "few q ?s" for q
    using card_mono [OF _ members_dom [OF K(1), of q]] K(1) assms(4) by (simp add: known_def)
  then obtain blocked' r' where r': "fill_buffers pc state pools (blocked, r) = Some (blocked', r')" "rc_ready pc r'"
    "\<forall>q \<in> set pools. few q (rc_scheduler r') \<and> grown q ?s (rc_scheduler r') \<and>
       settled_pool pc state blocked' (rc_scheduler r') q"
    using fill_buffers_total [OF assms(1,2,3), of blocked] by blast
  let ?s' = "rc_scheduler r'"
  have K': "known ?s'" using r'(2) by (simp add: ready_def)
  have "let (active, idle) = pool_counts pc pool ?s; (active', idle') = pool_counts pc pool ?s';
          buffer = unwrap_or (pool_buffer_containers pool) 0
      in active' = active \<and> idle \<le> idle' \<and> idle' \<le> max idle buffer \<and>
         active' + idle' \<le> max (active + idle) (pool_max pool) \<and>
         (buffer \<le> idle' \<or> pool_max pool \<le> active' + idle' \<or> pool_key pool \<in> blocked' \<or>
          (\<exists>r1 e r2. count_view (rc_scheduler r1) = count_view ?s' \<and>
             try_place_container pc state pool r1 = (Err e, r2)))" if pool: "pool \<in> set pools" for pool
  proof -
    have G: "few pool ?s'" "grown pool ?s ?s'" "settled_pool pc state blocked' ?s' pool" using r'(3) pool by blast+
    note C = pool_counts_exact [OF K(2,1) few [of pool]] and C' = pool_counts_exact [OF K(2) K' G(1)]
    have "fst (pool_counts pc pool ?s') = fst (pool_counts pc pool ?s)" using G(2) by (simp add: C(1) C'(1) grown_def)
    moreover have "snd (pool_counts pc pool ?s) \<le> snd (pool_counts pc pool ?s')"
      "snd (pool_counts pc pool ?s') \<le> max (snd (pool_counts pc pool ?s)) (unwrap_or (pool_buffer_containers pool) 0)"
      "fst (pool_counts pc pool ?s') + snd (pool_counts pc pool ?s') \<le>
        max (fst (pool_counts pc pool ?s) + snd (pool_counts pc pool ?s)) (pool_max pool)"
      using G(2) unfolding word_le_nat_alt unat_max_min C(2-4) C'(2-4) by (simp_all add: grown_def buffer_of_def)
    ultimately show ?thesis
      using G(3) by (auto simp: split_def Let_def settled_pool_def pool_needs_buffer_def not_less)
  qed
  with r'(1) show ?thesis by blast
qed

text \<open>
  C17: trimming takes exactly the excess, and only spare containers.  The containers terminated are
  idle containers of the pool, as many as the pool is above its target (what is in use plus the
  buffer, or everything when no buffer is set, at least the minimum and at most the maximum) and not
  more than are idle; they leave the pool and are reported in the update, and no other container
  changes.
\<close>

theorem trim_pool_excess_exact:
  assumes "scheduler_inv (rc_scheduler r)" "enumerates (pc_containers pc)"
    and "card (dom (cs_function_containers (rc_scheduler r))) < 2 ^ 32"
    and "busy pool (rc_scheduler r) + buffer_of pool < 2 ^ 32"
  shows "\<exists>T. T \<subseteq> idle_members pool (rc_scheduler r) \<and>
    card T = min (busy pool (rc_scheduler r) + idle pool (rc_scheduler r) - trim_target pool (rc_scheduler r))
                 (idle pool (rc_scheduler r)) \<and>
    (let r' = trim_pool_excess pc pool r
     in members pool (rc_scheduler r') = members pool (rc_scheduler r) - T \<and>
        cs_function_containers (rc_scheduler r') =
          cs_function_containers (rc_scheduler r) ++ terminated_in T (cs_function_containers (rc_scheduler r)) \<and>
        su_containers (rc_update r') =
          su_containers (rc_update r) ++ terminated_in T (cs_function_containers (rc_scheduler r)))"
proof -
  let ?s = "rc_scheduler r"
  have ok: "containers_ok ?s" "known ?s"
    using assms(1) known_scheduler_inv by (simp_all add: scheduler_inv_def scheduler_ok_def)
  have few: "few pool ?s" using card_mono [OF _ members_dom [OF ok(2), of pool]] ok(2) assms(3) by (simp add: known_def)
  obtain excess where ex: "unat excess = min (busy pool ?s + idle pool ?s - trim_target pool ?s) (idle pool ?s)"
    "trim_pool_excess pc pool r = (if excess = 0 then r
       else (let (trim_update, scheduler) = trim_idle_containers pc pool excess ?s
             in r\<lparr>rc_scheduler := scheduler, rc_update := extend_update (rc_update r) trim_update\<rparr>))"
    using trim_pool_excess_eq [OF assms(2) ok(2) few assms(4)] by blast
  show ?thesis
  proof (cases "excess = 0")
    case True
    then show ?thesis using ex by (intro exI [of _ "{}"]) (auto simp: terminated_in_def map_add_def)
  next
    case False
    obtain cids where c: "trim_idle_containers pc pool excess ?s = fold terminate_one cids (default_update, ?s)"
      "distinct cids" "set cids \<subseteq> idle_members pool ?s" "length cids = min (unat excess) (idle pool ?s)"
      using trim_idle_containers_picks [OF assms(2) ok(2)] by blast
    obtain u s' where f: "fold terminate_one cids (default_update, ?s) = (u, s')" by fastforce
    note T = terminate_all_effect [OF ok(1) c(2) f]
    have r': "trim_pool_excess pc pool r = r\<lparr>rc_scheduler := s', rc_update := extend_update (rc_update r) u\<rparr>"
      using False ex(2) c(1) f by simp
    have "live s' cid = (if cid \<in> set cids then None else live ?s cid)" for cid
      using T by (auto simp: live_def terminated_in_def map_add_def split: option.split)
    then have "members pool s' = members pool ?s - set cids"
      using T by (auto simp: members_live(1) members_live(1) [OF ok(1)] split: if_splits)
    moreover have "card (set cids) = min (busy pool ?s + idle pool ?s - trim_target pool ?s) (idle pool ?s)"
      using c(2,4) ex(1) by (simp add: distinct_card)
    moreover have "su_containers u = terminated_in (set cids) (cs_function_containers ?s)"
      using T by (simp add: default_update_def)
    ultimately show ?thesis
      using T c(3) by (intro exI [of _ "set cids"]) (simp add: r' extend_update_def)
  qed
qed

text \<open>
  The id of a function pool stands for exactly one function.  Reading it gives a function of the
  namespace of the pool exactly when the id is the one derived from that function, for application
  and function names without the separator; the version may contain it.
\<close>

theorem pool_id_roundtrip:
  "parse_function_pool_uri pool = Some u \<longleftrightarrow>
     pool_namespace pool = uri_namespace u \<and>
     pool_id pool = pool_id_for_function (uri_application u) (uri_function u) (uri_version u) \<and>
     CHR ''|'' \<notin> set (uri_application u) \<and> CHR ''|'' \<notin> set (uri_function u)"
  by (auto simp: parse_function_pool_uri_iff pool_key_def uri_pool_key_def container_pool_key_new_def)

section \<open>A pool with one warm container\<close>

definition example_pool :: "u32 \<Rightarrow> container_pool" where
  "example_pool buffer =
     \<lparr>pool_id = ''pool'', pool_namespace = ''ns'', pool_pool_type = SandboxPool, pool_image = ''img'',
      pool_resources = \<lparr>cres_cpu_ms_per_sec = 1000, cres_memory_mb = 512, cres_ephemeral_disk_mb = 1024, cres_gpu = None\<rparr>,
      pool_entrypoint = None, pool_network_policy = None, pool_secret_names = [], pool_timeout_secs = 0,
      pool_min_containers = None, pool_max_containers = Some 4, pool_buffer_containers = Some buffer,
      pool_created_at = 0, pool_tombstoned = False, pool_created_at_clock = None, pool_updated_at_clock = None,
      pool_allow_unauthenticated_access = False, pool_exposed_ports = None\<rparr>"

definition example_pool_choices :: pool_choices where
  "example_pool_choices =
     \<lparr>pc_create = (\<lambda>n. example_choices\<lparr>ch_container_id := replicate n CHR ''x''\<rparr>), pc_containers = sorted_list_of_set,
      pc_executors = sorted_list_of_set, pc_pools = sorted_list_of_set\<rparr>"

definition example_buffered :: container_scheduler where
  "example_buffered = example_scheduler\<lparr>cs_sandbox_pools := [(''ns'', ''pool'') \<mapsto> example_pool 2]\<rparr>"

definition example_recon :: recon where
  "example_recon = \<lparr>rc_update = default_update, rc_scheduler = example_buffered, rc_cache = Map.empty, rc_attempts = 0\<rparr>"

lemma example_pool_key: "pool_key (example_pool b) = (''ns'', ''pool'')" "\<not> is_function_pool (example_pool b)"
  by (simp_all add: example_pool_def pool_key_def container_pool_key_new_def is_function_pool_def)

lemma example_buffered_fields:
  "cs_function_containers example_buffered = [''c1'' \<mapsto> example_pool_container]"
  "cs_reaped_containers example_buffered = Map.empty" "cs_function_pools example_buffered = Map.empty"
  "container_view example_buffered = container_view example_scheduler"
  "executor_view example_buffered = executor_view example_scheduler"
  by (simp_all add: example_buffered_def example_scheduler_containers container_view_def executor_view_def)
    (simp_all add: example_scheduler_def cs_new_def update_container_indices_def Let_def remove_from_uri_index_def
      remove_from_pool_index_def remove_from_warm_index_def mark_pool_dirty_def remove_idle_def split: option.split)

lemma example_buffered_inv: "scheduler_inv example_buffered"
proof -
  have "executor_view example_scheduler = executor_view (cs_new [] [])" by (simp add: example_scheduler_def)
  then have "scheduler_ok example_scheduler"
    using executors_ok_view [of example_scheduler "cs_new [] []"] scheduler_inv_new [of "[]" "[]"] example_scheduler_ok
    by (simp add: scheduler_inv_def scheduler_ok_def)
  then have "scheduler_inv example_scheduler" by (simp add: scheduler_inv_def example_scheduler_containers)
  then show ?thesis using scheduler_inv_views [OF example_buffered_fields(4,5)] by simp
qed

lemma example_surroundings: "surroundings example_pool_choices example_base"
proof -
  have "ims_applications example_base = Map.empty"
    by (simp add: example_base_def ims_new_def restore_requests_def Let_def)
  moreover have "inj (fresh_id example_pool_choices)"
  proof (rule injI)
    fix m n assume "fresh_id example_pool_choices m = fresh_id example_pool_choices n"
    then have "length (fresh_id example_pool_choices m) = length (fresh_id example_pool_choices n)" by simp
    then show "m = n" by (simp add: fresh_id_def example_pool_choices_def)
  qed
  ultimately show ?thesis
    by (simp add: surroundings_def functions_keyed_def example_pool_choices_def enumerates_sorted_list_of_set)
qed

lemma example_ready: "ready example_pool_choices 0 example_buffered"
proof -
  have "replicate n CHR ''x'' \<noteq> ''c1''" for n by (cases n) simp_all
  then show ?thesis
    using known_scheduler_inv [OF example_buffered_inv]
    by (simp add: ready_def reaped_keyed_def reaped_list_def example_buffered_fields fresh_id_def example_pool_choices_def
        example_choices_def)
qed

lemma example_pools_keyed: "pools_keyed example_buffered" "apart [example_pool b]"
proof -
  have "get_pool example_buffered k = (if k = (''ns'', ''pool'') then Some (example_pool 2) else None)" for k
    by (simp add: get_pool_def example_buffered_fields) (simp add: example_buffered_def example_scheduler_def cs_new_def
      update_container_indices_def Let_def split: option.split)
  moreover have "named (example_pool b)" for b by (simp add: named_def example_pool_key)
  ultimately show "pools_keyed example_buffered" "apart [example_pool b]"
    by (simp_all add: pools_keyed_def apart_def example_pool_key split: if_splits)
qed

theorem reconcile_total_witness:
  "\<exists>u cache' s'. reconcile example_pool_choices example_base Map.empty example_buffered = Some (u, cache', s') \<and>
    cs_sandbox_pools s' = [(''ns'', ''pool'') \<mapsto> example_pool 2]"
proof -
  have "card (dom (cs_function_containers example_buffered)) < 2 ^ 32" by (simp add: example_buffered_fields)
  from reconcile_total [OF example_surroundings example_ready example_pools_keyed(1) this, of Map.empty]
  show ?thesis by (auto simp: example_buffered_def)
qed

theorem buffers_filled_witness:
  "\<exists>blocked r. fill_buffers example_pool_choices example_base [example_pool 2] ({}, example_recon) = Some (blocked, r) \<and>
    fst (pool_counts example_pool_choices (example_pool 2) (rc_scheduler r)) =
      fst (pool_counts example_pool_choices (example_pool 2) example_buffered)"
proof -
  have 1: "ready example_pool_choices (rc_attempts example_recon) (rc_scheduler example_recon)"
    "card (dom (cs_function_containers (rc_scheduler example_recon))) < 2 ^ 32"
    using example_ready by (simp_all add: example_recon_def example_buffered_fields)
  from buffers_filled [OF example_surroundings example_pools_keyed(2) 1, of 2 "{}"]
  show ?thesis by (auto simp: split_def Let_def example_recon_def)
qed

theorem trim_pool_excess_exact_witness:
  "members (example_pool 0) (rc_scheduler (trim_pool_excess example_pool_choices (example_pool 0) example_recon)) = {}"
proof -
  have s: "rc_scheduler example_recon = example_buffered" by (simp add: example_recon_def)
  have W: "is_warm example_pool_container" "\<not> desired_terminated example_pool_container"
    "csm_pool_key example_pool_container = Some (''ns'', ''pool'')"
    by (simp_all add: example_pool_container_def csm_new_def csm_pool_key_def ct_pool_key_def
        container_pool_key_new_def example_container_def desired_terminated_def is_warm_def)
  have ok: "containers_ok example_buffered"
    using example_buffered_inv by (simp add: scheduler_inv_def scheduler_ok_def)
  have live: "live example_buffered cid = (if cid = ''c1'' then Some example_pool_container else None)" for cid
    using W(2) by (simp add: live_def example_buffered_fields)
  have M: "members (example_pool 0) example_buffered = {''c1''}" "idle_members (example_pool 0) example_buffered = {''c1''}"
    using W by (auto simp: members_live [OF ok] live belongs_def spare_def example_pool_key split: if_splits)
  then have b: "busy (example_pool 0) example_buffered = 0" "idle (example_pool 0) example_buffered = 1"
    by (simp_all add: busy_def idle_def)
  have "pool_buffer_containers (example_pool 0) = Some 0" "pool_min_containers (example_pool 0) = None"
    by (simp_all add: example_pool_def)
  then have "buffer_of (example_pool 0) = 0" "trim_target (example_pool 0) example_buffered = 0"
    by (simp_all add: buffer_of_def trim_target_def b)
  with trim_pool_excess_exact [of example_recon example_pool_choices "example_pool 0"] example_buffered_inv
  obtain T where "T \<subseteq> {''c1''}" "card T = 1"
    "members (example_pool 0) (rc_scheduler (trim_pool_excess example_pool_choices (example_pool 0) example_recon)) = {''c1''} - T"
    by (auto simp: s b M Let_def example_buffered_fields example_pool_choices_def enumerates_sorted_list_of_set)
  then show ?thesis by (metis Diff_cancel card.empty subset_singletonD zero_neq_one)
qed

end
