(* ===== verification/Sandboxes.thy ===== *)
theory Sandboxes
  imports BufferFilling
begin

text \<open>
  The sandbox processor (\<open>processor/sandbox_processor.rs\<close>): a pending sandbox claims a warm container of
  its pool or gets one of its own, or waits with a reason in the tracker of blocked work; sandboxes are
  terminated with their containers.
\<close>

declare split_paired_All [simp del] split_paired_Ex [simp del]

section \<open>Errors\<close>

text \<open>An error passed on, or the panic of \<open>expect\<close> when a creation reports no placed container.\<close>

datatype sandbox_error = Failed scheduler_error | Panicked

section \<open>Pending sandboxes\<close>

definition set_pending_reason ::
  "scheduler_update_request \<Rightarrow> sandbox \<Rightarrow> sandbox_pending_reason \<Rightarrow> scheduler_update_request" where
  "set_pending_reason update sandbox reason =
     (let pending = sandbox\<lparr>sbx_status := SB_Pending reason\<rparr>
      in update\<lparr>su_updated_sandboxes := (su_updated_sandboxes update)(sandbox_key_from_sandbox pending \<mapsto> pending)\<rparr>)"

definition record_blocked_sandbox ::
  "choices \<Rightarrow> sandbox \<Rightarrow> feasibility_cache \<Rightarrow> container_scheduler \<Rightarrow> feasibility_cache \<times> container_scheduler" where
  "record_blocked_sandbox ch sandbox cache scheduler =
     (let (last_placement, scheduler) = take_last_placement scheduler;
          (eligible, cache) =
            (case last_placement of
               Some result \<Rightarrow> (pr_eligible_classes result, cache)
             | None \<Rightarrow>
                 compute_eligible_classes (ch_class_order ch) (ch_executor_order ch) scheduler cache
                   (SandboxWorkload (sbx_namespace sandbox)) (sbx_namespace sandbox) [] None);
          escaped = (eligible = {})
      in (cache, scheduler\<lparr>cs_blocked_work := block_sandbox (sandbox_key_from_sandbox sandbox)
           \<lparr>bi_eligible_classes = eligible, bi_escaped = escaped, bi_memory_mb = cres_memory_mb (sbx_resources sandbox)\<rparr>
           (cs_blocked_work scheduler)\<rparr>))"

definition unblock_sandbox :: "sandbox_key \<Rightarrow> container_scheduler \<Rightarrow> container_scheduler" where
  "unblock_sandbox key scheduler =
     scheduler\<lparr>cs_blocked_work := remove_sandbox key (cs_blocked_work scheduler)\<rparr>"

section \<open>Claiming\<close>

definition try_claim_from_pool ::
  "(container_id set \<Rightarrow> container_id list) \<Rightarrow> sandbox \<Rightarrow> container_pool_key \<Rightarrow> container_scheduler \<Rightarrow>
   scheduler_update_request option \<times> container_scheduler" where
  "try_claim_from_pool ord sandbox key scheduler =
     (case claim_pool_container ord key (sbx_id sandbox) (sbx_timeout_secs sandbox) scheduler of
        (None, scheduler) \<Rightarrow> (None, scheduler)
      | (Some (cid, eid, container_update), scheduler) \<Rightarrow>
          (let update = extend_update default_update container_update;
               container_state = unwrap_or (map_option (\<lambda>meta. ct_state (csm_function_container meta))
                 (cs_function_containers scheduler cid)) CS_Unknown;
               updated = sandbox\<lparr>sbx_status := (if container_state = CS_Running then SB_Running
                                               else SB_Pending SB_WaitingForContainer),
                                 sbx_executor_id := Some eid, sbx_container_id := Some cid\<rparr>;
               update = update\<lparr>su_updated_sandboxes :=
                 (su_updated_sandboxes update)(sandbox_key_from_sandbox updated \<mapsto> updated)\<rparr>
           in (Some update, unblock_sandbox (sandbox_key_from_sandbox sandbox) scheduler)))"

section \<open>Allocating\<close>

definition pool_at_capacity :: "container_scheduler \<Rightarrow> container_pool_key \<Rightarrow> bool" where
  "pool_at_capacity scheduler key =
     (case get_pool scheduler key of
        None \<Rightarrow> False
      | Some pool \<Rightarrow>
          (let (claimed, warm) = count_pool_containers scheduler key; current = claimed + warm
           in case pool_max_containers pool of Some max_containers \<Rightarrow> max_containers \<le> current | None \<Rightarrow> False))"

definition resolve_snapshot_uri :: "in_memory_state \<Rightarrow> sandbox \<Rightarrow> string option" where
  "resolve_snapshot_uri state sandbox =
     (case sbx_snapshot_id sandbox of
        None \<Rightarrow> None
      | Some sid \<Rightarrow>
          (case ims_snapshots state (sbx_namespace sandbox @ ''|'' @ sid) of
             None \<Rightarrow> None
           | Some snapshot \<Rightarrow> snap_snapshot_uri snapshot))"

text \<open>A container of its own: the part of \<open>allocate_sandbox\<close> after the pool.\<close>

definition place_sandbox ::
  "alloc_choices \<Rightarrow> in_memory_state \<Rightarrow> sandbox \<Rightarrow> feasibility_cache \<Rightarrow> container_scheduler \<Rightarrow>
   (sandbox_error + scheduler_update_request \<times> bool) \<times> feasibility_cache \<times> container_scheduler" where
  "place_sandbox ch state sandbox cache scheduler =
     (case create_container_for_sandbox (ac_create ch) sandbox (resolve_snapshot_uri state sandbox) cache scheduler of
        (Inr (Some container_update), cache, scheduler) \<Rightarrow>
          (case List.find (\<lambda>c. \<not> desired_terminated c)
                  (map (\<lambda>cid. the (su_containers container_update cid))
                     (ac_containers ch (dom (su_containers container_update)))) of
             None \<Rightarrow> (Err Panicked, cache, scheduler)
           | Some fc \<Rightarrow>
               (let updated = sandbox\<lparr>sbx_executor_id := Some (csm_executor_id fc),
                      sbx_container_id := Some (ct_id (csm_function_container fc)),
                      sbx_status := SB_Pending SB_WaitingForContainer\<rparr>;
                    update = default_update\<lparr>su_updated_sandboxes := [sandbox_key_from_sandbox updated \<mapsto> updated]\<rparr>;
                    scheduler = apply_container_update (ac_containers ch) (ac_executors ch) container_update scheduler;
                    update = extend_update update container_update;
                    scheduler = unblock_sandbox (sandbox_key_from_sandbox sandbox) scheduler
                in (Ok (update, False), cache, scheduler)))
      | (Inr None, cache, scheduler) \<Rightarrow>
          (let update = set_pending_reason default_update sandbox
                 (if has_executors scheduler then SB_NoResourcesAvailable else SB_NoExecutorsAvailable);
               (cache, scheduler) = record_blocked_sandbox (ac_create ch) sandbox cache scheduler
           in (Ok (update, True), cache, scheduler))
      | (Inl e, cache, scheduler) \<Rightarrow>
          (case e of
             ConstraintUnsatisfiable _ _ _ \<Rightarrow>
               (let failed = sandbox\<lparr>sbx_status := SB_Terminated,
                      sbx_outcome := Some (SB_Failure SB_ConstraintUnsatisfiable)\<rparr>
                in (Ok (default_update\<lparr>su_updated_sandboxes := [sandbox_key_from_sandbox failed \<mapsto> failed]\<rparr>, False),
                    cache, scheduler))
           | _ \<Rightarrow> (Err (Failed e), cache, scheduler)))"

definition allocate_sandbox ::
  "alloc_choices \<Rightarrow> in_memory_state \<Rightarrow> sandbox \<Rightarrow> feasibility_cache \<Rightarrow> container_scheduler \<Rightarrow>
   (sandbox_error + scheduler_update_request \<times> bool) \<times> feasibility_cache \<times> container_scheduler" where
  "allocate_sandbox ch state sandbox cache scheduler =
     (if \<not> sandbox_is_pending (sbx_status sandbox) then (Ok (default_update, False), cache, scheduler)
      else if sbx_has_scheduled sandbox then (Ok (default_update, False), cache, scheduler)
      else
        (case sbx_pool_id sandbox of
           None \<Rightarrow> place_sandbox ch state sandbox cache scheduler
         | Some pid \<Rightarrow>
             (let key = container_pool_key_new (sbx_namespace sandbox) pid
              in case try_claim_from_pool (ac_containers ch) sandbox key scheduler of
                   (Some claim_update, scheduler) \<Rightarrow> (Ok (claim_update, False), cache, scheduler)
                 | (None, scheduler) \<Rightarrow>
                     if pool_at_capacity scheduler key
                     then
                       (let update = set_pending_reason default_update sandbox SB_PoolAtCapacity;
                            (_, scheduler) = take_last_placement scheduler;
                            (cache, scheduler) = record_blocked_sandbox (ac_create ch) sandbox cache scheduler
                        in (Ok (update, False), cache, scheduler))
                     else place_sandbox ch state sandbox cache scheduler)))"

definition allocate_sandbox_by_key ::
  "alloc_choices \<Rightarrow> in_memory_state \<Rightarrow> string \<Rightarrow> string \<Rightarrow> feasibility_cache \<Rightarrow> container_scheduler \<Rightarrow>
   (sandbox_error + scheduler_update_request) \<times> feasibility_cache \<times> container_scheduler" where
  "allocate_sandbox_by_key ch state namespace sandbox_id cache scheduler =
     (case ims_sandboxes state (sandbox_key_new namespace sandbox_id) of
        None \<Rightarrow> (Ok default_update, cache, scheduler)
      | Some sandbox \<Rightarrow>
          (case allocate_sandbox ch state sandbox cache scheduler of
             (Inl e, cache, scheduler) \<Rightarrow> (Err e, cache, scheduler)
           | (Inr (update, _), cache, scheduler) \<Rightarrow> (Ok update, cache, scheduler)))"

section \<open>Terminating\<close>

definition sandbox_active :: "sandbox \<Rightarrow> bool" where
  "sandbox_active sandbox = (case sbx_status sandbox of SB_Running \<Rightarrow> True | SB_Pending _ \<Rightarrow> True | _ \<Rightarrow> False)"

definition terminate_sandbox ::
  "in_memory_state \<Rightarrow> string \<Rightarrow> string \<Rightarrow> container_scheduler \<Rightarrow> scheduler_update_request \<times> container_scheduler" where
  "terminate_sandbox state namespace sandbox_id scheduler =
     (let key = sandbox_key_new namespace sandbox_id
      in case ims_sandboxes state key of
           None \<Rightarrow> (default_update, scheduler)
         | Some sandbox \<Rightarrow>
             (let (update, scheduler) =
                (if sandbox_active sandbox
                 then (case sbx_container_id sandbox of
                         None \<Rightarrow> (default_update, scheduler)
                       | Some cid \<Rightarrow>
                           (case terminate_container cid scheduler of
                              (Some container_update, scheduler) \<Rightarrow>
                                (extend_update default_update container_update, scheduler)
                            | (None, scheduler) \<Rightarrow> (default_update, scheduler)))
                 else (default_update, scheduler));
                terminated = sandbox\<lparr>sbx_status := SB_Terminated, sbx_outcome := Some (SB_Success SB_UserTerminated)\<rparr>;
                update = update\<lparr>su_updated_sandboxes := (su_updated_sandboxes update)(key \<mapsto> terminated)\<rparr>
              in (update, unblock_sandbox key scheduler)))"

definition fail_one_snapshot :: "in_memory_state \<Rightarrow> executor_id \<Rightarrow> string \<Rightarrow> snapshot \<Rightarrow>
   scheduler_update_request \<Rightarrow> scheduler_update_request" where
  "fail_one_snapshot state eid error snapshot update =
     (let key = sandbox_key_new (snap_namespace snapshot) (snap_sandbox_id snapshot)
      in case ims_sandboxes state key of
           None \<Rightarrow> update
         | Some sandbox \<Rightarrow>
             if sbx_executor_id sandbox \<noteq> Some eid then update
             else
               (let failed = snapshot\<lparr>snap_status := SnapshotFailed error\<rparr>;
                    terminated = sandbox\<lparr>sbx_status := SB_Terminated\<rparr>
                in update\<lparr>su_updated_snapshots := (su_updated_snapshots update)(snapshot_key failed \<mapsto> failed),
                          su_updated_sandboxes := (su_updated_sandboxes update)(key \<mapsto> terminated)\<rparr>))"

definition fail_in_progress_snapshots_for_executor ::
  "in_memory_state \<Rightarrow> executor_id \<Rightarrow> string \<Rightarrow> scheduler_update_request" where
  "fail_in_progress_snapshots_for_executor state eid error =
     fold (fail_one_snapshot state eid error)
       (filter (\<lambda>snapshot. snap_status snapshot = SnapshotInProgress)
          (map (\<lambda>k. the (ims_snapshots state k)) (sorted_list_of_set (dom (ims_snapshots state)))))
       default_update"

section \<open>What the steps change\<close>

definition waiting_sandboxes :: "container_scheduler \<Rightarrow> sandbox_key set" where
  "waiting_sandboxes s = dom (bx_blocked (bt_sandboxes (cs_blocked_work s)))"

lemma record_blocked_sandbox_effect:
  assumes "record_blocked_sandbox ch sandbox cache s = (cache', s')"
  shows "waiting_sandboxes s' = insert (sandbox_key_from_sandbox sandbox) (waiting_sandboxes s)"
    "cs_function_containers s' = cs_function_containers s"
  using assms
  by (auto simp: record_blocked_sandbox_def take_last_placement_def Let_def waiting_sandboxes_def block_sandbox_def
      split: option.splits prod.splits)

lemma unblock_sandbox_effect [simp]:
  "waiting_sandboxes (unblock_sandbox key s) = waiting_sandboxes s - {key}"
  "cs_function_containers (unblock_sandbox key s) = cs_function_containers s"
  "container_view (unblock_sandbox key s) = container_view s"
  by (auto simp: unblock_sandbox_def waiting_sandboxes_def remove_sandbox_def container_view_def)

lemma create_container_error:
  assumes "create_container ch ns app f resources c ctype cache s = (Inl e, cache', s')"
  shows "e \<noteq> ConstraintUnsatisfiable reason ver fn"
  using assms
  by (auto simp: create_container_def register_container_def Let_def
      split: option.splits prod.splits if_splits sum.splits)

lemma sandbox_container_fields:
  "ct_id (sandbox_container sandbox uri) = sbx_id sandbox"
  "ct_sandbox_id (sandbox_container sandbox uri) = Some (sbx_id sandbox)"
  by (simp_all add: sandbox_container_def container_builder_def)

lemma su_default [simp]:
  "su_containers default_update = Map.empty" "su_updated_sandboxes default_update = Map.empty"
  by (simp_all add: default_update_def)

lemma extend_update_fields [simp]:
  "su_containers (extend_update a b) = su_containers a ++ su_containers b"
  "su_updated_sandboxes (extend_update a b) = su_updated_sandboxes a ++ su_updated_sandboxes b"
  by (simp_all add: extend_update_def)

lemma set_pending_reason_fields:
  "su_containers (set_pending_reason default_update sandbox reason) = Map.empty"
  "su_updated_sandboxes (set_pending_reason default_update sandbox reason) =
     [sandbox_key_from_sandbox sandbox \<mapsto> sandbox\<lparr>sbx_status := SB_Pending reason\<rparr>]"
  by (simp_all add: set_pending_reason_def Let_def sandbox_key_from_sandbox_def)

text \<open>The two ways an allocation ends well.\<close>

definition sandbox_served ::
  "sandbox \<Rightarrow> container_scheduler \<Rightarrow> container_scheduler \<Rightarrow> scheduler_update_request \<Rightarrow> bool" where
  "sandbox_served sandbox s s' u \<longleftrightarrow>
     (\<exists>cid fc status.
        su_containers u = [cid \<mapsto> fc] \<and> cs_function_containers s' = (cs_function_containers s)(cid \<mapsto> fc) \<and>
        \<not> desired_terminated fc \<and> ct_sandbox_id (csm_function_container fc) = Some (sbx_id sandbox) \<and>
        su_updated_sandboxes u = [sandbox_key_from_sandbox sandbox \<mapsto>
          sandbox\<lparr>sbx_status := status, sbx_executor_id := Some (csm_executor_id fc), sbx_container_id := Some cid\<rparr>] \<and>
        status \<in> {SB_Running, SB_Pending SB_WaitingForContainer} \<and>
        (status = SB_Running \<longrightarrow> ct_state (csm_function_container fc) = CS_Running) \<and>
        sandbox_key_from_sandbox sandbox \<notin> waiting_sandboxes s')"

definition sandbox_waits ::
  "sandbox \<Rightarrow> container_scheduler \<Rightarrow> container_scheduler \<Rightarrow> sandbox_pending_reason \<Rightarrow> scheduler_update_request \<Rightarrow> bool" where
  "sandbox_waits sandbox s s' reason u \<longleftrightarrow>
     su_containers u = Map.empty \<and> cs_function_containers s' = cs_function_containers s \<and>
     su_updated_sandboxes u = [sandbox_key_from_sandbox sandbox \<mapsto> sandbox\<lparr>sbx_status := SB_Pending reason\<rparr>] \<and>
     sandbox_key_from_sandbox sandbox \<in> waiting_sandboxes s'"

lemma sandbox_servedI:
  assumes "su_containers u = [cid \<mapsto> fc]" "cs_function_containers s' = (cs_function_containers s)(cid \<mapsto> fc)"
    and "\<not> desired_terminated fc" "ct_sandbox_id (csm_function_container fc) = Some (sbx_id sandbox)"
    and "su_updated_sandboxes u = [sandbox_key_from_sandbox sandbox \<mapsto>
      sandbox\<lparr>sbx_status := status, sbx_executor_id := Some (csm_executor_id fc), sbx_container_id := Some cid\<rparr>]"
    and "status \<in> {SB_Running, SB_Pending SB_WaitingForContainer}"
    and "status = SB_Running \<Longrightarrow> ct_state (csm_function_container fc) = CS_Running"
    and "sandbox_key_from_sandbox sandbox \<notin> waiting_sandboxes s'"
  shows "sandbox_served sandbox s s' u"
  unfolding sandbox_served_def using assms by blast

lemma served_not_waiting: "sandbox_served sandbox s s' u \<Longrightarrow> \<not> sandbox_waits sandbox s s' reason u"
  by (auto simp: sandbox_served_def sandbox_waits_def)

lemma place_sandbox_cases:
  assumes place: "place_sandbox ch state sandbox cache s = (result, cache', s')" and ord: "enumerates (ac_containers ch)"
  shows "case result of
      Inr (u, exhausted) \<Rightarrow>
        \<not> exhausted \<and> sandbox_served sandbox s s' u \<or>
        exhausted \<and> (\<exists>reason \<in> {SB_NoResourcesAvailable, SB_NoExecutorsAvailable}. sandbox_waits sandbox s s' reason u)
    | Inl e \<Rightarrow> (\<exists>err. e = Failed err) \<and> cs_function_containers s' = cs_function_containers s"
proof -
  let ?key = "sandbox_key_from_sandbox sandbox"
  define c where "c = sandbox_container sandbox (resolve_snapshot_uri state sandbox)"
  obtain res cache1 t where C: "create_container (ac_create ch) (sbx_namespace sandbox) [] None
      (request_resources (sbx_resources sandbox)) c SandboxContainer cache s = (res, cache1, t)" by (rule prod_cases3)
  have P: "create_container_for_sandbox (ac_create ch) sandbox (resolve_snapshot_uri state sandbox) cache s = (res, cache1, t)"
    using C by (simp add: create_container_for_sandbox_def c_def)
  note S = create_container_cases [OF C]
  have t: "cs_function_containers t = cs_function_containers s" using S by (simp add: same_counts_def count_view_def)
  consider (error) e where "res = Inl e" | (none) "res = Inr None" | (some) v where "res = Inr (Some v)"
    by (cases res) (auto split: option.splits)
  then show ?thesis
  proof cases
    case error
    with create_container_error C have "e \<noteq> ConstraintUnsatisfiable x y z" for x y z by blast
    then have "result = Err (Failed e) \<and> s' = t"
      using place P error by (auto simp: place_sandbox_def split: scheduler_error.splits)
    with t show ?thesis by simp
  next
    case none
    obtain cache2 s2 where R: "record_blocked_sandbox (ac_create ch) sandbox cache1 t = (cache2, s2)" by fastforce
    have "result = Ok (set_pending_reason default_update sandbox
        (if has_executors t then SB_NoResourcesAvailable else SB_NoExecutorsAvailable), True)" "s' = s2"
      using place P none R by (auto simp: place_sandbox_def Let_def)
    then show ?thesis
      using record_blocked_sandbox_effect [OF R] t by (simp add: sandbox_waits_def set_pending_reason_fields)
  next
    case some
    with S obtain fc where fc: "one_container (ct_id c) fc v" "csm_function_container fc = c" "csm_allocations fc = {}"
      "csm_desired_state fc = CS_Running" by blast
    have "set (ac_containers ch {ct_id c}) = {ct_id c}" using enumeratesD [OF ord] by simp
    then have "List.find (\<lambda>c. \<not> desired_terminated c) (map (\<lambda>cid. the (su_containers v cid))
        (ac_containers ch (dom (su_containers v)))) = Some fc"
      using fc by (cases "ac_containers ch {ct_id c}") (auto simp: one_container_def desired_terminated_def)
    then have r: "result = Ok (extend_update (default_update\<lparr>su_updated_sandboxes := [?key \<mapsto>
          sandbox\<lparr>sbx_executor_id := Some (csm_executor_id fc), sbx_container_id := Some (ct_id c),
            sbx_status := SB_Pending SB_WaitingForContainer\<rparr>]\<rparr>) v, False)"
      "s' = unblock_sandbox ?key (apply_container_update (ac_containers ch) (ac_executors ch) v t)"
      using place P some fc by (auto simp: place_sandbox_def Let_def sandbox_key_from_sandbox_def)
    have "cs_function_containers s' = (cs_function_containers s)(ct_id c \<mapsto> fc)"
      using apply_single(1) [OF ord, of v "ct_id c" fc "ac_executors ch" t] fc(1) t
      by (simp add: r(2) one_container_def count_view_def update_container_indices_fields)
    moreover have "su_updated_sandboxes v = Map.empty"
      using C some by (auto simp: create_container_def register_container_def Let_def default_update_def
          split: option.splits prod.splits if_splits sum.splits)
    moreover have "ct_sandbox_id (csm_function_container fc) = Some (sbx_id sandbox)"
      by (simp add: fc(2) c_def sandbox_container_fields)
    moreover have "sandbox\<lparr>sbx_executor_id := Some (csm_executor_id fc), sbx_container_id := Some (ct_id c),
          sbx_status := SB_Pending SB_WaitingForContainer\<rparr> =
        sandbox\<lparr>sbx_status := SB_Pending SB_WaitingForContainer, sbx_executor_id := Some (csm_executor_id fc),
          sbx_container_id := Some (ct_id c)\<rparr>" by (rule sandbox.equality) simp_all
    note r1 = r(1) [unfolded this]
    ultimately have "sandbox_served sandbox s s' (extend_update (default_update\<lparr>su_updated_sandboxes := [?key \<mapsto>
        sandbox\<lparr>sbx_status := SB_Pending SB_WaitingForContainer, sbx_executor_id := Some (csm_executor_id fc),
          sbx_container_id := Some (ct_id c)\<rparr>]\<rparr>) v)"
      using fc by (intro sandbox_servedI [where cid = "ct_id c" and fc = fc and status = "SB_Pending SB_WaitingForContainer"])
        (simp_all add: one_container_def desired_terminated_def r(2))
    then show ?thesis unfolding r1 by simp
  qed
qed

lemma try_claim_cases:
  assumes claim: "try_claim_from_pool ord sandbox key s = (result, s')"
    and "containers_ok s" "enumerates ord" "finite (dom (cs_function_containers s))"
  shows "case result of
      None \<Rightarrow> idx_get (cs_warm_containers_by_pool s) key = {} \<and> s' = s
    | Some u \<Rightarrow> sandbox_served sandbox s s' u"
proof -
  obtain res t where C: "claim_pool_container ord key (sbx_id sandbox) (sbx_timeout_secs sandbox) s = (res, t)" by fastforce
  show ?thesis
  proof (cases res)
    case None
    then show ?thesis
      using claim C claim_pool_container_None [OF assms(2-4)] by (auto simp: try_claim_from_pool_def)
  next
    case (Some x)
    then obtain cid eid v where x: "res = Some (cid, eid, v)" by (cases x) auto
    note C = C [unfolded x]
    obtain meta fc where m: "cs_function_containers s cid = Some meta"
      "fc = meta\<lparr>csm_function_container := (csm_function_container meta)
                 \<lparr>ct_sandbox_id := Some (sbx_id sandbox), ct_timeout_secs := sbx_timeout_secs sandbox\<rparr>\<rparr>"
      "container_view t = container_view (s\<lparr>cs_function_containers := (cs_function_containers s)(cid \<mapsto> fc),
         cs_warm_containers_by_pool := idx_remove key cid (cs_warm_containers_by_pool s)\<rparr>)"
      "eid = csm_executor_id meta" "v = default_update\<lparr>su_containers := [cid \<mapsto> fc]\<rparr>"
      by (rule view_claim_pool_container [OF C])
    have "indexed_ok s cid" using assms(2) by (simp add: containers_ok_def)
    from indexed_okD(4) [OF this m(1) claimed_container_warm [OF assms(2-4) C]]
    have "\<not> desired_terminated fc" by (simp add: m(2) desired_terminated_def)
    moreover have "cs_function_containers t = (cs_function_containers s)(cid \<mapsto> fc)" using m(3) by (simp add: container_view_def)
    moreover define status where
      "status = (if ct_state (csm_function_container fc) = CS_Running then SB_Running else SB_Pending SB_WaitingForContainer)"
    moreover have "csm_executor_id fc = eid" "ct_sandbox_id (csm_function_container fc) = Some (sbx_id sandbox)"
      by (simp_all add: m(2,4))
    moreover obtain u where "result = Some u" "s' = unblock_sandbox (sandbox_key_from_sandbox sandbox) t"
      "su_containers u = [cid \<mapsto> fc]" "su_updated_sandboxes u = [sandbox_key_from_sandbox sandbox \<mapsto>
         sandbox\<lparr>sbx_status := status, sbx_executor_id := Some eid, sbx_container_id := Some cid\<rparr>]"
      using claim C calculation
      by (auto simp: try_claim_from_pool_def Let_def m(5) status_def sandbox_key_from_sandbox_def)
    ultimately have "sandbox_served sandbox s s' u"
      by (intro sandbox_servedI [where cid = cid and fc = fc and status = status]) (simp_all split: if_splits)
    with \<open>result = Some u\<close> show ?thesis by simp
  qed
qed

text \<open>No warm container of the sandbox's pool, if it names one.\<close>

definition pool_exhausted :: "sandbox \<Rightarrow> container_scheduler \<Rightarrow> bool" where
  "pool_exhausted sandbox s \<longleftrightarrow>
     (case sbx_pool_id sandbox of
        None \<Rightarrow> True
      | Some pid \<Rightarrow> idx_get (cs_warm_containers_by_pool s) (container_pool_key_new (sbx_namespace sandbox) pid) = {})"

section \<open>Properties\<close>

text \<open>
  C18: a sandbox is served or waits, never both and never neither.  When the allocation of a pending
  sandbox without a container returns an update, either the sandbox has one container, not marked for
  termination and assigned to it, both in the state and in the update, is not in the tracker of blocked
  work, and is running only if that container is; or nothing is created, the sandbox stays pending with
  the reason and is in the tracker, and its pool, if any, has no warm container.  An allocation fails
  only when the pool has no warm container; it then creates nothing and does not panic.
\<close>

theorem allocate_sandbox_exact:
  assumes "enumerates (ac_containers ch)" "containers_ok s" "finite (dom (cs_function_containers s))"
    and "sandbox_is_pending (sbx_status sandbox)" "\<not> sbx_has_scheduled sandbox"
    and "allocate_sandbox ch state sandbox cache s = (result, cache', s')"
  shows "case result of
      Inr (u, exhausted) \<Rightarrow>
        (sandbox_served sandbox s s' u \<and> \<not> exhausted) \<noteq>
        (\<exists>reason. sandbox_waits sandbox s s' reason u \<and> exhausted = (reason \<noteq> SB_PoolAtCapacity) \<and>
           pool_exhausted sandbox s)
    | Inl e \<Rightarrow> e \<noteq> Panicked \<and> pool_exhausted sandbox s \<and> cs_function_containers s' = cs_function_containers s"
    (is ?R)
proof -
  have placed: ?R if "place_sandbox ch state sandbox cache s = (result, cache', s')" "pool_exhausted sandbox s"
    using place_sandbox_cases [OF that(1) assms(1)] that(2) served_not_waiting
    by (auto split: sum.splits)
  show ?thesis
  proof (cases "sbx_pool_id sandbox")
    case None
    with assms(4-6) placed show ?thesis by (simp add: allocate_sandbox_def pool_exhausted_def)
  next
    case (Some pid)
    let ?key = "container_pool_key_new (sbx_namespace sandbox) pid"
    obtain claimed t where claim: "try_claim_from_pool (ac_containers ch) sandbox ?key s = (claimed, t)" by fastforce
    note C = try_claim_cases [OF claim assms(2,1,3)]
    show ?thesis
    proof (cases claimed)
      case 2: (Some u)
      then have "result = Ok (u, False)" "s' = t" using assms(4-6) Some claim by (auto simp: allocate_sandbox_def)
      with C 2 served_not_waiting show ?thesis by auto
    next
      case None
      with C Some have t: "t = s" "pool_exhausted sandbox s" by (simp_all add: pool_exhausted_def)
      show ?thesis
      proof (cases "pool_at_capacity s ?key")
        case False
        with assms(4-6) Some claim None t placed show ?thesis by (simp add: allocate_sandbox_def)
      next
        case True
        obtain c2 s2 where R: "record_blocked_sandbox (ac_create ch) sandbox cache (s\<lparr>cs_last_placement := None\<rparr>) = (c2, s2)"
          by fastforce
        have r: "result = Ok (set_pending_reason default_update sandbox SB_PoolAtCapacity, False)" "s' = s2"
          using assms(4-6) Some claim None t True R by (auto simp: allocate_sandbox_def take_last_placement_def)
        have "sandbox_waits sandbox s s' SB_PoolAtCapacity (set_pending_reason default_update sandbox SB_PoolAtCapacity)"
          using record_blocked_sandbox_effect [OF R] by (simp add: sandbox_waits_def set_pending_reason_fields r(2))
        with r(1) Some t(2) served_not_waiting show ?thesis by auto
      qed
    qed
  qed
qed

definition example_sandbox :: sandbox where
  "example_sandbox =
     \<lparr>sbx_id = ''s1'', sbx_namespace = ''ns'', sbx_image = ''img'', sbx_status = SB_Pending SB_Scheduling,
      sbx_outcome = None, sbx_creation_time_ns = 0, sbx_created_at_clock = None, sbx_updated_at_clock = None,
      sbx_resources = pool_resources (example_pool 2), sbx_secret_names = [], sbx_timeout_secs = 600,
      sbx_allow_unauthenticated_access = False, sbx_executor_id = None, sbx_entrypoint = None,
      sbx_network_policy = None, sbx_pool_id = Some ''pool'', sbx_container_id = None, sbx_snapshot_id = None,
      sbx_exposed_ports = None\<rparr>"

theorem allocate_sandbox_exact_witness:
  "\<exists>u cache' s'. allocate_sandbox example_alloc_choices example_base example_sandbox Map.empty example_buffered =
       (Inr (u, False), cache', s') \<and> sandbox_served example_sandbox example_buffered s' u"
proof -
  obtain result cache' s' where r:
    "allocate_sandbox example_alloc_choices example_base example_sandbox Map.empty example_buffered = (result, cache', s')"
    by (rule prod_cases3)
  have "containers_ok example_buffered" using example_buffered_inv by (simp add: scheduler_inv_def scheduler_ok_def)
  from allocate_sandbox_exact [OF _ this _ _ _ r]
  have exact: "case result of
      Inr (u, exhausted) \<Rightarrow>
        (sandbox_served example_sandbox example_buffered s' u \<and> \<not> exhausted) \<noteq>
        (\<exists>reason. sandbox_waits example_sandbox example_buffered s' reason u \<and> exhausted = (reason \<noteq> SB_PoolAtCapacity) \<and>
           pool_exhausted example_sandbox example_buffered)
    | Inl e \<Rightarrow> e \<noteq> Panicked \<and> pool_exhausted example_sandbox example_buffered \<and>
        cs_function_containers s' = cs_function_containers example_buffered"
    by (simp add: example_alloc_choices_def enumerates_sorted_list_of_set example_buffered_fields example_sandbox_def
        sandbox_is_pending_def sbx_has_scheduled_def)
  have "\<not> pool_exhausted example_sandbox example_buffered"
    by (simp add: pool_exhausted_def example_sandbox_def example_buffered_def example_scheduler_warm
        container_pool_key_new_def idx_get_def)
  with exact have "\<exists>u. result = Inr (u, False) \<and> sandbox_served example_sandbox example_buffered s' u"
    by (cases result) auto
  with r show ?thesis by auto
qed

lemma terminate_container_effect:
  assumes "cs_function_containers s cid = Some fc"
  shows "fst (terminate_container cid s) = Some (default_update\<lparr>su_containers := [cid \<mapsto> mark_terminated fc]\<rparr>)"
    "cs_function_containers (snd (terminate_container cid s)) = (cs_function_containers s)(cid \<mapsto> mark_terminated fc)"
    "waiting_sandboxes (snd (terminate_container cid s)) = waiting_sandboxes s"
proof -
  show "fst (terminate_container cid s) = Some (default_update\<lparr>su_containers := [cid \<mapsto> mark_terminated fc]\<rparr>)"
    using assms by (simp add: terminate_container_def Let_def)
  show "cs_function_containers (snd (terminate_container cid s)) = (cs_function_containers s)(cid \<mapsto> mark_terminated fc)"
    using view_terminate_container [OF assms] by (simp add: container_view_def)
  show "waiting_sandboxes (snd (terminate_container cid s)) = waiting_sandboxes s"
    by (simp add: assms terminate_container_def Let_def waiting_sandboxes_def remove_idle_def
        remove_from_uri_index_def remove_from_pool_index_def remove_from_warm_index_def split: option.split)
qed

lemma sandbox_active_iff:
  "sandbox_active sandbox \<longleftrightarrow> sbx_status sandbox = SB_Running \<or> (\<exists>reason. sbx_status sandbox = SB_Pending reason)"
  by (auto simp: sandbox_active_def split: sandbox_status.split)

text \<open>
  C37: terminating a sandbox that has a container records it as terminated by the user, takes it out of
  the tracker of blocked work and keeps the indices of the scheduler exact.  Its container is marked for
  termination, in the state and in the update, exactly when the sandbox is running or pending; the
  container of a sandbox that is being snapshotted stays as it was, with no sandbox left to stop it.
\<close>

theorem terminate_sandbox_exact:
  assumes "containers_ok s" "ims_sandboxes state (sandbox_key_new ns sid) = Some sandbox"
    and "sbx_container_id sandbox = Some cid" "cs_function_containers s cid = Some fc"
  shows "let key = sandbox_key_new ns sid; (u, s') = terminate_sandbox state ns sid s; fc' = mark_terminated fc
    in su_updated_sandboxes u =
         [key \<mapsto> sandbox\<lparr>sbx_status := SB_Terminated, sbx_outcome := Some (SB_Success SB_UserTerminated)\<rparr>] \<and>
       waiting_sandboxes s' = waiting_sandboxes s - {key} \<and> containers_ok s' \<and>
       (if sbx_status sandbox = SB_Running \<or> (\<exists>reason. sbx_status sandbox = SB_Pending reason)
        then su_containers u = [cid \<mapsto> fc'] \<and> cs_function_containers s' = (cs_function_containers s)(cid \<mapsto> fc')
        else su_containers u = Map.empty \<and> cs_function_containers s' = cs_function_containers s)"
proof -
  obtain t where t: "terminate_container cid s = (Some (default_update\<lparr>su_containers := [cid \<mapsto> mark_terminated fc]\<rparr>), t)"
    using terminate_container_effect(1) [OF assms(4)] by (metis prod.collapse)
  have T: "cs_function_containers t = (cs_function_containers s)(cid \<mapsto> mark_terminated fc)"
    "waiting_sandboxes t = waiting_sandboxes s" "containers_ok t"
    using terminate_container_effect(2,3) [OF assms(4)] containers_ok_terminate_container [OF assms(1), of cid]
    by (simp_all add: t)
  have ok: "containers_ok (unblock_sandbox key r) = containers_ok r" for key r
    using containers_ok_view [of "unblock_sandbox key r" r] containers_ok_view [of r "unblock_sandbox key r"] by auto
  show ?thesis
    using assms T t unfolding sandbox_active_iff [symmetric] by (simp add: terminate_sandbox_def Let_def ok)
qed

theorem terminate_sandbox_exact_witness:
  "let sandbox = example_sandbox\<lparr>sbx_status := SB_Snapshotting ''snap'', sbx_container_id := Some ''c1''\<rparr>;
       state = example_base\<lparr>ims_sandboxes := [''ns|s1'' \<mapsto> sandbox]\<rparr>;
       (u, s') = terminate_sandbox state ''ns'' ''s1'' example_buffered
   in map_option sbx_status (su_updated_sandboxes u ''ns|s1'') = Some SB_Terminated \<and> su_containers u = Map.empty \<and>
      cs_function_containers s' ''c1'' = Some example_pool_container \<and> \<not> desired_terminated example_pool_container"
proof -
  let ?sandbox = "example_sandbox\<lparr>sbx_status := SB_Snapshotting ''snap'', sbx_container_id := Some ''c1''\<rparr>"
  let ?state = "example_base\<lparr>ims_sandboxes := [''ns|s1'' \<mapsto> ?sandbox]\<rparr>"
  have "containers_ok example_buffered" using example_buffered_inv by (simp add: scheduler_inv_def scheduler_ok_def)
  from terminate_sandbox_exact [OF this, of ?state "''ns''" "''s1''" ?sandbox "''c1''" example_pool_container]
  have exact: "let key = ''ns|s1''; (u, s') = terminate_sandbox ?state ''ns'' ''s1'' example_buffered
    in su_updated_sandboxes u =
         [key \<mapsto> ?sandbox\<lparr>sbx_status := SB_Terminated, sbx_outcome := Some (SB_Success SB_UserTerminated)\<rparr>] \<and>
       su_containers u = Map.empty \<and> cs_function_containers s' = cs_function_containers example_buffered"
    by (simp add: sandbox_key_new_def example_buffered_fields sandbox_active_def Let_def split_def)
  have "\<not> desired_terminated example_pool_container"
    by (simp add: example_pool_container_def csm_new_def desired_terminated_def)
  with exact show ?thesis by (simp only: Let_def split_def) (simp add: example_buffered_fields)
qed

end
