(* ===== verification/Commands.thy ===== *)
theory Commands
  imports Sandboxes
begin

text \<open>
  What the server tells the executors (\<open>executors.rs\<close>, \<open>executors/command_emission.rs\<close>).  The description
  of a container and of an allocation is built on two paths: from the desired state of an executor that
  asks for everything, and from the update of a scheduling pass.  The orders in which hash containers are
  walked are arguments.
\<close>

declare split_paired_All [simp del] split_paired_Ex [simp del]

section \<open>Descriptions\<close>

definition saturating_mul :: "'a::len word \<Rightarrow> 'a word \<Rightarrow> 'a word" where
  "saturating_mul x y = (if unat x * unat y < 2 ^ LENGTH('a) then x * y else - 1)"

text \<open>\<open>timeout_secs.saturating_mul(1000).try_into().unwrap_or(u32::MAX)\<close>\<close>

definition timeout_ms :: "u64 \<Rightarrow> u32" where
  "timeout_ms secs =
     (let ms = saturating_mul secs 1000 in if ms < 2 ^ 32 then ucast ms else u32_max)"

definition version_of_container :: "in_memory_state \<Rightarrow> container \<Rightarrow> application_version option" where
  "version_of_container state fe =
     ims_application_versions state (version_key_from (ct_namespace fe) (ct_application_name fe) (ct_version fe))"

definition function_of_container :: "in_memory_state \<Rightarrow> container \<Rightarrow> app_function option" where
  "function_of_container state fe =
     Option.bind (version_of_container state fe) (\<lambda>ver. ver_functions ver (ct_function_name fe))"

definition container_function_ref :: "container \<Rightarrow> function_ref_pb" where
  "container_function_ref fe =
     \<lparr>ref_namespace = Some (ct_namespace fe), ref_application_name = Some (ct_application_name fe),
      ref_function_name = Some (ct_function_name fe), ref_application_version = Some (ct_version fe)\<rparr>"

fun container_type_to_pb :: "container_type \<Rightarrow> container_type_pb" where
  "container_type_to_pb FunctionContainer = CTP_Function"
| "container_type_to_pb SandboxContainer = CTP_Sandbox"

text \<open>The description an update carries.\<close>

definition build_container_description_from_meta ::
  "(string \<Rightarrow> string) \<Rightarrow> blob_storage_registry \<Rightarrow> in_memory_state \<Rightarrow> container_server_metadata \<Rightarrow>
   container_description_pb option" where
  "build_container_description_from_meta bucket registry state meta =
     (let fe = csm_function_container meta;
          cg_version = version_of_container state fe;
          cg_node = function_of_container state fe;
          store = get_blob_store registry (ct_namespace fe);
          code_payload_pb = map_option (\<lambda>code.
            \<lparr>dpp_uri = Some (blob_store_path_to_url bucket (pay_path code) (fst store) (snd store)),
             dpp_encoding = Some (data_payload_encoding_number DPE_BinaryZip), dpp_encoding_version = Some 0,
             dpp_content_type = Some ''application/zip'', dpp_metadata_size = Some 0, dpp_offset = Some 0,
             dpp_size = Some (pay_size code), dpp_sha256_hash = Some (pay_sha256_hash code),
             dpp_source_function_call_id = None, dpp_id = Some (pay_id code)\<rparr>) (Option.bind cg_version ver_code);
          network_policy_pb = map_option network_policy_to_pb (ct_network_policy fe);
          sandbox_metadata =
            (if ct_container_type fe = SandboxContainer
             then Some \<lparr>smp_timeout_secs = (if 0 < ct_timeout_secs fe then Some (ct_timeout_secs fe) else None),
                        smp_entrypoint = ct_entrypoint fe, smp_image = ct_image fe,
                        smp_network_policy = network_policy_pb, smp_sandbox_id = ct_sandbox_id fe,
                        smp_snapshot_uri = ct_snapshot_uri fe\<rparr>
             else None)
      in case container_resources_to_pb (ct_resources fe) of
           Inl _ \<Rightarrow> None
         | Inr resources_pb \<Rightarrow>
             Some \<lparr>cdp_id = Some (ct_id fe), cdp_function = Some (container_function_ref fe),
                   cdp_secret_names = unwrap_or (Option.bind cg_node fn_secret_names) [],
                   cdp_initialization_timeout_ms =
                     Some (unwrap_or (map_option fn_initialization_timeout cg_node) (timeout_ms (ct_timeout_secs fe))),
                   cdp_application = code_payload_pb, cdp_resources = Some resources_pb,
                   cdp_max_concurrency = Some (ct_max_concurrency fe),
                   cdp_allocation_timeout_ms =
                     Some (unwrap_or (map_option fn_timeout cg_node) (timeout_ms (ct_timeout_secs fe))),
                   cdp_sandbox_metadata = sandbox_metadata,
                   cdp_container_type = Some (container_type_number (container_type_to_pb (ct_container_type fe))),
                   cdp_pool_id = ct_pool_id fe\<rparr>)"

definition input_arg_to_pb :: "(string \<Rightarrow> string) \<Rightarrow> string \<times> string \<Rightarrow> input_args \<Rightarrow> data_payload_pb" where
  "input_arg_to_pb bucket store arg =
     (let payload = ia_data_payload arg
      in \<lparr>dpp_uri = Some (blob_store_path_to_url bucket (pay_path payload) (fst store) (snd store)),
          dpp_encoding = Some (data_payload_encoding_number (string_to_data_payload_encoding (pay_encoding payload))),
          dpp_encoding_version = Some 0, dpp_content_type = Some (pay_encoding payload),
          dpp_metadata_size = Some (pay_metadata_size payload), dpp_offset = Some (pay_offset payload),
          dpp_size = Some (pay_size payload), dpp_sha256_hash = Some (pay_sha256_hash payload),
          dpp_source_function_call_id = ia_function_call_id arg, dpp_id = Some (pay_id payload)\<rparr>)"

definition request_key_prefix :: "string \<Rightarrow> string \<Rightarrow> string \<Rightarrow> string" where
  "request_key_prefix namespace application request_id = namespace @ ''/'' @ application @ ''/'' @ request_id"

definition allocation_to_proto :: "(string \<Rightarrow> string) \<Rightarrow> blob_storage_registry \<Rightarrow> allocation \<Rightarrow> allocation_pb" where
  "allocation_to_proto bucket registry allocation =
     (let store = get_blob_store registry (al_namespace allocation);
          args = map (input_arg_to_pb bucket store) (al_input_args allocation);
          prefix = snd store @ ''/'' @
            request_key_prefix (al_namespace allocation) (al_application allocation) (al_request_id allocation)
      in \<lparr>apb_function = Some \<lparr>ref_namespace = Some (al_namespace allocation),
            ref_application_name = Some (al_application allocation), ref_function_name = Some (al_function allocation),
            ref_application_version = None\<rparr>,
          apb_allocation_id = Some (al_id allocation), apb_function_call_id = Some (al_function_call_id allocation),
          apb_request_id = Some (al_request_id allocation), apb_args = args,
          apb_request_data_payload_uri_prefix = Some prefix, apb_request_error_payload_uri_prefix = Some prefix,
          apb_container_id = Some (target_container_id (al_target allocation)),
          apb_function_call_metadata = Some (al_call_metadata allocation), apb_replay_mode = None,
          apb_last_event_clock = None\<rparr>)"

section \<open>The desired state of an executor\<close>

record desired_state_function_executor =
  dsf_function_executor :: container_server_metadata
  dsf_resources :: container_resources
  dsf_secret_names :: "string list"
  dsf_initialization_timeout_ms :: u32
  dsf_code_payload :: "data_payload option"
  dsf_image :: "string option"
  dsf_allocation_timeout_ms :: u32
  dsf_sandbox_timeout_secs :: u64
  dsf_entrypoint :: "string list"
  dsf_network_policy :: "network_policy option"
  dsf_snapshot_uri :: "string option"

record pending_snapshot =
  ps_container_id :: string
  ps_snapshot_id :: string
  ps_upload_uri :: string

record desired_executor_state =
  des_containers :: "desired_state_function_executor list"
  des_function_run_allocations :: "container_id \<rightharpoonup> allocation list"
  des_pending_snapshots :: "pending_snapshot list"
  des_clock :: u64

record executor_state_snapshot =
  ess_containers :: "container_description_pb list"
  ess_allocations :: "allocation_pb list"
  ess_pending_snapshots :: "pending_snapshot list"
  ess_clock :: "u64 option"

text \<open>The orders of the set of containers, of the map of allocations by container and of the allocations of one.\<close>

record emit_orders =
  eo_containers :: "container_id set \<Rightarrow> container_id list"
  eo_groups :: "container_id set \<Rightarrow> container_id list"
  eo_allocations :: "allocation_id set \<Rightarrow> allocation_id list"
  eo_snapshots :: "snapshot_key set \<Rightarrow> snapshot_key list"

definition desired_container :: "in_memory_state \<Rightarrow> container_server_metadata \<Rightarrow> desired_state_function_executor" where
  "desired_container state meta =
     (let fe = csm_function_container meta;
          cg_version = version_of_container state fe;
          cg_node = function_of_container state fe
      in \<lparr>dsf_function_executor = meta, dsf_resources = ct_resources fe,
          dsf_secret_names = unwrap_or (Option.bind cg_node fn_secret_names) [],
          dsf_initialization_timeout_ms =
            unwrap_or (map_option fn_initialization_timeout cg_node) (timeout_ms (ct_timeout_secs fe)),
          dsf_code_payload = map_option (\<lambda>code.
            \<lparr>pay_id = pay_id code, pay_path = pay_path code, pay_metadata_size = 0, pay_offset = 0,
             pay_size = pay_size code, pay_sha256_hash = pay_sha256_hash code,
             pay_encoding = ''DATA_PAYLOAD_ENCODING_BINARY_ZIP''\<rparr>) (Option.bind cg_version ver_code),
          dsf_image = ct_image fe,
          dsf_allocation_timeout_ms = unwrap_or (map_option fn_timeout cg_node) (timeout_ms (ct_timeout_secs fe)),
          dsf_sandbox_timeout_secs = ct_timeout_secs fe, dsf_entrypoint = ct_entrypoint fe,
          dsf_network_policy = ct_network_policy fe, dsf_snapshot_uri = ct_snapshot_uri fe\<rparr>)"

definition allocations_of :: "emit_orders \<Rightarrow> in_memory_state \<Rightarrow> executor_id \<Rightarrow> container_id \<Rightarrow> allocation list" where
  "allocations_of ord state eid cid =
     (case Option.bind (ims_allocations_by_executor state eid) (\<lambda>m. m cid) of
        None \<Rightarrow> []
      | Some allocations \<Rightarrow> map (\<lambda>k. the (allocations k)) (eo_allocations ord (dom allocations)))"

definition pending_snapshot_of :: "in_memory_state \<Rightarrow> executor_id \<Rightarrow> sandbox \<Rightarrow> pending_snapshot option" where
  "pending_snapshot_of state eid sandbox =
     (case sbx_status sandbox of
        SB_Snapshotting snapshot_id \<Rightarrow>
          (if sbx_executor_id sandbox \<noteq> Some eid then None
           else
             (case sbx_container_id sandbox of
                None \<Rightarrow> None
              | Some cid \<Rightarrow>
                  (case ims_snapshots state (sbx_namespace sandbox @ ''|'' @ snapshot_id) of
                     None \<Rightarrow> None
                   | Some snapshot \<Rightarrow>
                       map_option (\<lambda>upload_uri. \<lparr>ps_container_id = cid, ps_snapshot_id = snapshot_id, ps_upload_uri = upload_uri\<rparr>)
                         (snap_upload_uri snapshot))))
      | _ \<Rightarrow> None)"

definition active_containers ::
  "emit_orders \<Rightarrow> container_scheduler \<Rightarrow> executor_server_metadata \<Rightarrow> container_server_metadata list" where
  "active_containers ord scheduler esm =
     filter (\<lambda>fc. \<not> desired_terminated fc)
       (List.map_filter (cs_function_containers scheduler) (eo_containers ord (esm_function_container_ids esm)))"

definition desired_state ::
  "emit_orders \<Rightarrow> in_memory_state \<Rightarrow> container_scheduler \<Rightarrow> executor_id \<Rightarrow> desired_executor_state option" where
  "desired_state ord state scheduler eid =
     (case cs_executors scheduler eid of
        None \<Rightarrow> None
      | Some executor \<Rightarrow>
          if em_tombstoned executor then None
          else
            (case cs_executor_states scheduler eid of
               None \<Rightarrow> None
             | Some esm \<Rightarrow>
                 (let active = active_containers ord scheduler esm
                  in Some \<lparr>des_containers = map (desired_container state) active,
                       des_function_run_allocations = fold (\<lambda>fc m. m(ct_id (csm_function_container fc) \<mapsto>
                         allocations_of ord state eid (ct_id (csm_function_container fc)))) active Map.empty,
                       des_pending_snapshots = List.map_filter (pending_snapshot_of state eid)
                         (map (\<lambda>k. the (ims_sandboxes state k)) (sorted_list_of_set (dom (ims_sandboxes state)))),
                       des_clock = ims_clock state\<rparr>)))"

text \<open>The description and the allocation message of \<open>get_executor_state\<close>.\<close>

definition desired_description ::
  "(string \<Rightarrow> string) \<Rightarrow> blob_storage_registry \<Rightarrow> desired_state_function_executor \<Rightarrow> container_description_pb option" where
  "desired_description bucket registry desired =
     (let fe = csm_function_container (dsf_function_executor desired);
          store = get_blob_store registry (ct_namespace fe);
          code_payload_pb = map_option (\<lambda>code.
            \<lparr>dpp_uri = Some (blob_store_path_to_url bucket (pay_path code) (fst store) (snd store)),
             dpp_encoding = Some (data_payload_encoding_number DPE_BinaryZip), dpp_encoding_version = Some 0,
             dpp_content_type = Some ''application/zip'', dpp_metadata_size = Some (pay_metadata_size code),
             dpp_offset = Some (pay_offset code), dpp_size = Some (pay_size code),
             dpp_sha256_hash = Some (pay_sha256_hash code), dpp_source_function_call_id = None,
             dpp_id = Some (pay_id code)\<rparr>) (dsf_code_payload desired);
          network_policy_pb = map_option network_policy_to_pb (dsf_network_policy desired);
          sandbox_metadata =
            (if ct_container_type fe = SandboxContainer
             then Some \<lparr>smp_timeout_secs =
                          (if 0 < dsf_sandbox_timeout_secs desired then Some (dsf_sandbox_timeout_secs desired) else None),
                        smp_entrypoint = dsf_entrypoint desired, smp_image = dsf_image desired,
                        smp_network_policy = network_policy_pb, smp_sandbox_id = ct_sandbox_id fe,
                        smp_snapshot_uri = dsf_snapshot_uri desired\<rparr>
             else None)
      in case container_resources_to_pb (dsf_resources desired) of
           Inl _ \<Rightarrow> None
         | Inr resources_pb \<Rightarrow>
             Some \<lparr>cdp_id = Some (ct_id fe), cdp_function = Some (container_function_ref fe),
                   cdp_secret_names = dsf_secret_names desired,
                   cdp_initialization_timeout_ms = Some (dsf_initialization_timeout_ms desired),
                   cdp_application = code_payload_pb, cdp_resources = Some resources_pb,
                   cdp_max_concurrency = Some (ct_max_concurrency fe),
                   cdp_allocation_timeout_ms = Some (dsf_allocation_timeout_ms desired),
                   cdp_sandbox_metadata = sandbox_metadata,
                   cdp_container_type = Some (container_type_number (container_type_to_pb (ct_container_type fe))),
                   cdp_pool_id = ct_pool_id fe\<rparr>)"

definition desired_allocation ::
  "(string \<Rightarrow> string) \<Rightarrow> blob_storage_registry \<Rightarrow> container_id \<Rightarrow> allocation \<Rightarrow> allocation_pb" where
  "desired_allocation bucket registry cid allocation =
     (let store = get_blob_store registry (al_namespace allocation);
          args = map (input_arg_to_pb bucket store) (al_input_args allocation);
          prefix = snd store @ ''/'' @
            request_key_prefix (al_namespace allocation) (al_application allocation) (al_request_id allocation)
      in \<lparr>apb_function = Some \<lparr>ref_namespace = Some (al_namespace allocation),
            ref_application_name = Some (al_application allocation), ref_function_name = Some (al_function allocation),
            ref_application_version = None\<rparr>,
          apb_allocation_id = Some (al_id allocation), apb_function_call_id = Some (al_function_call_id allocation),
          apb_request_id = Some (al_request_id allocation), apb_args = args,
          apb_request_data_payload_uri_prefix = Some prefix, apb_request_error_payload_uri_prefix = Some prefix,
          apb_container_id = Some cid, apb_function_call_metadata = Some (al_call_metadata allocation),
          apb_replay_mode = None, apb_last_event_clock = None\<rparr>)"

definition get_executor_state ::
  "(string \<Rightarrow> string) \<Rightarrow> blob_storage_registry \<Rightarrow> emit_orders \<Rightarrow> in_memory_state \<Rightarrow> container_scheduler \<Rightarrow> executor_id \<Rightarrow>
   executor_state_snapshot option" where
  "get_executor_state bucket registry ord state scheduler eid =
     map_option (\<lambda>desired.
       \<lparr>ess_containers = List.map_filter (desired_description bucket registry) (des_containers desired),
        ess_allocations = concat (map (\<lambda>cid. map (desired_allocation bucket registry cid)
            (the (des_function_run_allocations desired cid)))
          (eo_groups ord (dom (des_function_run_allocations desired)))),
        ess_pending_snapshots = des_pending_snapshots desired, ess_clock = Some (des_clock desired)\<rparr>)
       (desired_state ord state scheduler eid)"

definition commands_from_full_snapshot :: "executor_state_snapshot \<Rightarrow> command list" where
  "commands_from_full_snapshot snapshot =
     map (\<lambda>container. \<lparr>cmd_seq = 0, cmd_command = Some (AddContainer (Some container))\<rparr>) (ess_containers snapshot) @
     map (\<lambda>allocation. \<lparr>cmd_seq = 0, cmd_command = Some (RunAllocation (Some allocation))\<rparr>) (ess_allocations snapshot) @
     map (\<lambda>p. \<lparr>cmd_seq = 0, cmd_command =
            Some (SnapshotContainer (ps_container_id p) (ps_snapshot_id p) (ps_upload_uri p))\<rparr>)
       (ess_pending_snapshots snapshot)"

section \<open>The commands of an update\<close>

definition container_command_priority :: "container_id \<Rightarrow> container_server_metadata \<Rightarrow> container_id set \<Rightarrow> nat" where
  "container_command_priority cid meta updated_sandbox_container_ids =
     (if desired_terminated meta then 0
      else if csm_container_type meta = SandboxContainer \<and> cid \<in> updated_sandbox_container_ids then 1
      else if ct_state (csm_function_container meta) = CS_Pending then 2
      else 3)"

definition updated_sandbox_containers :: "scheduler_update_request \<Rightarrow> container_id set" where
  "updated_sandbox_containers update = {cid. \<exists>sandbox \<in> ran (su_updated_sandboxes update). sbx_container_id sandbox = Some cid}"

definition container_intent ::
  "(string \<Rightarrow> string) \<Rightarrow> blob_storage_registry \<Rightarrow> in_memory_state \<Rightarrow> container_id set \<Rightarrow>
   container_id \<times> container_server_metadata \<Rightarrow> scheduler_command_intent option" where
  "container_intent bucket registry indexes updated entry =
     (let (cid, meta) = entry;
          body =
            (if desired_terminated meta then Some (RemoveContainer cid None)
             else if ct_state (csm_function_container meta) = CS_Pending
             then map_option (\<lambda>pb. AddContainer (Some pb)) (build_container_description_from_meta bucket registry indexes meta)
             else if csm_container_type meta = SandboxContainer \<and> cid \<in> updated
             then map_option (\<lambda>pb. UpdateContainerDescription cid (cdp_sandbox_metadata pb))
                    (build_container_description_from_meta bucket registry indexes meta)
             else None)
      in map_option (\<lambda>body. \<lparr>sci_executor_id = csm_executor_id meta,
           sci_command = \<lparr>cmd_seq = 0, cmd_command = Some body\<rparr>\<rparr>) body)"

definition run_intent :: "(string \<Rightarrow> string) \<Rightarrow> blob_storage_registry \<Rightarrow> allocation \<Rightarrow> scheduler_command_intent" where
  "run_intent bucket registry allocation =
     \<lparr>sci_executor_id = target_executor_id (al_target allocation),
      sci_command = \<lparr>cmd_seq = 0, cmd_command = Some (RunAllocation (Some (allocation_to_proto bucket registry allocation)))\<rparr>\<rparr>"

definition snapshot_command :: "snapshot \<Rightarrow> sandbox \<Rightarrow> scheduler_command_intent option" where
  "snapshot_command snapshot sandbox =
     (case sbx_executor_id sandbox of
        None \<Rightarrow> None
      | Some eid \<Rightarrow>
          if snap_status snapshot \<noteq> SnapshotInProgress then None
          else
            (case snap_upload_uri snapshot of
               None \<Rightarrow> None
             | Some upload_uri \<Rightarrow>
                 map_option (\<lambda>cid. \<lparr>sci_executor_id = eid, sci_command =
                     \<lparr>cmd_seq = 0, cmd_command = Some (SnapshotContainer cid (snap_id snapshot) upload_uri)\<rparr>\<rparr>)
                   (sbx_container_id sandbox)))"

definition snapshot_intent ::
  "in_memory_state \<Rightarrow> scheduler_update_request \<Rightarrow> snapshot \<Rightarrow> scheduler_command_intent option" where
  "snapshot_intent indexes update snapshot =
     (let key = sandbox_key_new (snap_namespace snapshot) (snap_sandbox_id snapshot)
      in Option.bind (case su_updated_sandboxes update key of Some sandbox \<Rightarrow> Some sandbox | None \<Rightarrow> ims_sandboxes indexes key)
           (snapshot_command snapshot))"

definition ordered_containers :: "emit_orders \<Rightarrow> scheduler_update_request \<Rightarrow> container_id list" where
  "ordered_containers ord update =
     sort_key (\<lambda>cid. (container_command_priority cid (the (su_containers update cid)) (updated_sandbox_containers update), cid))
       (eo_containers ord (dom (su_containers update)))"

definition rebuild_scheduler_command_intents ::
  "(string \<Rightarrow> string) \<Rightarrow> blob_storage_registry \<Rightarrow> emit_orders \<Rightarrow> in_memory_state \<Rightarrow> scheduler_update_request \<Rightarrow>
   scheduler_update_request" where
  "rebuild_scheduler_command_intents bucket registry ord indexes update =
     update\<lparr>su_scheduler_command_intents :=
       List.map_filter (container_intent bucket registry indexes (updated_sandbox_containers update))
         (map (\<lambda>cid. (cid, the (su_containers update cid))) (ordered_containers ord update)) @
       map (run_intent bucket registry) (su_new_allocations update) @
       List.map_filter (snapshot_intent indexes update)
         (map (\<lambda>k. the (su_updated_snapshots update k)) (eo_snapshots ord (dom (su_updated_snapshots update))))\<rparr>"

section \<open>The order of the commands\<close>

lemma sorted_split:
  assumes "sorted (map f xs)" "\<And>x y. P y \<Longrightarrow> f x \<le> f y \<Longrightarrow> P x"
  shows "xs = filter P xs @ filter (\<lambda>x. \<not> P x) xs"
  using assms(1)
proof (induction xs)
  case (Cons x xs)
  show ?case
  proof (cases "P x")
    case False
    have "\<not> P y" if "y \<in> set xs" for y using Cons.prems assms(2) that False by auto
    then show ?thesis using False by (simp add: filter_id_conv)
  qed (use Cons in simp)
qed simp

definition remove_intent :: "container_id \<Rightarrow> container_server_metadata \<Rightarrow> scheduler_command_intent" where
  "remove_intent cid meta =
     \<lparr>sci_executor_id = csm_executor_id meta, sci_command = \<lparr>cmd_seq = 0, cmd_command = Some (RemoveContainer cid None)\<rparr>\<rparr>"

definition starts_container :: "scheduler_command_intent \<Rightarrow> bool" where
  "starts_container intent \<longleftrightarrow>
     (case cmd_command (sci_command intent) of
        Some (AddContainer _) \<Rightarrow> True | Some (UpdateContainerDescription _ _) \<Rightarrow> True | _ \<Rightarrow> False)"

definition takes_snapshot :: "scheduler_command_intent \<Rightarrow> bool" where
  "takes_snapshot intent \<longleftrightarrow>
     (case cmd_command (sci_command intent) of Some (SnapshotContainer _ _ _) \<Rightarrow> True | _ \<Rightarrow> False)"

lemma container_intent_cases:
  "desired_terminated meta \<Longrightarrow> container_intent bucket registry indexes updated (cid, meta) = Some (remove_intent cid meta)"
  "\<not> desired_terminated meta \<Longrightarrow> container_intent bucket registry indexes updated (cid, meta) = Some intent \<Longrightarrow>
     starts_container intent"
  by (auto simp: container_intent_def remove_intent_def starts_container_def split: if_splits)

lemma snapshot_command_takes: "snapshot_command snapshot sandbox = Some intent \<Longrightarrow> takes_snapshot intent"
  by (cases "sbx_executor_id sandbox"; cases "snap_upload_uri snapshot"; cases "sbx_container_id sandbox")
    (auto simp: snapshot_command_def takes_snapshot_def split: if_splits)

lemma snapshot_intent_takes: "snapshot_intent indexes u snapshot = Some intent \<Longrightarrow> takes_snapshot intent"
  using snapshot_command_takes unfolding snapshot_intent_def Let_def bind_eq_Some_conv by blast

lemma map_filter_total: "(\<And>x. x \<in> set xs \<Longrightarrow> f x = Some (g x)) \<Longrightarrow> List.map_filter f xs = map g xs"
  by (induction xs) (auto simp: List.map_filter_simps)

lemma map_filter_append: "List.map_filter f (xs @ ys) = List.map_filter f xs @ List.map_filter f ys"
  by (simp add: List.map_filter_def)

lemma set_map_filter_iff: "y \<in> set (List.map_filter f xs) \<longleftrightarrow> (\<exists>x \<in> set xs. f x = Some y)"
  by (force simp: List.map_filter_def)

lemma sorted_same_key:
  assumes "sorted (map (\<lambda>x. (p x, x)) xs)" "\<forall>x \<in> set xs. p x = c"
  shows "sorted xs"
  using assms by (induction xs) auto

text \<open>
  C19: the commands of an update are ordered.  The intents rebuilt from an update are, in this order: one
  removal for each container the update marks for termination, to its executor, each exactly once, in the
  order of their identifiers; commands that add a container or change its sandbox, whichever they are;
  one run command for each new allocation, in the order they were made; snapshot commands.  So an executor frees resources before it is asked to use them, and knows a container before
  it is asked to run something there.
\<close>

theorem intents_ordered:
  assumes "enumerates (eo_containers ord)" "finite (dom (su_containers u))"
  shows "\<exists>removed started snapshots.
    su_scheduler_command_intents (rebuild_scheduler_command_intents bucket registry ord indexes u) =
      map (\<lambda>cid. remove_intent cid (the (su_containers u cid))) removed @ started @
      map (run_intent bucket registry) (su_new_allocations u) @ snapshots \<and>
    removed = sorted_list_of_set {cid. \<exists>meta. su_containers u cid = Some meta \<and> desired_terminated meta} \<and>
    (\<forall>intent \<in> set started. starts_container intent) \<and> (\<forall>intent \<in> set snapshots. takes_snapshot intent)"
proof -
  let ?ids = "ordered_containers ord u" and ?meta = "\<lambda>cid. the (su_containers u cid)"
  let ?up = "updated_sandbox_containers u" and ?P = "\<lambda>cid. desired_terminated (the (su_containers u cid))"
  let ?key = "\<lambda>cid. (container_command_priority cid (?meta cid) ?up, cid)"
  let ?f = "container_intent bucket registry indexes ?up"
  define removed where "removed = filter ?P ?ids"
  define rest where "rest = filter (\<lambda>cid. \<not> ?P cid) ?ids"
  have ids: "set ?ids = dom (su_containers u)" "distinct ?ids" "sorted (map ?key ?ids)"
    using enumeratesD [OF assms] by (simp_all add: ordered_containers_def)
  have "?ids = removed @ rest"
    unfolding removed_def rest_def
  proof (rule sorted_split [OF ids(3)])
    fix x y assume "?P y" "?key x \<le> ?key y"
    then show "?P x" by (auto simp: container_command_priority_def less_eq_prod_def split: if_splits)
  qed
  then have split: "List.map_filter ?f (map (\<lambda>cid. (cid, ?meta cid)) ?ids) =
      List.map_filter ?f (map (\<lambda>cid. (cid, ?meta cid)) removed) @ List.map_filter ?f (map (\<lambda>cid. (cid, ?meta cid)) rest)"
    by (simp add: map_filter_append)
  have "sorted (map ?key removed)" using ids(3) by (simp add: removed_def sorted_filter)
  then have "sorted removed" by (rule sorted_same_key [where c = 0]) (simp add: removed_def container_command_priority_def)
  moreover have "set removed = {cid. \<exists>meta. su_containers u cid = Some meta \<and> desired_terminated meta}"
    using ids(1) by (auto simp: removed_def)
  ultimately have removed: "removed = sorted_list_of_set {cid. \<exists>meta. su_containers u cid = Some meta \<and> desired_terminated meta}"
    using ids(2) sorted_list_of_set.idem_if_sorted_distinct [of removed] by (simp add: removed_def)
  have "List.map_filter ?f (map (\<lambda>cid. (cid, ?meta cid)) removed) = map (\<lambda>cid. remove_intent cid (?meta cid)) removed"
  proof -
    have "List.map_filter ?f (map (\<lambda>cid. (cid, ?meta cid)) removed) =
        map (\<lambda>(cid, meta). remove_intent cid meta) (map (\<lambda>cid. (cid, ?meta cid)) removed)"
      by (rule map_filter_total) (auto simp: removed_def container_intent_cases(1))
    then show ?thesis by simp
  qed
  moreover have "starts_container intent" if "intent \<in> set (List.map_filter ?f (map (\<lambda>cid. (cid, ?meta cid)) rest))" for intent
    using that container_intent_cases(2) by (auto simp: set_map_filter_iff rest_def)
  moreover have "takes_snapshot intent" if "intent \<in> set (List.map_filter (snapshot_intent indexes u) xs)" for intent xs
    using that snapshot_intent_takes by (auto simp: set_map_filter_iff)
  ultimately show ?thesis
    unfolding rebuild_scheduler_command_intents_def split
    by (intro exI [of _ removed] exI [of _ "List.map_filter ?f (map (\<lambda>cid. (cid, ?meta cid)) rest)"] exI conjI [OF _ conjI [OF removed]])
      (simp, blast)
qed

definition example_orders_emit :: emit_orders where
  "example_orders_emit = \<lparr>eo_containers = sorted_list_of_set, eo_groups = sorted_list_of_set,
     eo_allocations = sorted_list_of_set, eo_snapshots = sorted_list_of_set\<rparr>"

definition example_registry :: blob_storage_registry where
  "example_registry = \<lparr>bsr_buckets = Map.empty, bsr_default = (''s3'', ''s3://data'')\<rparr>"

lemma example_orders_enumerate:
  "enumerates (eo_containers example_orders_emit)" "enumerates (eo_groups example_orders_emit)"
  "enumerates (eo_allocations example_orders_emit)"
  by (simp_all add: example_orders_emit_def enumerates_sorted_list_of_set)

theorem intents_ordered_witness:
  "\<exists>rest. su_scheduler_command_intents (rebuild_scheduler_command_intents (\<lambda>_. ''data'') example_registry example_orders_emit
       example_base (default_update\<lparr>su_containers := [''c1'' \<mapsto> mark_terminated example_pool_container, ''c2'' \<mapsto> example_warm]\<rparr>)) =
     remove_intent ''c1'' (mark_terminated example_pool_container) # rest"
proof -
  let ?u = "default_update\<lparr>su_containers := [''c1'' \<mapsto> mark_terminated example_pool_container, ''c2'' \<mapsto> example_warm]\<rparr>"
  have "{cid. \<exists>meta. su_containers ?u cid = Some meta \<and> desired_terminated meta} = {''c1''}"
    by (auto simp: example_warm_fields)
  with intents_ordered [OF example_orders_enumerate(1), of ?u "\<lambda>_. ''data''" example_registry example_base]
  show ?thesis by auto
qed

section \<open>The two paths of a description\<close>

lemma desired_description_same:
  "desired_description bucket registry (desired_container state meta) =
   build_container_description_from_meta bucket registry state meta"
  by (cases "container_resources_to_pb (ct_resources (csm_function_container meta))";
      cases "Option.bind (version_of_container state (csm_function_container meta)) ver_code")
    (simp_all add: desired_description_def desired_container_def build_container_description_from_meta_def Let_def)

lemma desired_allocation_same:
  "target_container_id (al_target a) = cid \<Longrightarrow>
   desired_allocation bucket registry cid a = allocation_to_proto bucket registry a"
  by (simp add: desired_allocation_def allocation_to_proto_def Let_def)

text \<open>Allocations are filed under the container they are for.\<close>

definition allocations_filed :: "in_memory_state \<Rightarrow> bool" where
  "allocations_filed state \<longleftrightarrow>
     (\<forall>eid m cid al. ims_allocations_by_executor state eid = Some m \<longrightarrow> m cid = Some al \<longrightarrow>
        finite (dom al) \<and> (\<forall>k a. al k = Some a \<longrightarrow> target_container_id (al_target a) = cid))"

lemma allocations_of_filed:
  assumes "allocations_filed state" "enumerates (eo_allocations ord)"
  shows "set (allocations_of ord state eid cid) =
      {a. \<exists>m al k. ims_allocations_by_executor state eid = Some m \<and> m cid = Some al \<and> al k = Some a}"
    and "a \<in> set (allocations_of ord state eid cid) \<Longrightarrow> target_container_id (al_target a) = cid"
proof -
  show 1: "set (allocations_of ord state eid cid) =
      {a. \<exists>m al k. ims_allocations_by_executor state eid = Some m \<and> m cid = Some al \<and> al k = Some a}"
  proof (cases "Option.bind (ims_allocations_by_executor state eid) (\<lambda>m. m cid)")
    case None
    then show ?thesis by (auto simp: allocations_of_def)
  next
    case (Some al)
    then have "finite (dom al)" using assms(1) by (auto simp: allocations_filed_def bind_eq_Some_conv)
    then have "set (eo_allocations ord (dom al)) = dom al" using enumeratesD [OF assms(2)] by simp
    with Some show ?thesis by (force simp: allocations_of_def bind_eq_Some_conv)
  qed
  show "target_container_id (al_target a) = cid" if "a \<in> set (allocations_of ord state eid cid)"
    using that assms(1) unfolding 1 allocations_filed_def by blast
qed

lemma fold_upd_dom: "dom (fold (\<lambda>x m. m(f x \<mapsto> g x)) xs m) = f ` set xs \<union> dom m"
  by (induction xs arbitrary: m) auto

lemma fold_upd_value: "k \<in> f ` set xs \<Longrightarrow> fold (\<lambda>x m. m(f x \<mapsto> h (f x))) xs m k = Some (h k)"
  by (induction xs rule: rev_induct) auto

text \<open>
  C20: a full synchronisation and the updates of the scheduler describe the same thing.  When an executor
  asks for its whole state, the commands are: an addition of every container of the executor that is not
  marked for termination, with exactly the description an update builds for it; a run command for every
  allocation filed under such a container, exactly the one the update that made it sent; and the
  snapshots.  A container is left out only if its resources have no representation in the protocol.
\<close>

theorem full_sync_agrees:
  assumes ord: "enumerates (eo_containers ord)" "enumerates (eo_groups ord)" "enumerates (eo_allocations ord)"
    and filed: "allocations_filed state"
    and fin: "\<forall>esm. cs_executor_states s eid = Some esm \<longrightarrow> finite (esm_function_container_ids esm)"
    and state: "get_executor_state bucket registry ord state s eid = Some snap"
  shows "\<exists>esm active allocs snapshots. cs_executor_states s eid = Some esm \<and>
    commands_from_full_snapshot snap =
      map (\<lambda>d. \<lparr>cmd_seq = 0, cmd_command = Some (AddContainer (Some d))\<rparr>)
        (List.map_filter (build_container_description_from_meta bucket registry state) active) @
      map (\<lambda>a. sci_command (run_intent bucket registry a)) allocs @ snapshots \<and>
    set active = {fc. \<exists>cid \<in> esm_function_container_ids esm. cs_function_containers s cid = Some fc \<and> \<not> desired_terminated fc} \<and>
    set allocs = {a. \<exists>fc \<in> set active. \<exists>m al k. ims_allocations_by_executor state eid = Some m \<and>
      m (ct_id (csm_function_container fc)) = Some al \<and> al k = Some a} \<and>
    (\<forall>c \<in> set snapshots. \<exists>cid sid uri. cmd_command c = Some (SnapshotContainer cid sid uri))"
proof -
  obtain desired where d: "desired_state ord state s eid = Some desired"
    using state by (auto simp: get_executor_state_def)
  then obtain esm where esm: "cs_executor_states s eid = Some esm"
    by (auto simp: desired_state_def split: option.splits if_splits)
  let ?active = "active_containers ord s esm" and ?id = "\<lambda>fc. ct_id (csm_function_container fc)"
  let ?A = "allocations_of ord state eid"
  have des: "des_containers desired = map (desired_container state) ?active"
    "des_function_run_allocations desired = fold (\<lambda>fc m. m(?id fc \<mapsto> ?A (?id fc))) ?active Map.empty"
    using d esm by (auto simp: desired_state_def Let_def split: option.splits if_splits)
  have dom: "dom (des_function_run_allocations desired) = ?id ` set ?active" by (simp add: des(2) fold_upd_dom)
  have groups: "set (eo_groups ord (?id ` set ?active)) = ?id ` set ?active" using enumeratesD [OF ord(2)] by simp
  define allocs where "allocs = concat (map ?A (eo_groups ord (?id ` set ?active)))"
  have "map (desired_allocation bucket registry cid) (the (des_function_run_allocations desired cid)) =
      map (allocation_to_proto bucket registry) (?A cid)" if "cid \<in> ?id ` set ?active" for cid
    using that fold_upd_value [OF that, of ?A Map.empty] allocations_of_filed(2) [OF filed ord(3)]
    by (auto simp: des(2) desired_allocation_same)
  then have "ess_allocations snap = map (allocation_to_proto bucket registry) allocs"
    using state groups
    by (auto simp: get_executor_state_def d dom allocs_def map_concat intro!: arg_cong [of _ _ concat] map_cong)
  moreover have "ess_containers snap = List.map_filter (build_container_description_from_meta bucket registry state) ?active"
    using state by (auto simp: get_executor_state_def d des(1) List.map_filter_def filter_map comp_def desired_description_same)
  moreover have "set ?active = {fc. \<exists>cid \<in> esm_function_container_ids esm.
      cs_function_containers s cid = Some fc \<and> \<not> desired_terminated fc}"
    using fin esm enumeratesD(1) [OF ord(1)] by (auto simp: active_containers_def set_map_filter_iff)
  moreover have "set allocs = {a. \<exists>fc \<in> set ?active. \<exists>m al k. ims_allocations_by_executor state eid = Some m \<and>
      m (?id fc) = Some al \<and> al k = Some a}"
    by (auto simp: allocs_def groups allocations_of_filed(1) [OF filed ord(3)])
  ultimately show ?thesis
    by (intro exI [of _ esm] exI [of _ ?active] exI [of _ allocs] exI conjI esm)
      (auto simp: commands_from_full_snapshot_def run_intent_def)
qed

definition example_sent :: allocation where
  "example_sent = example_allocation\<lparr>al_target := \<lparr>target_executor_id = ''e1'', target_container_id = ''c1''\<rparr>\<rparr>"

definition example_synced :: container_scheduler where
  "example_synced = example_pooled\<lparr>cs_executor_states := [''e1'' \<mapsto> \<lparr>esm_executor_id = ''e1'',
     esm_function_container_ids = {''c1''}, esm_free_resources = example_host, esm_resource_claims = Map.empty\<rparr>]\<rparr>"

definition example_sending :: in_memory_state where
  "example_sending = example_pending\<lparr>ims_allocations_by_executor := [''e1'' \<mapsto> [''c1'' \<mapsto> [''alloc'' \<mapsto> example_sent]]]\<rparr>"

theorem full_sync_agrees_witness:
  "\<exists>snap. get_executor_state (\<lambda>_. ''data'') example_registry example_orders_emit example_sending example_synced ''e1'' = Some snap \<and>
     sci_command (run_intent (\<lambda>_. ''data'') example_registry example_sent) \<in> set (commands_from_full_snapshot snap)"
proof -
  have s: "cs_executors example_synced ''e1'' = Some (example_executor ''e1'' None)"
    "cs_function_containers example_synced = [''c1'' \<mapsto> example_warm]"
    "\<exists>esm. cs_executor_states example_synced ''e1'' = Some esm \<and> esm_function_container_ids esm = {''c1''}"
    by (simp_all add: example_synced_def example_pooled_fields)
  have m: "ims_allocations_by_executor example_sending = [''e1'' \<mapsto> [''c1'' \<mapsto> [''alloc'' \<mapsto> example_sent]]]"
    by (simp add: example_sending_def)
  have "\<not> em_tombstoned (example_executor ''e1'' None)" by (simp add: example_executor_def)
  then obtain snap where snap:
    "get_executor_state (\<lambda>_. ''data'') example_registry example_orders_emit example_sending example_synced ''e1'' = Some snap"
    using s by (auto simp: get_executor_state_def desired_state_def Let_def)
  have "allocations_filed example_sending" by (auto simp: allocations_filed_def m example_sent_def split: if_splits)
  from full_sync_agrees [OF example_orders_enumerate this _ snap] s(3)
  obtain esm active allocs snapshots where r: "cs_executor_states example_synced ''e1'' = Some esm"
    "commands_from_full_snapshot snap =
      map (\<lambda>d. \<lparr>cmd_seq = 0, cmd_command = Some (AddContainer (Some d))\<rparr>)
        (List.map_filter (build_container_description_from_meta (\<lambda>_. ''data'') example_registry example_sending) active) @
      map (\<lambda>a. sci_command (run_intent (\<lambda>_. ''data'') example_registry a)) allocs @ snapshots"
    "set active = {fc. \<exists>cid \<in> esm_function_container_ids esm. cs_function_containers example_synced cid = Some fc \<and> \<not> desired_terminated fc}"
    "set allocs = {a. \<exists>fc \<in> set active. \<exists>m al k. ims_allocations_by_executor example_sending ''e1'' = Some m \<and>
      m (ct_id (csm_function_container fc)) = Some al \<and> al k = Some a}"
    by auto
  have ids: "esm_function_container_ids esm = {''c1''}" using r(1) s(3) by auto
  have "set active = {example_warm}" unfolding r(3) ids s(2) using example_warm_fields(2) by auto
  then have "example_sent \<in> set allocs" by (simp add: r(4) m example_warm_fields)
  with snap r(2) show ?thesis by auto
qed

section \<open>Round trips\<close>

text \<open>What a container looks like after its description went to the executor and came back in a report.\<close>

definition reported_container :: "in_memory_state \<Rightarrow> container_state \<Rightarrow> container \<Rightarrow> container" where
  "reported_container state cstate fe =
     (let known = fe\<lparr>ct_state := cstate, ct_secret_names := unwrap_or (Option.bind (function_of_container state fe) fn_secret_names) [],
            ct_network_policy := None, ct_snapshot_uri := None, ct_created_at_clock := None, ct_updated_at_clock := None\<rparr>
      in case ct_container_type fe of
           SandboxContainer \<Rightarrow> known
         | FunctionContainer \<Rightarrow>
             known\<lparr>ct_image := None, ct_timeout_secs := 0, ct_entrypoint := [], ct_sandbox_id := None,
               ct_pool_id := Some (unwrap_or (ct_pool_id fe)
                 (pool_id_for_function (ct_application_name fe) (ct_function_name fe) (ct_version fe)))\<rparr>)"

fun state_from_status :: "container_status_pb \<Rightarrow> container_termination_reason_pb \<Rightarrow> container_state" where
  "state_from_status CSP_Unknown reason = CS_Unknown"
| "state_from_status CSP_Pending reason = CS_Pending"
| "state_from_status CSP_Running reason = CS_Running"
| "state_from_status CSP_Terminated reason = CS_Terminated (termination_reason_from_pb reason)"

text \<open>
  C38: a container that an executor reports with the description it was given is the container the server
  described, with the state the executor reports, if its memory and disk are below 2^44 megabytes:
  identity, function, resources, concurrency, type and pool are recovered, and for a sandbox its image,
  timeout, entrypoint and sandbox.  What is lost is the network policy, the snapshot it was started from,
  the clocks, the secrets of a sandbox, which the description takes from the function of an application
  and so leaves out, and for a container of a function its image, timeout, entrypoint and sandbox.
\<close>

theorem description_roundtrip:
  assumes "build_container_description_from_meta bucket registry state meta = Some d"
    and "cres_memory_mb (ct_resources (csm_function_container meta)) < 2 ^ 44"
    and "cres_ephemeral_disk_mb (ct_resources (csm_function_container meta)) < 2 ^ 44"
  shows "container_from_pb \<lparr>csp_description = Some d, csp_status = Some (container_status_number status),
      csp_termination_reason = Some (container_termination_reason_number reason)\<rparr> =
    Ok (reported_container state (state_from_status status reason) (csm_function_container meta))"
proof -
  let ?fe = "csm_function_container meta"
  obtain p where p: "container_resources_to_pb (ct_resources ?fe) = Ok p"
    using assms(1) by (cases "container_resources_to_pb (ct_resources ?fe)")
      (simp_all add: build_container_description_from_meta_def Let_def)
  note recovered = container_resources_roundtrip [OF p assms(2,3)]
  have t: "ct_timeout_secs ?fe = unwrap_or (if 0 < ct_timeout_secs ?fe then Some (ct_timeout_secs ?fe) else None) 0"
    by (simp add: word_gt_0)
  have d: "d = the (build_container_description_from_meta bucket registry state meta)" using assms(1) by simp
  have "(case status of CSP_Unknown \<Rightarrow> CS_Unknown | CSP_Pending \<Rightarrow> CS_Pending | CSP_Running \<Rightarrow> CS_Running
      | CSP_Terminated \<Rightarrow> CS_Terminated (termination_reason_from_pb reason)) = state_from_status status reason"
    by (cases status) simp_all
  then show ?thesis
    using t by (cases "ct_container_type ?fe"; cases "ct_pool_id ?fe")
      (auto simp: d build_container_description_from_meta_def p Let_def container_from_pb_def container_function_ref_def
        recovered reported_container_def simp del: container_type_number.simps intro!: container.equality)
qed

definition example_secretive :: container where
  "example_secretive = (example_container ''s1'' 512)\<lparr>ct_application_name := [], ct_version := [], ct_container_type := SandboxContainer, ct_secret_names := [''token''],
     ct_network_policy := Some \<lparr>np_allow_internet_access = False, np_allow_out = [], np_deny_out = []\<rparr>,
     ct_sandbox_id := Some ''s1''\<rparr>"

theorem description_roundtrip_witness:
  "\<exists>d fe. build_container_description_from_meta (\<lambda>_. ''data'') example_registry example_base
       (csm_new 0 ''e1'' example_secretive CS_Running) = Some d \<and>
     container_from_pb \<lparr>csp_description = Some d, csp_status = Some (container_status_number CSP_Running),
       csp_termination_reason = Some (container_termination_reason_number TRP_Unknown)\<rparr> = Ok fe \<and>
     ct_sandbox_id fe = Some ''s1'' \<and> ct_secret_names fe = [] \<and> ct_network_policy fe = None"
proof -
  let ?meta = "csm_new 0 ''e1'' example_secretive CS_Running"
  have fe: "csm_function_container ?meta = example_secretive" by (simp add: csm_new_def)
  have r: "ct_resources example_secretive = ct_resources (example_container ''s1'' 512)" by (simp add: example_secretive_def)
  have res: "cres_gpu (ct_resources example_secretive) = None" "cres_memory_mb (ct_resources example_secretive) < 2 ^ 44"
    "cres_ephemeral_disk_mb (ct_resources example_secretive) < 2 ^ 44"
    unfolding r by (simp_all add: example_container_def)
  then obtain d where d: "build_container_description_from_meta (\<lambda>_. ''data'') example_registry example_base ?meta = Some d"
    by (simp add: build_container_description_from_meta_def fe container_resources_to_pb_def Let_def)
  from description_roundtrip [OF d, unfolded fe, OF res(2,3), of CSP_Running TRP_Unknown]
  have "container_from_pb \<lparr>csp_description = Some d, csp_status = Some (container_status_number CSP_Running),
      csp_termination_reason = Some (container_termination_reason_number TRP_Unknown)\<rparr> =
    Ok (reported_container example_base CS_Running example_secretive)" by simp
  moreover have "function_of_container example_base example_secretive = None"
    by (simp add: function_of_container_def version_of_container_def example_secretive_def example_container_def
        example_base_fields version_key_from_def)
  ultimately show ?thesis using d by (simp add: reported_container_def example_secretive_def)
qed

text \<open>A payload that goes to an executor as an argument and comes back is the same payload.\<close>

lemma payload_roundtrip:
  assumes "fst store \<in> {''file'', ''s3''}" "pay_encoding (ia_data_payload arg) \<noteq> []"
  shows "prepare_data_payload bucket fresh (input_arg_to_pb bucket store arg) (fst store) (snd store) = Ok (ia_data_payload arg)"
  using assms blob_path_roundtrip [OF assms(1)]
  by (simp add: prepare_data_payload_def input_arg_to_pb_def Let_def)

section \<open>Additions of known containers\<close>

lemma su_containers_merge [simp]: "su_containers (merge_request_state u key ctx) = su_containers u"
  by (simp add: merge_request_state_def split: option.split)

lemma description_ignores_allocations:
  "build_container_description_from_meta bucket registry state (c\<lparr>csm_allocations := A, csm_idle_since := t\<rparr>) =
   build_container_description_from_meta bucket registry state c"
  by (simp add: build_container_description_from_meta_def)

text \<open>
  C39: a container that is still starting is added again by every allocation it takes.  When a run is
  allocated to an existing container whose state is pending, the update of that allocation makes the
  server send the executor an addition of the container, with its full description, once more.
\<close>

theorem starting_container_added_again:
  assumes "enumerates (eo_containers ord)"
    and "place_allocation ch run target ctx default_update s = (u, ctx', s')"
    and "cs_function_containers s (target_container_id target) = Some c" "\<not> desired_terminated c"
    and "ct_id (csm_function_container c) = target_container_id target" "ct_state (csm_function_container c) = CS_Pending"
    and "build_container_description_from_meta bucket registry indexes c = Some d"
  shows "\<lparr>sci_executor_id = csm_executor_id c, sci_command = \<lparr>cmd_seq = 0, cmd_command = Some (AddContainer (Some d))\<rparr>\<rparr>
    \<in> set (su_scheduler_command_intents (rebuild_scheduler_command_intents bucket registry ord indexes u))"
proof -
  let ?cid = "target_container_id target"
  let ?c = "c\<lparr>csm_allocations := insert (ac_fresh_id ch) (csm_allocations c), csm_idle_since := None\<rparr>"
  have u: "su_containers u = [?cid \<mapsto> ?c]"
    using assms(2,3,5) by (auto simp: place_allocation_def take_allocation_def new_allocation_def add_function_run_def
        add_request_state_def Let_def)
  have "set (ordered_containers ord u) = {?cid}"
    using enumeratesD(1) [OF assms(1)] by (simp add: ordered_containers_def u)
  moreover have "container_intent bucket registry indexes (updated_sandbox_containers u) (?cid, ?c) =
      Some \<lparr>sci_executor_id = csm_executor_id c, sci_command = \<lparr>cmd_seq = 0, cmd_command = Some (AddContainer (Some d))\<rparr>\<rparr>"
    using assms(4,6,7) by (simp add: container_intent_def description_ignores_allocations desired_terminated_def)
  ultimately show ?thesis
    by (simp add: rebuild_scheduler_command_intents_def set_map_filter_iff u)
qed

theorem starting_container_added_again_witness:
  "\<exists>u ctx' s' d. place_allocation example_alloc_choices example_run (target_of example_warm) (example_ctx example_run)
       default_update example_pooled = (u, ctx', s') \<and>
     \<lparr>sci_executor_id = ''e1'', sci_command = \<lparr>cmd_seq = 0, cmd_command = Some (AddContainer (Some d))\<rparr>\<rparr>
     \<in> set (su_scheduler_command_intents
         (rebuild_scheduler_command_intents (\<lambda>_. ''data'') example_registry example_orders_emit example_base u))"
proof -
  obtain u ctx' s' where place: "place_allocation example_alloc_choices example_run (target_of example_warm)
      (example_ctx example_run) default_update example_pooled = (u, ctx', s')" by (rule prod_cases3)
  have warm: "ct_state (csm_function_container example_warm) = CS_Pending"
    "cres_gpu (ct_resources (csm_function_container example_warm)) = None"
    by (simp_all add: example_warm_def csm_new_def function_container_def container_builder_def
        function_container_resources_def example_retry_function_def default_function_resources_def)
  then obtain d where d: "build_container_description_from_meta (\<lambda>_. ''data'') example_registry example_base example_warm = Some d"
    by (simp add: build_container_description_from_meta_def container_resources_to_pb_def Let_def)
  have t: "target_container_id (target_of example_warm) = ''c1''" by (simp add: target_of_def example_warm_fields)
  from starting_container_added_again [OF example_orders_enumerate(1) place, unfolded t, OF _ example_warm_fields(2) _ warm(1) d]
  have "\<lparr>sci_executor_id = csm_executor_id example_warm, sci_command = \<lparr>cmd_seq = 0, cmd_command = Some (AddContainer (Some d))\<rparr>\<rparr>
     \<in> set (su_scheduler_command_intents
         (rebuild_scheduler_command_intents (\<lambda>_. ''data'') example_registry example_orders_emit example_base u))"
    by (simp add: example_pooled_fields example_warm_fields)
  with place show ?thesis by (auto simp: example_warm_fields)
qed

end
