(* ===== verification/Outbox.thy ===== *)
theory Outbox
  imports Commands
begin

text \<open>
  The delivery of commands to executors: the buffers of a connection
  (\<open>state_store/executor_connection.rs\<close>), the persistent intents and outboxes behind them
  (\<open>state_store/mod.rs\<close>), their emission (\<open>executors/command_emission.rs\<close>) and the polls that drain them
  (\<open>executor_api/polling.rs\<close>).  A column family is a map from keys to values; a transaction commits as a
  whole or, when the argument \<open>io\<close> says that the database fails, leaves the map as it was.  The size of an
  encoded message is an argument.  Waiting on a notification is not modelled: a poll that found nothing
  looks again in a later state.
\<close>

declare split_paired_All [simp del] split_paired_Ex [simp del]

section \<open>Keys\<close>

text \<open>\<open>{:020}\<close>: the decimal digits of a number, most significant first, padded with zeros.\<close>

fun padded :: "nat \<Rightarrow> nat \<Rightarrow> string" where
  "padded 0 n = []"
| "padded (Suc w) n = char_of (48 + n div 10 ^ w mod 10) # padded w n"

definition executor_cmd_prefix_key :: "executor_id \<Rightarrow> string" where
  "executor_cmd_prefix_key eid = ''cmd|'' @ eid @ ''|''"

definition executor_cmd_key :: "executor_id \<Rightarrow> u64 \<Rightarrow> string" where
  "executor_cmd_key eid seq = ''cmd|'' @ eid @ ''|'' @ padded 20 (unat seq)"

definition executor_cmd_ack_key :: "executor_id \<Rightarrow> string" where
  "executor_cmd_ack_key eid = ''ack|'' @ eid"

definition executor_cmd_next_key :: "executor_id \<Rightarrow> string" where
  "executor_cmd_next_key eid = ''next|'' @ eid"

definition scheduler_command_intent_key :: "u64 \<Rightarrow> string" where
  "scheduler_command_intent_key seq = ''intent|'' @ padded 20 (unat seq)"

definition rsplit_once :: "char \<Rightarrow> string \<Rightarrow> (string \<times> string) option" where
  "rsplit_once c s =
     (if c \<in> set s then Some (rev (drop 1 (dropWhile (\<lambda>x. x \<noteq> c) (rev s))), rev (takeWhile (\<lambda>x. x \<noteq> c) (rev s))) else None)"

text \<open>\<open>str::parse::<u64>\<close>\<close>

definition parse_u64 :: "string \<Rightarrow> u64 option" where
  "parse_u64 s =
     (let digits = (case s of c # r \<Rightarrow> if c = CHR ''+'' then r else s | [] \<Rightarrow> [])
      in if digits = [] \<or> \<not> list_all (\<lambda>c. 48 \<le> (of_char c :: nat) \<and> (of_char c :: nat) \<le> 57) digits then None
         else if from_decimal digits < 2 ^ 64 then Some (of_nat (from_decimal digits)) else None)"

definition parse_executor_cmd_seq :: "string \<Rightarrow> u64 option" where
  "parse_executor_cmd_seq key = Option.bind (rsplit_once CHR ''|'' key) (\<lambda>(_, seq). parse_u64 seq)"

definition parse_scheduler_command_intent_seq :: "string \<Rightarrow> u64 option" where
  "parse_scheduler_command_intent_seq key = Option.bind (strip_prefix ''intent|'' key) parse_u64"

text \<open>Rust's \<open>saturating_add\<close>.\<close>

definition saturating_add :: "'a::len word \<Rightarrow> 'a word \<Rightarrow> 'a word" where
  "saturating_add x y = (if unat x + unat y < 2 ^ LENGTH('a) then x + y else - 1)"

section \<open>Connections\<close>

record 'e sequenced_allocation_result =
  sar_seq :: u64
  sar_entry :: "'e option"

record 'e executor_connection =
  con_pending_commands :: "command list"
  con_pending_results :: "'e sequenced_allocation_result list"
  con_next_result_seq :: u64
  con_last_acked_command_seq :: u64
  con_request_full_state :: bool

definition max_poll_response_bytes :: nat where
  "max_poll_response_bytes = 8 * 1024 * 1024"

definition connection_new :: "'e executor_connection" where
  "connection_new =
     \<lparr>con_pending_commands = [], con_pending_results = [], con_next_result_seq = 1, con_last_acked_command_seq = 0,
      con_request_full_state = False\<rparr>"

text \<open>The loop of \<open>capped_clone_by_encoded_size\<close>; the total of a prefix is far below the width of \<open>usize\<close>.\<close>

fun capped_loop :: "('a \<Rightarrow> nat) \<Rightarrow> nat \<Rightarrow> 'a list \<Rightarrow> 'a list \<Rightarrow> nat \<Rightarrow> 'a list" where
  "capped_loop len limit [] selected total_bytes = selected"
| "capped_loop len limit (item # items) selected total_bytes =
     (if selected = [] \<or> total_bytes + len item \<le> limit
      then capped_loop len limit items (selected @ [item]) (total_bytes + len item)
      else selected)"

definition capped_clone_by_encoded_size :: "('a \<Rightarrow> nat) \<Rightarrow> 'a list \<Rightarrow> nat \<Rightarrow> 'a list" where
  "capped_clone_by_encoded_size len items limit = (if items = [] then [] else capped_loop len limit items [] 0)"

definition push_commands ::
  "(command \<Rightarrow> nat) \<Rightarrow> command list \<Rightarrow> 'e executor_connection \<Rightarrow> (string + unit) \<times> 'e executor_connection" where
  "push_commands len cmds conn =
     (if cmds = [] then (Ok (), conn)
      else if \<exists>cmd \<in> set cmds. max_poll_response_bytes < len cmd then (Err ''command exceeds max poll item size'', conn)
      else (Ok (), conn\<lparr>con_pending_commands := con_pending_commands conn @ cmds\<rparr>))"

definition clone_commands_capped ::
  "(command \<Rightarrow> nat) \<Rightarrow> nat \<Rightarrow> 'e executor_connection \<Rightarrow> command list \<times> 'e executor_connection" where
  "clone_commands_capped len limit conn =
     (let buf = dropWhile (\<lambda>first. limit < len first) (con_pending_commands conn)
      in (capped_clone_by_encoded_size len buf limit, conn\<lparr>con_pending_commands := buf\<rparr>))"

definition replace_commands :: "command list \<Rightarrow> 'e executor_connection \<Rightarrow> 'e executor_connection" where
  "replace_commands cmds conn = conn\<lparr>con_pending_commands := cmds\<rparr>"

definition drain_commands_up_to :: "u64 \<Rightarrow> 'e executor_connection \<Rightarrow> 'e executor_connection" where
  "drain_commands_up_to acked_seq conn =
     conn\<lparr>con_pending_commands := filter (\<lambda>cmd. acked_seq < cmd_seq cmd) (con_pending_commands conn)\<rparr>"

definition observe_command_ack :: "u64 option \<Rightarrow> 'e executor_connection \<Rightarrow> bool \<times> 'e executor_connection" where
  "observe_command_ack acked_seq conn =
     (let observed = unwrap_or acked_seq 0; prev = con_last_acked_command_seq conn
      in if observed < prev then (True, conn\<lparr>con_last_acked_command_seq := 0, con_request_full_state := True\<rparr>)
         else if prev < observed then (False, conn\<lparr>con_last_acked_command_seq := observed\<rparr>)
         else (False, conn))"

definition take_full_state_request :: "'e executor_connection \<Rightarrow> bool \<times> 'e executor_connection" where
  "take_full_state_request conn = (con_request_full_state conn, conn\<lparr>con_request_full_state := False\<rparr>)"

definition restore_acked_command_seq :: "u64 \<Rightarrow> 'e executor_connection \<Rightarrow> 'e executor_connection" where
  "restore_acked_command_seq seq conn = conn\<lparr>con_last_acked_command_seq := seq\<rparr>"

definition restore_next_result_seq :: "u64 \<Rightarrow> 'e executor_connection \<Rightarrow> 'e executor_connection" where
  "restore_next_result_seq next_seq conn = conn\<lparr>con_next_result_seq := max next_seq 1\<rparr>"

definition push_result ::
  "('e sequenced_allocation_result \<Rightarrow> nat) \<Rightarrow> 'e \<Rightarrow> 'e executor_connection \<Rightarrow> (string + unit) \<times> 'e executor_connection" where
  "push_result len entry conn =
     (let seq = con_next_result_seq conn;
          result = \<lparr>sar_seq = seq, sar_entry = Some entry\<rparr>
      in if max_poll_response_bytes < len result then (Err ''allocation result exceeds max poll item size'', conn)
         else (Ok (), conn\<lparr>con_pending_results := con_pending_results conn @ [result],
                 con_next_result_seq := saturating_add seq 1\<rparr>))"

definition clone_results_capped ::
  "('e sequenced_allocation_result \<Rightarrow> nat) \<Rightarrow> nat \<Rightarrow> 'e executor_connection \<Rightarrow>
   'e sequenced_allocation_result list \<times> 'e executor_connection" where
  "clone_results_capped len limit conn =
     (let buf = dropWhile (\<lambda>first. limit < len first) (con_pending_results conn)
      in (capped_clone_by_encoded_size len buf limit, conn\<lparr>con_pending_results := buf\<rparr>))"

definition drain_results_up_to :: "u64 \<Rightarrow> 'e executor_connection \<Rightarrow> 'e executor_connection" where
  "drain_results_up_to acked_seq conn =
     conn\<lparr>con_pending_results := filter (\<lambda>r. acked_seq < sar_seq r) (con_pending_results conn)\<rparr>"

definition reset_for_full_sync :: "'e executor_connection \<Rightarrow> 'e executor_connection" where
  "reset_for_full_sync conn =
     conn\<lparr>con_pending_commands := [], con_pending_results := [], con_next_result_seq := 1,
       con_last_acked_command_seq := 0, con_request_full_state := False\<rparr>"

section \<open>The persistent outboxes\<close>

text \<open>
  The three column families, the connections and the counters of \<open>IndexifyState\<close> that delivery uses.  The
  family \<open>ExecutorCommandOutbox\<close> holds commands and cursors; decoding one as the other is an error, as
  no encoded command starts with the version byte of an encoded cursor.
\<close>

datatype outbox_value = CommandValue command | SeqValue u64

record persisted_function_call_route =
  pfr_parent_allocation_id :: string
  pfr_original_function_call_id :: string
  pfr_executor_id :: executor_id

record 'e delivery =
  del_outbox :: "string \<rightharpoonup> outbox_value"
  del_intents :: "string \<rightharpoonup> scheduler_command_intent"
  del_routes :: "string \<rightharpoonup> persisted_function_call_route"
  del_connections :: "executor_id \<rightharpoonup> 'e executor_connection"
  del_executor_next_result_seq :: "executor_id \<rightharpoonup> u64"
  del_intent_seq :: u64
  del_intent_backlog :: u64

definition read_seq :: "(string \<rightharpoonup> outbox_value) \<Rightarrow> string \<Rightarrow> u64 \<Rightarrow> string + u64" where
  "read_seq m key absent =
     (case m key of None \<Rightarrow> Ok absent | Some (SeqValue n) \<Rightarrow> Ok n | Some (CommandValue _) \<Rightarrow> Err ''failed to decode'')"

subsection \<open>Intents\<close>

definition startup_intent :: "u64 option \<times> nat \<Rightarrow> string \<Rightarrow> u64 option \<times> nat" where
  "startup_intent acc key =
     (case parse_scheduler_command_intent_seq key of
        None \<Rightarrow> acc
      | Some seq \<Rightarrow> (Some (case fst acc of None \<Rightarrow> seq | Some highest \<Rightarrow> max highest seq), snd acc + 1))"

definition read_scheduler_command_intent_startup_state ::
  "bool \<Rightarrow> (string \<rightharpoonup> scheduler_command_intent) \<Rightarrow> string + u64 \<times> nat" where
  "read_scheduler_command_intent_startup_state io intents =
     (if \<not> io then Err ''io''
      else let (max_seq, count) = foldl startup_intent (None, 0) (prefix_scan intents ''intent|'')
           in Ok (case max_seq of None \<Rightarrow> 0 | Some s \<Rightarrow> saturating_add s 1, count))"

text \<open>The writes of a transaction; the counter keeps what \<open>fetch_add\<close> took, also for a write that fails.\<close>

fun persist_scheduler_command_intents ::
  "(string \<Rightarrow> bool) \<Rightarrow> scheduler_command_intent list \<Rightarrow> (string \<rightharpoonup> scheduler_command_intent) \<times> u64 \<Rightarrow>
   (string + nat) \<times> (string \<rightharpoonup> scheduler_command_intent) \<times> u64" where
  "persist_scheduler_command_intents put_ok [] (txn, counter) = (Ok 0, txn, counter)"
| "persist_scheduler_command_intents put_ok (intent # intents) (txn, counter) =
     (let key = scheduler_command_intent_key counter
      in if \<not> put_ok key then (Err ''io'', txn, counter + 1)
         else case persist_scheduler_command_intents put_ok intents (txn(key \<mapsto> intent), counter + 1) of
           (result, state) \<Rightarrow> (and_then result (\<lambda>n. Ok (n + 1)), state))"

definition increment_scheduler_command_intent_backlog :: "nat \<Rightarrow> 'e delivery \<Rightarrow> 'e delivery" where
  "increment_scheduler_command_intent_backlog delta st =
     (if delta = 0 then st else st\<lparr>del_intent_backlog := del_intent_backlog st + of_nat delta\<rparr>)"

text \<open>The loop around \<open>compare_exchange_weak\<close> stores the saturating difference once.\<close>

definition decrement_scheduler_command_intent_backlog :: "nat \<Rightarrow> 'e delivery \<Rightarrow> 'e delivery" where
  "decrement_scheduler_command_intent_backlog delta st =
     (if delta = 0 then st
      else st\<lparr>del_intent_backlog :=
        (if (of_nat delta :: u64) \<le> del_intent_backlog st then del_intent_backlog st - of_nat delta else 0)\<rparr>)"

text \<open>The part of \<open>write_in_persistent_store_inner\<close> that concerns the intents.\<close>

definition write_intents ::
  "(string \<Rightarrow> bool) \<Rightarrow> bool \<Rightarrow> scheduler_command_intent list \<Rightarrow> scheduler_command_intent list \<Rightarrow> 'e delivery \<Rightarrow>
   (string + unit) \<times> 'e delivery" where
  "write_intents put_ok commit_ok update_intents extra_intents st =
     (let (first, txn, counter) =
            persist_scheduler_command_intents put_ok update_intents (del_intents st, del_intent_seq st)
      in case first of
           Inl e \<Rightarrow> (Err e, st\<lparr>del_intent_seq := counter\<rparr>)
         | Inr n \<Rightarrow>
             (let (second, txn, counter) = persist_scheduler_command_intents put_ok extra_intents (txn, counter)
              in case second of
                   Inl e \<Rightarrow> (Err e, st\<lparr>del_intent_seq := counter\<rparr>)
                 | Inr k \<Rightarrow>
                     if \<not> commit_ok then (Err ''io'', st\<lparr>del_intent_seq := counter\<rparr>)
                     else (Ok (), increment_scheduler_command_intent_backlog (n + k)
                             (st\<lparr>del_intents := txn, del_intent_seq := counter\<rparr>))))"

record move_txn =
  mv_outbox :: "string \<rightharpoonup> outbox_value"
  mv_intents :: "string \<rightharpoonup> scheduler_command_intent"
  mv_next :: "executor_id \<rightharpoonup> u64"
  mv_enqueued :: "executor_id \<rightharpoonup> command list"
  mv_moved :: nat

definition move_intent :: "string \<Rightarrow> scheduler_command_intent \<Rightarrow> move_txn \<Rightarrow> string + move_txn" where
  "move_intent key intent txn =
     (let eid = sci_executor_id intent
      in and_then (case mv_next txn eid of Some n \<Rightarrow> Ok n | None \<Rightarrow> read_seq (mv_outbox txn) (executor_cmd_next_key eid) 1)
           (\<lambda>next_seq.
              let command = (sci_command intent)\<lparr>cmd_seq := next_seq\<rparr>
              in Ok \<lparr>mv_outbox = (mv_outbox txn)(executor_cmd_key eid next_seq \<mapsto> CommandValue command),
                     mv_intents = (mv_intents txn)(key := None),
                     mv_next = (mv_next txn)(eid \<mapsto> saturating_add next_seq 1),
                     mv_enqueued = (mv_enqueued txn)(eid \<mapsto> unwrap_or (mv_enqueued txn eid) [] @ [command]),
                     mv_moved = mv_moved txn + 1\<rparr>))"

text \<open>The loop over the keys the iterator yields, each with its value.\<close>

fun move_loop :: "nat \<Rightarrow> (string \<times> scheduler_command_intent) list \<Rightarrow> move_txn \<Rightarrow> string + move_txn" where
  "move_loop max_items [] txn = Ok txn"
| "move_loop max_items ((key, intent) # items) txn =
     (if max_items \<le> mv_moved txn then Ok txn
      else and_then (move_intent key intent txn) (move_loop max_items items))"

definition put_next_seq :: "(executor_id \<rightharpoonup> u64) \<Rightarrow> executor_id \<Rightarrow> (string \<rightharpoonup> outbox_value) \<Rightarrow> (string \<rightharpoonup> outbox_value)" where
  "put_next_seq nexts eid m = m(executor_cmd_next_key eid \<mapsto> SeqValue (the (nexts eid)))"

definition intent_items :: "(string \<rightharpoonup> scheduler_command_intent) \<Rightarrow> (string \<times> scheduler_command_intent) list" where
  "intent_items intents = map (\<lambda>key. (key, the (intents key))) (prefix_scan intents ''intent|'')"

definition move_scheduler_command_intents_to_outbox ::
  "(executor_id set \<Rightarrow> executor_id list) \<Rightarrow> bool \<Rightarrow> nat \<Rightarrow> 'e delivery \<Rightarrow>
   (string + (executor_id \<rightharpoonup> command list)) \<times> 'e delivery" where
  "move_scheduler_command_intents_to_outbox ord io max_items st =
     (if max_items = 0 then (Ok Map.empty, st)
      else if \<not> io then (Err ''io'', st)
      else case move_loop max_items (intent_items (del_intents st))
                  \<lparr>mv_outbox = del_outbox st, mv_intents = del_intents st, mv_next = Map.empty, mv_enqueued = Map.empty,
                   mv_moved = 0\<rparr> of
             Inl e \<Rightarrow> (Err e, st)
           | Inr txn \<Rightarrow>
               (Ok (mv_enqueued txn),
                decrement_scheduler_command_intent_backlog (mv_moved txn)
                  (st\<lparr>del_outbox := fold (put_next_seq (mv_next txn)) (ord (dom (mv_next txn))) (mv_outbox txn),
                      del_intents := mv_intents txn\<rparr>)))"

subsection \<open>Outboxes\<close>

definition read_executor_cmd_ack :: "bool \<Rightarrow> executor_id \<Rightarrow> 'e delivery \<Rightarrow> string + u64" where
  "read_executor_cmd_ack io eid st =
     (if \<not> io then Err ''io'' else read_seq (del_outbox st) (executor_cmd_ack_key eid) 0)"

fun load_loop :: "(string \<rightharpoonup> outbox_value) \<Rightarrow> u64 \<Rightarrow> string list \<Rightarrow> command list \<Rightarrow> string + command list" where
  "load_loop m acked [] commands = Ok commands"
| "load_loop m acked (key # keys) commands =
     (case parse_executor_cmd_seq key of
        None \<Rightarrow> load_loop m acked keys commands
      | Some seq \<Rightarrow>
          if seq \<le> acked then load_loop m acked keys commands
          else case m key of
                 Some (CommandValue cmd) \<Rightarrow> load_loop m acked keys (commands @ [cmd])
               | _ \<Rightarrow> Err ''failed to decode persisted command'')"

definition load_executor_pending_commands ::
  "bool \<Rightarrow> executor_id \<Rightarrow> 'e delivery \<Rightarrow> string + u64 \<times> command list" where
  "load_executor_pending_commands io eid st =
     and_then (read_executor_cmd_ack io eid st)
       (\<lambda>acked. and_then (load_loop (del_outbox st) acked (prefix_scan (del_outbox st) (executor_cmd_prefix_key eid)) [])
          (\<lambda>commands. Ok (acked, commands)))"

fun enqueue_loop ::
  "executor_id \<Rightarrow> command list \<Rightarrow> (string \<rightharpoonup> outbox_value) \<Rightarrow> u64 \<Rightarrow> command list \<times> (string \<rightharpoonup> outbox_value) \<times> u64" where
  "enqueue_loop eid [] txn next_seq = ([], txn, next_seq)"
| "enqueue_loop eid (cmd # cmds) txn next_seq =
     (let cmd = cmd\<lparr>cmd_seq := next_seq\<rparr>;
          (cmds, txn, next_seq') =
            enqueue_loop eid cmds (txn(executor_cmd_key eid next_seq \<mapsto> CommandValue cmd)) (saturating_add next_seq 1)
      in (cmd # cmds, txn, next_seq'))"

definition enqueue_executor_commands ::
  "(command \<Rightarrow> nat) \<Rightarrow> bool \<Rightarrow> executor_id \<Rightarrow> command list \<Rightarrow> 'e delivery \<Rightarrow> (string + unit) \<times> 'e delivery" where
  "enqueue_executor_commands len io eid commands st =
     (if commands = [] then (Ok (), st)
      else if \<not> io then (Err ''io'', st)
      else case read_seq (del_outbox st) (executor_cmd_next_key eid) 1 of
             Inl e \<Rightarrow> (Err e, st)
           | Inr next_seq \<Rightarrow>
               (let (commands, txn, next_seq) = enqueue_loop eid commands (del_outbox st) next_seq;
                    st = st\<lparr>del_outbox := txn(executor_cmd_next_key eid \<mapsto> SeqValue next_seq)\<rparr>
                in case del_connections st eid of
                     None \<Rightarrow> (Ok (), st)
                   | Some conn \<Rightarrow>
                       (let (result, conn) = push_commands len commands conn
                        in (result, st\<lparr>del_connections := (del_connections st)(eid \<mapsto> conn)\<rparr>))))"

definition delete_acked :: "u64 \<Rightarrow> string \<Rightarrow> (string \<rightharpoonup> outbox_value) \<Rightarrow> (string \<rightharpoonup> outbox_value)" where
  "delete_acked acked key m =
     (case parse_executor_cmd_seq key of
        Some seq \<Rightarrow> if seq \<le> acked then m(key := None) else m
      | None \<Rightarrow> m)"

definition ack_executor_commands ::
  "bool \<Rightarrow> executor_id \<Rightarrow> u64 \<Rightarrow> 'e delivery \<Rightarrow> (string + unit) \<times> 'e delivery" where
  "ack_executor_commands io eid acked_seq st =
     (case read_executor_cmd_ack io eid st of
        Inl e \<Rightarrow> (Err e, st)
      | Inr prev_acked \<Rightarrow>
          (let effective_acked = max acked_seq prev_acked;
               txn = (del_outbox st)(executor_cmd_ack_key eid \<mapsto> SeqValue effective_acked);
               txn = fold (delete_acked effective_acked) (prefix_scan txn (executor_cmd_prefix_key eid)) txn
           in (Ok (), st\<lparr>del_outbox := txn\<rparr>)))"

definition reset_executor_command_outbox ::
  "bool \<Rightarrow> executor_id \<Rightarrow> 'e delivery \<Rightarrow> (string + unit) \<times> 'e delivery" where
  "reset_executor_command_outbox io eid st =
     (if \<not> io then (Err ''io'', st)
      else let txn = fold (\<lambda>key m. m(key := None)) (prefix_scan (del_outbox st) (executor_cmd_prefix_key eid)) (del_outbox st)
           in (Ok (), st\<lparr>del_outbox := txn(executor_cmd_ack_key eid \<mapsto> SeqValue 0, executor_cmd_next_key eid \<mapsto> SeqValue 1)\<rparr>))"

subsection \<open>Routes of function call results\<close>

definition function_call_route_key :: "string \<Rightarrow> string" where
  "function_call_route_key function_call_id = ''route|'' @ function_call_id"

definition upsert_function_call_route ::
  "bool \<Rightarrow> string \<Rightarrow> string \<Rightarrow> string \<Rightarrow> executor_id \<Rightarrow> 'e delivery \<Rightarrow> (string + unit) \<times> 'e delivery" where
  "upsert_function_call_route io function_call_id parent_allocation_id original_function_call_id eid st =
     (if \<not> io then (Err ''io'', st)
      else (Ok (), st\<lparr>del_routes := (del_routes st)(function_call_route_key function_call_id \<mapsto>
              \<lparr>pfr_parent_allocation_id = parent_allocation_id, pfr_original_function_call_id = original_function_call_id,
               pfr_executor_id = eid\<rparr>)\<rparr>))"

definition get_function_call_route ::
  "bool \<Rightarrow> string \<Rightarrow> 'e delivery \<Rightarrow> string + persisted_function_call_route option" where
  "get_function_call_route io function_call_id st =
     (if \<not> io then Err ''io'' else Ok (del_routes st (function_call_route_key function_call_id)))"

definition take_function_call_route ::
  "bool \<Rightarrow> string \<Rightarrow> 'e delivery \<Rightarrow> (string + persisted_function_call_route option) \<times> 'e delivery" where
  "take_function_call_route io function_call_id st =
     (if \<not> io then (Err ''io'', st)
      else case del_routes st (function_call_route_key function_call_id) of
             None \<Rightarrow> (Ok None, st)
           | Some route \<Rightarrow>
               (Ok (Some route), st\<lparr>del_routes := (del_routes st)(function_call_route_key function_call_id := None)\<rparr>))"

definition delete_function_call_route :: "bool \<Rightarrow> string \<Rightarrow> 'e delivery \<Rightarrow> (string + unit) \<times> 'e delivery" where
  "delete_function_call_route io function_call_id st =
     (if \<not> io then (Err ''io'', st)
      else (Ok (), st\<lparr>del_routes := (del_routes st)(function_call_route_key function_call_id := None)\<rparr>))"

definition purge_route ::
  "executor_id \<Rightarrow> string \<Rightarrow> (string \<rightharpoonup> persisted_function_call_route) \<times> nat \<Rightarrow> (string \<rightharpoonup> persisted_function_call_route) \<times> nat" where
  "purge_route eid key acc =
     (case acc of (m, purged) \<Rightarrow>
        case m key of
          Some route \<Rightarrow> if pfr_executor_id route = eid then (m(key := None), purged + 1) else (m, purged)
        | None \<Rightarrow> (m, purged))"

definition purge_function_call_routes_for_executor ::
  "bool \<Rightarrow> executor_id \<Rightarrow> 'e delivery \<Rightarrow> (string + nat) \<times> 'e delivery" where
  "purge_function_call_routes_for_executor io eid st =
     (if \<not> io then (Err ''io'', st)
      else let (m, purged) = fold (purge_route eid) (prefix_scan (del_routes st) ''route|'') (del_routes st, 0)
           in (Ok purged, st\<lparr>del_routes := m\<rparr>))"

section \<open>Connections of executors\<close>

definition build_executor_connection :: "bool \<Rightarrow> executor_id \<Rightarrow> 'e delivery \<Rightarrow> 'e executor_connection" where
  "build_executor_connection io eid st =
     (let (acked, pending_commands) =
            (case load_executor_pending_commands io eid st of Inr v \<Rightarrow> v | Inl _ \<Rightarrow> (0, []));
          next_result_seq = unwrap_or (del_executor_next_result_seq st eid) 1
      in replace_commands pending_commands
           (restore_next_result_seq next_result_seq (restore_acked_command_seq acked connection_new)))"

definition ensure_executor_connection_internal ::
  "bool \<Rightarrow> executor_id \<Rightarrow> 'e delivery \<Rightarrow> ('e executor_connection \<times> bool) \<times> 'e delivery" where
  "ensure_executor_connection_internal io eid st =
     (case del_connections st eid of
        Some conn \<Rightarrow> ((conn, False), st)
      | None \<Rightarrow>
          (let conn = build_executor_connection io eid st
           in ((conn, True), st\<lparr>del_connections := (del_connections st)(eid \<mapsto> conn)\<rparr>)))"

text \<open>A connection is shared: what the code does to the handle \<open>conn\<close> is done to the entry of the executor.\<close>

definition update_connection ::
  "executor_id \<Rightarrow> ('e executor_connection \<Rightarrow> 'e executor_connection) \<Rightarrow> 'e delivery \<Rightarrow> 'e delivery" where
  "update_connection eid f st = st\<lparr>del_connections := (del_connections st)(eid := map_option f (del_connections st eid))\<rparr>"

definition set_next_result_seq :: "executor_id \<Rightarrow> u64 \<Rightarrow> 'e delivery \<Rightarrow> 'e delivery" where
  "set_next_result_seq eid n st =
     st\<lparr>del_executor_next_result_seq := (del_executor_next_result_seq st)(eid \<mapsto> n)\<rparr>"

definition register_executor_connection :: "bool \<Rightarrow> executor_id \<Rightarrow> 'e delivery \<Rightarrow> 'e delivery" where
  "register_executor_connection io eid st =
     (let ((conn, created), st) = ensure_executor_connection_internal io eid st
      in if created then set_next_result_seq eid 1 (update_connection eid (restore_next_result_seq 1) st)
         else let st = snd (reset_executor_command_outbox io eid st);
                  st = update_connection eid reset_for_full_sync st
              in set_next_result_seq eid 1 st)"

definition deregister_executor_connection :: "bool \<Rightarrow> executor_id \<Rightarrow> 'e delivery \<Rightarrow> 'e delivery" where
  "deregister_executor_connection io eid st =
     (case del_connections st eid of
        None \<Rightarrow> st
      | Some conn \<Rightarrow>
          (let st = st\<lparr>del_connections := (del_connections st)(eid := None)\<rparr>;
               st = set_next_result_seq eid (max (con_next_result_seq conn) 1) st
           in snd (reset_executor_command_outbox io eid st)))"

definition clear_executor_result_seq :: "executor_id \<Rightarrow> 'e delivery \<Rightarrow> 'e delivery" where
  "clear_executor_result_seq eid st =
     st\<lparr>del_executor_next_result_seq := (del_executor_next_result_seq st)(eid := None)\<rparr>"

section \<open>Emission and polls\<close>

definition emit_commands_for_executor ::
  "(string \<Rightarrow> string) \<Rightarrow> blob_storage_registry \<Rightarrow> emit_orders \<Rightarrow> in_memory_state \<Rightarrow> container_scheduler \<Rightarrow>
   (command \<Rightarrow> nat) \<Rightarrow> bool \<Rightarrow> bool \<Rightarrow> executor_id \<Rightarrow> bool \<Rightarrow> 'e delivery \<Rightarrow> 'e delivery" where
  "emit_commands_for_executor bucket registry ord state scheduler len reset_io io eid force_full_sync st =
     (case del_connections st eid of
        None \<Rightarrow> st
      | Some _ \<Rightarrow>
          (let st = (if force_full_sync
                     then update_connection eid reset_for_full_sync (snd (reset_executor_command_outbox reset_io eid st))
                     else st)
           in case get_executor_state bucket registry ord state scheduler eid of
                None \<Rightarrow> st
              | Some snapshot \<Rightarrow>
                  (let commands = commands_from_full_snapshot snapshot
                   in if commands \<noteq> [] then snd (enqueue_executor_commands len io eid commands st) else st)))"

definition push_to_executor ::
  "(command \<Rightarrow> nat) \<Rightarrow> (executor_id \<rightharpoonup> command list) \<Rightarrow> executor_id \<Rightarrow> 'e delivery \<Rightarrow> 'e delivery" where
  "push_to_executor len enqueued eid st =
     (case del_connections st eid of
        None \<Rightarrow> st
      | Some conn \<Rightarrow>
          st\<lparr>del_connections := (del_connections st)(eid \<mapsto> snd (push_commands len (unwrap_or (enqueued eid) []) conn))\<rparr>)"

definition page_size :: nat where
  "page_size = 256"

text \<open>
  One round of the loop of \<open>drain_and_emit_scheduler_command_intents\<close>, and whether the loop goes on.
\<close>

definition emit_page ::
  "(executor_id set \<Rightarrow> executor_id list) \<Rightarrow> (command \<Rightarrow> nat) \<Rightarrow> bool \<Rightarrow> 'e delivery \<Rightarrow> bool \<times> 'e delivery" where
  "emit_page ord len io st =
     (case move_scheduler_command_intents_to_outbox ord io page_size st of
        (Inl _, st) \<Rightarrow> (False, st)
      | (Inr enqueued, st) \<Rightarrow>
          if dom enqueued = {} then (False, st)
          else (True, fold (push_to_executor len enqueued) (ord (dom enqueued)) st))"

text \<open>The argument \<open>io i\<close> says whether the database works in round \<open>i\<close>.\<close>

partial_function (option) drain_and_emit_scheduler_command_intents ::
  "(executor_id set \<Rightarrow> executor_id list) \<Rightarrow> (command \<Rightarrow> nat) \<Rightarrow> (nat \<Rightarrow> bool) \<Rightarrow> nat \<Rightarrow> 'e delivery \<Rightarrow> 'e delivery option" where
  "drain_and_emit_scheduler_command_intents ord len io i st =
     (case emit_page ord len (io i) st of
        (again, st) \<Rightarrow> if again then drain_and_emit_scheduler_command_intents ord len io (i + 1) st else Some st)"

text \<open>
  A poll up to its wait, and what it answers when it wakes: the two halves of \<open>long_poll_commands\<close> and of
  \<open>long_poll_results\<close>.  The first half answers at once unless it finds nothing.
\<close>

definition ack_commands :: "bool \<Rightarrow> executor_id \<Rightarrow> u64 option \<Rightarrow> 'e delivery \<Rightarrow> 'e delivery" where
  "ack_commands io eid acked_seq st =
     (case acked_seq of
        None \<Rightarrow> st
      | Some seq \<Rightarrow>
          case ack_executor_commands io eid seq st of
            (Inr _, st) \<Rightarrow> update_connection eid (drain_commands_up_to seq) st
          | (Inl _, st) \<Rightarrow> st)"

definition poll_commands_now ::
  "(command \<Rightarrow> nat) \<Rightarrow> executor_id \<Rightarrow> 'e delivery \<Rightarrow> command list \<times> 'e delivery" where
  "poll_commands_now len eid st =
     (case del_connections st eid of
        None \<Rightarrow> ([], st)
      | Some conn \<Rightarrow>
          (let (items, conn) = clone_commands_capped len max_poll_response_bytes conn
           in (items, st\<lparr>del_connections := (del_connections st)(eid \<mapsto> conn)\<rparr>)))"

definition long_poll_commands ::
  "(command \<Rightarrow> nat) \<Rightarrow> bool \<Rightarrow> executor_id \<Rightarrow> u64 option \<Rightarrow> 'e delivery \<Rightarrow> command list \<times> 'e delivery" where
  "long_poll_commands len io eid acked_seq st =
     (case del_connections st eid of
        None \<Rightarrow> ([], st)
      | Some _ \<Rightarrow>
          poll_commands_now len eid
            (ack_commands io eid acked_seq (update_connection eid (\<lambda>conn. snd (observe_command_ack acked_seq conn)) st)))"

definition poll_results_now ::
  "('e sequenced_allocation_result \<Rightarrow> nat) \<Rightarrow> executor_id \<Rightarrow> 'e delivery \<Rightarrow> 'e sequenced_allocation_result list \<times> 'e delivery" where
  "poll_results_now len eid st =
     (case del_connections st eid of
        None \<Rightarrow> ([], st)
      | Some conn \<Rightarrow>
          (let (items, conn) = clone_results_capped len max_poll_response_bytes conn
           in (items, st\<lparr>del_connections := (del_connections st)(eid \<mapsto> conn)\<rparr>)))"

definition long_poll_results ::
  "('e sequenced_allocation_result \<Rightarrow> nat) \<Rightarrow> executor_id \<Rightarrow> u64 option \<Rightarrow> 'e delivery \<Rightarrow>
   'e sequenced_allocation_result list \<times> 'e delivery" where
  "long_poll_results len eid acked_seq st =
     (case del_connections st eid of
        None \<Rightarrow> ([], st)
      | Some _ \<Rightarrow>
          poll_results_now len eid
            (case acked_seq of None \<Rightarrow> st | Some seq \<Rightarrow> update_connection eid (drain_results_up_to seq) st))"

text \<open>The part of \<open>IndexifyState::new\<close> that concerns delivery: the column families are what the last process left.\<close>

definition delivery_new :: "bool \<Rightarrow> 'e delivery \<Rightarrow> string + 'e delivery" where
  "delivery_new io db =
     and_then (read_scheduler_command_intent_startup_state io (del_intents db))
       (\<lambda>(initial_seq, pending).
          Ok \<lparr>del_outbox = del_outbox db, del_intents = del_intents db, del_routes = del_routes db,
              del_connections = Map.empty, del_executor_next_result_seq = Map.empty,
              del_intent_seq = initial_seq, del_intent_backlog = of_nat pending\<rparr>)"

section \<open>The keys sort as their numbers\<close>

lemma length_padded [simp]: "length (padded w n) = w"
  by (induction w) simp_all

lemma of_digit [simp]: "(of_char (char_of (48 + n mod 10) :: char) :: nat) = 48 + n mod 10"
  by (simp add: of_char_of)

lemma padded_digits: "list_all (\<lambda>c. 48 \<le> (of_char c :: nat) \<and> (of_char c :: nat) \<le> 57) (padded w n)"
  by (induction w) simp_all

lemma mod_power_Suc: "(n :: nat) mod 10 ^ Suc w = n div 10 ^ w mod 10 * 10 ^ w + n mod 10 ^ w"
  using mod_mult2_eq [of n "10 ^ w" 10] by (simp add: mult.commute)

lemma padded_less_iff: "padded w n < padded w m \<longleftrightarrow> n mod 10 ^ w < m mod 10 ^ w"
proof (induction w)
  case 0
  show ?case by simp
next
  case (Suc w)
  have eq: "char_of (48 + n div 10 ^ w mod 10) = (char_of (48 + m div 10 ^ w mod 10) :: char) \<longleftrightarrow>
    n div 10 ^ w mod 10 = m div 10 ^ w mod 10"
    by (metis of_digit add_left_cancel)
  show ?case
    unfolding padded.simps Cons_less_Cons mod_power_Suc Suc.IH eq
    by (subst digits_less_iff) (simp_all add: less_char_def del: of_char_of)
qed

lemma padded_u64_less_iff: "padded 20 (unat v) < padded 20 (unat w) \<longleftrightarrow> (v :: u64) < w"
proof -
  have "unat x mod 10 ^ 20 = unat x" for x :: u64
    using unsigned_less [of x, where 'a = nat] by simp
  then show ?thesis by (simp only: padded_less_iff word_less_nat_alt)
qed

lemma padded_u64_eq_iff: "padded 20 (unat v) = padded 20 (unat w) \<longleftrightarrow> (v :: u64) = w"
  using padded_u64_less_iff [of v w] padded_u64_less_iff [of w v] by (metis less_irrefl linorder_cases)

lemma foldl_padded:
  "foldl (\<lambda>n c. 10 * n + (of_char c - 48)) a (padded w n) = a * 10 ^ w + n mod 10 ^ w"
proof (induction w arbitrary: a)
  case (Suc w)
  show ?case by (simp only: padded.simps foldl_Cons Suc.IH of_digit mod_power_Suc) (simp add: algebra_simps)
qed simp

lemma padded_no_bar: "CHR ''|'' \<notin> set (padded w n)"
  using padded_digits [of w n] by (auto simp: list_all_iff)

lemma parse_padded [simp]: "parse_u64 (padded 20 (unat n)) = Some n"
proof -
  have n: "unat n mod 10 ^ 20 = unat n" "unat n < 2 ^ 64"
    using unsigned_less [of n, where 'a = nat] by simp_all
  have d: "from_decimal (padded 20 (unat n)) = unat n"
    using n foldl_padded [of 0 20 "unat n"] by simp
  obtain c r where cr: "padded 20 (unat n) = c # r"
    by (metis length_padded list.size(3) neq_Nil_conv zero_neq_numeral)
  have "c \<noteq> CHR ''+''"
    using padded_digits [of 20 "unat n"] by (auto simp: cr)
  then have s: "(case padded 20 (unat n) of c # r \<Rightarrow> if c = CHR ''+'' then r else padded 20 (unat n) | [] \<Rightarrow> []) = padded 20 (unat n)"
    by (simp add: cr)
  show ?thesis
    unfolding parse_u64_def s Let_def d using padded_digits [of 20 "unat n"] n by (simp add: cr)
qed

lemma rsplit_once_append: "c \<notin> set t \<Longrightarrow> rsplit_once c (s @ c # t) = Some (s, t)"
  by (subst rsplit_once_def, simp, subst dropWhile_append2, force, subst takeWhile_append2, force) simp

lemma parse_executor_cmd_key [simp]: "parse_executor_cmd_seq (executor_cmd_key eid n) = Some n"
  using rsplit_once_append [OF padded_no_bar, of "''cmd|'' @ eid" 20 "unat n"]
  by (simp add: parse_executor_cmd_seq_def executor_cmd_key_def)

lemma parse_intent_key [simp]: "parse_scheduler_command_intent_seq (scheduler_command_intent_key n) = Some n"
  using strip_prefix_append [of "''intent|''" "padded 20 (unat n)"]
  by (simp add: parse_scheduler_command_intent_seq_def scheduler_command_intent_key_def del: strip_prefix_append)

lemma cmd_key_eq_iff [simp]: "executor_cmd_key e n = executor_cmd_key f m \<longleftrightarrow> e = f \<and> n = m"
proof
  assume "executor_cmd_key e n = executor_cmd_key f m"
  then have "(e @ ''|'') @ padded 20 (unat n) = (f @ ''|'') @ padded 20 (unat m)"
    by (simp add: executor_cmd_key_def)
  then show "e = f \<and> n = m"
    using append_eq_append_conv [of "padded 20 (unat n)" "padded 20 (unat m)" "e @ ''|''" "f @ ''|''"]
    by (simp add: padded_u64_eq_iff)
qed simp

lemma cmd_key_less_iff: "executor_cmd_key e n < executor_cmd_key e m \<longleftrightarrow> n < m"
proof -
  have "p @ xs < p @ ys \<longleftrightarrow> xs < ys" for p xs ys :: string by (induction p) simp_all
  from this [of "''cmd|'' @ e @ ''|''" "padded 20 (unat n)" "padded 20 (unat m)"] show ?thesis
    by (simp add: executor_cmd_key_def padded_u64_less_iff)
qed

lemma intent_key_less_iff: "scheduler_command_intent_key n < scheduler_command_intent_key m \<longleftrightarrow> n < m"
proof -
  have "p @ xs < p @ ys \<longleftrightarrow> xs < ys" for p xs ys :: string by (induction p) simp_all
  from this [of "''intent|''" "padded 20 (unat n)" "padded 20 (unat m)"] show ?thesis
    by (simp add: scheduler_command_intent_key_def padded_u64_less_iff)
qed

lemma other_keys [simp]:
  "executor_cmd_key e n \<noteq> executor_cmd_ack_key f" "executor_cmd_key e n \<noteq> executor_cmd_next_key f"
  "executor_cmd_ack_key e \<noteq> executor_cmd_next_key f"
  "executor_cmd_ack_key f \<noteq> executor_cmd_key e n" "executor_cmd_next_key f \<noteq> executor_cmd_key e n"
  "executor_cmd_next_key f \<noteq> executor_cmd_ack_key e"
  "executor_cmd_ack_key e = executor_cmd_ack_key f \<longleftrightarrow> e = f"
  "executor_cmd_next_key e = executor_cmd_next_key f \<longleftrightarrow> e = f"
  by (simp_all add: executor_cmd_key_def executor_cmd_ack_key_def executor_cmd_next_key_def)

lemma starts_with_cmd_key:
  assumes "CHR ''|'' \<notin> set f"
  shows "starts_with (executor_cmd_prefix_key e) (executor_cmd_key f n) \<longleftrightarrow> e = f"
proof
  assume "starts_with (executor_cmd_prefix_key e) (executor_cmd_key f n)"
  then obtain t where "f @ ''|'' @ padded 20 (unat n) = e @ ''|'' @ t"
    by (auto simp: starts_with_iff executor_cmd_prefix_key_def executor_cmd_key_def)
  then have eq: "f @ CHR ''|'' # padded 20 (unat n) = e @ CHR ''|'' # t" by simp
  show "e = f"
  proof (cases "CHR ''|'' \<in> set e")
    case True
    then have "2 \<le> count_list (e @ CHR ''|'' # t) CHR ''|''"
      by (simp add: count_list_append) (metis One_nat_def Suc_leI count_list_0_iff gr0I trans_le_add1)
    moreover have "count_list (f @ CHR ''|'' # padded 20 (unat n)) CHR ''|'' = 1"
      using assms padded_no_bar by (simp add: count_list_append)
    ultimately show ?thesis using eq by simp
  next
    case False
    then show ?thesis using append_Cons_eq_iff [of "CHR ''|''" f "padded 20 (unat n)" e t] eq assms padded_no_bar by simp
  qed
next
  assume "e = f"
  then show "starts_with (executor_cmd_prefix_key e) (executor_cmd_key f n)"
    by (simp add: starts_with_iff executor_cmd_prefix_key_def executor_cmd_key_def)
qed

section \<open>What an outbox holds\<close>

text \<open>
  The cursors of an executor, the numbers under which commands are stored and, in their order, the commands
  above the acknowledged one.
\<close>

definition next_of :: "(string \<rightharpoonup> outbox_value) \<Rightarrow> executor_id \<Rightarrow> u64" where
  "next_of m eid = (case m (executor_cmd_next_key eid) of Some (SeqValue n) \<Rightarrow> n | _ \<Rightarrow> 1)"

definition acked_of :: "(string \<rightharpoonup> outbox_value) \<Rightarrow> executor_id \<Rightarrow> u64" where
  "acked_of m eid = (case m (executor_cmd_ack_key eid) of Some (SeqValue n) \<Rightarrow> n | _ \<Rightarrow> 0)"

definition seqs_of :: "(string \<rightharpoonup> outbox_value) \<Rightarrow> executor_id \<Rightarrow> u64 set" where
  "seqs_of m eid = {n. executor_cmd_key eid n \<in> dom m}"

definition command_at :: "(string \<rightharpoonup> outbox_value) \<Rightarrow> executor_id \<Rightarrow> u64 \<Rightarrow> command" where
  "command_at m eid n =
     (case m (executor_cmd_key eid n) of Some (CommandValue c) \<Rightarrow> c | _ \<Rightarrow> \<lparr>cmd_seq = n, cmd_command = None\<rparr>)"

definition persisted :: "(string \<rightharpoonup> outbox_value) \<Rightarrow> executor_id \<Rightarrow> command list" where
  "persisted m eid =
     map (command_at m eid) (filter (\<lambda>n. acked_of m eid < n) (sorted_list_of_set (seqs_of m eid)))"

definition bar_free :: "executor_id \<Rightarrow> bool" where
  "bar_free eid \<longleftrightarrow> CHR ''|'' \<notin> set eid"

text \<open>A command that fits a response whatever number it gets.\<close>

definition fits_poll :: "(command \<Rightarrow> nat) \<Rightarrow> command \<Rightarrow> bool" where
  "fits_poll len c \<longleftrightarrow> (\<forall>n. len (c\<lparr>cmd_seq := n\<rparr>) \<le> max_poll_response_bytes)"

definition outbox_ok :: "(command \<Rightarrow> nat) \<Rightarrow> (string \<rightharpoonup> outbox_value) \<Rightarrow> bool" where
  "outbox_ok len m \<longleftrightarrow>
     finite (dom m) \<and>
     (\<forall>k \<in> dom m. \<exists>e. bar_free e \<and> (k = executor_cmd_ack_key e \<or> k = executor_cmd_next_key e \<or> (\<exists>n. k = executor_cmd_key e n))) \<and>
     (\<forall>e n v. m (executor_cmd_key e n) = Some v \<longrightarrow>
        (\<exists>c. v = CommandValue c \<and> cmd_seq c = n \<and> fits_poll len c) \<and> n < next_of m e) \<and>
     (\<forall>e v. m (executor_cmd_ack_key e) = Some v \<longrightarrow> (\<exists>n. v = SeqValue n)) \<and>
     (\<forall>e v. m (executor_cmd_next_key e) = Some v \<longrightarrow> (\<exists>n. v = SeqValue n)) \<and>
     (\<forall>e. acked_of m e < next_of m e)"

lemma prefix_scan_outbox:
  assumes ok: "outbox_ok len m"
  shows "prefix_scan m (executor_cmd_prefix_key e) = map (executor_cmd_key e) (sorted_list_of_set (seqs_of m e))"
proof (rule sorted_distinct_set_unique)
  have fin: "finite (dom m)" using ok by (simp add: outbox_ok_def)
  show "sorted (prefix_scan m (executor_cmd_prefix_key e))" "distinct (prefix_scan m (executor_cmd_prefix_key e))"
    using fin by (simp_all add: prefix_scan_eq sorted_wrt_filter)
  show "distinct (map (executor_cmd_key e) (sorted_list_of_set (seqs_of m e)))"
    by (simp add: distinct_map inj_on_def)
  have "sorted_wrt (\<lambda>x y. executor_cmd_key e x \<le> executor_cmd_key e y) (sorted_list_of_set (seqs_of m e))"
    by (rule sorted_wrt_mono_rel [OF _ strict_sorted_list_of_set])
      (auto simp: cmd_key_less_iff intro: less_imp_le)
  then show "sorted (map (executor_cmd_key e) (sorted_list_of_set (seqs_of m e)))"
    by (simp add: sorted_wrt_map)
  have "starts_with (executor_cmd_prefix_key e) k \<longleftrightarrow> (\<exists>n. k = executor_cmd_key e n)" if k: "k \<in> dom m" for k
  proof -
    consider f where "k = executor_cmd_ack_key f" | f where "k = executor_cmd_next_key f"
      | f n where "bar_free f" "k = executor_cmd_key f n"
      using ok k by (simp add: outbox_ok_def) blast
    then show ?thesis
    proof cases
      case 3
      then show ?thesis using starts_with_cmd_key [of f e n] by (auto simp: bar_free_def)
    qed (auto simp: starts_with_iff executor_cmd_prefix_key_def executor_cmd_ack_key_def executor_cmd_next_key_def
        executor_cmd_key_def)
  qed
  then show "set (prefix_scan m (executor_cmd_prefix_key e)) = set (map (executor_cmd_key e) (sorted_list_of_set (seqs_of m e)))"
    unfolding set_prefix_scan [OF fin] set_map set_sorted_list_of_set [OF finite] seqs_of_def by blast
qed

lemma load_loop_eq:
  assumes "\<And>n. n \<in> set ns \<Longrightarrow> \<exists>c. m (executor_cmd_key e n) = Some (CommandValue c)"
  shows "load_loop m acked (map (executor_cmd_key e) ns) cs = Ok (cs @ map (command_at m e) (filter (\<lambda>n. acked < n) ns))"
  using assms
proof (induction ns arbitrary: cs)
  case (Cons n ns)
  obtain c where "m (executor_cmd_key e n) = Some (CommandValue c)" using Cons.prems by auto
  then show ?case using Cons by (simp add: command_at_def not_le)
qed simp

lemma outbox_ok_command:
  "outbox_ok len m \<Longrightarrow> n \<in> seqs_of m e \<Longrightarrow>
   m (executor_cmd_key e n) = Some (CommandValue (command_at m e n)) \<and> cmd_seq (command_at m e n) = n \<and>
   fits_poll len (command_at m e n) \<and> n < next_of m e"
  by (fastforce simp: outbox_ok_def seqs_of_def command_at_def)

lemma read_seq_next: "outbox_ok len m \<Longrightarrow> read_seq m (executor_cmd_next_key e) 1 = Ok (next_of m e)"
  by (fastforce simp: outbox_ok_def read_seq_def next_of_def split: option.split)

lemma read_seq_ack: "outbox_ok len m \<Longrightarrow> read_seq m (executor_cmd_ack_key e) 0 = Ok (acked_of m e)"
  by (fastforce simp: outbox_ok_def read_seq_def acked_of_def split: option.split)

lemma load_pending:
  assumes ok: "outbox_ok len (del_outbox st)"
  shows "load_executor_pending_commands True e st = Ok (acked_of (del_outbox st) e, persisted (del_outbox st) e)"
proof -
  have "load_loop (del_outbox st) a (map (executor_cmd_key e) (sorted_list_of_set (seqs_of (del_outbox st) e))) [] =
      Ok ([] @ map (command_at (del_outbox st) e) (filter (\<lambda>n. a < n) (sorted_list_of_set (seqs_of (del_outbox st) e))))" for a
    by (rule load_loop_eq) (use outbox_ok_command [OF ok] in force)
  then show ?thesis
    by (simp add: load_executor_pending_commands_def read_executor_cmd_ack_def read_seq_ack [OF ok] prefix_scan_outbox [OF ok]
        persisted_def result_simps)
qed

subsection \<open>Appending a command\<close>

definition append_command :: "executor_id \<Rightarrow> command \<Rightarrow> (string \<rightharpoonup> outbox_value) \<Rightarrow> (string \<rightharpoonup> outbox_value)" where
  "append_command eid c m =
     m(executor_cmd_key eid (next_of m eid) \<mapsto> CommandValue (c\<lparr>cmd_seq := next_of m eid\<rparr>),
       executor_cmd_next_key eid \<mapsto> SeqValue (saturating_add (next_of m eid) 1))"

fun renumber :: "u64 \<Rightarrow> command list \<Rightarrow> command list" where
  "renumber n [] = []"
| "renumber n (c # cs) = c\<lparr>cmd_seq := n\<rparr> # renumber (n + 1) cs"

lemma renumber_append: "renumber n (cs @ ds) = renumber n cs @ renumber (n + of_nat (length cs)) ds"
  by (induction cs arbitrary: n) (simp_all add: algebra_simps)

lemma fits_poll_renumber: "fits_poll len c \<Longrightarrow> fits_poll len (c\<lparr>cmd_seq := n\<rparr>)"
  by (simp add: fits_poll_def)

lemma fits_poll_len: "fits_poll len c \<Longrightarrow> len c \<le> max_poll_response_bytes"
  unfolding fits_poll_def by (drule spec [of _ "cmd_seq c"]) simp

lemma saturating_add_one:
  assumes "unat n + 1 < 2 ^ 64"
  shows "saturating_add n (1 :: u64) = n + 1" "unat (n + 1) = unat n + 1" "n < n + 1"
  using assms by (simp_all add: saturating_add_def unat_word_ariths word_less_nat_alt)

lemma next_of_append [simp]:
  "next_of (append_command e c m) f = (if f = e then saturating_add (next_of m e) 1 else next_of m f)"
  by (simp add: append_command_def next_of_def)

lemma acked_of_append [simp]: "acked_of (append_command e c m) f = acked_of m f"
  by (simp add: append_command_def acked_of_def)

lemma seqs_of_append: "seqs_of (append_command e c m) f = (if f = e then insert (next_of m e) (seqs_of m e) else seqs_of m f)"
  by (auto simp: append_command_def seqs_of_def)

lemma command_at_append:
  "command_at (append_command e c m) f n =
     (if f = e \<and> n = next_of m e then c\<lparr>cmd_seq := n\<rparr> else command_at m f n)"
  by (simp add: append_command_def command_at_def)

lemma outbox_ok_append:
  assumes ok: "outbox_ok len m" and e: "bar_free e" and c: "fits_poll len c" and room: "unat (next_of m e) + 1 < 2 ^ 64"
  shows "outbox_ok len (append_command e c m)"
proof -
  let ?m = "append_command e c m"
  note up = saturating_add_one [OF room]
  have "finite (dom ?m)" using ok by (simp add: outbox_ok_def append_command_def)
  moreover have "\<exists>e. bar_free e \<and> (k = executor_cmd_ack_key e \<or> k = executor_cmd_next_key e \<or> (\<exists>n. k = executor_cmd_key e n))"
    if "k \<in> dom ?m" for k
    using that ok e by (auto simp: outbox_ok_def append_command_def split: if_splits)
  moreover have "(\<exists>c. v = CommandValue c \<and> cmd_seq c = n \<and> fits_poll len c) \<and> n < next_of ?m f"
    if v: "?m (executor_cmd_key f n) = Some v" for f n v
  proof (cases "f = e \<and> n = next_of m e")
    case True
    then have "v = CommandValue (c\<lparr>cmd_seq := next_of m e\<rparr>)" using v by (simp add: append_command_def)
    then show ?thesis using True up fits_poll_renumber [OF c] by simp
  next
    case False
    then have "m (executor_cmd_key f n) = Some v" using v by (simp add: append_command_def split: if_splits)
    then have w: "(\<exists>c. v = CommandValue c \<and> cmd_seq c = n \<and> fits_poll len c)" "n < next_of m f"
      using ok by (simp_all add: outbox_ok_def)
    then show ?thesis using up by (cases "f = e") (auto intro: less_trans)
  qed
  moreover have "\<exists>n. v = SeqValue n" if "?m (executor_cmd_ack_key f) = Some v" for f v
    using that ok by (simp add: outbox_ok_def append_command_def)
  moreover have "\<exists>n. v = SeqValue n" if "?m (executor_cmd_next_key f) = Some v" for f v
    using that ok by (cases "f = e") (auto simp: outbox_ok_def append_command_def)
  moreover have "acked_of ?m f < next_of ?m f" for f
  proof -
    have "acked_of m f < next_of m f" using ok by (simp add: outbox_ok_def)
    then show ?thesis using up by (cases "f = e") (auto intro: less_trans)
  qed
  ultimately show ?thesis unfolding outbox_ok_def by blast
qed

lemma persisted_append:
  assumes ok: "outbox_ok len m" and room: "unat (next_of m e) + 1 < 2 ^ 64"
  shows "persisted (append_command e c m) f = persisted m f @ (if f = e then [c\<lparr>cmd_seq := next_of m e\<rparr>] else [])"
proof (cases "f = e")
  case True
  let ?n = "next_of m e" and ?S = "seqs_of m e"
  have lt: "x < ?n" if "x \<in> ?S" for x using outbox_ok_command [OF ok that] by simp
  have sl: "sorted_list_of_set (insert ?n ?S) = sorted_list_of_set ?S @ [?n]"
  proof (rule sorted_distinct_set_unique)
    show "sorted (sorted_list_of_set ?S @ [?n])" using lt by (auto simp: sorted_append less_imp_le)
    show "distinct (sorted_list_of_set ?S @ [?n])" using lt by auto
  qed (simp_all del: sorted_list_of_set_insert_remove)
  have "acked_of m e < ?n" using ok by (simp add: outbox_ok_def)
  moreover have "map (command_at (append_command e c m) e) (filter P (sorted_list_of_set ?S)) =
      map (command_at m e) (filter P (sorted_list_of_set ?S))" for P
    using lt by (auto simp: command_at_append)
  ultimately show ?thesis
    unfolding persisted_def using True by (simp add: seqs_of_append sl command_at_append del: sorted_list_of_set_insert_remove)
next
  case False
  then show ?thesis by (simp add: persisted_def seqs_of_append command_at_append)
qed

definition append_all :: "(executor_id \<times> command) list \<Rightarrow> (string \<rightharpoonup> outbox_value) \<Rightarrow> (string \<rightharpoonup> outbox_value)" where
  "append_all items m = fold (\<lambda>item. append_command (fst item) (snd item)) items m"

definition commands_for :: "executor_id \<Rightarrow> (executor_id \<times> command) list \<Rightarrow> command list" where
  "commands_for eid items = map snd (filter (\<lambda>item. fst item = eid) items)"

definition items_ok :: "(command \<Rightarrow> nat) \<Rightarrow> (executor_id \<times> command) list \<Rightarrow> bool" where
  "items_ok len items \<longleftrightarrow> (\<forall>item \<in> set items. bar_free (fst item) \<and> fits_poll len (snd item))"

definition room_for :: "nat \<Rightarrow> (string \<rightharpoonup> outbox_value) \<Rightarrow> bool" where
  "room_for k m \<longleftrightarrow> (\<forall>e. unat (next_of m e) + k < 2 ^ 64)"

lemma append_all_simps [simp]:
  "append_all [] m = m" "append_all (item # items) m = append_all items (append_command (fst item) (snd item) m)"
  by (simp_all add: append_all_def)

lemma room_forD: "room_for k m \<Longrightarrow> unat (next_of m e) + k < 2 ^ 64"
  by (simp add: room_for_def)

lemma room_for_one: "room_for (Suc k) m \<Longrightarrow> unat (next_of m e) + 1 < 2 ^ 64"
  using room_forD [of "Suc k" m e] by simp

lemma room_for_append:
  assumes "room_for (Suc k) m"
  shows "room_for k (append_command e c m)"
  unfolding room_for_def
proof
  fix f
  show "unat (next_of (append_command e c m) f) + k < 2 ^ 64"
    using saturating_add_one [OF room_for_one [OF assms, of e]] room_forD [OF assms, of f]
    by (cases "f = e") simp_all
qed

lemma append_all_exact:
  "outbox_ok len m \<Longrightarrow> items_ok len items \<Longrightarrow> room_for (length items) m \<Longrightarrow>
   outbox_ok len (append_all items m) \<and>
   persisted (append_all items m) f = persisted m f @ renumber (next_of m f) (commands_for f items) \<and>
   next_of (append_all items m) f = next_of m f + of_nat (length (commands_for f items)) \<and>
   acked_of (append_all items m) f = acked_of m f"
proof (induction items arbitrary: m)
  case Nil
  then show ?case by (simp add: commands_for_def)
next
  case (Cons item items)
  obtain e c where item: "item = (e, c)" by (cases item)
  let ?m = "append_command e c m"
  have r: "unat (next_of m e) + 1 < 2 ^ 64" using Cons.prems(3) by (intro room_for_one) simp
  have ok: "outbox_ok len ?m"
    using Cons.prems(2) by (intro outbox_ok_append [OF Cons.prems(1) _ _ r]) (simp_all add: items_ok_def item)
  have "items_ok len items" using Cons.prems(2) by (simp add: items_ok_def)
  moreover have "room_for (length items) ?m" using Cons.prems(3) by (intro room_for_append) simp
  ultimately have IH: "outbox_ok len (append_all items ?m)"
    "persisted (append_all items ?m) f = persisted ?m f @ renumber (next_of ?m f) (commands_for f items)"
    "next_of (append_all items ?m) f = next_of ?m f + of_nat (length (commands_for f items))"
    "acked_of (append_all items ?m) f = acked_of m f"
    using Cons.IH [OF ok] by simp_all
  have p: "persisted ?m f = persisted m f @ (if f = e then [c\<lparr>cmd_seq := next_of m e\<rparr>] else [])"
    by (rule persisted_append [OF Cons.prems(1) r])
  have n: "next_of ?m f = (if f = e then next_of m e + 1 else next_of m f)"
    by (simp add: saturating_add_one(1) [OF r])
  have cf: "commands_for f (item # items) = (if f = e then c # commands_for f items else commands_for f items)"
    by (simp add: commands_for_def item)
  show ?case
    unfolding append_all_simps item fst_conv snd_conv using IH p n cf [unfolded item] by (simp add: algebra_simps)
qed

lemmas append_all_ok = append_all_exact [THEN conjunct1]
  and persisted_append_all = append_all_exact [THEN conjunct2, THEN conjunct1]
  and next_of_append_all = append_all_exact [THEN conjunct2, THEN conjunct2, THEN conjunct1]
  and acked_of_append_all = append_all_exact [THEN conjunct2, THEN conjunct2, THEN conjunct2]

subsection \<open>The operations on an outbox\<close>

lemma append_command_next [simp]:
  "append_command e c (m(executor_cmd_next_key e \<mapsto> SeqValue n)) =
     m(executor_cmd_key e n \<mapsto> CommandValue (c\<lparr>cmd_seq := n\<rparr>), executor_cmd_next_key e \<mapsto> SeqValue (saturating_add n 1))"
  by (simp add: append_command_def next_of_def fun_upd_twist)

lemma enqueue_loop_eq:
  assumes "enqueue_loop e cmds m n = (cs, m', n')"
  shows "m'(executor_cmd_next_key e \<mapsto> SeqValue n') = append_all (map (Pair e) cmds) (m(executor_cmd_next_key e \<mapsto> SeqValue n))"
  using assms
proof (induction cmds arbitrary: m n cs m' n')
  case (Cons c cmds)
  obtain cs1 m1 n1 where r: "enqueue_loop e cmds (m(executor_cmd_key e n \<mapsto> CommandValue (c\<lparr>cmd_seq := n\<rparr>))) (saturating_add n 1) = (cs1, m1, n1)"
    by (rule prod_cases3)
  then have "m1 = m'" "n1 = n'" using Cons.prems by (simp_all add: Let_def)
  then show ?case using Cons.IH [OF r] by (simp only: list.map append_all_simps fst_conv snd_conv append_command_next)
qed simp

lemma enqueue_loop_commands:
  "unat n + length cmds < 2 ^ 64 \<Longrightarrow> fst (enqueue_loop e cmds m n) = renumber n cmds"
proof (induction cmds arbitrary: m n)
  case (Cons c cmds)
  have up: "saturating_add n 1 = n + 1" "unat (n + 1) = unat n + 1"
    using Cons.prems by (intro saturating_add_one; simp)+
  have "fst (enqueue_loop e cmds (m(executor_cmd_key e n \<mapsto> CommandValue (c\<lparr>cmd_seq := n\<rparr>))) (n + 1)) = renumber (n + 1) cmds"
    by (rule Cons.IH) (use Cons.prems up in simp)
  then show ?case by (auto simp: up Let_def split: prod.split)
qed simp

lemma append_command_same_next:
  "append_command e c (m(executor_cmd_next_key e \<mapsto> SeqValue (next_of m e))) = append_command e c m"
  unfolding append_command_next by (simp add: append_command_def)

text \<open>What a transaction leaves in the outbox once the cursors it holds are written.\<close>

definition completed :: "move_txn \<Rightarrow> (string \<rightharpoonup> outbox_value)" where
  "completed txn = (\<lambda>k. case strip_prefix ''next|'' k of
     Some e \<Rightarrow> (case mv_next txn e of Some n \<Rightarrow> Some (SeqValue n) | None \<Rightarrow> mv_outbox txn k)
   | None \<Rightarrow> mv_outbox txn k)"

lemma completed_next_key:
  "completed txn (executor_cmd_next_key e) =
     (case mv_next txn e of Some n \<Rightarrow> Some (SeqValue n) | None \<Rightarrow> mv_outbox txn (executor_cmd_next_key e))"
  unfolding completed_def executor_cmd_next_key_def strip_prefix_append option.case ..

lemma completed_other: "(\<And>e. k \<noteq> executor_cmd_next_key e) \<Longrightarrow> completed txn k = mv_outbox txn k"
  unfolding completed_def strip_prefix_def starts_with_iff executor_cmd_next_key_def by auto

lemma fold_put_next_seq_other:
  "(\<And>e. k \<noteq> executor_cmd_next_key e) \<Longrightarrow> fold (put_next_seq nexts) es m k = m k"
  by (induction es arbitrary: m) (simp_all add: put_next_seq_def)

lemma fold_put_next_seq_key:
  "fold (put_next_seq nexts) es m (executor_cmd_next_key e) =
     (if e \<in> set es then Some (SeqValue (the (nexts e))) else m (executor_cmd_next_key e))"
  by (induction es arbitrary: m) (simp_all add: put_next_seq_def)

lemma completed_eq:
  assumes "set es = dom (mv_next txn)"
  shows "fold (put_next_seq (mv_next txn)) es (mv_outbox txn) = completed txn"
proof
  fix k
  show "fold (put_next_seq (mv_next txn)) es (mv_outbox txn) k = completed txn k"
  proof (cases "\<exists>e. k = executor_cmd_next_key e")
    case True
    then obtain e where "k = executor_cmd_next_key e" by blast
    then show ?thesis using assms by (auto simp: completed_next_key fold_put_next_seq_key split: option.split)
  qed (simp add: completed_other fold_put_next_seq_other)
qed

lemma move_intent_ok:
  assumes ok: "outbox_ok len (completed txn)"
  shows "\<exists>txn'. move_intent key intent txn = Ok txn' \<and>
    completed txn' = append_command (sci_executor_id intent) (sci_command intent) (completed txn) \<and>
    mv_intents txn' = (mv_intents txn)(key := None) \<and> mv_moved txn' = mv_moved txn + 1 \<and>
    dom (mv_next txn') = insert (sci_executor_id intent) (dom (mv_next txn)) \<and>
    mv_enqueued txn' = (mv_enqueued txn)(sci_executor_id intent \<mapsto> unwrap_or (mv_enqueued txn (sci_executor_id intent)) [] @
      [(sci_command intent)\<lparr>cmd_seq := next_of (completed txn) (sci_executor_id intent)\<rparr>])"
proof -
  let ?e = "sci_executor_id intent" and ?n = "next_of (completed txn) (sci_executor_id intent)"
  have read: "(case mv_next txn ?e of Some n \<Rightarrow> Ok n | None \<Rightarrow> read_seq (mv_outbox txn) (executor_cmd_next_key ?e) 1) = Ok ?n"
  proof (cases "mv_next txn ?e")
    case None
    then have "completed txn (executor_cmd_next_key ?e) = mv_outbox txn (executor_cmd_next_key ?e)"
      by (simp add: completed_next_key)
    then show ?thesis using None read_seq_next [OF ok, of ?e] by (simp add: read_seq_def)
  qed (simp add: next_of_def completed_next_key)
  let ?c = "(sci_command intent)\<lparr>cmd_seq := ?n\<rparr>"
  let ?t = "\<lparr>mv_outbox = (mv_outbox txn)(executor_cmd_key ?e ?n \<mapsto> CommandValue ?c),
             mv_intents = (mv_intents txn)(key := None), mv_next = (mv_next txn)(?e \<mapsto> saturating_add ?n 1),
             mv_enqueued = (mv_enqueued txn)(?e \<mapsto> unwrap_or (mv_enqueued txn ?e) [] @ [?c]), mv_moved = mv_moved txn + 1\<rparr>"
  have "completed ?t = append_command ?e (sci_command intent) (completed txn)"
  proof
    fix k
    show "completed ?t k = append_command ?e (sci_command intent) (completed txn) k"
    proof (cases "\<exists>f. k = executor_cmd_next_key f")
      case True
      then obtain f where "k = executor_cmd_next_key f" by blast
      then show ?thesis by (cases "f = ?e"; cases "mv_next txn f") (simp_all add: completed_next_key append_command_def)
    next
      case False
      then show ?thesis by (simp add: completed_other append_command_def)
    qed
  qed
  then show ?thesis by (simp add: move_intent_def read Let_def result_simps)
qed

text \<open>The commands of intents, each with its executor.\<close>

definition intent_commands :: "(string \<times> scheduler_command_intent) list \<Rightarrow> (executor_id \<times> command) list" where
  "intent_commands items = map (\<lambda>item. (sci_executor_id (snd item), sci_command (snd item))) items"

lemma intent_commands_simps [simp]:
  "intent_commands [] = []"
  "intent_commands ((key, intent) # items) = (sci_executor_id intent, sci_command intent) # intent_commands items"
  "length (intent_commands items) = length items"
  by (simp_all add: intent_commands_def)

definition enqueued_list :: "move_txn \<Rightarrow> executor_id \<Rightarrow> command list" where
  "enqueued_list txn eid = unwrap_or (mv_enqueued txn eid) []"

lemma move_loop_exact:
  assumes "outbox_ok len (completed txn)" "items_ok len (intent_commands items)"
    "room_for (length items) (completed txn)" "mv_moved txn \<le> max_items"
    "distinct (map fst items)"
  defines "taken \<equiv> take (max_items - mv_moved txn) items"
  shows "\<exists>txn'. move_loop max_items items txn = Ok txn' \<and>
    completed txn' = append_all (intent_commands taken) (completed txn) \<and>
    mv_intents txn' = (\<lambda>k. if k \<in> fst ` set taken then None else mv_intents txn k) \<and>
    mv_moved txn' = mv_moved txn + length taken \<and>
    dom (mv_next txn') = dom (mv_next txn) \<union> fst ` set (intent_commands taken) \<and>
    dom (mv_enqueued txn') = dom (mv_enqueued txn) \<union> fst ` set (intent_commands taken) \<and>
    (\<forall>e. enqueued_list txn' e = enqueued_list txn e @ renumber (next_of (completed txn) e) (commands_for e (intent_commands taken)))"
  using assms(1-5) unfolding taken_def
proof (induction items arbitrary: txn)
  case Nil
  then show ?case by (simp add: commands_for_def)
next
  case (Cons item items)
  obtain key intent where item: "item = (key, intent)" by (cases item)
  let ?e = "sci_executor_id intent" and ?c = "sci_command intent"
  show ?case
  proof (cases "max_items \<le> mv_moved txn")
    case True
    then show ?thesis by (simp add: item commands_for_def)
  next
    case False
    then obtain d where d: "max_items - mv_moved txn = Suc d" "max_items - (mv_moved txn + 1) = d"
      by (metis Suc_diff_Suc add.commute not_le plus_1_eq_Suc)
    obtain txn1 where s: "move_intent key intent txn = Ok txn1"
      "completed txn1 = append_command ?e ?c (completed txn)"
      "mv_intents txn1 = (mv_intents txn)(key := None)" "mv_moved txn1 = mv_moved txn + 1"
      "dom (mv_next txn1) = insert ?e (dom (mv_next txn))"
      "mv_enqueued txn1 = (mv_enqueued txn)(?e \<mapsto> enqueued_list txn ?e @ [?c\<lparr>cmd_seq := next_of (completed txn) ?e\<rparr>])"
      using move_intent_ok [OF Cons.prems(1), of key intent] unfolding enqueued_list_def by blast
    have r: "unat (next_of (completed txn) ?e) + 1 < 2 ^ 64" using Cons.prems(3) by (intro room_for_one) simp
    have ok: "outbox_ok len (completed txn1)"
      unfolding s(2) using Cons.prems(2) by (intro outbox_ok_append [OF Cons.prems(1) _ _ r]) (simp_all add: items_ok_def item)
    have n: "next_of (completed txn1) f = (if f = ?e then next_of (completed txn) ?e + 1 else next_of (completed txn) f)" for f
      by (simp add: s(2) saturating_add_one(1) [OF r])
    have el: "enqueued_list txn1 f = enqueued_list txn f @ (if f = ?e then [?c\<lparr>cmd_seq := next_of (completed txn) ?e\<rparr>] else [])" for f
      by (simp add: enqueued_list_def s(6))
    have a: "items_ok len (intent_commands items)" "room_for (length items) (completed txn1)"
      "mv_moved txn1 \<le> max_items" "distinct (map fst items)"
      using Cons.prems(2,3,5) False by (simp_all add: items_ok_def item s(2,4) room_for_append)
    obtain txn2 where t: "move_loop max_items items txn1 = Ok txn2"
      "completed txn2 = append_all (intent_commands (take d items)) (completed txn1)"
      "mv_intents txn2 = (\<lambda>k. if k \<in> fst ` set (take d items) then None else mv_intents txn1 k)"
      "mv_moved txn2 = mv_moved txn + 1 + length (take d items)"
      "dom (mv_next txn2) = dom (mv_next txn1) \<union> fst ` set (intent_commands (take d items))"
      "dom (mv_enqueued txn2) = dom (mv_enqueued txn1) \<union> fst ` set (intent_commands (take d items))"
      "\<forall>f. enqueued_list txn2 f = enqueued_list txn1 f @
         renumber (next_of (completed txn1) f) (commands_for f (intent_commands (take d items)))"
      using Cons.IH [OF ok a, unfolded s(4) d(2)]
      by (elim exE conjE, intro that)
    have "enqueued_list txn2 f = enqueued_list txn f @
        renumber (next_of (completed txn) f) (commands_for f (intent_commands (take (max_items - mv_moved txn) (item # items))))" for f
      unfolding t(7) [THEN spec] el n d(1) by (cases "f = ?e") (simp_all add: commands_for_def item)
    moreover have "mv_intents txn2 = (\<lambda>k. if k \<in> fst ` set (take (max_items - mv_moved txn) (item # items)) then None else mv_intents txn k)"
      unfolding t(3) s(3) d(1) by (auto simp: item)
    moreover have "dom (mv_enqueued txn2) = dom (mv_enqueued txn) \<union>
        fst ` set (intent_commands (take (max_items - mv_moved txn) (item # items)))"
      unfolding t(6) s(6) d(1) by (auto simp: item)
    moreover have "dom (mv_next txn2) = dom (mv_next txn) \<union>
        fst ` set (intent_commands (take (max_items - mv_moved txn) (item # items)))"
      unfolding t(5) s(5) d(1) by (simp add: item)
    ultimately show ?thesis
      using False t(1,2,4) s d(1) by (simp add: item result_simps)
  qed
qed

subsection \<open>Acknowledgements and resets\<close>

text \<open>Commands of an executor leave its outbox.\<close>

definition without :: "executor_id \<Rightarrow> (u64 \<Rightarrow> bool) \<Rightarrow> (string \<rightharpoonup> outbox_value) \<Rightarrow> (string \<rightharpoonup> outbox_value)" where
  "without eid P m = (\<lambda>k. if \<exists>n. P n \<and> k = executor_cmd_key eid n then None else m k)"

lemma without_simps [simp]:
  "without e P m (executor_cmd_ack_key f) = m (executor_cmd_ack_key f)"
  "without e P m (executor_cmd_next_key f) = m (executor_cmd_next_key f)"
  "without e P m (executor_cmd_key f n) = (if f = e \<and> P n then None else m (executor_cmd_key f n))"
  by (auto simp: without_def)

lemma cursors_without [simp]: "next_of (without e P m) f = next_of m f" "acked_of (without e P m) f = acked_of m f"
  by (simp_all add: next_of_def acked_of_def)

lemma seqs_of_without: "seqs_of (without e P m) f = {n \<in> seqs_of m f. \<not> (f = e \<and> P n)}"
  by (auto simp: seqs_of_def dom_def)

lemma command_at_without: "\<not> (f = e \<and> P n) \<Longrightarrow> command_at (without e P m) f n = command_at m f n"
  by (auto simp: command_at_def)

lemma outbox_ok_without: "outbox_ok len m \<Longrightarrow> outbox_ok len (without e P m)"
proof -
  assume ok: "outbox_ok len m"
  have dom: "dom (without e P m) \<subseteq> dom m" by (auto simp: without_def dom_def split: if_splits)
  then have "finite (dom (without e P m))" using ok by (auto simp: outbox_ok_def intro: finite_subset)
  moreover have "\<exists>e. bar_free e \<and> (k = executor_cmd_ack_key e \<or> k = executor_cmd_next_key e \<or> (\<exists>n. k = executor_cmd_key e n))"
    if "k \<in> dom (without e P m)" for k
    using subsetD [OF dom that] ok by (simp add: outbox_ok_def)
  moreover have "(\<exists>c. v = CommandValue c \<and> cmd_seq c = n \<and> fits_poll len c) \<and> n < next_of m f"
    if "without e P m (executor_cmd_key f n) = Some v" for f n v
    using that ok by (simp add: outbox_ok_def split: if_splits)
  ultimately show ?thesis using ok by (simp add: outbox_ok_def)
qed

lemma outbox_ok_ack:
  assumes ok: "outbox_ok len m" and "bar_free e" "a < next_of m e"
  shows "outbox_ok len (m(executor_cmd_ack_key e \<mapsto> SeqValue a))"
proof -
  let ?m = "m(executor_cmd_ack_key e \<mapsto> SeqValue a)"
  have n: "next_of ?m f = next_of m f" for f by (simp add: next_of_def)
  have "acked_of ?m f < next_of m f" for f
    using ok assms(3) by (cases "f = e") (simp_all add: acked_of_def outbox_ok_def)
  moreover have "\<exists>n. v = SeqValue n" if "?m (executor_cmd_ack_key f) = Some v" for f v
    using ok that by (cases "f = e") (auto simp: outbox_ok_def)
  moreover have "\<exists>e. bar_free e \<and> (k = executor_cmd_ack_key e \<or> k = executor_cmd_next_key e \<or> (\<exists>n. k = executor_cmd_key e n))"
    if "k \<in> dom ?m" for k
    using that ok assms(2) by (cases "k = executor_cmd_ack_key e") (auto simp: outbox_ok_def)
  ultimately show ?thesis using ok by (simp add: outbox_ok_def n)
qed

lemma without_without: "without e P (without e Q m) = without e (\<lambda>n. P n \<or> Q n) m"
  by (rule ext) (auto simp: without_def)

lemma without_one: "m(executor_cmd_key e n := None) = without e (\<lambda>k. k = n) m"
  by (rule ext) (auto simp: without_def)

lemma without_none: "without e (\<lambda>n. False) m = m"
  by (simp add: without_def)

lemma delete_acked_key: "delete_acked a (executor_cmd_key e n) m = without e (\<lambda>k. k = n \<and> k \<le> a) m"
proof (cases "n \<le> a")
  case True
  then have "(\<lambda>k. k = n \<and> k \<le> a) = (\<lambda>k. k = n)" by auto
  then show ?thesis using True by (simp add: delete_acked_def without_one)
next
  case False
  then have "(\<lambda>k. k = n \<and> k \<le> a) = (\<lambda>k. False)" by auto
  then show ?thesis using False by (simp add: delete_acked_def without_none)
qed

lemma fold_delete_acked:
  "fold (delete_acked a) (map (executor_cmd_key e) ns) m = without e (\<lambda>n. n \<in> set ns \<and> n \<le> a) m"
proof (induction ns arbitrary: m)
  case (Cons n ns)
  have "(\<lambda>k. k \<in> set ns \<and> k \<le> a \<or> k = n \<and> k \<le> a) = (\<lambda>k. k \<in> set (n # ns) \<and> k \<le> a)" by auto
  then show ?case
    by (simp only: list.map fold_simps delete_acked_key Cons.IH without_without)
qed (simp add: without_none)

lemma fold_delete_all:
  "fold (\<lambda>key m. m(key := None)) (map (executor_cmd_key e) ns) m = without e (\<lambda>n. n \<in> set ns) m"
proof (induction ns arbitrary: m)
  case (Cons n ns)
  have "(\<lambda>k. k \<in> set ns \<or> k = n) = (\<lambda>k. k \<in> set (n # ns))" by auto
  then show ?case by (simp only: list.map fold_simps without_one Cons.IH without_without)
qed (simp add: without_none)

lemma persisted_seq: "outbox_ok len m \<Longrightarrow> c \<in> set (persisted m e) \<Longrightarrow> acked_of m e < cmd_seq c \<and> cmd_seq c < next_of m e \<and> fits_poll len c"
  using outbox_ok_command by (fastforce simp: persisted_def)

lemma ack_exact:
  assumes ok: "outbox_ok len (del_outbox st)" and e: "bar_free e" and a: "a < next_of (del_outbox st) e"
  obtains m where "ack_executor_commands True e a st = (Ok (), st\<lparr>del_outbox := m\<rparr>)" "outbox_ok len m"
    "\<And>f. next_of m f = next_of (del_outbox st) f"
    "\<And>f. persisted m f = (if f = e then filter (\<lambda>c. a < cmd_seq c) (persisted (del_outbox st) f) else persisted (del_outbox st) f)"
proof -
  let ?m = "del_outbox st"
  let ?a = "max a (acked_of ?m e)"
  let ?m1 = "?m(executor_cmd_ack_key e \<mapsto> SeqValue ?a)"
  let ?m2 = "without e (\<lambda>n. n \<in> seqs_of ?m e \<and> n \<le> ?a) ?m1"
  have lt: "?a < next_of ?m e" using ok a by (simp add: outbox_ok_def)
  have ok1: "outbox_ok len ?m1" by (rule outbox_ok_ack [OF ok e lt])
  have seqs1: "seqs_of ?m1 f = seqs_of ?m f" for f by (simp add: seqs_of_def)
  have acked1: "acked_of ?m1 f = (if f = e then ?a else acked_of ?m f)" for f by (simp add: acked_of_def)
  have cmd1: "command_at ?m1 f n = command_at ?m f n" for f n by (simp add: command_at_def)
  have ack: "ack_executor_commands True e a st = (Ok (), st\<lparr>del_outbox := ?m2\<rparr>)"
    by (simp add: ack_executor_commands_def read_executor_cmd_ack_def read_seq_ack [OF ok] Let_def
        prefix_scan_outbox [OF ok1] seqs1 fold_delete_acked)
  have "persisted ?m2 f = persisted ?m f" if "f \<noteq> e" for f
    using that by (simp add: persisted_def seqs_of_without acked1 seqs1 command_at_without cmd1)
  moreover have "persisted ?m2 e = filter (\<lambda>c. a < cmd_seq c) (persisted ?m e)"
  proof -
    let ?L = "sorted_list_of_set (seqs_of ?m e)"
    have keep: "sorted_list_of_set {n \<in> seqs_of ?m e. \<not> n \<le> ?a} = filter (\<lambda>n. ?a < n) ?L"
      by (rule sorted_distinct_set_unique) (auto simp: sorted_wrt_filter le_max_iff_disj)
    have "persisted ?m2 e = map (command_at ?m2 e) (filter (\<lambda>n. ?a < n) ?L)"
      unfolding persisted_def cursors_without acked1 seqs_of_without seqs1
      using keep by (simp add: conj_commute cong: conj_cong)
    also have "\<dots> = map (command_at ?m e) (filter (\<lambda>n. ?a < n) ?L)"
      by (auto simp: command_at_without cmd1 not_le)
    also have "\<dots> = filter (\<lambda>c. a < cmd_seq c) (persisted ?m e)"
      unfolding persisted_def filter_map filter_filter
      by (rule arg_cong [where f = "map (command_at ?m e)"], rule filter_cong) (auto simp: outbox_ok_command [OF ok])
    finally show ?thesis .
  qed
  moreover have "next_of ?m2 f = next_of ?m f" for f by (simp add: next_of_def)
  ultimately show ?thesis using that [OF ack outbox_ok_without [OF ok1]] by simp
qed

lemma reset_exact:
  assumes ok: "outbox_ok len (del_outbox st)" and e: "bar_free e"
  obtains m where "reset_executor_command_outbox True e st = (Ok (), st\<lparr>del_outbox := m\<rparr>)" "outbox_ok len m"
    "\<And>f. persisted m f = (if f = e then [] else persisted (del_outbox st) f)"
    "\<And>f. next_of m f = (if f = e then 1 else next_of (del_outbox st) f)"
proof -
  let ?m = "del_outbox st"
  let ?m1 = "without e (\<lambda>n. n \<in> seqs_of ?m e) ?m"
  let ?m2 = "?m1(executor_cmd_ack_key e \<mapsto> SeqValue 0)"
  let ?m3 = "?m2(executor_cmd_next_key e \<mapsto> SeqValue 1)"
  have none: "?m1 (executor_cmd_key e n) = None" for n by (auto simp: seqs_of_def)
  have "0 < next_of ?m e" using ok unfolding outbox_ok_def by (metis word_gt_0 word_not_simps(1))
  then have ok2: "outbox_ok len ?m2" by (intro outbox_ok_ack [OF outbox_ok_without [OF ok] e]) simp
  have n3: "next_of ?m3 f = (if f = e then 1 else next_of ?m f)" for f by (simp add: next_of_def)
  have a3: "acked_of ?m3 f = (if f = e then 0 else acked_of ?m f)" for f by (simp add: acked_of_def)
  have "outbox_ok len ?m3"
  proof -
    have "finite (dom ?m3)" using ok2 by (simp add: outbox_ok_def)
    moreover have "\<exists>e. bar_free e \<and> (k = executor_cmd_ack_key e \<or> k = executor_cmd_next_key e \<or> (\<exists>n. k = executor_cmd_key e n))"
      if "k \<in> dom ?m3" for k
      using that ok2 e by (cases "k = executor_cmd_next_key e") (auto simp: outbox_ok_def)
    moreover have "(\<exists>c. v = CommandValue c \<and> cmd_seq c = n \<and> fits_poll len c) \<and> n < next_of ?m3 f"
      if v: "?m3 (executor_cmd_key f n) = Some v" for f n v
    proof -
      have "?m (executor_cmd_key f n) = Some v" "f \<noteq> e" using v none [of n] by (auto split: if_splits)
      then show ?thesis using ok unfolding n3 by (simp add: outbox_ok_def)
    qed
    moreover have "\<exists>n. v = SeqValue n" if "?m3 (executor_cmd_ack_key f) = Some v" for f v
      using that ok2 by (simp add: outbox_ok_def)
    moreover have "\<exists>n. v = SeqValue n" if "?m3 (executor_cmd_next_key f) = Some v" for f v
      using that ok by (cases "f = e") (auto simp: outbox_ok_def)
    moreover have "acked_of ?m3 f < next_of ?m3 f" for f
      using ok unfolding n3 a3 by (simp add: outbox_ok_def)
    ultimately show ?thesis unfolding outbox_ok_def by blast
  qed
  moreover have "persisted ?m3 f = (if f = e then [] else persisted ?m f)" for f
  proof (cases "f = e")
    case True
    have "seqs_of ?m3 e = {}" using none by (auto simp: seqs_of_def)
    then show ?thesis using True by (simp add: persisted_def)
  next
    case False
    have "seqs_of ?m3 f = seqs_of ?m f" "command_at ?m3 f = command_at ?m f"
      using False by (simp_all add: seqs_of_def command_at_def fun_eq_iff dom_def)
    then show ?thesis unfolding persisted_def a3 using False by simp
  qed
  moreover have "reset_executor_command_outbox True e st = (Ok (), st\<lparr>del_outbox := ?m3\<rparr>)"
    by (simp add: reset_executor_command_outbox_def Let_def prefix_scan_outbox [OF ok] fold_delete_all)
  ultimately show ?thesis using that n3 by blast
qed

section \<open>Responses\<close>

lemma capped_loop_exact:
  "selected \<noteq> [] \<Longrightarrow> total_bytes \<le> limit \<Longrightarrow>
   \<exists>k. capped_loop len limit items selected total_bytes = selected @ take k items \<and>
     total_bytes + sum_list (map len (take k items)) \<le> limit \<and>
     (k \<ge> length items \<or> limit < total_bytes + sum_list (map len (take (Suc k) items)))"
proof (induction items arbitrary: selected total_bytes)
  case (Cons item items)
  show ?case
  proof (cases "total_bytes + len item \<le> limit")
    case True
    obtain k where "capped_loop len limit items (selected @ [item]) (total_bytes + len item) = (selected @ [item]) @ take k items"
      "total_bytes + len item + sum_list (map len (take k items)) \<le> limit"
      "k \<ge> length items \<or> limit < total_bytes + len item + sum_list (map len (take (Suc k) items))"
      using Cons.IH [of "selected @ [item]" "total_bytes + len item"] True by auto
    then show ?thesis using True by (intro exI [of _ "Suc k"]) (simp add: add.assoc)
  next
    case False
    then show ?thesis using Cons.prems by (intro exI [of _ 0]) simp
  qed
qed simp

text \<open>A response is the longest prefix within the limit; it is not empty when the first item fits.\<close>

lemma capped_clone_exact:
  assumes "items = [] \<or> len (hd items) \<le> limit"
  obtains k where "capped_clone_by_encoded_size len items limit = take k items"
    "sum_list (map len (take k items)) \<le> limit" "items = [] \<or> 0 < k"
    "k \<ge> length items \<or> limit < sum_list (map len (take (Suc k) items))"
proof (cases items)
  case Nil
  then show ?thesis using that [of 0] by (simp add: capped_clone_by_encoded_size_def)
next
  case (Cons item rest)
  obtain k where "capped_loop len limit rest [item] (len item) = [item] @ take k rest"
    "len item + sum_list (map len (take k rest)) \<le> limit"
    "k \<ge> length rest \<or> limit < len item + sum_list (map len (take (Suc k) rest))"
    using capped_loop_exact [of "[item]" "len item" limit len rest] assms Cons by auto
  then show ?thesis using that [of "Suc k"] Cons by (simp add: capped_clone_by_encoded_size_def)
qed

lemma dropWhile_fits: "(\<And>c. c \<in> set cs \<Longrightarrow> fits_poll len c) \<Longrightarrow> dropWhile (\<lambda>c. max_poll_response_bytes < len c) cs = cs"
  by (cases cs) (simp_all add: fits_poll_len not_less)

section \<open>Buffers and outboxes agree\<close>

definition intents_ok :: "(command \<Rightarrow> nat) \<Rightarrow> (string \<rightharpoonup> scheduler_command_intent) \<Rightarrow> u64 \<Rightarrow> bool" where
  "intents_ok len intents counter \<longleftrightarrow>
     (\<forall>k i. intents k = Some i \<longrightarrow> bar_free (sci_executor_id i) \<and> fits_poll len (sci_command i)) \<and>
     (\<forall>k \<in> dom intents. \<exists>n < counter. k = scheduler_command_intent_key n)"

definition delivery_ok :: "(command \<Rightarrow> nat) \<Rightarrow> 'e delivery \<Rightarrow> bool" where
  "delivery_ok len st \<longleftrightarrow>
     outbox_ok len (del_outbox st) \<and> intents_ok len (del_intents st) (del_intent_seq st) \<and>
     (\<forall>e conn. del_connections st e = Some conn \<longrightarrow>
        bar_free e \<and> con_pending_commands conn = persisted (del_outbox st) e)"

lemma commands_for_same [simp]: "commands_for e (map (Pair e) cmds) = cmds"
  by (induction cmds) (simp_all add: commands_for_def)

lemma fits_renumber: "(\<And>c. c \<in> set cs \<Longrightarrow> fits_poll len c) \<Longrightarrow> c \<in> set (renumber n cs) \<Longrightarrow> fits_poll len c"
  by (induction cs arbitrary: n) (auto intro: fits_poll_renumber)

lemma push_fits:
  "(\<And>c. c \<in> set cs \<Longrightarrow> fits_poll len c) \<Longrightarrow>
   push_commands len cs conn = (Ok (), conn\<lparr>con_pending_commands := con_pending_commands conn @ cs\<rparr>)"
  unfolding push_commands_def using fits_poll_len by (fastforce simp: not_less)

lemma enqueue_exact:
  assumes ok: "delivery_ok len st" and e: "bar_free e" and fit: "\<And>c. c \<in> set cmds \<Longrightarrow> fits_poll len c"
    and room: "room_for (length cmds) (del_outbox st)" and ne: "cmds \<noteq> []"
  defines "m \<equiv> append_all (map (Pair e) cmds) (del_outbox st)"
  shows "enqueue_executor_commands len True e cmds st =
    (Ok (), st\<lparr>del_outbox := m, del_connections := (del_connections st)(e :=
       map_option (\<lambda>conn. conn\<lparr>con_pending_commands := con_pending_commands conn @ renumber (next_of (del_outbox st) e) cmds\<rparr>)
         (del_connections st e))\<rparr>)"
proof -
  let ?m = "del_outbox st"
  obtain cs m' n' where r: "enqueue_loop e cmds ?m (next_of ?m e) = (cs, m', n')" by (rule prod_cases3)
  have cs: "cs = renumber (next_of ?m e) cmds" using enqueue_loop_commands [OF room_forD [OF room], of e ?m e] r by simp
  have "append_all (map (Pair e) cmds) (?m(executor_cmd_next_key e \<mapsto> SeqValue (next_of ?m e))) = m"
    unfolding m_def using ne
    by (cases cmds) (simp, simp only: list.map append_all_simps fst_conv snd_conv append_command_same_next)
  then have m': "m'(executor_cmd_next_key e \<mapsto> SeqValue n') = m" using enqueue_loop_eq [OF r] by simp
  have f: "fits_poll len c" if "c \<in> set cs" for c using fits_renumber [OF fit] that cs by blast
  have o: "outbox_ok len ?m" using ok by (simp add: delivery_ok_def)
  have "push_commands len cs conn = (Ok (), conn\<lparr>con_pending_commands := con_pending_commands conn @ cs\<rparr>)" for conn :: "'a executor_connection"
    using f by (rule push_fits)
  then show ?thesis
    using ne by (cases "del_connections st e")
      (simp_all add: enqueue_executor_commands_def read_seq_next [OF o] r m' cs fun_upd_idem)
qed

lemma delivery_ok_enqueue:
  assumes ok: "delivery_ok len st" and e: "bar_free e" and fit: "\<And>c. c \<in> set cmds \<Longrightarrow> fits_poll len c"
    and room: "room_for (length cmds) (del_outbox st)"
  shows "delivery_ok len (snd (enqueue_executor_commands len io e cmds st))"
proof (cases "cmds = [] \<or> \<not> io")
  case True
  then show ?thesis using ok by (auto simp: enqueue_executor_commands_def)
next
  case False
  then have io: "io = True" and ne: "cmds \<noteq> []" by simp_all
  let ?m = "append_all (map (Pair e) cmds) (del_outbox st)"
  have o: "outbox_ok len (del_outbox st)" using ok by (simp add: delivery_ok_def)
  have i: "items_ok len (map (Pair e) cmds)" using e fit by (auto simp: items_ok_def)
  have r: "room_for (length (map (Pair e) cmds)) (del_outbox st)" using room by simp
  note all = append_all_exact [OF o i r]
  have none: "commands_for f (map (Pair e) cmds) = []" if "f \<noteq> e" for f
    using that by (simp add: commands_for_def)
  have "con_pending_commands conn' = persisted ?m f"
    if "f \<noteq> e \<and> del_connections st f = Some conn' \<or>
      f = e \<and> (\<exists>conn. del_connections st e = Some conn \<and>
        con_pending_commands conn' = con_pending_commands conn @ renumber (next_of (del_outbox st) e) cmds)" for f conn'
    using that ok all [of f] none [of f] by (auto simp: delivery_ok_def)
  then show ?thesis
    using ok all enqueue_exact [OF ok e fit room ne] by (auto simp: io delivery_ok_def split: if_splits)
qed

subsection \<open>Intents\<close>

lemma finite_intents: "intents_ok len intents counter \<Longrightarrow> finite (dom intents)"
  unfolding intents_ok_def by (rule finite_subset [of _ "range scheduler_command_intent_key"], blast) simp

lemma intents_ok_mono: "intents_ok len intents counter \<Longrightarrow> counter \<le> counter' \<Longrightarrow> intents_ok len intents counter'"
  unfolding intents_ok_def by (meson less_le_trans)

lemma intents_prefix: "intents_ok len intents counter \<Longrightarrow> k \<in> dom intents \<Longrightarrow> starts_with ''intent|'' k"
  unfolding intents_ok_def starts_with_iff scheduler_command_intent_key_def by blast

lemma prefix_scan_intents:
  "intents_ok len intents counter \<Longrightarrow> prefix_scan intents ''intent|'' = sorted_list_of_set (dom intents)"
  using finite_intents [of len intents counter] intents_prefix [of len intents counter]
  by (simp add: prefix_scan_eq)

lemma intent_items_put:
  assumes ok: "intents_ok len intents counter"
  shows "intent_items (intents(scheduler_command_intent_key counter \<mapsto> i)) =
    intent_items intents @ [(scheduler_command_intent_key counter, i)]"
proof -
  let ?k = "scheduler_command_intent_key counter" and ?D = "dom intents"
  have fin: "finite ?D" by (rule finite_intents [OF ok])
  have lt: "k < ?k" if "k \<in> ?D" for k
    using ok that unfolding intents_ok_def by (metis intent_key_less_iff)
  have sl: "sorted_list_of_set (insert ?k ?D) = sorted_list_of_set ?D @ [?k]"
  proof (rule sorted_distinct_set_unique)
    show "sorted (sorted_list_of_set ?D @ [?k])" using lt fin by (auto simp: sorted_append less_imp_le)
    show "distinct (sorted_list_of_set ?D @ [?k])" using lt fin by auto
  qed (use fin in \<open>simp_all del: sorted_list_of_set_insert_remove\<close>)
  have sw: "starts_with ''intent|'' ?k" by (auto simp: starts_with_iff scheduler_command_intent_key_def)
  have new: "prefix_scan (intents(?k \<mapsto> i)) ''intent|'' = sorted_list_of_set ?D @ [?k]"
    using fin sw intents_prefix [OF ok] by (simp add: prefix_scan_eq sl del: sorted_list_of_set_insert_remove)
  have "map (\<lambda>key. (key, the ((intents(?k \<mapsto> i)) key))) (sorted_list_of_set ?D) =
      map (\<lambda>key. (key, the (intents key))) (sorted_list_of_set ?D)"
    using lt fin by auto
  then show ?thesis unfolding intent_items_def new prefix_scan_intents [OF ok] by simp
qed

definition intent_ok :: "(command \<Rightarrow> nat) \<Rightarrow> scheduler_command_intent \<Rightarrow> bool" where
  "intent_ok len i \<longleftrightarrow> bar_free (sci_executor_id i) \<and> fits_poll len (sci_command i)"

lemma intents_ok_put:
  assumes "intents_ok len intents counter" "intent_ok len i" "counter < counter'"
  shows "intents_ok len (intents(scheduler_command_intent_key counter \<mapsto> i)) counter'"
  using assms intents_ok_mono [OF assms(1) less_imp_le [OF assms(3)]]
  by (auto simp: intents_ok_def intent_ok_def split: if_splits)

lemma persist_exact:
  assumes "persist_scheduler_command_intents put_ok intents (txn, counter) = (r, txn', counter')"
    "intents_ok len txn counter" "list_all (intent_ok len) intents" "unat counter + length intents < 2 ^ 64"
  shows "intents_ok len txn' counter' \<and> counter \<le> counter' \<and> unat counter' \<le> unat counter + length intents \<and>
    (\<forall>n. r = Ok n \<longrightarrow> n = length intents \<and> map snd (intent_items txn') = map snd (intent_items txn) @ intents) \<and>
    ((\<forall>k. put_ok k) \<longrightarrow> r = Ok (length intents))"
  using assms
proof (induction intents arbitrary: txn counter r txn' counter')
  case (Cons i intents)
  let ?k = "scheduler_command_intent_key counter"
  have up: "unat (counter + 1) = unat counter + 1" "counter < counter + 1"
    using Cons.prems(4) by (intro saturating_add_one; simp)+
  show ?case
  proof (cases "put_ok ?k")
    case False
    then have "r = Err ''io''" "txn' = txn" "counter' = counter + 1" using Cons.prems(1) by (simp_all add: Let_def)
    then show ?thesis
      using False Cons.prems(2,3,4) up intents_ok_mono [OF Cons.prems(2) less_imp_le [OF up(2)]] by auto
  next
    case True
    obtain r1 t1 c1 where s: "persist_scheduler_command_intents put_ok intents (txn(?k \<mapsto> i), counter + 1) = (r1, t1, c1)"
      by (rule prod_cases3)
    have eq: "r = and_then r1 (\<lambda>n. Ok (n + 1))" "txn' = t1" "counter' = c1" using Cons.prems(1) True s by (simp_all add: Let_def)
    have put: "intents_ok len (txn(?k \<mapsto> i)) (counter + 1)"
      using Cons.prems(3) by (intro intents_ok_put [OF Cons.prems(2) _ up(2)]) simp
    have IH: "intents_ok len t1 c1 \<and> counter + 1 \<le> c1 \<and> unat c1 \<le> unat (counter + 1) + length intents \<and>
      (\<forall>n. r1 = Ok n \<longrightarrow> n = length intents \<and> map snd (intent_items t1) = map snd (intent_items (txn(?k \<mapsto> i))) @ intents) \<and>
      ((\<forall>k. put_ok k) \<longrightarrow> r1 = Ok (length intents))"
      by (rule Cons.IH [OF s put]) (use Cons.prems(3,4) up in simp_all)
    have "counter \<le> c1" using IH up(2) by (auto intro: order_trans less_imp_le)
    moreover have "map snd (intent_items (txn(?k \<mapsto> i))) = map snd (intent_items txn) @ [i]"
      by (simp add: intent_items_put [OF Cons.prems(2)])
    ultimately show ?thesis using IH up(1) unfolding eq by (cases r1) (auto simp: result_simps)
  qed
qed simp

lemma delivery_ok_intents:
  "delivery_ok len st \<Longrightarrow> intents_ok len intents counter \<Longrightarrow>
   delivery_ok len (st\<lparr>del_intents := intents, del_intent_seq := counter\<rparr>)"
  by (simp add: delivery_ok_def)

lemma delivery_ok_counter:
  "delivery_ok len st \<Longrightarrow> intents_ok len (del_intents st) counter \<Longrightarrow> delivery_ok len (st\<lparr>del_intent_seq := counter\<rparr>)"
  by (simp add: delivery_ok_def)

lemma delivery_ok_backlog [simp]:
  "delivery_ok len (increment_scheduler_command_intent_backlog n st) = delivery_ok len st"
  "delivery_ok len (decrement_scheduler_command_intent_backlog n st) = delivery_ok len st"
  by (simp_all add: increment_scheduler_command_intent_backlog_def decrement_scheduler_command_intent_backlog_def delivery_ok_def)

lemma backlog_fields [simp]:
  "del_intents (increment_scheduler_command_intent_backlog n st) = del_intents st"
  "del_outbox (increment_scheduler_command_intent_backlog n st) = del_outbox st"
  "del_connections (increment_scheduler_command_intent_backlog n st) = del_connections st"
  "del_intents (decrement_scheduler_command_intent_backlog n st) = del_intents st"
  "del_outbox (decrement_scheduler_command_intent_backlog n st) = del_outbox st"
  "del_connections (decrement_scheduler_command_intent_backlog n st) = del_connections st"
  "del_intent_seq (decrement_scheduler_command_intent_backlog n st) = del_intent_seq st"
  by (simp_all add: increment_scheduler_command_intent_backlog_def decrement_scheduler_command_intent_backlog_def)

lemma write_intents_exact:
  assumes ok: "delivery_ok len st" and new: "list_all (intent_ok len) (us @ xs)"
    and room: "unat (del_intent_seq st) + length (us @ xs) < 2 ^ 64"
  shows "delivery_ok len (snd (write_intents put_ok commit_ok us xs st)) \<and>
    del_outbox (snd (write_intents put_ok commit_ok us xs st)) = del_outbox st \<and>
    ((\<forall>k. put_ok k) \<and> commit_ok \<longrightarrow> map snd (intent_items (del_intents (snd (write_intents put_ok commit_ok us xs st)))) =
       map snd (intent_items (del_intents st)) @ us @ xs)"
proof -
  have i: "intents_ok len (del_intents st) (del_intent_seq st)" using ok by (simp add: delivery_ok_def)
  obtain r1 t1 c1 where p1: "persist_scheduler_command_intents put_ok us (del_intents st, del_intent_seq st) = (r1, t1, c1)"
    by (rule prod_cases3)
  obtain r2 t2 c2 where p2: "persist_scheduler_command_intents put_ok xs (t1, c1) = (r2, t2, c2)"
    by (rule prod_cases3)
  have e1: "intents_ok len t1 c1 \<and> del_intent_seq st \<le> c1 \<and> unat c1 \<le> unat (del_intent_seq st) + length us \<and>
    (\<forall>n. r1 = Ok n \<longrightarrow> n = length us \<and> map snd (intent_items t1) = map snd (intent_items (del_intents st)) @ us) \<and>
    ((\<forall>k. put_ok k) \<longrightarrow> r1 = Ok (length us))"
    by (rule persist_exact [OF p1 i]) (use new room in simp_all)
  have e2: "intents_ok len t2 c2 \<and> c1 \<le> c2 \<and> unat c2 \<le> unat c1 + length xs \<and>
    (\<forall>n. r2 = Ok n \<longrightarrow> n = length xs \<and> map snd (intent_items t2) = map snd (intent_items t1) @ xs) \<and>
    ((\<forall>k. put_ok k) \<longrightarrow> r2 = Ok (length xs))"
    by (rule persist_exact [OF p2]) (use e1 new room in simp_all)
  have c: "intents_ok len (del_intents st) c1" "intents_ok len (del_intents st) c2"
    using e1 e2 intents_ok_mono [OF i] by (meson order_trans)+
  show ?thesis
    using e1 e2 delivery_ok_counter [OF ok c(1)] delivery_ok_counter [OF ok c(2)] delivery_ok_intents [OF ok, of t2 c2]
    by (cases r1; cases r2) (auto simp: write_intents_def p1 p2 Let_def)
qed

subsection \<open>Emission\<close>

lemma intents_ok_remove:
  "intents_ok len intents counter \<Longrightarrow> intents_ok len (\<lambda>k. if k \<in> K then None else intents k) counter"
  unfolding intents_ok_def dom_def by auto

lemma filter_not_taken: "distinct xs \<Longrightarrow> filter (\<lambda>k. k \<notin> set (take n xs)) xs = drop n xs"
proof (induction xs arbitrary: n)
  case (Cons x xs)
  have "filter (\<lambda>k. k \<noteq> x \<and> k \<notin> set (take m xs)) xs = filter (\<lambda>k. k \<notin> set (take m xs)) xs" for m
    using Cons.prems by (intro filter_cong) auto
  then show ?case using Cons by (cases n) simp_all
qed simp

lemma intent_items_remove:
  assumes ok: "intents_ok len intents counter"
  shows "intent_items (\<lambda>k. if k \<in> fst ` set (take n (intent_items intents)) then None else intents k) = drop n (intent_items intents)"
proof -
  let ?L = "sorted_list_of_set (dom intents)"
  let ?K = "set (take n ?L)"
  let ?i = "\<lambda>k. if k \<in> ?K then None else intents k"
  have fin: "finite (dom intents)" by (rule finite_intents [OF ok])
  have K: "fst ` set (take n (intent_items intents)) = ?K"
    by (simp add: intent_items_def prefix_scan_intents [OF ok] take_map image_image)
  have split: "filter (\<lambda>k. k \<notin> ?K) ?L = drop n ?L" using fin by (intro filter_not_taken) simp
  have "dom ?i = dom intents - ?K" by (auto simp: dom_def split: if_splits)
  then have "sorted_list_of_set (dom ?i) = filter (\<lambda>k. k \<notin> ?K) ?L"
    using fin by (intro sorted_distinct_set_unique) (auto simp: sorted_wrt_filter)
  then have keys: "prefix_scan ?i ''intent|'' = drop n ?L"
    using prefix_scan_intents [OF intents_ok_remove [OF ok, of ?K]] split by simp
  have "map (\<lambda>key. (key, the (?i key))) (drop n ?L) = map (\<lambda>key. (key, the (intents key))) (drop n ?L)"
    using split [symmetric] by (auto simp: fin)
  then have "intent_items ?i = drop n (intent_items intents)"
    unfolding intent_items_def keys prefix_scan_intents [OF ok] by (simp add: drop_map)
  then show ?thesis by (simp only: K)
qed

lemma items_ok_intents: "intents_ok len intents counter \<Longrightarrow> items_ok len (intent_commands (intent_items intents))"
  using finite_intents [of len intents counter]
  by (fastforce simp: items_ok_def intent_commands_def intent_items_def set_prefix_scan intents_ok_def)

lemma distinct_intent_items: "intents_ok len intents counter \<Longrightarrow> distinct (map fst (intent_items intents))"
  using distinct_prefix_scan [OF finite_intents] by (simp add: intent_items_def comp_def)

lemma fold_push_to_executor:
  "distinct es \<Longrightarrow> del_connections (fold (push_to_executor len enqueued) es st) e =
     (if e \<in> set es then map_option (\<lambda>conn. snd (push_commands len (unwrap_or (enqueued e) []) conn)) (del_connections st e)
      else del_connections st e)"
proof (induction es arbitrary: st)
  case (Cons f es)
  have "del_connections (push_to_executor len enqueued f st) e =
     (if e = f then map_option (\<lambda>conn. snd (push_commands len (unwrap_or (enqueued e) []) conn)) (del_connections st e)
      else del_connections st e)"
    by (auto simp: push_to_executor_def split: option.split)
  then show ?case using Cons by auto
qed simp

lemma fold_push_fields [simp]:
  "del_outbox (fold (push_to_executor len enqueued) es st) = del_outbox st"
  "del_intents (fold (push_to_executor len enqueued) es st) = del_intents st"
  "del_intent_seq (fold (push_to_executor len enqueued) es st) = del_intent_seq st"
  by (induction es arbitrary: st) (simp_all add: push_to_executor_def split: option.split)

lemma commands_for_absent: "e \<notin> fst ` set items \<Longrightarrow> commands_for e items = []"
  by (auto simp: commands_for_def filter_empty_conv)

lemma set_commands_for: "set (commands_for e items) \<subseteq> snd ` set items"
  by (auto simp: commands_for_def)

lemma items_ok_take: "items_ok len (intent_commands items) \<Longrightarrow> items_ok len (intent_commands (take n items))"
  by (auto simp: items_ok_def intent_commands_def dest: in_set_takeD)

lemma room_for_less: "room_for k m \<Longrightarrow> j \<le> k \<Longrightarrow> room_for j m"
  unfolding room_for_def by (meson add_le_cancel_left order.strict_trans1)

lemma emit_page_exact:
  assumes ok: "delivery_ok len st" and ord: "enumerates ord"
    and room: "room_for (length (intent_items (del_intents st))) (del_outbox st)"
  defines "taken \<equiv> take page_size (intent_items (del_intents st))"
  shows "\<exists>st'. emit_page ord len True st = (taken \<noteq> [], st') \<and> delivery_ok len st' \<and>
    del_outbox st' = append_all (intent_commands taken) (del_outbox st) \<and>
    intent_items (del_intents st') = drop page_size (intent_items (del_intents st))"
proof -
  let ?m = "del_outbox st" and ?items = "intent_items (del_intents st)"
  let ?txn = "\<lparr>mv_outbox = ?m, mv_intents = del_intents st, mv_next = Map.empty, mv_enqueued = Map.empty, mv_moved = 0\<rparr>"
  have o: "outbox_ok len ?m" and i: "intents_ok len (del_intents st) (del_intent_seq st)"
    using ok by (simp_all add: delivery_ok_def)
  have c0: "completed ?txn = ?m" by (rule ext) (simp add: completed_def split: option.split)
  let ?tk = "take (page_size - mv_moved ?txn) ?items"
  have tk: "?tk = taken" by (simp add: taken_def)
  obtain txn where a: "move_loop page_size ?items ?txn = Ok txn"
    "completed txn = append_all (intent_commands ?tk) (completed ?txn)"
    "mv_intents txn = (\<lambda>k. if k \<in> fst ` set ?tk then None else mv_intents ?txn k)"
    "dom (mv_next txn) = dom (mv_next ?txn) \<union> fst ` set (intent_commands ?tk)"
    "dom (mv_enqueued txn) = dom (mv_enqueued ?txn) \<union> fst ` set (intent_commands ?tk)"
    "\<forall>e. enqueued_list txn e = enqueued_list ?txn e @ renumber (next_of (completed ?txn) e) (commands_for e (intent_commands ?tk))"
    using move_loop_exact [of len ?txn ?items page_size, unfolded c0, OF o items_ok_intents [OF i] room _ distinct_intent_items [OF i]]
    unfolding c0 by simp metis
  note t = a(1) a(2) [unfolded tk c0] a(3) [unfolded move_txn.simps diff_zero, folded taken_def] a(4) [unfolded tk, simplified] a(5) [unfolded tk, simplified]
  have t6: "unwrap_or (mv_enqueued txn e) [] = renumber (next_of ?m e) (commands_for e (intent_commands taken))" for e
    using spec [OF a(6), of e] unfolding tk c0 by (simp add: enqueued_list_def unwrap_or_def)
  have tok: "items_ok len (intent_commands taken)" "room_for (length (intent_commands taken)) ?m"
    unfolding taken_def using items_ok_take [OF items_ok_intents [OF i]] room_for_less [OF room] by simp_all
  note all = append_all_exact [OF o tok]
  let ?es = "ord (fst ` set (intent_commands taken))"
  have es: "set ?es = fst ` set (intent_commands taken)" "distinct ?es" using enumeratesD [OF ord] by auto
  let ?st = "decrement_scheduler_command_intent_backlog (mv_moved txn)
    (st\<lparr>del_outbox := append_all (intent_commands taken) ?m, del_intents := mv_intents txn\<rparr>)"
  have move: "move_scheduler_command_intents_to_outbox ord True page_size st = (Ok (mv_enqueued txn), ?st)"
    using completed_eq [of ?es txn] es t by (simp add: move_scheduler_command_intents_to_outbox_def page_size_def)
  let ?st' = "fold (push_to_executor len (mv_enqueued txn)) ?es ?st"
  have push: "push_commands len (unwrap_or (mv_enqueued txn e) []) conn =
      (Ok (), conn\<lparr>con_pending_commands := con_pending_commands conn @ renumber (next_of ?m e) (commands_for e (intent_commands taken))\<rparr>)"
    for e and conn :: "'a executor_connection"
    unfolding t6
  proof (rule push_fits)
    fix c
    assume "c \<in> set (renumber (next_of ?m e) (commands_for e (intent_commands taken)))"
    then show "fits_poll len c"
      using fits_renumber [of "commands_for e (intent_commands taken)" len c] tok(1) set_commands_for
      unfolding items_ok_def by blast
  qed
  have conns: "del_connections ?st' e = map_option (\<lambda>conn. conn\<lparr>con_pending_commands := con_pending_commands conn @
      renumber (next_of ?m e) (commands_for e (intent_commands taken))\<rparr>) (del_connections st e)" for e
    using commands_for_absent [of e "intent_commands taken"] es
    by (simp add: fold_push_to_executor push option.map_ident)
  have ints: "intents_ok len (mv_intents txn) (del_intent_seq st)" "intent_items (mv_intents txn) = drop page_size ?items"
    unfolding t(3) taken_def using intents_ok_remove [OF i] intent_items_remove [OF i] by blast+
  have "delivery_ok len ?st'"
    using ok all ints(1) by (auto simp: delivery_ok_def conns)
  moreover have "emit_page ord len True st = (taken \<noteq> [], if taken \<noteq> [] then ?st' else ?st)"
    using t(5) by (simp add: emit_page_def move) (simp add: intent_commands_def)
  moreover have "?st' = ?st" if "taken = []" using enumeratesD [OF ord, of "{}"] that by simp
  ultimately show ?thesis using ints(2) by (intro exI [of _ ?st']) auto
qed

lemma append_all_append: "append_all (xs @ ys) m = append_all ys (append_all xs m)"
  by (simp add: append_all_def)

lemma intent_commands_append: "intent_commands (xs @ ys) = intent_commands xs @ intent_commands ys"
  by (simp add: intent_commands_def)

lemma room_for_append_all:
  assumes "outbox_ok len m" "items_ok len items" "room_for (length items + k) m"
  shows "room_for k (append_all items m)"
  unfolding room_for_def
proof
  fix e
  let ?j = "length (commands_for e items)"
  have r: "unat (next_of m e) + (length items + k) < 2 ^ 64" by (rule room_forD [OF assms(3)])
  have j: "?j \<le> length items" by (simp add: commands_for_def)
  then have "unat (next_of m e + of_nat ?j) = unat (next_of m e) + ?j"
    using r by (simp add: unat_word_ariths unat_of_nat)
  moreover have "next_of (append_all items m) e = next_of m e + of_nat ?j"
    using next_of_append_all [OF assms(1,2) room_for_less [OF assms(3)]] by simp
  ultimately show "unat (next_of (append_all items m) e) + k < 2 ^ 64" using r j by simp
qed

lemma emit_page_fails: "emit_page ord len False st = (False, st)"
  by (simp add: emit_page_def move_scheduler_command_intents_to_outbox_def page_size_def)

text \<open>
  The drain ends.  It has moved a prefix of the intents, all of them when the database works throughout.
\<close>

lemma drain_exact:
  assumes "delivery_ok len st" "enumerates ord" "room_for (length (intent_items (del_intents st))) (del_outbox st)"
  shows "\<exists>st' n. drain_and_emit_scheduler_command_intents ord len io i st = Some st' \<and> delivery_ok len st' \<and>
    del_outbox st' = append_all (intent_commands (take n (intent_items (del_intents st)))) (del_outbox st) \<and>
    intent_items (del_intents st') = drop n (intent_items (del_intents st)) \<and>
    ((\<forall>j. io j) \<longrightarrow> length (intent_items (del_intents st)) \<le> n)"
  using assms
proof (induction "length (intent_items (del_intents st))" arbitrary: st i rule: less_induct)
  case less
  let ?items = "intent_items (del_intents st)"
  show ?case
  proof (cases "io i")
    case False
    then have "drain_and_emit_scheduler_command_intents ord len io i st = Some st"
      by (subst drain_and_emit_scheduler_command_intents.simps) (simp add: emit_page_fails)
    then show ?thesis using less.prems(1) False by (intro exI [of _ st] exI [of _ 0]) auto
  next
    case True
    obtain st1 where p: "emit_page ord len True st = (take page_size ?items \<noteq> [], st1)" "delivery_ok len st1"
      "del_outbox st1 = append_all (intent_commands (take page_size ?items)) (del_outbox st)"
      "intent_items (del_intents st1) = drop page_size ?items"
      using emit_page_exact [OF less.prems] by blast
    show ?thesis
    proof (cases "?items = []")
      case True
      then have "drain_and_emit_scheduler_command_intents ord len io i st = Some st1"
        using \<open>io i\<close> p(1) by (subst drain_and_emit_scheduler_command_intents.simps) simp
      then show ?thesis using p(2-) True by (intro exI [of _ st1] exI [of _ 0]) simp
    next
      case False
      have o: "outbox_ok len (del_outbox st)" and i: "intents_ok len (del_intents st) (del_intent_seq st)"
        using less.prems(1) by (simp_all add: delivery_ok_def)
      have "room_for (length (drop page_size ?items)) (del_outbox st1)"
        unfolding p(3) using less.prems(3)
        by (intro room_for_append_all [OF o items_ok_take [OF items_ok_intents [OF i]]]) (erule room_for_less, simp)
      then obtain st2 n where d: "drain_and_emit_scheduler_command_intents ord len io (i + 1) st1 = Some st2" "delivery_ok len st2"
        "del_outbox st2 = append_all (intent_commands (take n (drop page_size ?items))) (del_outbox st1)"
        "intent_items (del_intents st2) = drop n (drop page_size ?items)"
        "(\<forall>j. io j) \<longrightarrow> length (drop page_size ?items) \<le> n"
        using less.hyps [of st1 "i + 1"] p(2,4) False less.prems(2) by (auto simp: page_size_def)
      have "drain_and_emit_scheduler_command_intents ord len io i st = Some st2"
        using \<open>io i\<close> p(1) False d(1) by (subst drain_and_emit_scheduler_command_intents.simps) (simp add: page_size_def)
      moreover have "del_outbox st2 = append_all (intent_commands (take (page_size + n) ?items)) (del_outbox st)"
        unfolding d(3) p(3) take_add intent_commands_append append_all_append ..
      ultimately show ?thesis
        using d(2,4,5) by (intro exI [of _ st2] exI [of _ "page_size + n"]) (auto simp: add.commute)
    qed
  qed
qed

subsection \<open>Polls, registrations and restarts\<close>

lemma update_connection_fields [simp]:
  "del_outbox (update_connection e f st) = del_outbox st" "del_intents (update_connection e f st) = del_intents st"
  "del_intent_seq (update_connection e f st) = del_intent_seq st"
  "del_connections (update_connection e f st) g = (if g = e then map_option f (del_connections st e) else del_connections st g)"
  by (simp_all add: update_connection_def)

lemma set_next_result_seq_fields [simp]:
  "del_outbox (set_next_result_seq e n st) = del_outbox st" "del_intents (set_next_result_seq e n st) = del_intents st"
  "del_intent_seq (set_next_result_seq e n st) = del_intent_seq st"
  "del_connections (set_next_result_seq e n st) = del_connections st"
  by (simp_all add: set_next_result_seq_def)

lemma delivery_ok_update:
  "delivery_ok len st \<Longrightarrow> (\<And>conn. con_pending_commands (f conn) = con_pending_commands conn) \<Longrightarrow>
   delivery_ok len (update_connection e f st)"
  by (auto simp: delivery_ok_def split: if_splits)

text \<open>What is pending once a poll has acknowledged.\<close>

definition after_ack :: "bool \<Rightarrow> u64 option \<Rightarrow> command list \<Rightarrow> command list" where
  "after_ack io acked_seq cs =
     (case acked_seq of None \<Rightarrow> cs | Some a \<Rightarrow> if io then filter (\<lambda>c. a < cmd_seq c) cs else cs)"

definition ack_valid :: "u64 option \<Rightarrow> executor_id \<Rightarrow> 'e delivery \<Rightarrow> bool" where
  "ack_valid acked_seq eid st \<longleftrightarrow> (case acked_seq of None \<Rightarrow> True | Some a \<Rightarrow> a < next_of (del_outbox st) eid)"

lemma ack_commands_exact:
  assumes ok: "delivery_ok len st" and conn: "del_connections st e = Some conn" and ack: "ack_valid acked_seq e st"
  shows "delivery_ok len (ack_commands io e acked_seq st) \<and>
    del_connections (ack_commands io e acked_seq st) e \<noteq> None \<and>
    persisted (del_outbox (ack_commands io e acked_seq st)) e = after_ack io acked_seq (persisted (del_outbox st) e)"
proof (cases acked_seq)
  case None
  then show ?thesis using ok conn by (simp add: ack_commands_def after_ack_def)
next
  case (Some a)
  have o: "outbox_ok len (del_outbox st)" and e: "bar_free e" and a: "a < next_of (del_outbox st) e"
    using ok conn ack Some by (auto simp: delivery_ok_def ack_valid_def)
  show ?thesis
  proof (cases io)
    case False
    then show ?thesis
      using ok conn Some by (simp add: ack_commands_def after_ack_def ack_executor_commands_def read_executor_cmd_ack_def)
  next
    case True
    obtain m where m: "ack_executor_commands True e a st = (Ok (), st\<lparr>del_outbox := m\<rparr>)" "outbox_ok len m"
      "\<And>f. persisted m f = (if f = e then filter (\<lambda>c. a < cmd_seq c) (persisted (del_outbox st) f) else persisted (del_outbox st) f)"
      using ack_exact [OF o e a] by metis
    have "delivery_ok len (update_connection e (drain_commands_up_to a) (st\<lparr>del_outbox := m\<rparr>))"
      using ok m(2,3) by (auto simp: delivery_ok_def drain_commands_up_to_def split: if_splits)
    then show ?thesis using True Some conn m(1,3) by (simp add: ack_commands_def after_ack_def)
  qed
qed

lemma poll_now_exact:
  assumes ok: "delivery_ok len st" and conn: "del_connections st e = Some conn"
  shows "poll_commands_now len e st =
    (capped_clone_by_encoded_size len (persisted (del_outbox st) e) max_poll_response_bytes, st)"
proof -
  have p: "con_pending_commands conn = persisted (del_outbox st) e" and o: "outbox_ok len (del_outbox st)"
    using ok conn by (auto simp: delivery_ok_def)
  have "dropWhile (\<lambda>c. max_poll_response_bytes < len c) (persisted (del_outbox st) e) = persisted (del_outbox st) e"
    using persisted_seq [OF o] by (intro dropWhile_fits) blast
  then have "clone_commands_capped len max_poll_response_bytes conn =
      (capped_clone_by_encoded_size len (persisted (del_outbox st) e) max_poll_response_bytes, conn)"
    using p [symmetric] by (simp add: clone_commands_capped_def)
  then show ?thesis using conn by (simp add: poll_commands_now_def fun_upd_idem)
qed

lemma poll_exact:
  fixes io :: bool
  assumes ok: "delivery_ok len st" and conn: "del_connections st e = Some conn" and ack: "ack_valid acked_seq e st"
  defines "pending \<equiv> after_ack io acked_seq (persisted (del_outbox st) e)"
  shows "fst (long_poll_commands len io e acked_seq st) = capped_clone_by_encoded_size len pending max_poll_response_bytes"
    "delivery_ok len (snd (long_poll_commands len io e acked_seq st))"
    "persisted (del_outbox (snd (long_poll_commands len io e acked_seq st))) e = pending"
proof -
  let ?st = "update_connection e (\<lambda>conn. snd (observe_command_ack acked_seq conn)) st"
  have ok1: "delivery_ok len ?st"
    using ok by (rule delivery_ok_update) (simp add: observe_command_ack_def Let_def)
  have "ack_valid acked_seq e ?st" using ack by (simp add: ack_valid_def split: option.split_asm)
  moreover obtain conn1 where "del_connections ?st e = Some conn1" using conn by simp
  ultimately have a: "delivery_ok len (ack_commands io e acked_seq ?st)"
    "del_connections (ack_commands io e acked_seq ?st) e \<noteq> None"
    "persisted (del_outbox (ack_commands io e acked_seq ?st)) e = pending"
    using ack_commands_exact [OF ok1, of e conn1 acked_seq io] by (simp_all add: pending_def)
  obtain conn2 where c2: "del_connections (ack_commands io e acked_seq ?st) e = Some conn2" using a(2) by blast
  have l: "long_poll_commands len io e acked_seq st = poll_commands_now len e (ack_commands io e acked_seq ?st)"
    using conn by (simp add: long_poll_commands_def)
  note poll_now_exact [OF a(1) c2]
  then show "fst (long_poll_commands len io e acked_seq st) = capped_clone_by_encoded_size len pending max_poll_response_bytes"
    "delivery_ok len (snd (long_poll_commands len io e acked_seq st))"
    "persisted (del_outbox (snd (long_poll_commands len io e acked_seq st))) e = pending"
    using a l by simp_all
qed

lemma long_poll_keeps:
  assumes "delivery_ok len st" "del_connections st e = Some conn" "ack_valid acked_seq e st"
  shows "\<exists>conn'. del_connections (snd (long_poll_commands len io e acked_seq st)) e = Some conn'"
proof -
  let ?st = "ack_commands io e acked_seq (update_connection e (\<lambda>conn. snd (observe_command_ack acked_seq conn)) st)"
  have "del_connections ?st e \<noteq> None"
    using assms(2) by (auto simp: ack_commands_def ack_executor_commands_def Let_def split: option.split sum.split)
  then show ?thesis
    using assms(2) by (auto simp: long_poll_commands_def poll_commands_now_def Let_def split: prod.split)
qed

lemma long_poll_results_ok: "delivery_ok len st \<Longrightarrow> delivery_ok len (snd (long_poll_results rlen e acked_seq st))"
  by (auto simp: delivery_ok_def long_poll_results_def poll_results_now_def clone_results_capped_def drain_results_up_to_def
      Let_def split: option.splits if_splits)

lemma build_connection: "outbox_ok len (del_outbox st) \<Longrightarrow>
  con_pending_commands (build_executor_connection True e st) = persisted (del_outbox st) e"
  by (simp add: build_executor_connection_def load_pending replace_commands_def)

lemma reset_ok:
  assumes ok: "delivery_ok len st" and e: "bar_free e"
  shows "delivery_ok len (update_connection e reset_for_full_sync (snd (reset_executor_command_outbox True e st)))"
proof -
  have o: "outbox_ok len (del_outbox st)" using ok by (simp add: delivery_ok_def)
  obtain m where "reset_executor_command_outbox True e st = (Ok (), st\<lparr>del_outbox := m\<rparr>)" "outbox_ok len m"
    "\<And>f. persisted m f = (if f = e then [] else persisted (del_outbox st) f)"
    using reset_exact [OF o e] by metis
  then show ?thesis using ok e by (auto simp: delivery_ok_def reset_for_full_sync_def split: if_splits)
qed

lemma register_ok:
  assumes ok: "delivery_ok len st" and e: "bar_free e"
  shows "delivery_ok len (register_executor_connection True e st)"
proof (cases "del_connections st e")
  case None
  have "con_pending_commands (build_executor_connection True e st) = persisted (del_outbox st) e"
    using ok by (intro build_connection [of len]) (simp add: delivery_ok_def)
  then show ?thesis
    using ok e None
    by (auto simp: register_executor_connection_def ensure_executor_connection_internal_def Let_def delivery_ok_def
        restore_next_result_seq_def split: if_splits)
next
  case (Some conn)
  then have "register_executor_connection True e st =
      set_next_result_seq e 1 (update_connection e reset_for_full_sync (snd (reset_executor_command_outbox True e st)))"
    by (simp add: register_executor_connection_def ensure_executor_connection_internal_def)
  then show ?thesis using reset_ok [OF ok e] by (simp add: delivery_ok_def)
qed

lemma deregister_ok:
  assumes ok: "delivery_ok len st"
  shows "delivery_ok len (deregister_executor_connection io e st)"
proof (cases "del_connections st e")
  case None
  then show ?thesis using ok by (simp add: deregister_executor_connection_def)
next
  case (Some conn)
  let ?st = "set_next_result_seq e (max (con_next_result_seq conn) 1) (st\<lparr>del_connections := (del_connections st)(e := None)\<rparr>)"
  have ok1: "delivery_ok len ?st" using ok by (auto simp: delivery_ok_def split: if_splits)
  have e: "bar_free e" using ok Some by (simp add: delivery_ok_def)
  have d: "deregister_executor_connection io e st = snd (reset_executor_command_outbox io e ?st)"
    using Some by (simp add: deregister_executor_connection_def Let_def)
  show ?thesis
  proof (cases io)
    case False
    then show ?thesis using ok1 d by (simp add: reset_executor_command_outbox_def)
  next
    case True
    have o: "outbox_ok len (del_outbox ?st)" using ok1 by (simp add: delivery_ok_def)
    obtain m where m: "reset_executor_command_outbox True e ?st = (Ok (), ?st\<lparr>del_outbox := m\<rparr>)" "outbox_ok len m"
      "\<And>f. persisted m f = (if f = e then [] else persisted (del_outbox ?st) f)"
      using reset_exact [OF o e] by metis
    have "delivery_ok len (?st\<lparr>del_outbox := m\<rparr>)"
      using ok1 m(2,3) by (auto simp: delivery_ok_def split: if_splits)
    then show ?thesis using True d m(1) by simp
  qed
qed

lemma startup_fold:
  "case fst (foldl startup_intent (x, c) (map scheduler_command_intent_key ns)) of
     None \<Rightarrow> x = None \<and> ns = []
   | Some n \<Rightarrow> (\<forall>k \<in> set ns \<union> set_option x. k \<le> n) \<and> n \<in> set ns \<union> set_option x"
proof (induction ns arbitrary: x c)
  case Nil
  then show ?case by (cases x) simp_all
next
  case (Cons k ns)
  let ?x = "case x of None \<Rightarrow> k | Some h \<Rightarrow> max h k"
  have s: "startup_intent (x, c) (scheduler_command_intent_key k) = (Some ?x, c + 1)"
    by (simp add: startup_intent_def)
  show ?case
    using Cons.IH [where x = "Some ?x" and c = "c + 1"] unfolding list.map foldl_Cons s
    by (cases x) (auto simp: max_def split: option.splits if_splits)
qed

lemma startup_ok:
  assumes ok: "intents_ok len intents counter"
  obtains first pending where "read_scheduler_command_intent_startup_state True intents = Ok (first, pending)" "intents_ok len intents first"
proof -
  let ?ks = "sorted_list_of_set (dom intents)"
  have "\<forall>k \<in> set ?ks. \<exists>n < counter. k = scheduler_command_intent_key n"
    using ok finite_intents [OF ok] by (simp add: intents_ok_def)
  then obtain num where num: "\<And>k. k \<in> set ?ks \<Longrightarrow> num k < counter \<and> k = scheduler_command_intent_key (num k)" by metis
  let ?ns = "map num ?ks"
  have keys: "prefix_scan intents ''intent|'' = map scheduler_command_intent_key ?ns"
    using num by (simp add: prefix_scan_intents [OF ok] map_idI comp_def)
  obtain h pending where f: "foldl startup_intent (None, 0) (map scheduler_command_intent_key ?ns) = (h, pending)" by fastforce
  define first where "first = (case h of None \<Rightarrow> 0 | Some s \<Rightarrow> saturating_add s (1 :: u64))"
  have r: "read_scheduler_command_intent_startup_state True intents = Ok (first, pending)"
    unfolding read_scheduler_command_intent_startup_state_def keys f first_def by simp
  have "n < first" if "n \<in> set ?ns" for n
  proof (cases h)
    case None
    then show ?thesis using startup_fold [of None ?ns 0] that unfolding f by simp
  next
    case (Some s)
    then have s: "n \<le> s" "s < counter" using startup_fold [of None ?ns 0] that num unfolding f by auto
    have "unat s + 1 < 2 ^ 64"
      using s(2) unsigned_less [of counter, where 'a = nat] by (simp add: word_less_nat_alt)
    then show ?thesis using s(1) Some saturating_add_one [of s] by (simp add: first_def)
  qed
  then have "\<exists>n < first. k = scheduler_command_intent_key n" if "k \<in> dom intents" for k
    using num [of k] that finite_intents [OF ok] by (intro exI [of _ "num k"]) simp
  then have "intents_ok len intents first" using ok by (simp add: intents_ok_def)
  then show ?thesis using that r by blast
qed

lemma restart_ok:
  assumes ok: "delivery_ok len st"
  obtains st' where "delivery_new True st = Ok st'" "delivery_ok len st'" "del_outbox st' = del_outbox st"
proof -
  have "intents_ok len (del_intents st) (del_intent_seq st)" using ok by (simp add: delivery_ok_def)
  then obtain first pending where "read_scheduler_command_intent_startup_state True (del_intents st) = Ok (first, pending)"
    "intents_ok len (del_intents st) first" by (rule startup_ok)
  then show ?thesis using that ok by (simp add: delivery_new_def delivery_ok_def result_simps)
qed

section \<open>Runs\<close>

text \<open>
  The delivery of commands as a sequence of operations.  Every operation may find the database failing,
  except registrations, resets and restarts; commands fit a response, identifiers of executors have no bar, an executor
  acknowledges no number that was not given out and no sequence number overflows.
\<close>

inductive delivery_step :: "(command \<Rightarrow> nat) \<Rightarrow> 'e delivery \<Rightarrow> 'e delivery \<Rightarrow> bool" for len where
  Write: "list_all (intent_ok len) (us @ xs) \<Longrightarrow> unat (del_intent_seq st) + length (us @ xs) < 2 ^ 64 \<Longrightarrow>
    delivery_step len st (snd (write_intents put_ok commit_ok us xs st))"
| Drain: "enumerates ord \<Longrightarrow> room_for (length (intent_items (del_intents st))) (del_outbox st) \<Longrightarrow>
    drain_and_emit_scheduler_command_intents ord len io 0 st = Some st' \<Longrightarrow> delivery_step len st st'"
| Enqueue: "bar_free e \<Longrightarrow> list_all (fits_poll len) cmds \<Longrightarrow> room_for (length cmds) (del_outbox st) \<Longrightarrow>
    delivery_step len st (snd (enqueue_executor_commands len io e cmds st))"
| Reset: "bar_free e \<Longrightarrow>
    delivery_step len st (update_connection e reset_for_full_sync (snd (reset_executor_command_outbox True e st)))"
| Poll: "ack_valid acked_seq e st \<Longrightarrow> delivery_step len st (snd (long_poll_commands len io e acked_seq st))"
| Poll_Results: "delivery_step len st (snd (long_poll_results rlen e acked_seq st))"
| Push_Result: "delivery_step len st (update_connection e (\<lambda>conn. snd (push_result rlen entry conn)) st)"
| Register: "bar_free e \<Longrightarrow> delivery_step len st (register_executor_connection True e st)"
| Deregister: "delivery_step len st (deregister_executor_connection io e st)"
| Restart: "delivery_new True st = Ok st' \<Longrightarrow> delivery_step len st st'"

lemma delivery_step_ok:
  assumes step: "delivery_step len st st'" and ok: "delivery_ok len st"
  shows "delivery_ok len st'"
  using step
proof cases
  case (Write us xs put_ok commit_ok)
  then show ?thesis using write_intents_exact [OF ok] by simp
next
  case (Drain ord io)
  then show ?thesis using drain_exact [OF ok Drain(1,2), of io 0] by auto
next
  case (Enqueue e cmds io)
  then show ?thesis using delivery_ok_enqueue [OF ok Enqueue(2) _ Enqueue(4)] by (simp add: list_all_iff)
next
  case (Reset e)
  then show ?thesis using reset_ok [OF ok] by simp
next
  case (Poll acked_seq e io)
  then show ?thesis
    using poll_exact(2) [OF ok] ok by (cases "del_connections st e") (simp_all add: long_poll_commands_def)
next
  case (Poll_Results rlen e acked_seq)
  then show ?thesis using long_poll_results_ok [OF ok] by simp
next
  case (Push_Result e rlen entry)
  show ?thesis unfolding Push_Result using ok by (rule delivery_ok_update) (simp add: push_result_def Let_def)
next
  case (Register e)
  then show ?thesis using register_ok [OF ok] by simp
next
  case (Deregister io e)
  then show ?thesis using deregister_ok [OF ok] by simp
next
  case Restart
  then show ?thesis using restart_ok [OF ok] by (metis Inr_inject)
qed

definition delivery_empty :: "'e delivery" where
  "delivery_empty =
     \<lparr>del_outbox = Map.empty, del_intents = Map.empty, del_routes = Map.empty, del_connections = Map.empty,
      del_executor_next_result_seq = Map.empty, del_intent_seq = 0, del_intent_backlog = 0\<rparr>"

lemma delivery_empty_ok: "delivery_ok len delivery_empty"
  by (simp add: delivery_ok_def delivery_empty_def outbox_ok_def intents_ok_def next_of_def acked_of_def)

lemma delivery_run_ok: "(delivery_step len)\<^sup>*\<^sup>* delivery_empty st \<Longrightarrow> delivery_ok len st"
  by (induction rule: rtranclp_induct) (simp_all add: delivery_empty_ok delivery_step_ok)

section \<open>Properties\<close>

lemma persisted_seqs:
  "outbox_ok len m \<Longrightarrow> map cmd_seq (persisted m e) = filter (\<lambda>n. acked_of m e < n) (sorted_list_of_set (seqs_of m e))"
  unfolding persisted_def map_map comp_def by (rule map_idI) (simp add: outbox_ok_command)

lemma persisted_sorted: "outbox_ok len m \<Longrightarrow> sorted_wrt (<) (map cmd_seq (persisted m e))"
  by (simp add: persisted_seqs sorted_wrt_filter)

lemma sorted_after_ack: "sorted_wrt (<) (map cmd_seq cs) \<Longrightarrow> sorted_wrt (<) (map cmd_seq (after_ack io acked_seq cs))"
  by (auto simp: after_ack_def sorted_wrt_map intro: sorted_wrt_filter split: option.split)

lemma set_after_ack: "set (after_ack io acked_seq cs) \<subseteq> set cs"
  by (auto simp: after_ack_def split: option.splits if_splits)

lemma commands_for_intents:
  "commands_for e (intent_commands items) = map sci_command (filter (\<lambda>i. sci_executor_id i = e) (map snd items))"
  by (induction items) (simp_all add: commands_for_def intent_commands_def)

text \<open>
  A server with one executor, before and after a command for it is enqueued.  Every message counts 64 bytes.
\<close>

definition example_registered :: "unit delivery" where
  "example_registered = register_executor_connection True ''e1'' delivery_empty"

definition example_command :: command where
  "example_command = \<lparr>cmd_seq = 0, cmd_command = Some (KillAllocation ''a1'')\<rparr>"

definition example_enqueued :: "unit delivery" where
  "example_enqueued = snd (enqueue_executor_commands (\<lambda>_. 64) True ''e1'' [example_command] example_registered)"

lemma example_registered_run: "(delivery_step (\<lambda>_. 64))\<^sup>*\<^sup>* delivery_empty example_registered"
  unfolding example_registered_def by (rule r_into_rtranclp) (rule Register, simp add: bar_free_def)

lemma example_fits_poll: "fits_poll (\<lambda>_. 64) c"
  by (simp add: fits_poll_def max_poll_response_bytes_def)

lemma example_registered_outbox:
  "del_outbox example_registered = Map.empty" "del_intents example_registered = Map.empty"
  "del_intent_seq example_registered = 0" "\<exists>conn. del_connections example_registered ''e1'' = Some conn"
  by (simp_all add: example_registered_def register_executor_connection_def ensure_executor_connection_internal_def
      delivery_empty_def Let_def)

lemma room_for_empty: "k < 2 ^ 64 - 1 \<Longrightarrow> room_for k Map.empty"
  by (simp add: room_for_def next_of_def)

lemma example_enqueued_run: "(delivery_step (\<lambda>_. 64))\<^sup>*\<^sup>* delivery_empty example_enqueued"
  unfolding example_enqueued_def
  by (rule rtranclp.rtrancl_into_rtrancl [OF example_registered_run], rule Enqueue)
    (simp_all add: bar_free_def example_fits_poll example_registered_outbox room_for_empty)

lemma example_enqueued_pending:
  obtains conn where "del_connections example_enqueued ''e1'' = Some conn"
    "con_pending_commands conn = [example_command\<lparr>cmd_seq := 1\<rparr>]" "next_of (del_outbox example_enqueued) ''e1'' = 2"
proof -
  have ok: "delivery_ok (\<lambda>_. 64) example_registered" by (rule delivery_run_ok [OF example_registered_run])
  have room: "room_for (length [example_command]) (del_outbox example_registered)"
    by (simp add: example_registered_outbox room_for_empty)
  have e: "bar_free ''e1''" by (simp add: bar_free_def)
  note ex = enqueue_exact [OF ok e _ room, simplified, OF example_fits_poll]
  obtain conn where c: "del_connections example_registered ''e1'' = Some conn" using example_registered_outbox by blast
  then have "con_pending_commands conn = persisted Map.empty ''e1''"
    using ok by (auto simp: delivery_ok_def example_registered_outbox)
  then have p: "con_pending_commands conn = []" by (simp add: persisted_def seqs_of_def)
  have n: "next_of Map.empty ''e1'' = 1" by (simp add: next_of_def)
  have "next_of (append_command ''e1'' example_command Map.empty) ''e1'' = 2"
    by (simp add: n saturating_add_def)
  then show ?thesis
    using that ex c p n by (simp add: example_enqueued_def example_registered_outbox)
qed

text \<open>
  C21: Whatever commands were queued, acknowledged and polled and however often executors and the server came
  and went, the buffer of a connected executor holds what a restarted server would rebuild: after a restart the
  executor has no connection, and registering it fills its buffer with the same commands in the same order.
  The runs are those of \<open>delivery_step\<close>: commands fit a response, identifiers of executors have no bar,
  acknowledged numbers were given out, and the database works during registrations, resets and restarts.
\<close>

theorem restart_rebuilds_buffers:
  assumes run: "(delivery_step len)\<^sup>*\<^sup>* delivery_empty st" and conn: "del_connections st e = Some conn"
  shows "\<exists>st' conn'. delivery_new True st = Ok st' \<and> del_connections st' e = None \<and>
    del_connections (register_executor_connection True e st') e = Some conn' \<and>
    con_pending_commands conn' = con_pending_commands conn"
proof -
  have ok: "delivery_ok len st" by (rule delivery_run_ok [OF run])
  obtain st' where r: "delivery_new True st = Ok st'" "delivery_ok len st'" "del_outbox st' = del_outbox st"
    using restart_ok [OF ok] .
  have e: "bar_free e" and p: "con_pending_commands conn = persisted (del_outbox st) e"
    using ok conn by (auto simp: delivery_ok_def)
  have none: "del_connections st' e = None"
    using r(1) by (auto simp: delivery_new_def result_simps and_then_def split: sum.splits)
  have o: "outbox_ok len (del_outbox st')" using r(2) by (simp add: delivery_ok_def)
  have "del_connections (register_executor_connection True e st') e =
      Some (restore_next_result_seq 1 (build_executor_connection True e st'))"
    using none by (simp add: register_executor_connection_def ensure_executor_connection_internal_def Let_def)
  then show ?thesis
    using r none p build_connection [OF o, of e] by (simp add: restore_next_result_seq_def)
qed

theorem restart_rebuilds_buffers_witness:
  "\<exists>st' conn'. delivery_new True example_enqueued = Ok st' \<and> del_connections st' ''e1'' = None \<and>
     del_connections (register_executor_connection True ''e1'' st') ''e1'' = Some conn' \<and>
     con_pending_commands conn' = [example_command\<lparr>cmd_seq := 1\<rparr>]"
proof -
  obtain conn where c: "del_connections example_enqueued ''e1'' = Some conn"
    "con_pending_commands conn = [example_command\<lparr>cmd_seq := 1\<rparr>]"
    by (rule example_enqueued_pending)
  show ?thesis using restart_rebuilds_buffers [OF example_enqueued_run c(1)] unfolding c(2) .
qed

text \<open>
  C40: The answer of a poll is the longest prefix, within eight mebibytes, of the commands pending above the
  acknowledged number, with strictly increasing numbers; all pending commands count if the
  acknowledgement cannot be written.  It is empty only if nothing is pending, and the commands it does not
  carry stay pending.  The state is one the runs of \<open>delivery_step\<close> reach, and the acknowledged number
  was given out.
\<close>

theorem poll_response_exact:
  fixes io :: bool
  assumes run: "(delivery_step len)\<^sup>*\<^sup>* delivery_empty st" and conn: "del_connections st e = Some conn"
    and ack: "ack_valid acked_seq e st"
  defines "pending \<equiv> after_ack io acked_seq (con_pending_commands conn)"
  shows "\<exists>k conn'. fst (long_poll_commands len io e acked_seq st) = take k pending \<and>
    sum_list (map len (take k pending)) \<le> max_poll_response_bytes \<and>
    (k \<ge> length pending \<or> max_poll_response_bytes < sum_list (map len (take (Suc k) pending))) \<and>
    (pending = [] \<or> 0 < k) \<and> sorted_wrt (<) (map cmd_seq pending) \<and>
    del_connections (snd (long_poll_commands len io e acked_seq st)) e = Some conn' \<and> con_pending_commands conn' = pending"
proof -
  have ok: "delivery_ok len st" by (rule delivery_run_ok [OF run])
  have p: "con_pending_commands conn = persisted (del_outbox st) e" and o: "outbox_ok len (del_outbox st)"
    using ok conn by (auto simp: delivery_ok_def)
  note poll = poll_exact [OF ok conn ack, of io, folded p, folded pending_def]
  have fit: "fits_poll len c" if "c \<in> set pending" for c
    using that set_after_ack [of io acked_seq] persisted_seq [OF o] unfolding pending_def p by blast
  have "pending = [] \<or> len (hd pending) \<le> max_poll_response_bytes"
    using fits_poll_len [OF fit] by (cases pending) simp_all
  then obtain k where k: "capped_clone_by_encoded_size len pending max_poll_response_bytes = take k pending"
    "sum_list (map len (take k pending)) \<le> max_poll_response_bytes" "pending = [] \<or> 0 < k"
    "k \<ge> length pending \<or> max_poll_response_bytes < sum_list (map len (take (Suc k) pending))"
    by (rule capped_clone_exact)
  have s: "sorted_wrt (<) (map cmd_seq pending)"
    unfolding pending_def p by (rule sorted_after_ack [OF persisted_sorted [OF o]])
  obtain conn' where "del_connections (snd (long_poll_commands len io e acked_seq st)) e = Some conn'"
    using long_poll_keeps [OF ok conn ack] by blast
  moreover have "con_pending_commands conn' = pending"
    using poll(2,3) calculation by (auto simp: delivery_ok_def)
  ultimately show ?thesis using k s poll(1) by (intro exI [of _ k] exI [of _ conn']) auto
qed

theorem poll_response_exact_witness:
  "ack_valid (Some 0) ''e1'' example_enqueued \<and>
   fst (long_poll_commands (\<lambda>_. 64) True ''e1'' (Some 0) example_enqueued) = [example_command\<lparr>cmd_seq := 1\<rparr>]"
proof -
  obtain conn where c: "del_connections example_enqueued ''e1'' = Some conn"
    "con_pending_commands conn = [example_command\<lparr>cmd_seq := 1\<rparr>]" "next_of (del_outbox example_enqueued) ''e1'' = 2"
    by (rule example_enqueued_pending)
  have v: "ack_valid (Some 0) ''e1'' example_enqueued" by (simp add: ack_valid_def c(3))
  have a: "after_ack True (Some 0) [example_command\<lparr>cmd_seq := 1\<rparr>] = [example_command\<lparr>cmd_seq := 1\<rparr>]"
    by (simp add: after_ack_def)
  show ?thesis
    using poll_response_exact [OF example_enqueued_run c(1) v, of True, unfolded c(2) a] v by auto
qed

text \<open>
  C22: Intents are delivered, each once and in the order they were written.  Writing intents and draining ends;
  no intent is left, every executor's pending commands grow by exactly the commands meant for it, those
  that were waiting first, numbered from its next number on, and the buffers of connected executors hold them.
\<close>

theorem written_intents_are_delivered:
  assumes run: "(delivery_step len)\<^sup>*\<^sup>* delivery_empty st" and ord: "enumerates ord"
    and new: "list_all (intent_ok len) (us @ xs)" and seqs: "unat (del_intent_seq st) + length (us @ xs) < 2 ^ 64"
    and room: "room_for (length (intent_items (del_intents st)) + length (us @ xs)) (del_outbox st)"
  shows "\<exists>st'. drain_and_emit_scheduler_command_intents ord len (\<lambda>_. True) 0
        (snd (write_intents (\<lambda>_. True) True us xs st)) = Some st' \<and> intent_items (del_intents st') = [] \<and>
    (\<forall>e. persisted (del_outbox st') e = persisted (del_outbox st) e @ renumber (next_of (del_outbox st) e)
        (map sci_command (filter (\<lambda>i. sci_executor_id i = e) (map snd (intent_items (del_intents st)) @ us @ xs)))) \<and>
    (\<forall>e conn. del_connections st' e \<noteq> Some conn \<or> con_pending_commands conn = persisted (del_outbox st') e)"
proof -
  have ok: "delivery_ok len st" by (rule delivery_run_ok [OF run])
  let ?st = "snd (write_intents (\<lambda>_. True) True us xs st)"
  let ?items = "intent_items (del_intents ?st)"
  have w: "delivery_ok len ?st" "del_outbox ?st = del_outbox st"
    "map snd ?items = map snd (intent_items (del_intents st)) @ us @ xs"
    using write_intents_exact [OF ok new seqs, of "\<lambda>_. True" True] by simp_all
  have "length ?items = length (intent_items (del_intents st)) + length (us @ xs)"
    using arg_cong [OF w(3), of length] by simp
  then have r: "room_for (length ?items) (del_outbox ?st)" using room w(2) by simp
  obtain st' n where d: "drain_and_emit_scheduler_command_intents ord len (\<lambda>_. True) 0 ?st = Some st'" "delivery_ok len st'"
    "del_outbox st' = append_all (intent_commands (take n ?items)) (del_outbox ?st)"
    "intent_items (del_intents st') = drop n ?items" "length ?items \<le> n"
    using drain_exact [OF w(1) ord r, of "\<lambda>_. True" 0] by auto
  have all: "del_outbox st' = append_all (intent_commands ?items) (del_outbox st)"
    using d(3,5) w(2) by simp
  have o: "outbox_ok len (del_outbox st)" and i: "items_ok len (intent_commands ?items)"
    using ok w(1) items_ok_intents by (auto simp: delivery_ok_def)
  have "persisted (del_outbox st') e = persisted (del_outbox st) e @ renumber (next_of (del_outbox st) e)
        (map sci_command (filter (\<lambda>i. sci_executor_id i = e) (map snd (intent_items (del_intents st)) @ us @ xs)))" for e
    using persisted_append_all [OF o i] r w(2) unfolding all commands_for_intents w(3) by simp
  moreover have "del_connections st' e \<noteq> Some conn \<or> con_pending_commands conn = persisted (del_outbox st') e" for e conn
    using d(2) by (auto simp: delivery_ok_def)
  ultimately show ?thesis using d(1,4,5) by auto
qed

theorem written_intents_are_delivered_witness:
  "\<exists>st'. drain_and_emit_scheduler_command_intents sorted_list_of_set (\<lambda>_. 64) (\<lambda>_. True) 0
        (snd (write_intents (\<lambda>_. True) True [\<lparr>sci_executor_id = ''e1'', sci_command = example_command\<rparr>] [] example_registered)) = Some st' \<and>
      persisted (del_outbox st') ''e1'' = [example_command\<lparr>cmd_seq := 1\<rparr>]"
proof -
  let ?i = "\<lparr>sci_executor_id = ''e1'', sci_command = example_command\<rparr>"
  have e: "intent_items (Map.empty :: string \<rightharpoonup> scheduler_command_intent) = []" by (simp add: intent_items_def prefix_scan_eq)
  have a: "list_all (intent_ok (\<lambda>_. 64)) ([?i] @ [])" "unat (del_intent_seq example_registered) + length ([?i] @ []) < 2 ^ 64"
    "room_for (length (intent_items (del_intents example_registered)) + length ([?i] @ [])) (del_outbox example_registered)"
    by (simp_all add: intent_ok_def bar_free_def example_fits_poll example_registered_outbox e room_for_empty)
  have p: "persisted Map.empty ''e1'' = []" "next_of Map.empty ''e1'' = 1"
    by (simp_all add: persisted_def seqs_of_def next_of_def)
  show ?thesis
    using written_intents_are_delivered [OF example_registered_run enumerates_sorted_list_of_set a]
    unfolding example_registered_outbox e using p by auto
qed

end
