(* ===== verification/Spec2Isabelle.thy ===== *)
theory Spec2Isabelle
  imports Creation SchedulerRuns CallGraph Outbox
begin

text \<open>
  \<^bold>\<open>Indexify: a verification library for the scheduling core of the server.\<close>

  Indexify runs applications made of functions on a fleet of executors.  The server
  (\<open>crates/server\<close>) accepts applications and requests, breaks a request into function runs, places
  containers for them on executors and hands allocations to the containers.  The dataplane
  (\<open>crates/dataplane\<close>) runs on every executor and starts and stops containers.  This library models
  the part of the server that decides: the data it decides on, the resource arithmetic, the
  indexes it keeps, placement, container creation and reaping, blocked work and retries.

  \<^bold>\<open>Conventions.\<close>  A \<open>u16\<close>, \<open>u32\<close>, \<open>u64\<close> or \<open>u128\<close> is a word of that width and wraps as in a release
  build; a \<open>usize\<close> count is a natural number.  \<open>Result<T>\<close> is a sum type (\<open>Err\<close> is \<open>Inl\<close>, \<open>Ok\<close> is \<open>Inr\<close>); a
  method on \<open>&mut self\<close> returns its result together with the new state, so that what a failing call
  has already changed is part of the model.  \<open>HashMap\<close> is a partial function, \<open>HashSet\<close> a set, an ordered
  set is a set that is enumerated in order.  Where the iteration order of a hash container can be
  observed it is an argument, with the hypothesis that it enumerates the container; a loop whose
  iterations touch only their own key is written in closed form.  The clock, fresh ids and random
  numbers are arguments.  Ids and JSON values are strings, \<open>Instant\<close>s natural numbers.  Logging and
  metrics are left out.

  \<^bold>\<open>Theories.\<close>
  \<^item> \<open>Prelude\<close>: words, results, string splitting, reverse indexes (\<open>HashMap<K, HashSet<V>>\<close> with
    the entry removed when its set becomes empty) behind the locale \<open>reverse_index\<close>.
  \<^item> \<open>Resources\<close> (\<open>data_model/mod.rs\<close>, \<open>HostResources\<close> and the request types): checking, consuming and freeing
    resources.  Consumption is exact and atomic; sizes in MB wrap above \<open>2^44\<close>.
  \<^item> \<open>Labels\<close> (\<open>data_model/filter.rs\<close>): placement constraints, parser, printer and evaluation, with the
    round trip.
  \<^item> \<open>Outcomes\<close>, \<open>DataModel\<close>, \<open>Events\<close> (\<open>data_model/mod.rs\<close>): the enumerations, structs and events with the
    methods of their \<open>impl\<close> blocks.
  \<^item> \<open>Persistence\<close>: the clocks set when a record is stored (locale \<open>clocked\<close>, interpreted for the nine
    types) and the byte keys of stored records.
  \<^item> \<open>Retry\<close> (\<open>processor/retry_policy.rs\<close>): the retry decision; exactly \<open>max_retries\<close> counted retries.
  \<^item> \<open>Applications\<close>: which applications are admitted against the executor catalog, stated on the numbers and
    labels of the entries.
  \<^item> \<open>Ledger\<close> (\<open>ExecutorServerMetadata\<close>): the containers on an executor and what they claim; locale
    \<open>resource_ledger\<close>; after any successful placements, forced ones of fitting containers included, and
    removals, free plus claimed is what the host has.  What a failed or an overcommitting placement
    does instead is stated apart.
  \<^item> \<open>ExecutorClasses\<close> (\<open>scheduler/executor_class.rs\<close>) and \<open>BlockedWork\<close> (\<open>scheduler/blocked.rs\<close>): executor classes,
    and the work that waits for a class or for any capacity (locale \<open>removable_work\<close>).
  \<^item> \<open>Updates\<close> (\<open>state_store/requests.rs\<close>): the batch of mutations a pass produces; merging is a monoid
    (interpretation \<open>updates\<close>) and never forgets that a request has finished.
  \<^item> \<open>SchedulerState\<close> (\<open>processor/container_scheduler.rs\<close>): the state, its seven indexes and the
    operations that maintain them.  The invariant \<open>scheduler_ok\<close> says that the container indexes and the
    class index are functions of the containers and executors, and that the entries of the memory
    index are current, though executors may be missing there; every operation keeps it.
  \<^item> \<open>Placement\<close> (\<open>scheduler/placement.rs\<close>): the feasibility cache and \<open>select_executor\<close>, sound and
    complete for the executors in the memory index.
  \<^item> \<open>ContainerLifecycle\<close>, \<open>Creation\<close>, \<open>Reaping\<close> (\<open>processor/container_scheduler.rs\<close>): creating, reaping and
    restoring containers, and what each does to executors and indexes together.
  \<^item> \<open>Requests\<close>, \<open>SchedulerRequests\<close>, \<open>SchedulerRuns\<close> (\<open>state_store/requests.rs\<close>, \<open>state_changes.rs\<close>): the
    requests, the state changes they announce, what each does to the scheduler, and the runs of a
    scheduler that serves them; along every run \<open>scheduler_ok\<close> holds.  A container that takes an
    allocation is changed in place and leaves the index of idle containers out of date, which is a
    theorem of its own; the runs do not contain that step.
  \<^item> \<open>InMemoryState\<close> (\<open>state_store/in_memory_state.rs\<close>): the indexes of requests, runs, allocations and
    sandboxes, the application of updates and the histogram of pending resources, which counts exactly
    the pending runs and the waiting sandboxes until requests are upgraded to another profile.
  \<^item> \<open>CallGraph\<close> (\<open>processor/function_run_creator.rs\<close>): how the calls of a request become runs, how outputs
    travel to the runs that wait for them, and when a request succeeds, short reduces included.
  \<^item> \<open>Allocator\<close> (\<open>processor/function_run_processor.rs\<close>): every pending run of a batch, up to the
    cap on its size, is allocated to the least loaded container, gets a new container or is recorded as
    blocked.
  \<^item> \<open>Buffers\<close>, \<open>BufferFilling\<close> (\<open>processor/buffer_reconciler.rs\<close>): pools are brought to their targets;
    reconciliation ends, fills what can be filled and trims exactly the excess.
  \<^item> \<open>Sandboxes\<close> (\<open>processor/sandbox_processor.rs\<close>): a pending sandbox gets one container or waits.
  \<^item> \<open>Protocol\<close> (\<open>proto/executor_api.proto\<close>, \<open>proto_convert.rs\<close>): messages and conversions, with round trips.
  \<^item> \<open>Commands\<close> (\<open>executors.rs\<close>, \<open>executors/command_emission.rs\<close>): the commands built from an update, in their
    order, and from the whole desired state; both describe containers alike.
  \<^item> \<open>Outbox\<close> (\<open>state_store/executor_connection.rs\<close>, \<open>state_store/mod.rs\<close>, \<open>executor_api/polling.rs\<close>): intents,
    persistent outboxes, buffers and polls.  \<open>persisted\<close> reads an outbox as the list of its pending commands
    and every operation is refined to an operation on lists; along every run the buffers agree
    with the outboxes.

  \<^bold>\<open>How the parts meet.\<close>  A request changes the in-memory state (\<open>Requests\<close>, \<open>InMemoryState\<close>); the call graph
  makes runs of it (\<open>CallGraph\<close>); the allocator and the sandbox processor ask the scheduler for containers
  (\<open>Allocator\<close>, \<open>Sandboxes\<close>, \<open>Creation\<close>), which asks placement and charges the ledger (\<open>Placement\<close>, \<open>Ledger\<close>);
  what cannot be placed waits (\<open>BlockedWork\<close>); the batch of changes (\<open>Updates\<close>) becomes commands (\<open>Commands\<close>)
  that reach the executors through their outboxes (\<open>Outbox\<close>).

  \<^bold>\<open>Loops.\<close>  A loop over a finite collection is structural recursion or a fold.  Four loops may in
  principle run for ever and are partial functions whose value is \<open>None\<close> when they do:
  \<open>propagate_walk\<close>, total by \<open>propagate_output_total\<close>; \<open>fill_one\<close> and \<open>fill_buffers\<close>, total by \<open>reconcile_total\<close>; and
  \<open>drain_and_emit_scheduler_command_intents\<close>, total by \<open>written_intents_are_delivered\<close>.  No fuel is used.

  \<^bold>\<open>Not modelled.\<close>  The tasks that sequence the processors (\<open>processor/application_processor.rs\<close>), the reaction to
  reports of executors (\<open>processor/container_reconciler.rs\<close>) and the routing of results between executors
  (\<open>executor_api/result_routing.rs\<close>): asynchronous code around the operations above.  The RocksDB driver, the
  writes and reads of the column families other than the outboxes, and the migrations.  The HTTP and gRPC
  routes, request events, usage and cron tasks, the dataplane, the daemon inside containers, the blob
  stores and log export: I/O around the decisions above.  \<open>state_store/blocked_runs.rs\<close> is not compiled.
\<close>

end
